(* ===== verification/Prelude.thy ===== *)
theory Prelude
  imports Main "HOL-Library.Word" "HOL-Library.Char_ord" "HOL-Library.List_Lexorder"
    "HOL-Library.Sublist"
begin

unbundle bit_operations_syntax

text \<open>
  Shared vocabulary of the development: the widths of the machine integers the translator uses,
  the C++ containers \<open>std::map\<close> and \<open>std::set\<close> as sorted lists (so that iteration has the order
  the program sees), the string helpers, and the generic lemmas on words and lists the component
  theories share.
\<close>

section \<open>Machine integers\<close>

type_synonym u8 = "8 word"
type_synonym u16 = "16 word"
type_synonym u32 = "32 word"
type_synonym u64 = "64 word"

named_theorems omap_simps \<open>lookup and order facts of the ordered containers\<close>
named_theorems layout_simps \<open>address arithmetic of images\<close>

section \<open>Ordered maps and sets\<close>

text \<open>
  A \<open>std::map\<close> is an association list sorted by key; \<open>omap_set\<close> is \<open>m[k] = v\<close>,
  \<open>omap_emplace\<close> is \<open>m.emplace(k, v)\<close> (which keeps an existing entry), \<open>map_of\<close> is \<open>find\<close>.
\<close>

type_synonym ('k, 'v) omap = "('k \<times> 'v) list"

fun omap_set :: "'k::linorder \<Rightarrow> 'v \<Rightarrow> ('k, 'v) omap \<Rightarrow> ('k, 'v) omap" where
  "omap_set k v [] = [(k, v)]"
| "omap_set k v (e # m) =
     (if fst e < k then e # omap_set k v m
      else if k < fst e then (k, v) # e # m
      else (k, v) # m)"

definition omap_emplace :: "'k::linorder \<Rightarrow> 'v \<Rightarrow> ('k, 'v) omap \<Rightarrow> ('k, 'v) omap" where
  "omap_emplace k v m = (if map_of m k = None then omap_set k v m else m)"

definition omap_ok :: "('k::linorder, 'v) omap \<Rightarrow> bool" where
  "omap_ok m \<longleftrightarrow> sorted_wrt (<) (map fst m)"

fun oset_insert :: "'a::linorder \<Rightarrow> 'a list \<Rightarrow> 'a list" where
  "oset_insert x [] = [x]"
| "oset_insert x (y # ys) =
     (if y < x then y # oset_insert x ys else if x < y then x # y # ys else y # ys)"

definition oset_ok :: "'a::linorder list \<Rightarrow> bool" where
  "oset_ok xs \<longleftrightarrow> sorted_wrt (<) xs"

lemma omap_set_lookup [omap_simps, simp]: "map_of (omap_set k v m) = (map_of m)(k \<mapsto> v)"
  by (induction m) (auto simp: fun_eq_iff)

lemma omap_set_keys [omap_simps, simp]: "fst ` set (omap_set k v m) = insert k (fst ` set m)"
  by (induction m) (auto simp: image_iff)

lemma omap_set_ok [omap_simps, simp]: "omap_ok m \<Longrightarrow> omap_ok (omap_set k v m)"
proof (induction m)
  case Nil
  then show ?case by (simp add: omap_ok_def)
next
  case (Cons e m)
  then have ok: "omap_ok m" and lt: "\<forall>x \<in> fst ` set m. fst e < x"
    by (auto simp: omap_ok_def)
  then have "omap_ok (omap_set k v m)" by (simp add: Cons.IH)
  moreover have "fst e < k \<Longrightarrow> \<forall>x \<in> fst ` set (omap_set k v m). fst e < x"
    using lt by simp
  moreover have "\<forall>x \<in> fst ` set m. k < fst e \<longrightarrow> k < x" using lt by auto
  ultimately show ?case
    using Cons.prems by (force simp: omap_ok_def not_less)
qed

lemma omap_ok_Nil [omap_simps, simp]: "omap_ok []"
  by (simp add: omap_ok_def)

lemma omap_ok_distinct: "omap_ok m \<Longrightarrow> distinct (map fst m)"
  by (simp add: omap_ok_def strict_sorted_iff)

lemma omap_ok_member: "omap_ok m \<Longrightarrow> (k, v) \<in> set m \<longleftrightarrow> map_of m k = Some v"
  by (simp add: omap_ok_distinct)

lemma omap_emplace_lookup [omap_simps, simp]:
  "map_of (omap_emplace k v m) = (if map_of m k = None then (map_of m)(k \<mapsto> v) else map_of m)"
  by (simp add: omap_emplace_def)

lemma omap_emplace_ok [omap_simps, simp]: "omap_ok m \<Longrightarrow> omap_ok (omap_emplace k v m)"
  by (simp add: omap_emplace_def)

lemma oset_insert_set [omap_simps, simp]: "set (oset_insert x xs) = insert x (set xs)"
  by (induction xs) auto

lemma oset_insert_ok [omap_simps, simp]: "oset_ok xs \<Longrightarrow> oset_ok (oset_insert x xs)"
  by (induction xs) (auto simp: oset_ok_def not_less)

lemma oset_ok_Nil [omap_simps, simp]: "oset_ok []"
  by (simp add: oset_ok_def)

lemma oset_ok_sorted: "oset_ok xs \<Longrightarrow> sorted xs \<and> distinct xs"
  by (simp add: oset_ok_def strict_sorted_iff)

lemma fold_oset_insert [omap_simps, simp]: "set (fold oset_insert xs ys) = set xs \<union> set ys"
  by (induction xs arbitrary: ys) auto

lemma fold_oset_insert_ok [omap_simps, simp]: "oset_ok ys \<Longrightarrow> oset_ok (fold oset_insert xs ys)"
  by (induction xs arbitrary: ys) auto

subsection \<open>The dictionary interface\<close>

text \<open>
  What the components rely on when they fill a table entry by entry: a store is seen by the next
  lookup of its key and by no other. The client lemmas say what a loop of stores leaves behind.
\<close>

locale dict =
  fixes lookup :: "'m \<Rightarrow> 'k \<Rightarrow> 'v option"
    and store :: "'k \<Rightarrow> 'v \<Rightarrow> 'm \<Rightarrow> 'm"
    and ok :: "'m \<Rightarrow> bool"
  assumes lookup_store: "lookup (store k v m) k' = (if k' = k then Some v else lookup m k')"
    and ok_store: "ok m \<Longrightarrow> ok (store k v m)"
begin

lemma stores_ok: "ok m \<Longrightarrow> ok (fold (\<lambda>x. store (f x) (g x)) xs m)"
  by (induction xs arbitrary: m) (auto simp: ok_store)

lemma stores_miss: "k \<notin> f ` set xs \<Longrightarrow> lookup (fold (\<lambda>x. store (f x) (g x)) xs m) k = lookup m k"
  by (induction xs arbitrary: m) (auto simp: lookup_store)

lemma stores_hit:
  "k \<in> f ` set xs \<Longrightarrow> \<exists>x \<in> set xs. f x = k \<and> lookup (fold (\<lambda>x. store (f x) (g x)) xs m) k = Some (g x)"
proof (induction xs arbitrary: m)
  case Nil
  then show ?case by simp
next
  case (Cons y ys)
  show ?case
  proof (cases "k \<in> f ` set ys")
    case True
    with Cons.IH show ?thesis by fastforce
  next
    case False
    with Cons.prems have "f y = k" by auto
    with False show ?thesis by (auto simp: stores_miss lookup_store)
  qed
qed

end

interpretation od: dict "map_of :: ('k::linorder, 'v) omap \<Rightarrow> 'k \<Rightarrow> 'v option" omap_set omap_ok
  by unfold_locales auto

section \<open>Strings\<close>

text \<open>\<open>s.rfind(p, 0) == 0\<close> and \<open>StringRef::starts_with\<close>.\<close>

definition starts_with :: "string \<Rightarrow> string \<Rightarrow> bool" where
  "starts_with p s \<longleftrightarrow> take (length p) s = p"

lemma starts_with_append [simp]: "starts_with p (p @ s)"
  by (simp add: starts_with_def)

lemma starts_with_prefix: "starts_with p s \<longleftrightarrow> prefix p s"
  unfolding starts_with_def prefix_def by (metis append_eq_conv_conj append_take_drop_id)

definition hex_char :: "nat \<Rightarrow> char" where
  "hex_char n = ''0123456789abcdef'' ! n"

fun digits_in :: "nat \<Rightarrow> nat \<Rightarrow> nat list" where
  "digits_in b n = (if b < 2 \<or> n < b then [n] else digits_in b (n div b) @ [n mod b])"

declare digits_in.simps [simp del]

definition hex_string :: "nat \<Rightarrow> string" where
  "hex_string n = map hex_char (digits_in 16 n)"

definition dec_string :: "nat \<Rightarrow> string" where
  "dec_string n = map hex_char (digits_in 10 n)"

text \<open>Reading the digits back: the value of a digit list in a base.\<close>

definition undigits :: "nat \<Rightarrow> nat list \<Rightarrow> nat" where
  "undigits b ds = foldl (\<lambda>acc d. acc * b + d) 0 ds"

lemma undigits_snoc [simp]: "undigits b (ds @ [d]) = undigits b ds * b + d"
  by (simp add: undigits_def)

lemma undigits_digits: "undigits b (digits_in b n) = n"
proof (induction b n rule: digits_in.induct)
  case (1 b n)
  then show ?case
    by (cases "b < 2 \<or> n < b") (auto simp: digits_in.simps [of b n] undigits_def)
qed

lemma digits_less: "2 \<le> b \<Longrightarrow> \<forall>d \<in> set (digits_in b n). d < b"
proof (induction b n rule: digits_in.induct)
  case (1 b n)
  then show ?case
    by (cases "n < b") (auto simp: digits_in.simps [of b n])
qed

lemma hex_char_inj: "a < 16 \<Longrightarrow> b < 16 \<Longrightarrow> hex_char a = hex_char b \<longleftrightarrow> a = b"
proof -
  have d: "distinct ''0123456789abcdef''" by simp
  assume "a < 16" "b < 16"
  then show ?thesis
    unfolding hex_char_def using nth_eq_iff_index_eq [OF d, of a b] by simp
qed

lemma inj_on_hex_char: "inj_on hex_char {..<16}"
  by (auto intro!: inj_onI simp: hex_char_inj)

lemma hex_string_inj: "hex_string m = hex_string n \<Longrightarrow> m = n"
proof -
  have dig: "set (digits_in 16 k) \<subseteq> {..<16}" for k
    using digits_less [of 16 k] by auto
  assume "hex_string m = hex_string n"
  then have "digits_in 16 m = digits_in 16 n"
    unfolding hex_string_def
    using map_inj_on inj_on_subset [OF inj_on_hex_char] dig by (metis Un_least)
  then show ?thesis by (metis undigits_digits)
qed

section \<open>Loops with an early error return\<close>

text \<open>
  A \<open>for\<close> loop whose body may set the error and return: the state is threaded, the first error
  ends the loop.
\<close>

fun sum_fold :: "('s \<Rightarrow> 'a \<Rightarrow> 'e + 's) \<Rightarrow> 's \<Rightarrow> 'a list \<Rightarrow> 'e + 's" where
  "sum_fold f s [] = Inr s"
| "sum_fold f s (x # xs) = (case f s x of Inl e \<Rightarrow> Inl e | Inr s' \<Rightarrow> sum_fold f s' xs)"

lemma sum_fold_inv:
  assumes "sum_fold f s xs = Inr t" and "I s"
    and "\<And>s x s'. x \<in> set xs \<Longrightarrow> I s \<Longrightarrow> f s x = Inr s' \<Longrightarrow> I s'"
  shows "I t"
  using assms
proof (induction xs arbitrary: s)
  case Nil
  then show ?case by simp
next
  case (Cons x xs)
  then obtain s' where s': "f s x = Inr s'" "sum_fold f s' xs = Inr t"
    by (auto split: sum.splits)
  then have "I s'" using Cons.prems by auto
  show ?case
  proof (rule Cons.IH [OF s'(2) \<open>I s'\<close>])
    fix y u v
    assume "y \<in> set xs" "I u" "f u y = Inr v"
    then show "I v" using Cons.prems(3) [of y u v] by simp
  qed
qed

lemma sum_fold_append:
  "sum_fold f s (xs @ ys) = (case sum_fold f s xs of Inl e \<Rightarrow> Inl e | Inr t \<Rightarrow> sum_fold f t ys)"
  by (induction xs arbitrary: s) (auto split: sum.splits)

section \<open>Little-endian bytes\<close>

text \<open>\<open>memcpy\<close> of bytes into an integer on a little-endian host.\<close>

definition le_word :: "u8 list \<Rightarrow> 'a::len word" where
  "le_word bs = foldr (\<lambda>b acc. ucast b + 256 * acc) bs 0"

lemma le_word_Nil [simp]: "le_word [] = 0"
  by (simp add: le_word_def)

lemma le_word_Cons [simp]: "le_word (b # bs) = ucast b + 256 * le_word bs"
  by (simp add: le_word_def)

lemma sum_fold_returns_iff:
  assumes "I s"
    and "\<And>s x. x \<in> set xs \<Longrightarrow> I s \<Longrightarrow> (\<exists>s'. f s x = Inr s') \<longleftrightarrow> Q x"
    and "\<And>s x s'. x \<in> set xs \<Longrightarrow> I s \<Longrightarrow> f s x = Inr s' \<Longrightarrow> I s'"
  shows "(\<exists>t. sum_fold f s xs = Inr t) \<longleftrightarrow> (\<forall>x \<in> set xs. Q x)"
  using assms
proof (induction xs arbitrary: s)
  case Nil
  then show ?case by simp
next
  case (Cons x xs)
  show ?case
  proof (cases "f s x")
    case (Inl e)
    then have "\<not> Q x" using Cons.prems(2) [of x s] Cons.prems(1) by simp
    with Inl show ?thesis by simp
  next
    case (Inr s')
    have "Q x" using Cons.prems(2) [of x s] Cons.prems(1) Inr by auto
    moreover have "I s'" using Cons.prems(3) [of x s s'] Cons.prems(1) Inr by simp
    then have "(\<exists>t. sum_fold f s' xs = Inr t) \<longleftrightarrow> (\<forall>x \<in> set xs. Q x)"
    proof (rule Cons.IH)
      fix u y
      assume "y \<in> set xs" "I u"
      then show "(\<exists>s'. f u y = Inr s') \<longleftrightarrow> Q y" using Cons.prems(2) [of y u] by simp
    next
      fix u y v
      assume "y \<in> set xs" "I u" "f u y = Inr v"
      then show "I v" using Cons.prems(3) [of y u v] by simp
    qed
    ultimately show ?thesis using Inr by simp
  qed
qed

text \<open>A call that may fail, then the rest of the function.\<close>

definition sum_bind :: "'e + 'a \<Rightarrow> ('a \<Rightarrow> 'e + 'b) \<Rightarrow> 'e + 'b" where
  "sum_bind r f = (case r of Inl e \<Rightarrow> Inl e | Inr x \<Rightarrow> f x)"

lemma sum_bind_simps [simp]: "sum_bind (Inl e) f = Inl e" "sum_bind (Inr x) f = f x"
  by (simp_all add: sum_bind_def)

lemma sum_bind_Inr: "sum_bind r f = Inr y \<longleftrightarrow> (\<exists>x. r = Inr x \<and> f x = Inr y)"
  by (auto simp: sum_bind_def split: sum.splits)

section \<open>Word and list facts\<close>

lemma find_unique:
  assumes "x \<in> set xs" and "P x" and "\<And>y. y \<in> set xs \<Longrightarrow> P y \<Longrightarrow> y = x"
  shows "find P xs = Some x"
proof -
  obtain y where y: "find P xs = Some y"
    using assms(1,2) by (cases "find P xs") (auto simp: find_None_iff)
  then have "y \<in> set xs" "P y" by (auto simp: find_Some_iff)
  with assms(3) y show ?thesis by simp
qed

lemma find_SomeD: "find P xs = Some x \<Longrightarrow> x \<in> set xs \<and> P x"
  by (auto simp: find_Some_iff)

lemma sorted_wrt_distinct_or:
  "sorted_wrt R xs \<Longrightarrow> x \<in> set xs \<Longrightarrow> y \<in> set xs \<Longrightarrow> x = y \<or> R x y \<or> R y x"
  by (induction xs) auto

lemma unat_add_no_wrap: "unat (a :: u64) + unat b < 2 ^ 64 \<Longrightarrow> unat (a + b) = unat a + unat b"
  using unat_add_lem [of a b] by simp

lemma unat_of_nat_u64: "n < 2 ^ 64 \<Longrightarrow> unat (of_nat n :: u64) = n"
  by (simp add: unat_of_nat)

lemma unat_add_of_nat: "unat (a :: u64) + n < 2 ^ 64 \<Longrightarrow> unat (a + of_nat n) = unat a + n"
  using unat_add_no_wrap [of a "of_nat n"] by (simp add: unat_of_nat_u64)

end
