(* ===== verification/Macho.thy ===== *)
theory Macho
  imports Prelude
begin

text \<open>
  The guest image: \<open>xlate/src/macho.h\<close> and \<open>xlate/src/macho.cpp\<close>. What LLVM's \<open>MachOObjectFile\<close>
  answers about a file (its load commands, symbols, fixup tables, bytes) is data given to the
  model, the record \<open>macho_object\<close>; what the translator makes of it is defined here.
  First the data model and the address queries, then the parser.
\<close>

section \<open>Data\<close>

record Segment =
  seg_name :: string
  seg_vmaddr :: u64
  seg_vmsize :: u64
  seg_fileoff :: u64
  seg_filesize :: u64
  seg_initprot :: u32

record Section =
  segname :: string
  sectname :: string
  sect_addr :: u64
  sect_size :: u64
  sect_offset :: u32
  sect_flags :: u32
  reserved1 :: u32
  reserved2 :: u32

record Bind =
  bind_symbol :: string
  bind_addend :: "64 word"
  bind_weak_import :: bool
  bind_library :: string

record Stub =
  stub_symbol :: string
  stub_library :: string
  stub_weak :: bool

record Reexport =
  reexport_library :: string
  reexport_symbol :: string

record DataInCodeRange =
  dic_vmaddr :: u64
  dic_length :: u64

subsection \<open>What LLVM reads from the file\<close>

text \<open>A table LLVM iterates with an \<open>Error\<close>: the entries it yields, then the error it stops on, if any.\<close>

type_synonym 'a fallible = "'a list \<times> string option"

record segment_command =
  sc_segname :: string
  sc_vmaddr :: u64
  sc_vmsize :: u64
  sc_fileoff :: u64
  sc_filesize :: u64
  sc_initprot :: u32

record section_64 =
  raw_sectname :: string
  raw_segname :: string
  raw_addr :: u64
  raw_size :: u64
  raw_offset :: u32
  raw_flags :: u32
  raw_reserved1 :: u32
  raw_reserved2 :: u32

datatype load_command =
    LC_SEGMENT_64 segment_command "section_64 list"
  | LC_ID_DYLIB string
  | LC_LOAD_DYLIB string
  | LC_LOAD_WEAK_DYLIB string
  | LC_REEXPORT_DYLIB string
  | LC_LOAD_UPWARD_DYLIB string
  | LC_MAIN u64
  | LC_FUNCTION_STARTS u32 u32
  | LC_DATA_IN_CODE u32 u32
  | LC_OTHER u32

record symbol_entry =
  sym_name :: "string option"
  n_type :: u8
  n_desc :: u16
  n_value :: u64

record bind_entry =
  be_address :: u64
  be_symbol :: string
  be_addend :: u64
  be_flags :: u32
  be_ordinal :: int

datatype fixup_entry = FixupRebase u64 u64 | FixupBind bind_entry

record export_entry =
  ee_name :: string
  ee_flags :: u64
  ee_other :: int
  ee_other_name :: string

record macho_object =
  obj_data :: "u8 list"
  obj_is64 :: bool
  obj_cputype :: u32
  obj_flags :: u32
  load_commands :: "load_command list"
  obj_symbols :: "symbol_entry list"
  indirect_symbol :: "u32 \<Rightarrow> u32"
  rebase_table :: "u64 fallible"
  bind_table :: "bind_entry fallible"
  lazy_bind_table :: "bind_entry fallible"
  weak_bind_table :: "bind_entry fallible"
  fixup_table :: "fixup_entry fallible"
  export_trie :: "export_entry fallible"

subsection \<open>The image\<close>

record Image =
  im_path :: string
  im_install_name :: string
  im_reexported_libraries :: "string list"
  im_dylibs :: "string list"
  im_object :: macho_object
  im_segments :: "Segment list"
  im_sections :: "Section list"
  im_slide :: u64
  im_functions :: "u64 list"
  im_entry :: "u64 option"
  im_stubs :: "(u64, Stub) omap"
  im_binds :: "(u64, Bind) omap"
  im_rebases :: "(u64, u64) omap"
  im_exports :: "(string, u64) omap"
  im_reexports :: "(string, Reexport) omap"
  im_warnings :: "string list"
  im_raw_function_starts :: "u64 list"
  im_data_in_code :: "DataInCodeRange list"

definition new_image :: "string \<Rightarrow> macho_object \<Rightarrow> Image" where
  "new_image path obj =
     \<lparr>im_path = path, im_install_name = '''', im_reexported_libraries = [], im_dylibs = [], im_object = obj,
      im_segments = [], im_sections = [], im_slide = 0, im_functions = [], im_entry = None, im_stubs = [],
      im_binds = [], im_rebases = [], im_exports = [], im_reexports = [], im_warnings = [],
      im_raw_function_starts = [], im_data_in_code = []\<rparr>"

subsection \<open>Constants of the Mach-O format\<close>

definition S_ATTR_PURE_INSTRUCTIONS :: u32 where "S_ATTR_PURE_INSTRUCTIONS = 0x80000000"
definition S_ATTR_SOME_INSTRUCTIONS :: u32 where "S_ATTR_SOME_INSTRUCTIONS = 0x00000400"
definition SECTION_TYPE :: u32 where "SECTION_TYPE = 0x000000ff"
definition S_SYMBOL_STUBS :: u32 where "S_SYMBOL_STUBS = 0x08"
definition INDIRECT_SYMBOL_LOCAL :: u32 where "INDIRECT_SYMBOL_LOCAL = 0x80000000"
definition INDIRECT_SYMBOL_ABS :: u32 where "INDIRECT_SYMBOL_ABS = 0x40000000"
definition N_STAB :: u8 where "N_STAB = 0xe0"
definition N_TYPE :: u8 where "N_TYPE = 0x0e"
definition N_EXT :: u8 where "N_EXT = 0x01"
definition N_UNDF :: u8 where "N_UNDF = 0x00"
definition N_SECT :: u8 where "N_SECT = 0x0e"
definition N_WEAK_REF :: u16 where "N_WEAK_REF = 0x0040"
definition MH_TWOLEVEL :: u32 where "MH_TWOLEVEL = 0x80"
definition BIND_SYMBOL_FLAGS_WEAK_IMPORT :: u32 where "BIND_SYMBOL_FLAGS_WEAK_IMPORT = 1"
definition EXPORT_SYMBOL_FLAGS_REEXPORT :: u64 where "EXPORT_SYMBOL_FLAGS_REEXPORT = 8"
definition DICE_KIND_DATA :: u16 where "DICE_KIND_DATA = 1"
definition CPU_TYPE_ARM64 :: u32 where "CPU_TYPE_ARM64 = 0x0100000c"

definition GET_LIBRARY_ORDINAL :: "u16 \<Rightarrow> u16" where
  "GET_LIBRARY_ORDINAL desc = (drop_bit 8 desc) AND 0xff"

lemmas macho_constants =
  S_ATTR_PURE_INSTRUCTIONS_def S_ATTR_SOME_INSTRUCTIONS_def SECTION_TYPE_def S_SYMBOL_STUBS_def
  INDIRECT_SYMBOL_LOCAL_def INDIRECT_SYMBOL_ABS_def N_STAB_def N_TYPE_def N_EXT_def N_UNDF_def
  N_SECT_def N_WEAK_REF_def MH_TWOLEVEL_def BIND_SYMBOL_FLAGS_WEAK_IMPORT_def
  EXPORT_SYMBOL_FLAGS_REEXPORT_def DICE_KIND_DATA_def CPU_TYPE_ARM64_def GET_LIBRARY_ORDINAL_def

section \<open>Address queries\<close>

definition preferred_base :: "Image \<Rightarrow> u64" where
  "preferred_base img =
     fold (\<lambda>segment base. if seg_name segment \<noteq> ''__PAGEZERO'' \<and> seg_vmsize segment \<noteq> 0
                          then min base (seg_vmaddr segment) else base)
       (im_segments img) (-1)"

definition image_end :: "Image \<Rightarrow> u64" where
  "image_end img =
     fold (\<lambda>segment end. if seg_name segment \<noteq> ''__PAGEZERO'' \<and> seg_name segment \<noteq> ''__LINKEDIT''
                         then max end (seg_vmaddr segment + seg_vmsize segment) else end)
       (im_segments img) 0"

definition host :: "Image \<Rightarrow> u64 \<Rightarrow> u64" where
  "host img vmaddr = vmaddr + im_slide img"

definition SegmentForVM :: "Image \<Rightarrow> u64 \<Rightarrow> Segment option" where
  "SegmentForVM img vmaddr =
     find (\<lambda>segment. seg_name segment \<noteq> ''__PAGEZERO'' \<and> seg_vmaddr segment \<le> vmaddr \<and>
                     vmaddr < seg_vmaddr segment + seg_vmsize segment)
       (im_segments img)"

text \<open>
  \<open>ReadBytes\<close> fills a buffer of \<open>size\<close> bytes or answers false; the file's bytes, then zeros to the
  end of the segment. Reading past the end of the file itself is undefined in the source; LLVM
  rejects a file whose segments reach past it.
\<close>

definition segment_byte :: "Image \<Rightarrow> Segment \<Rightarrow> u64 \<Rightarrow> u8" where
  "segment_byte img segment offset =
     (if offset < seg_filesize segment
      then obj_data (im_object img) ! unat (seg_fileoff segment + offset) else 0)"

definition ReadBytes :: "Image \<Rightarrow> u64 \<Rightarrow> nat \<Rightarrow> u8 list option" where
  "ReadBytes img host_addr n =
     (let vmaddr = host_addr - im_slide img
      in case SegmentForVM img vmaddr of
           None \<Rightarrow> None
         | Some segment \<Rightarrow>
             if vmaddr + of_nat n > seg_vmaddr segment + seg_vmsize segment then None
             else Some (map (\<lambda>i. segment_byte img segment (vmaddr + of_nat i - seg_vmaddr segment))
                          [0..<n]))"

definition SectionAt :: "Image \<Rightarrow> u64 \<Rightarrow> Section option" where
  "SectionAt img host_addr =
     (let vmaddr = host_addr - im_slide img
      in find (\<lambda>section. sect_addr section \<le> vmaddr \<and> vmaddr < sect_addr section + sect_size section)
           (im_sections img))"

definition IsExecutable :: "Image \<Rightarrow> u64 \<Rightarrow> bool" where
  "IsExecutable img host_addr =
     (case SectionAt img host_addr of
        None \<Rightarrow> False
      | Some section \<Rightarrow>
          sect_flags section AND (S_ATTR_PURE_INSTRUCTIONS OR S_ATTR_SOME_INSTRUCTIONS) \<noteq> 0)"

section \<open>The parser\<close>

definition LibraryOf :: "Image \<Rightarrow> int \<Rightarrow> string" where
  "LibraryOf img ordinal =
     (if ordinal = 0 then im_install_name img
      else if 1 \<le> ordinal \<and> nat ordinal \<le> length (im_dylibs img)
           then im_dylibs img ! (nat ordinal - 1)
      else '''')"

text \<open>\<open>std::string(field, strnlen(field, 16))\<close>.\<close>

definition name16 :: "string \<Rightarrow> string" where
  "name16 raw = takeWhile (\<lambda>c. c \<noteq> CHR 0x00) (take 16 raw)"

definition segment_of :: "segment_command \<Rightarrow> Segment" where
  "segment_of c = \<lparr>seg_name = name16 (sc_segname c), seg_vmaddr = sc_vmaddr c, seg_vmsize = sc_vmsize c,
     seg_fileoff = sc_fileoff c, seg_filesize = sc_filesize c, seg_initprot = sc_initprot c\<rparr>"

definition section_of :: "section_64 \<Rightarrow> Section" where
  "section_of raw = \<lparr>segname = name16 (raw_segname raw), sectname = name16 (raw_sectname raw),
     sect_addr = raw_addr raw, sect_size = raw_size raw, sect_offset = raw_offset raw,
     sect_flags = raw_flags raw, reserved1 = raw_reserved1 raw, reserved2 = raw_reserved2 raw\<rparr>"

text \<open>
  The function starts: deltas in ULEB128. The decoder is LLVM's; it is given the remaining bytes
  and answers how many it read and the value. The loop is a tail recursion that may not end,
  so its result is an option.
\<close>

type_synonym uleb = "u8 list \<Rightarrow> nat \<times> u64"

partial_function (option) function_starts_loop ::
  "uleb \<Rightarrow> u8 list \<Rightarrow> u64 \<Rightarrow> u64 list \<Rightarrow> u64 list option" where
  "function_starts_loop decodeULEB128 ptr address starts =
     (if ptr = [] then Some starts
      else if snd (decodeULEB128 ptr) = 0 then Some starts
      else function_starts_loop decodeULEB128 (drop (fst (decodeULEB128 ptr)) ptr)
             (address + snd (decodeULEB128 ptr))
             (starts @ [address + snd (decodeULEB128 ptr)]))"

definition ParseFunctionStarts :: "uleb \<Rightarrow> u32 \<Rightarrow> u32 \<Rightarrow> Image \<Rightarrow> Image option" where
  "ParseFunctionStarts decodeULEB128 dataoff datasize img =
     map_option (\<lambda>starts. img\<lparr>im_raw_function_starts := starts\<rparr>)
       (function_starts_loop decodeULEB128
          (take (unat datasize) (drop (unat dataoff) (obj_data (im_object img)))) 0
          (im_raw_function_starts img))"

text \<open>One \<open>data_in_code_entry\<close>: the file offset is rebased through the segment it falls in.\<close>

definition data_in_code_segment :: "Segment list \<Rightarrow> u32 \<Rightarrow> Segment option" where
  "data_in_code_segment segments file_offset =
     find (\<lambda>segment. seg_fileoff segment \<le> ucast file_offset \<and>
                     ucast file_offset < seg_fileoff segment + seg_filesize segment) segments"

definition data_in_code_entry :: "u8 list \<Rightarrow> nat \<Rightarrow> u32 \<times> u16 \<times> u16" where
  "data_in_code_entry ptr i =
     (le_word (take 4 (drop (i * 8) ptr)), le_word (take 2 (drop (i * 8 + 4) ptr)),
      le_word (take 2 (drop (i * 8 + 6) ptr)))"

definition ParseDataInCode :: "u32 \<Rightarrow> u32 \<Rightarrow> Image \<Rightarrow> Image" where
  "ParseDataInCode dataoff datasize img =
     (let ptr = drop (unat dataoff) (obj_data (im_object img));
          count = unat datasize div 8;
          entries = map (data_in_code_entry ptr) [0..<count];
          raw = length (filter (\<lambda>(file_offset, len, kind). kind = DICE_KIND_DATA) entries);
          ranges = concat (map (\<lambda>(file_offset, len, kind).
             case data_in_code_segment (im_segments img) file_offset of
               None \<Rightarrow> []
             | Some segment \<Rightarrow>
                 [\<lparr>dic_vmaddr = seg_vmaddr segment + (ucast file_offset - seg_fileoff segment),
                   dic_length = ucast len\<rparr>]) entries);
          img = img\<lparr>im_data_in_code := im_data_in_code img @ ranges\<rparr>
      in if raw \<noteq> 0
         then img\<lparr>im_warnings := im_warnings img @
                [im_path img @ '': LC_DATA_IN_CODE has '' @ dec_string raw @ '' of '' @ dec_string count @
                 '' entries that are raw data (not jump tables); '' @
                 ''a fallthrough path into one could misdecode'']\<rparr>
         else img)"

definition add_dylib :: "string \<Rightarrow> Image \<Rightarrow> Image" where
  "add_dylib name img = img\<lparr>im_dylibs := im_dylibs img @ [name]\<rparr>"

fun parse_load_command :: "uleb \<Rightarrow> load_command \<Rightarrow> Image \<Rightarrow> Image option" where
  "parse_load_command uleb (LC_SEGMENT_64 command raws) img =
     Some (img\<lparr>im_segments := im_segments img @ [segment_of command],
                 im_sections := im_sections img @ map section_of raws\<rparr>)"
| "parse_load_command uleb (LC_ID_DYLIB name) img = Some (img\<lparr>im_install_name := name\<rparr>)"
| "parse_load_command uleb (LC_LOAD_DYLIB name) img = Some (add_dylib name img)"
| "parse_load_command uleb (LC_LOAD_WEAK_DYLIB name) img = Some (add_dylib name img)"
| "parse_load_command uleb (LC_REEXPORT_DYLIB name) img =
     Some ((add_dylib name img)\<lparr>im_reexported_libraries := im_reexported_libraries img @ [name]\<rparr>)"
| "parse_load_command uleb (LC_LOAD_UPWARD_DYLIB name) img = Some (add_dylib name img)"
| "parse_load_command uleb (LC_MAIN entryoff) img = Some (img\<lparr>im_entry := Some entryoff\<rparr>)"
| "parse_load_command uleb (LC_FUNCTION_STARTS dataoff datasize) img =
     ParseFunctionStarts uleb dataoff datasize img"
| "parse_load_command uleb (LC_DATA_IN_CODE dataoff datasize) img =
     Some (ParseDataInCode dataoff datasize img)"
| "parse_load_command uleb (LC_OTHER cmd) img = Some img"

fun parse_load_commands :: "uleb \<Rightarrow> load_command list \<Rightarrow> Image \<Rightarrow> Image option" where
  "parse_load_commands uleb [] img = Some img"
| "parse_load_commands uleb (lc # lcs) img =
     Option.bind (parse_load_command uleb lc img) (parse_load_commands uleb lcs)"

text \<open>After the load commands: the entry point, the function starts, the Objective-C stubs.\<close>

definition text_base :: "Image \<Rightarrow> u64" where
  "text_base img =
     fold (\<lambda>segment base. if seg_name segment = ''__TEXT'' then seg_vmaddr segment else base)
       (im_segments img) 0"

definition objc_stub_starts :: "Image \<Rightarrow> Section \<Rightarrow> u64 list" where
  "objc_stub_starts img section =
     (if sectname section \<noteq> ''__objc_stubs'' then []
      else map (\<lambda>i. sect_addr section + of_nat (4 * i))
             (filter (\<lambda>i. (le_word (take 4 (drop (unat (sect_offset section) + 4 * i)
                                    (obj_data (im_object img)))) :: u32)
                          AND 0x9f00001f = 0x90000001)
               [0..<unat (sect_size section) div 4]))"

definition parse_functions :: "Image \<Rightarrow> Image" where
  "parse_functions img =
     (let base = text_base img;
          entry = map_option (\<lambda>e. e + base) (im_entry img);
          functions = fold oset_insert (map (\<lambda>start. start + base) (im_raw_function_starts img))
                        (im_functions img);
          functions = (case entry of None \<Rightarrow> functions | Some e \<Rightarrow> oset_insert e functions);
          functions = fold oset_insert (concat (map (objc_stub_starts img) (im_sections img))) functions
      in img\<lparr>im_entry := entry, im_functions := functions\<rparr>)"

record Undefined =
  un_name :: string
  un_library :: string
  un_weak :: bool

definition stub_symbol_of :: "Image \<Rightarrow> symbol_entry \<Rightarrow> Undefined" where
  "stub_symbol_of img raw =
     (let name = (case sym_name raw of None \<Rightarrow> '''' | Some n \<Rightarrow> n);
          two_level = obj_flags (im_object img) AND MH_TWOLEVEL \<noteq> 0;
          ordinal = GET_LIBRARY_ORDINAL (n_desc raw)
      in if n_type raw AND N_TYPE = N_UNDF
         then \<lparr>un_name = name,
               un_library = (if two_level \<and> ordinal \<noteq> 0 then LibraryOf img (uint ordinal) else ''''),
               un_weak = (n_desc raw AND N_WEAK_REF \<noteq> 0)\<rparr>
         else \<lparr>un_name = name, un_library = '''', un_weak = False\<rparr>)"

definition stub_entry :: "Undefined list \<Rightarrow> Section \<Rightarrow> Image \<Rightarrow> nat \<Rightarrow> string + Image" where
  "stub_entry symbols section img i =
     (let index = indirect_symbol (im_object img) (ucast ((ucast (reserved1 section) :: u64) + of_nat i))
      in if index AND (INDIRECT_SYMBOL_LOCAL OR INDIRECT_SYMBOL_ABS) \<noteq> 0 then Inr img
         else if length symbols \<le> unat index then Inl (im_path img @ '': indirect symbol out of range'')
         else (let s = symbols ! unat index
               in Inr (img\<lparr>im_stubs := omap_set (sect_addr section + of_nat i * ucast (reserved2 section))
                     \<lparr>stub_symbol = un_name s, stub_library = un_library s, stub_weak = un_weak s\<rparr>
                     (im_stubs img)\<rparr>)))"

definition stub_section :: "Undefined list \<Rightarrow> Image \<Rightarrow> Section \<Rightarrow> string + Image" where
  "stub_section symbols img section =
     (if sect_flags section AND SECTION_TYPE \<noteq> S_SYMBOL_STUBS then Inr img
      else if reserved2 section = 0 then Inl (im_path img @ '': stub section with zero entry size'')
      else sum_fold (stub_entry symbols section) img
             [0..<unat (sect_size section div ucast (reserved2 section))])"

definition ParseStubs :: "Image \<Rightarrow> string + Image" where
  "ParseStubs img =
     sum_fold (stub_section (map (stub_symbol_of img) (obj_symbols (im_object img)))) img
       (im_sections img)"

subsection \<open>Fixups\<close>

definition read64 :: "Image \<Rightarrow> u64 \<Rightarrow> u64 option" where
  "read64 img vmaddr =
     (case SegmentForVM img vmaddr of
        None \<Rightarrow> None
      | Some segment \<Rightarrow>
          if vmaddr + 8 > seg_vmaddr segment + seg_filesize segment then None
          else Some (le_word (take 8 (drop (unat (seg_fileoff segment + (vmaddr - seg_vmaddr segment)))
                                       (obj_data (im_object img))))))"

definition table_error :: "'a fallible \<Rightarrow> Image \<Rightarrow> string + Image" where
  "table_error table img =
     (case snd table of None \<Rightarrow> Inr img | Some err \<Rightarrow> Inl (im_path img @ '': '' @ err))"

definition add_rebase :: "Image \<Rightarrow> u64 \<Rightarrow> string + Image" where
  "add_rebase img address =
     (case read64 img address of
        None \<Rightarrow> Inl (im_path img @ '': rebase outside file data'')
      | Some v \<Rightarrow> Inr (img\<lparr>im_rebases := omap_set address v (im_rebases img)\<rparr>))"

definition make_bind :: "bool \<Rightarrow> Image \<Rightarrow> bind_entry \<Rightarrow> Bind" where
  "make_bind named img entry =
     \<lparr>bind_symbol = be_symbol entry, bind_addend = be_addend entry,
      bind_weak_import = (be_flags entry AND BIND_SYMBOL_FLAGS_WEAK_IMPORT \<noteq> 0),
      bind_library = (if named then LibraryOf img (be_ordinal entry) else '''')\<rparr>"

definition add_bind :: "bool \<Rightarrow> bind_entry \<Rightarrow> Image \<Rightarrow> Image" where
  "add_bind named entry img =
     img\<lparr>im_binds := omap_set (be_address entry) (make_bind named img entry) (im_binds img)\<rparr>"

definition add_binds :: "bind_entry fallible \<Rightarrow> bool \<Rightarrow> Image \<Rightarrow> string + Image" where
  "add_binds table named img = table_error table (fold (add_bind named) (fst table) img)"

fun add_fixup :: "fixup_entry \<Rightarrow> Image \<Rightarrow> Image" where
  "add_fixup (FixupRebase address v) img = img\<lparr>im_rebases := omap_set address v (im_rebases img)\<rparr>"
| "add_fixup (FixupBind entry) img = add_bind True entry img"

definition ParseFixups :: "Image \<Rightarrow> string + Image" where
  "ParseFixups img =
     (let obj = im_object img
      in sum_bind (sum_fold add_rebase img (fst (rebase_table obj))) (\<lambda>img.
         sum_bind (table_error (rebase_table obj) img) (\<lambda>img.
         sum_bind (add_binds (bind_table obj) True img) (\<lambda>img.
         sum_bind (add_binds (lazy_bind_table obj) True img) (\<lambda>img.
         sum_bind (add_binds (weak_bind_table obj) False img) (\<lambda>img.
           table_error (fixup_table obj) (fold add_fixup (fst (fixup_table obj)) img)))))))"

subsection \<open>Exports\<close>

definition add_export_symbol :: "symbol_entry \<Rightarrow> Image \<Rightarrow> Image" where
  "add_export_symbol raw img =
     (if n_type raw AND N_STAB \<noteq> 0 \<or> n_type raw AND N_TYPE \<noteq> N_SECT then img
      else case sym_name raw of
             None \<Rightarrow> img
           | Some name \<Rightarrow>
               if name = [] then img
               else if n_type raw AND N_EXT \<noteq> 0
                 then img\<lparr>im_exports := omap_set name (n_value raw) (im_exports img)\<rparr>
               else img)"

definition add_reexport :: "export_entry \<Rightarrow> Image \<Rightarrow> Image" where
  "add_reexport entry img =
     (if ee_flags entry AND EXPORT_SYMBOL_FLAGS_REEXPORT \<noteq> 0
      then img\<lparr>im_reexports := omap_set (ee_name entry)
             \<lparr>reexport_library = LibraryOf img (ee_other entry),
              reexport_symbol = (if ee_other_name entry = [] then ee_name entry else ee_other_name entry)\<rparr>
             (im_reexports img)\<rparr>
      else img)"

definition ParseExports :: "Image \<Rightarrow> string + Image" where
  "ParseExports img =
     (let obj = im_object img;
          img = fold add_export_symbol (obj_symbols obj) img
      in table_error (export_trie obj) (fold add_reexport (fst (export_trie obj)) img))"

text \<open>\<open>Parse\<close>: \<open>None\<close> when the function-starts loop does not end, else the error or the image.\<close>

definition Parse :: "uleb \<Rightarrow> Image \<Rightarrow> (string + Image) option" where
  "Parse decodeULEB128 img =
     map_option (\<lambda>img. sum_bind (ParseStubs (parse_functions img)) (\<lambda>img.
                          sum_bind (ParseFixups img) ParseExports))
       (parse_load_commands decodeULEB128 (load_commands (im_object img)) img)"

text \<open>
  \<open>Load\<close>. What \<open>createBinary\<close> makes of a path is a parameter: a Mach-O object, a universal file
  (whose arm64 slice is absent, or is copied and parsed again), or some other binary.
\<close>

datatype llvm_binary =
    MachOFile macho_object
  | MachOUniversal "(string + llvm_binary) option"
  | OtherBinary

fun arm64_slice :: "string \<Rightarrow> llvm_binary \<Rightarrow> string + llvm_binary" where
  "arm64_slice path (MachOUniversal None) = Inl (path @ '': no arm64 slice'')"
| "arm64_slice path (MachOUniversal (Some (Inl e))) = Inl (path @ '': '' @ e)"
| "arm64_slice path (MachOUniversal (Some (Inr b))) = Inr b"
| "arm64_slice path b = Inr b"

definition Load :: "uleb \<Rightarrow> (string \<Rightarrow> string + llvm_binary) \<Rightarrow> string \<Rightarrow> (string + Image) option" where
  "Load decodeULEB128 createBinary path =
     (case createBinary path of
        Inl e \<Rightarrow> Some (Inl (path @ '': '' @ e))
      | Inr bin \<Rightarrow>
          (case arm64_slice path bin of
             Inl e \<Rightarrow> Some (Inl e)
           | Inr (MachOFile obj) \<Rightarrow>
               if \<not> obj_is64 obj \<or> obj_cputype obj \<noteq> CPU_TYPE_ARM64
               then Some (Inl (path @ '': not an arm64 Mach-O''))
               else Parse decodeULEB128 (new_image path obj)
           | Inr _ \<Rightarrow> Some (Inl (path @ '': not an arm64 Mach-O''))))"

end
