(* ===== verification/Macho_Facts.thy ===== *)
theory Macho_Facts
  imports Macho
begin

text \<open>
  What the image queries and the parser of \<open>Macho\<close> promise: where bytes can be read, that reads
  compose, what every table of a parsed image satisfies, and that the parser returns.
\<close>

section \<open>Well-formed segments\<close>

text \<open>
  A file LLVM accepts, in the user half of the address space: no segment reaches past it, its file
  bytes lie in the file and within the segment, and no two segments (the page-zero guard apart)
  share an address.
\<close>

definition seg_contains :: "Segment \<Rightarrow> u64 \<Rightarrow> bool" where
  "seg_contains s a \<longleftrightarrow> unat (seg_vmaddr s) \<le> unat a \<and> unat a < unat (seg_vmaddr s) + unat (seg_vmsize s)"

definition seg_disjoint :: "Segment \<Rightarrow> Segment \<Rightarrow> bool" where
  "seg_disjoint s t \<longleftrightarrow>
     unat (seg_vmaddr s) + unat (seg_vmsize s) \<le> unat (seg_vmaddr t) \<or>
     unat (seg_vmaddr t) + unat (seg_vmsize t) \<le> unat (seg_vmaddr s)"

definition wf_segments :: "Image \<Rightarrow> bool" where
  "wf_segments img \<longleftrightarrow>
     (\<forall>s \<in> set (im_segments img).
        unat (seg_vmaddr s) + unat (seg_vmsize s) \<le> 2 ^ 63 \<and>
        unat (seg_fileoff s) + unat (seg_filesize s) \<le> length (obj_data (im_object img)) \<and>
        seg_filesize s \<le> seg_vmsize s) \<and>
     sorted_wrt seg_disjoint (filter (\<lambda>s. seg_name s \<noteq> ''__PAGEZERO'') (im_segments img))"

lemma wf_segmentsD:
  assumes "wf_segments img" and "s \<in> set (im_segments img)"
  shows "unat (seg_vmaddr s) + unat (seg_vmsize s) \<le> 2 ^ 63"
    and "unat (seg_fileoff s) + unat (seg_filesize s) \<le> length (obj_data (im_object img))"
    and "unat (seg_filesize s) \<le> unat (seg_vmsize s)"
  using assms by (simp_all add: wf_segments_def word_le_nat_alt)

lemma seg_end:
  "unat (seg_vmaddr s) + unat (seg_vmsize s) \<le> 2 ^ 63 \<Longrightarrow>
   unat (seg_vmaddr s + seg_vmsize s) = unat (seg_vmaddr s) + unat (seg_vmsize s)"
  by (rule unat_add_no_wrap) simp

lemma seg_contains_word:
  "unat (seg_vmaddr s) + unat (seg_vmsize s) \<le> 2 ^ 63 \<Longrightarrow>
   (seg_vmaddr s \<le> a \<and> a < seg_vmaddr s + seg_vmsize s) \<longleftrightarrow> seg_contains s a"
  by (simp add: seg_contains_def word_le_nat_alt word_less_nat_alt seg_end)

lemma SegmentForVM_contains:
  assumes "wf_segments img" and "SegmentForVM img a = Some s"
  shows "s \<in> set (im_segments img)" and "seg_name s \<noteq> ''__PAGEZERO''" and "seg_contains s a"
proof -
  from find_SomeD [OF assms(2) [unfolded SegmentForVM_def]]
  have *: "s \<in> set (im_segments img)" "seg_name s \<noteq> ''__PAGEZERO''"
    "seg_vmaddr s \<le> a" "a < seg_vmaddr s + seg_vmsize s" by auto
  then show "s \<in> set (im_segments img)" "seg_name s \<noteq> ''__PAGEZERO''" by auto
  show "seg_contains s a"
    by (rule seg_contains_word [OF wf_segmentsD(1) [OF assms(1) *(1)], THEN iffD1]) (simp add: *)
qed

lemma SegmentForVM_found:
  assumes wf: "wf_segments img" and s: "s \<in> set (im_segments img)" "seg_name s \<noteq> ''__PAGEZERO''"
    and a: "seg_contains s a"
  shows "SegmentForVM img a = Some s"
  unfolding SegmentForVM_def
proof (rule find_unique [OF s(1)])
  show "seg_name s \<noteq> ''__PAGEZERO'' \<and> seg_vmaddr s \<le> a \<and> a < seg_vmaddr s + seg_vmsize s"
    using s(2) a seg_contains_word [OF wf_segmentsD(1) [OF wf s(1)]] by simp
next
  fix t
  assume t: "t \<in> set (im_segments img)"
    and P: "seg_name t \<noteq> ''__PAGEZERO'' \<and> seg_vmaddr t \<le> a \<and> a < seg_vmaddr t + seg_vmsize t"
  then have ta: "seg_contains t a"
    using seg_contains_word [OF wf_segmentsD(1) [OF wf t]] by simp
  let ?segs = "filter (\<lambda>s. seg_name s \<noteq> ''__PAGEZERO'') (im_segments img)"
  have "sorted_wrt seg_disjoint ?segs" using wf by (simp add: wf_segments_def)
  then have "t = s \<or> seg_disjoint t s \<or> seg_disjoint s t"
    using s t P by (intro sorted_wrt_distinct_or [where xs = ?segs]) simp_all
  then show "t = s" using a ta by (auto simp: seg_contains_def seg_disjoint_def)
qed

text \<open>On a well-formed image a read succeeds exactly when the range lies in one segment.\<close>

lemma ReadBytes_Some:
  assumes wf: "wf_segments img" and n: "n < 2 ^ 63"
  shows "ReadBytes img a n = Some bs \<longleftrightarrow>
    (\<exists>s. SegmentForVM img (a - im_slide img) = Some s \<and>
         unat (a - im_slide img) + n \<le> unat (seg_vmaddr s) + unat (seg_vmsize s) \<and>
         bs = map (\<lambda>i. segment_byte img s (a - im_slide img + of_nat i - seg_vmaddr s)) [0..<n])"
proof (cases "SegmentForVM img (a - im_slide img)")
  case None
  then show ?thesis by (simp add: ReadBytes_def)
next
  case (Some s)
  let ?v = "a - im_slide img"
  note S = SegmentForVM_contains [OF wf Some]
  have e: "unat (seg_vmaddr s) + unat (seg_vmsize s) \<le> 2 ^ 63"
    by (rule wf_segmentsD(1) [OF wf S(1)])
  then have "unat ?v < 2 ^ 63" using S(3) unfolding seg_contains_def by linarith
  then have "unat (?v + of_nat n) = unat ?v + n"
    using n by (intro unat_add_of_nat) simp
  then have "?v + of_nat n > seg_vmaddr s + seg_vmsize s \<longleftrightarrow>
      unat ?v + n > unat (seg_vmaddr s) + unat (seg_vmsize s)"
    by (simp add: word_less_nat_alt seg_end [OF e])
  then show ?thesis using Some by (auto simp: ReadBytes_def Let_def)
qed

section \<open>The byte-reader interface\<close>

text \<open>
  What the readers of metadata rely on: a read answers as many bytes as asked, and a read of
  \<open>m + n\<close> bytes is the read of the first \<open>m\<close> followed by the read of the next \<open>n\<close>.
\<close>

locale byte_reader =
  fixes read :: "'i \<Rightarrow> u64 \<Rightarrow> nat \<Rightarrow> u8 list option"
    and wf :: "'i \<Rightarrow> bool"
  assumes read_length: "read i a n = Some bs \<Longrightarrow> length bs = n"
    and read_prefix: "wf i \<Longrightarrow> read i a (m + n) = Some bs \<Longrightarrow> m + n < 2 ^ 63 \<Longrightarrow> read i a m = Some (take m bs)"
    and read_rest: "wf i \<Longrightarrow> read i a (m + n) = Some bs \<Longrightarrow> m + n < 2 ^ 63 \<Longrightarrow> 0 < n \<Longrightarrow>
      read i (a + of_nat m) n = Some (drop m bs)"
begin

lemma read_halves:
  assumes "wf i" and "read i a 8 = Some bs"
  shows "read i a 4 = Some (take 4 bs)" and "read i (a + 4) 4 = Some (drop 4 bs)"
  using read_prefix [of i a 4 4 bs] read_rest [of i a 4 4 bs] assms by simp_all

lemma read_bytewise:
  assumes "wf i" and rd: "read i a n = Some bs" and "n < 2 ^ 63" and "k < n"
  shows "read i (a + of_nat k) 1 = Some [bs ! k]"
proof -
  from \<open>k < n\<close> obtain r where n: "n = k + (1 + r)"
    by (metis add_Suc_right less_imp_Suc_add plus_1_eq_Suc)
  have "length bs = n" by (rule read_length [OF rd])
  with \<open>k < n\<close> have "take 1 (drop k bs) = [bs ! k]"
    by (simp add: Cons_nth_drop_Suc [symmetric])
  moreover have "read i (a + of_nat k) (1 + r) = Some (drop k bs)"
    using assms n by (intro read_rest) auto
  then have "read i (a + of_nat k) 1 = Some (take 1 (drop k bs))"
    using assms(1,3) n by (intro read_prefix [where n = r]) auto
  ultimately show ?thesis by simp
qed

end

lemma ReadBytes_length: "ReadBytes img a n = Some bs \<Longrightarrow> length bs = n"
  by (auto simp: ReadBytes_def Let_def split: option.splits if_splits)

lemma ReadBytes_prefix:
  assumes wf: "wf_segments img" and rd: "ReadBytes img a (m + n) = Some bs" and small: "m + n < 2 ^ 63"
  shows "ReadBytes img a m = Some (take m bs)"
proof -
  from rd ReadBytes_Some [OF wf small] obtain s where
    s: "SegmentForVM img (a - im_slide img) = Some s"
      "unat (a - im_slide img) + (m + n) \<le> unat (seg_vmaddr s) + unat (seg_vmsize s)"
    and bs: "bs = map (\<lambda>i. segment_byte img s (a - im_slide img + of_nat i - seg_vmaddr s)) [0..<m + n]"
    by blast
  have "take m bs = map (\<lambda>i. segment_byte img s (a - im_slide img + of_nat i - seg_vmaddr s)) [0..<m]"
    by (simp add: bs take_map)
  with s small show ?thesis by (subst ReadBytes_Some [OF wf]) auto
qed

lemma ReadBytes_rest:
  assumes wf: "wf_segments img" and rd: "ReadBytes img a (m + n) = Some bs" and small: "m + n < 2 ^ 63"
    and n: "0 < n"
  shows "ReadBytes img (a + of_nat m) n = Some (drop m bs)"
proof -
  let ?v = "a - im_slide img"
  from rd ReadBytes_Some [OF wf small] obtain s where
    s: "SegmentForVM img ?v = Some s"
      "unat ?v + (m + n) \<le> unat (seg_vmaddr s) + unat (seg_vmsize s)"
    and bs: "bs = map (\<lambda>i. segment_byte img s (?v + of_nat i - seg_vmaddr s)) [0..<m + n]"
    by blast
  note S = SegmentForVM_contains [OF wf s(1)]
  have e: "unat (seg_vmaddr s) + unat (seg_vmsize s) \<le> 2 ^ 63"
    by (rule wf_segmentsD(1) [OF wf S(1)])
  have um: "unat (?v + of_nat m) = unat ?v + m"
    using e s(2) by (intro unat_add_of_nat) simp
  have v': "a + of_nat m - im_slide img = ?v + of_nat m" by simp
  have "seg_contains s (?v + of_nat m)"
    using S(3) s(2) n by (simp add: seg_contains_def um)
  then have f: "SegmentForVM img (?v + of_nat m) = Some s"
    by (rule SegmentForVM_found [OF wf S(1,2)])
  have "drop m bs = map (\<lambda>i. segment_byte img s (?v + of_nat i - seg_vmaddr s)) [m..<m + n]"
    by (simp add: bs drop_map)
  also have "\<dots> = map (\<lambda>i. segment_byte img s (?v + of_nat m + of_nat i - seg_vmaddr s)) [0..<n]"
    by (rule nth_equalityI) (simp_all add: ac_simps)
  finally show ?thesis
    using f s(2) small by (subst ReadBytes_Some [OF wf]) (auto simp: v' um)
qed

interpretation rd: byte_reader ReadBytes wf_segments
  by unfold_locales (simp_all add: ReadBytes_length ReadBytes_prefix ReadBytes_rest)

section \<open>The extent of an image\<close>

lemma fold_min_le:
  fixes f :: "'a \<Rightarrow> 'b::linorder"
  shows "fold (\<lambda>x b. if P x then min b (f x) else b) xs b \<le> b"
    and "x \<in> set xs \<Longrightarrow> P x \<Longrightarrow> fold (\<lambda>x b. if P x then min b (f x) else b) xs b \<le> f x"
proof (induction xs arbitrary: b)
  case (Cons y ys)
  { case 1 show ?case by (auto intro: order_trans [OF Cons.IH(1)]) }
  { case 2 then show ?case by (auto intro: order_trans [OF Cons.IH(1)] Cons.IH(2)) }
qed simp_all

lemma fold_max_ge:
  fixes f :: "'a \<Rightarrow> 'b::linorder"
  shows "b \<le> fold (\<lambda>x b. if P x then max b (f x) else b) xs b"
    and "x \<in> set xs \<Longrightarrow> P x \<Longrightarrow> f x \<le> fold (\<lambda>x b. if P x then max b (f x) else b) xs b"
proof (induction xs arbitrary: b)
  case (Cons y ys)
  { case 1 show ?case by (auto intro: order_trans [OF _ Cons.IH(1)]) }
  { case 2 then show ?case by (auto intro: order_trans [OF _ Cons.IH(1)] Cons.IH(2)) }
qed simp_all

lemma preferred_base_le:
  "s \<in> set (im_segments img) \<Longrightarrow> seg_name s \<noteq> ''__PAGEZERO'' \<Longrightarrow> seg_vmsize s \<noteq> 0 \<Longrightarrow>
   preferred_base img \<le> seg_vmaddr s"
  unfolding preferred_base_def by (rule fold_min_le(2)) auto

lemma image_end_ge:
  "s \<in> set (im_segments img) \<Longrightarrow> seg_name s \<noteq> ''__PAGEZERO'' \<Longrightarrow> seg_name s \<noteq> ''__LINKEDIT'' \<Longrightarrow>
   seg_vmaddr s + seg_vmsize s \<le> image_end img"
  unfolding image_end_def by (rule fold_max_ge(2)) auto

lemma fold_max_bound:
  fixes f :: "'a \<Rightarrow> 'b::linorder"
  shows "(\<And>x. x \<in> set xs \<Longrightarrow> f x \<le> c) \<Longrightarrow> b \<le> c \<Longrightarrow> fold (\<lambda>x b. if P x then max b (f x) else b) xs b \<le> c"
  by (induction xs arbitrary: b) auto

lemma image_end_bound:
  assumes "wf_segments img"
  shows "unat (image_end img) \<le> 2 ^ 63"
proof -
  have "image_end img \<le> 2 ^ 63"
    unfolding image_end_def
    using assms by (intro fold_max_bound) (auto simp: wf_segments_def word_le_nat_alt seg_end)
  then show ?thesis by (simp add: word_le_nat_alt)
qed

section \<open>The parser\<close>

subsection \<open>It returns\<close>

text \<open>
  LLVM documents that decoding a nonzero value consumes at least one byte. With that, the walk
  over the function starts ends.
\<close>

definition uleb_progress :: "uleb \<Rightarrow> bool" where
  "uleb_progress decodeULEB128 \<longleftrightarrow>
     (\<forall>ptr. ptr \<noteq> [] \<longrightarrow> snd (decodeULEB128 ptr) \<noteq> 0 \<longrightarrow> 0 < fst (decodeULEB128 ptr))"

lemma function_starts_loop_returns:
  assumes u: "uleb_progress uleb"
  shows "\<exists>r. function_starts_loop uleb ptr address starts = Some r"
proof (induction "length ptr" arbitrary: ptr address starts rule: less_induct)
  case less
  show ?case
  proof (cases "ptr = [] \<or> snd (uleb ptr) = 0")
    case True
    then show ?thesis by (subst function_starts_loop.simps) auto
  next
    case False
    then have "length (drop (fst (uleb ptr)) ptr) < length ptr"
      using u by (auto simp: uleb_progress_def)
    with less False show ?thesis by (subst function_starts_loop.simps) auto
  qed
qed

lemma parse_load_commands_returns:
  "uleb_progress uleb \<Longrightarrow> \<exists>r. parse_load_commands uleb lcs img = Some r"
proof (induction lcs arbitrary: img)
  case Nil
  then show ?case by simp
next
  case (Cons lc lcs)
  have "\<exists>r. parse_load_command uleb lc img = Some r"
    using function_starts_loop_returns [OF Cons.prems]
    by (cases lc) (auto simp: ParseFunctionStarts_def)
  with Cons show ?case by auto
qed

subsection \<open>What each phase leaves alone\<close>

lemma ParseDataInCode_frame [simp]:
  "im_dylibs (ParseDataInCode off sz img) = im_dylibs img"
  "im_install_name (ParseDataInCode off sz img) = im_install_name img"
  "im_reexported_libraries (ParseDataInCode off sz img) = im_reexported_libraries img"
  "im_segments (ParseDataInCode off sz img) = im_segments img"
  "im_sections (ParseDataInCode off sz img) = im_sections img"
  "im_object (ParseDataInCode off sz img) = im_object img"
  "im_path (ParseDataInCode off sz img) = im_path img"
  "im_functions (ParseDataInCode off sz img) = im_functions img"
  "im_binds (ParseDataInCode off sz img) = im_binds img"
  "im_rebases (ParseDataInCode off sz img) = im_rebases img"
  "im_stubs (ParseDataInCode off sz img) = im_stubs img"
  "im_exports (ParseDataInCode off sz img) = im_exports img"
  "im_reexports (ParseDataInCode off sz img) = im_reexports img"
  "im_slide (ParseDataInCode off sz img) = im_slide img"
  by (simp_all add: ParseDataInCode_def Let_def)

text \<open>The dylibs a bind ordinal counts, in load-command order.\<close>

fun loaded_dylib :: "load_command \<Rightarrow> string list" where
  "loaded_dylib (LC_LOAD_DYLIB name) = [name]"
| "loaded_dylib (LC_LOAD_WEAK_DYLIB name) = [name]"
| "loaded_dylib (LC_REEXPORT_DYLIB name) = [name]"
| "loaded_dylib (LC_LOAD_UPWARD_DYLIB name) = [name]"
| "loaded_dylib _ = []"

definition load_phase_frame :: "Image \<Rightarrow> Image \<Rightarrow> bool" where
  "load_phase_frame img img' \<longleftrightarrow>
     im_object img' = im_object img \<and> im_path img' = im_path img \<and> im_slide img' = im_slide img \<and>
     im_functions img' = im_functions img \<and> im_stubs img' = im_stubs img \<and>
     im_binds img' = im_binds img \<and> im_rebases img' = im_rebases img \<and>
     im_exports img' = im_exports img \<and> im_reexports img' = im_reexports img"

lemma parse_load_command_frame:
  "parse_load_command uleb lc img = Some img' \<Longrightarrow>
   load_phase_frame img img' \<and> im_dylibs img' = im_dylibs img @ loaded_dylib lc \<and>
   (set (im_reexported_libraries img) \<subseteq> set (im_dylibs img) \<longrightarrow>
    set (im_reexported_libraries img') \<subseteq> set (im_dylibs img'))"
  by (cases lc) (auto simp: load_phase_frame_def add_dylib_def ParseFunctionStarts_def)

lemma parse_load_commands_frame:
  "parse_load_commands uleb lcs img = Some img' \<Longrightarrow>
   load_phase_frame img img' \<and> im_dylibs img' = im_dylibs img @ concat (map loaded_dylib lcs) \<and>
   (set (im_reexported_libraries img) \<subseteq> set (im_dylibs img) \<longrightarrow>
    set (im_reexported_libraries img') \<subseteq> set (im_dylibs img'))"
proof (induction lcs arbitrary: img)
  case Nil
  then show ?case by (simp add: load_phase_frame_def)
next
  case (Cons lc lcs)
  then obtain i where i: "parse_load_command uleb lc img = Some i" "parse_load_commands uleb lcs i = Some img'"
    by (auto simp: bind_eq_Some_conv)
  from parse_load_command_frame [OF i(1)] Cons.IH [OF i(2)]
  show ?case by (auto simp: load_phase_frame_def)
qed

text \<open>The later phases keep the library tables and the functions, and keep every table sorted.\<close>

definition tables_ok :: "Image \<Rightarrow> bool" where
  "tables_ok img \<longleftrightarrow> omap_ok (im_stubs img) \<and> omap_ok (im_binds img) \<and> omap_ok (im_rebases img) \<and>
     omap_ok (im_exports img) \<and> omap_ok (im_reexports img) \<and> oset_ok (im_functions img)"

definition late_frame :: "Image \<Rightarrow> Image \<Rightarrow> bool" where
  "late_frame img img' \<longleftrightarrow>
     im_object img' = im_object img \<and> im_path img' = im_path img \<and> im_slide img' = im_slide img \<and>
     im_dylibs img' = im_dylibs img \<and> im_install_name img' = im_install_name img \<and>
     im_reexported_libraries img' = im_reexported_libraries img \<and>
     im_segments img' = im_segments img \<and> im_sections img' = im_sections img \<and>
     im_entry img' = im_entry img \<and> im_functions img' = im_functions img \<and>
     im_raw_function_starts img' = im_raw_function_starts img \<and>
     im_data_in_code img' = im_data_in_code img \<and>
     (tables_ok img \<longrightarrow> tables_ok img')"

lemma late_frame_refl [simp]: "late_frame img img"
  by (simp add: late_frame_def)

lemma late_frame_trans: "late_frame a b \<Longrightarrow> late_frame b c \<Longrightarrow> late_frame a c"
  by (simp add: late_frame_def)

lemma table_error_Inr: "table_error t img = Inr img' \<longleftrightarrow> snd t = None \<and> img' = img"
  by (auto simp: table_error_def split: option.splits)

lemma sum_fold_late:
  "sum_fold f img xs = Inr img' \<Longrightarrow> (\<And>i x i'. f i x = Inr i' \<Longrightarrow> late_frame i i') \<Longrightarrow> late_frame img img'"
  by (erule sum_fold_inv [where I = "late_frame img"]) (auto intro: late_frame_trans)

lemma fold_late:
  "(\<And>x i. late_frame i (f x i)) \<Longrightarrow> late_frame img (fold f xs img)"
proof (induction xs arbitrary: img)
  case (Cons x xs)
  from late_frame_trans [OF Cons.prems Cons.IH [OF Cons.prems]] show ?case by simp
qed simp

lemma stub_entry_late: "stub_entry symbols section img i = Inr img' \<Longrightarrow> late_frame img img'"
  by (auto simp: stub_entry_def Let_def late_frame_def tables_ok_def split: if_splits)

lemma stub_section_late: "stub_section symbols img section = Inr img' \<Longrightarrow> late_frame img img'"
  by (auto simp: stub_section_def split: if_splits intro: sum_fold_late stub_entry_late)

lemma add_rebase_late: "add_rebase img a = Inr img' \<Longrightarrow> late_frame img img'"
  by (auto simp: add_rebase_def late_frame_def tables_ok_def split: option.splits)

lemma add_bind_late: "late_frame img (add_bind named entry img)"
  by (simp add: add_bind_def late_frame_def tables_ok_def)

lemma add_fixup_late: "late_frame img (add_fixup entry img)"
  by (cases entry) (simp_all add: add_bind_late, simp add: late_frame_def tables_ok_def)

lemma add_export_symbol_late: "late_frame img (add_export_symbol raw img)"
  by (simp add: add_export_symbol_def late_frame_def tables_ok_def split: option.splits)

lemma add_reexport_late: "late_frame img (add_reexport entry img)"
  by (simp add: add_reexport_def late_frame_def tables_ok_def)

lemma ParseStubs_late: "ParseStubs img = Inr img' \<Longrightarrow> late_frame img img'"
  unfolding ParseStubs_def by (erule sum_fold_late) (rule stub_section_late)

lemma add_binds_late: "add_binds t named img = Inr img' \<Longrightarrow> late_frame img img'"
  by (auto simp: add_binds_def table_error_Inr intro: fold_late add_bind_late)

lemma ParseFixups_Inr:
  "ParseFixups img = Inr img' \<Longrightarrow>
   (let obj = im_object img in \<exists>r. sum_fold add_rebase img (fst (rebase_table obj)) = Inr r \<and>
      img' = fold add_fixup (fst (fixup_table obj)) (fold (add_bind False) (fst (weak_bind_table obj))
        (fold (add_bind True) (fst (lazy_bind_table obj)) (fold (add_bind True) (fst (bind_table obj)) r))))"
  by (auto simp: ParseFixups_def Let_def sum_bind_Inr table_error_Inr add_binds_def)

lemma ParseFixups_late:
  assumes "ParseFixups img = Inr img'"
  shows "late_frame img img'"
proof -
  obtain r where r: "sum_fold add_rebase img (fst (rebase_table (im_object img))) = Inr r"
    and img': "img' = fold add_fixup (fst (fixup_table (im_object img)))
      (fold (add_bind False) (fst (weak_bind_table (im_object img)))
        (fold (add_bind True) (fst (lazy_bind_table (im_object img)))
          (fold (add_bind True) (fst (bind_table (im_object img))) r)))"
    using ParseFixups_Inr [OF assms] by (auto simp: Let_def)
  have "late_frame img r" by (rule sum_fold_late [OF r]) (rule add_rebase_late)
  then show ?thesis
    unfolding img'
    by (rule late_frame_trans [OF late_frame_trans [OF late_frame_trans [OF late_frame_trans]]])
      (rule fold_late, rule add_bind_late add_fixup_late)+
qed

lemma ParseExports_late: "ParseExports img = Inr img' \<Longrightarrow> late_frame img img'"
  unfolding ParseExports_def Let_def
  by (auto simp: table_error_Inr
      intro: late_frame_trans [OF fold_late [OF add_export_symbol_late] fold_late [OF add_reexport_late]])

lemma Parse_Some_Inr:
  "Parse uleb img = Some (Inr img') \<longleftrightarrow>
   (\<exists>a b c. parse_load_commands uleb (load_commands (im_object img)) img = Some a \<and>
      ParseStubs (parse_functions a) = Inr b \<and> ParseFixups b = Inr c \<and> ParseExports c = Inr img')"
  by (auto simp: Parse_def sum_bind_Inr)

lemma Parse_late:
  assumes "Parse uleb img = Some (Inr img')"
  obtains a where "parse_load_commands uleb (load_commands (im_object img)) img = Some a"
    and "late_frame (parse_functions a) img'"
  using assms unfolding Parse_Some_Inr
  by (blast intro: late_frame_trans ParseStubs_late ParseFixups_late ParseExports_late)

section \<open>A concrete image\<close>

text \<open>
  A small object for the witnesses: one segment of 32 bytes, 24 of them in the file, two libraries
  (one re-exported), two functions, and a slot bound twice.
\<close>

definition sample_uleb :: uleb where
  "sample_uleb ptr = (1, ucast (hd ptr))"

definition sample_bind :: bind_entry where
  "sample_bind = \<lparr>be_address = 0x1008, be_symbol = ''_free'', be_addend = 0, be_flags = 0, be_ordinal = 2\<rparr>"

definition sample_object :: macho_object where
  "sample_object =
     \<lparr>obj_data = [0, 1, 2, 3, 4, 5, 6, 7, 8, 9, 10, 11, 12, 13, 14, 15, 4, 0, 0, 0, 8, 0, 1, 0, 4, 8, 0],
      obj_is64 = True, obj_cputype = CPU_TYPE_ARM64, obj_flags = 0x80,
      load_commands =
        [LC_SEGMENT_64 \<lparr>sc_segname = ''__TEXT'', sc_vmaddr = 0x1000, sc_vmsize = 32, sc_fileoff = 0,
                        sc_filesize = 24, sc_initprot = 5\<rparr> [],
         LC_ID_DYLIB ''@rpath/a.dylib'',
         LC_LOAD_DYLIB ''/usr/lib/libSystem.B.dylib'',
         LC_REEXPORT_DYLIB ''/usr/lib/libc++abi.dylib'',
         LC_MAIN 4, LC_FUNCTION_STARTS 24 3, LC_DATA_IN_CODE 16 8],
      obj_symbols = [], indirect_symbol = (\<lambda>_. 0), rebase_table = ([0x1000], None),
      bind_table = ([sample_bind], None), lazy_bind_table = ([], None),
      weak_bind_table = ([sample_bind], None), fixup_table = ([], None), export_trie = ([], None)\<rparr>"

definition sample_segment :: Segment where
  "sample_segment = \<lparr>seg_name = ''__TEXT'', seg_vmaddr = 0x1000, seg_vmsize = 32, seg_fileoff = 0,
     seg_filesize = 24, seg_initprot = 5\<rparr>"

definition sample_image :: Image where
  "sample_image =
     (new_image ''a.dylib'' sample_object)
       \<lparr>im_install_name := ''@rpath/a.dylib'',
        im_dylibs := [''/usr/lib/libSystem.B.dylib'', ''/usr/lib/libc++abi.dylib''],
        im_reexported_libraries := [''/usr/lib/libc++abi.dylib''],
        im_segments := [sample_segment], im_entry := Some 0x1004, im_functions := [0x1004, 0x100c],
        im_rebases := [(0x1000, 0x0706050403020100)],
        im_binds := [(0x1008, \<lparr>bind_symbol = ''_free'', bind_addend = 0, bind_weak_import = False,
                               bind_library = ''''\<rparr>)],
        im_raw_function_starts := [4, 12],
        im_data_in_code := [\<lparr>dic_vmaddr = 0x1004, dic_length = 8\<rparr>],
        im_warnings := [''a.dylib: LC_DATA_IN_CODE has 1 of 1 entries that are raw data (not jump tables); '' @
          ''a fallthrough path into one could misdecode'']\<rparr>"

lemmas sample_defs = sample_uleb_def sample_bind_def sample_object_def sample_segment_def sample_image_def

lemma upt_2 [simp]: "[0..<2] = [0, 1]" "[0..<Suc (Suc 0)] = [0, 1]"
  by (simp_all add: upt_rec numeral_2_eq_2)

lemma sample_load_commands:
  "parse_load_commands sample_uleb (load_commands sample_object) (new_image ''a.dylib'' sample_object) =
   Some (sample_image\<lparr>im_entry := Some 4, im_functions := [], im_rebases := [], im_binds := []\<rparr>)"
  by (simp add: sample_defs new_image_def segment_of_def name16_def add_dylib_def ParseFunctionStarts_def
      function_starts_loop.simps ParseDataInCode_def data_in_code_entry_def data_in_code_segment_def
      DICE_KIND_DATA_def dec_string_def digits_in.simps hex_char_def Let_def)

lemma sample_wf: "wf_segments sample_image"
  by (simp add: wf_segments_def sample_defs new_image_def)

lemma sample_parse:
  "Parse sample_uleb (new_image ''a.dylib'' sample_object) = Some (Inr sample_image)"
proof -
  let ?a = "sample_image\<lparr>im_entry := Some 4, im_functions := [], im_rebases := [], im_binds := []\<rparr>"
  have f: "parse_functions ?a = ?a\<lparr>im_entry := Some 0x1004, im_functions := [0x1004, 0x100c]\<rparr>"
    by (simp add: parse_functions_def text_base_def sample_defs new_image_def Let_def)
  have s: "ParseStubs (?a\<lparr>im_entry := Some 0x1004, im_functions := [0x1004, 0x100c]\<rparr>) =
      Inr (?a\<lparr>im_entry := Some 0x1004, im_functions := [0x1004, 0x100c]\<rparr>)"
    by (simp add: ParseStubs_def sample_defs new_image_def)
  have x: "ParseFixups (?a\<lparr>im_entry := Some 0x1004, im_functions := [0x1004, 0x100c]\<rparr>) = Inr sample_image"
    by (simp add: ParseFixups_def Let_def sample_defs new_image_def add_rebase_def read64_def
        SegmentForVM_def table_error_def add_binds_def add_bind_def make_bind_def
        BIND_SYMBOL_FLAGS_WEAK_IMPORT_def)
  have e: "ParseExports sample_image = Inr sample_image"
    by (simp add: ParseExports_def sample_defs new_image_def table_error_def)
  have o: "im_object (new_image ''a.dylib'' sample_object) = sample_object"
    by (simp add: new_image_def)
  show ?thesis by (simp only: Parse_def o sample_load_commands f s x e option.map sum_bind_simps)
qed

lemma Parse_some: "uleb_progress decodeULEB128 \<Longrightarrow> \<exists>r. Parse decodeULEB128 img = Some r"
  using parse_load_commands_returns [of decodeULEB128 "load_commands (im_object img)" img]
  by (auto simp: Parse_def)

section \<open>Properties\<close>

text \<open>\<open>Image::Parse\<close> returns, with an error or an image, on every object: the only unbounded loop,
  over the ULEB128 function starts, ends because LLVM's decoder consumes at least one byte for a
  nonzero value.\<close>

theorem Parse_returns: "uleb_progress decodeULEB128 \<Longrightarrow> \<exists>r. Parse decodeULEB128 img = Some r"
  by (rule Parse_some)

theorem Parse_returns_witness:
  "uleb_progress sample_uleb \<and> (\<exists>r. Parse sample_uleb (new_image ''a.dylib'' sample_object) = Some r)"
proof -
  have "uleb_progress sample_uleb" by (simp add: uleb_progress_def sample_uleb_def)
  with Parse_returns [OF this, of "new_image ''a.dylib'' sample_object"] show ?thesis by simp
qed

text \<open>C24: a parsed image is well formed: every table is strictly sorted by its key (no key twice), the
  ordinal table is the list of the dylib load commands in their order, the re-exported libraries
  are among them, and the function set holds the entry point and every function start rebased to
  the \<open>__TEXT\<close> segment.\<close>

theorem Parse_well_formed:
  assumes "Parse decodeULEB128 (new_image path obj) = Some (Inr img)"
  shows "tables_ok img \<and> im_path img = path \<and> im_object img = obj \<and>
    im_dylibs img = concat (map loaded_dylib (load_commands obj)) \<and>
    set (im_reexported_libraries img) \<subseteq> set (im_dylibs img) \<and>
    (\<forall>e. im_entry img = Some e \<longrightarrow> e \<in> set (im_functions img)) \<and>
    (\<forall>start \<in> set (im_raw_function_starts img). start + text_base img \<in> set (im_functions img))"
proof -
  from assms obtain a where
    a: "parse_load_commands decodeULEB128 (load_commands (im_object (new_image path obj))) (new_image path obj) = Some a"
    and late: "late_frame (parse_functions a) img"
    by (rule Parse_late)
  from parse_load_commands_frame [OF a]
  have fr: "load_phase_frame (new_image path obj) a"
    and d: "im_dylibs a = concat (map loaded_dylib (load_commands obj))"
    and r: "set (im_reexported_libraries a) \<subseteq> set (im_dylibs a)"
    unfolding new_image_def by auto
  have pf: "im_dylibs (parse_functions a) = im_dylibs a" "im_segments (parse_functions a) = im_segments a"
    "im_reexported_libraries (parse_functions a) = im_reexported_libraries a"
    "im_raw_function_starts (parse_functions a) = im_raw_function_starts a"
    "im_path (parse_functions a) = im_path a" "im_object (parse_functions a) = im_object a"
    by (simp_all add: parse_functions_def Let_def)
  have tb: "text_base img = text_base a" using late pf by (simp add: text_base_def late_frame_def)
  have ok: "tables_ok (parse_functions a)"
    using fr by (auto simp: tables_ok_def parse_functions_def Let_def load_phase_frame_def new_image_def
        split: option.split)
  have e: "\<forall>e. im_entry (parse_functions a) = Some e \<longrightarrow> e \<in> set (im_functions (parse_functions a))"
    by (auto simp: parse_functions_def Let_def)
  have st: "\<forall>s \<in> set (im_raw_function_starts a). s + text_base a \<in> set (im_functions (parse_functions a))"
    by (auto simp: parse_functions_def Let_def split: option.split)
  show ?thesis
    using late fr d r ok e st pf tb by (simp add: late_frame_def load_phase_frame_def new_image_def)
qed

theorem Parse_well_formed_witness:
  "tables_ok sample_image \<and> set (im_reexported_libraries sample_image) \<subseteq> set (im_dylibs sample_image) \<and>
   0x1004 \<in> set (im_functions sample_image)"
  using Parse_well_formed [OF sample_parse] by (simp add: sample_defs new_image_def)

text \<open>The records of the four bind tables, in the order \<open>ParseFixups\<close> reads them.\<close>

fun fixup_bind :: "fixup_entry \<Rightarrow> bind_entry list" where
  "fixup_bind (FixupRebase address v) = []"
| "fixup_bind (FixupBind entry) = [entry]"

definition bind_log :: "macho_object \<Rightarrow> (bool \<times> bind_entry) list" where
  "bind_log obj =
     map (Pair True) (fst (bind_table obj)) @ map (Pair True) (fst (lazy_bind_table obj)) @
     map (Pair False) (fst (weak_bind_table obj)) @
     map (Pair True) (concat (map fixup_bind (fst (fixup_table obj))))"

lemma make_bind_late: "late_frame a b \<Longrightarrow> make_bind named a = make_bind named b"
  by (simp add: make_bind_def fun_eq_iff LibraryOf_def late_frame_def)

lemma fold_add_bind:
  "im_binds (fold (add_bind named) es img) =
   fold (\<lambda>(n, e). omap_set (be_address e) (make_bind n img e)) (map (Pair named) es) (im_binds img)"
proof (induction es arbitrary: img)
  case (Cons e es)
  have "make_bind n (add_bind named e img) = make_bind n img" for n
    using make_bind_late [OF add_bind_late] by metis
  then show ?case by (simp add: Cons.IH) (simp add: add_bind_def)
qed simp

lemma fold_add_fixup:
  "im_binds (fold add_fixup es img) =
   fold (\<lambda>(n, e). omap_set (be_address e) (make_bind n img e))
     (map (Pair True) (concat (map fixup_bind es))) (im_binds img)"
proof (induction es arbitrary: img)
  case (Cons e es)
  have "make_bind n (add_fixup e img) = make_bind n img" for n
    using make_bind_late [OF add_fixup_late] by metis
  then show ?case by (cases e) (simp_all add: Cons.IH, simp_all add: add_bind_def)
qed simp

lemma map_of_fold_omap_set:
  "map_of (fold (\<lambda>(n, e). omap_set (k e) (v n e)) xs m) = map_of m ++ map_of (rev (map (\<lambda>(n, e). (k e, v n e)) xs))"
proof (induction xs arbitrary: m)
  case (Cons x xs)
  obtain n e where x: "x = (n, e)" by fastforce
  show ?case by (simp add: x Cons.IH fun_eq_iff map_add_def split: option.split)
qed simp

lemma ParseStubs_binds: "ParseStubs img = Inr img' \<Longrightarrow> im_binds img' = im_binds img"
  unfolding ParseStubs_def
  by (erule sum_fold_inv [where I = "\<lambda>i. im_binds i = im_binds img"])
    (auto simp: stub_section_def split: if_splits
      elim!: sum_fold_inv [where I = "\<lambda>i. im_binds i = im_binds img"]
      simp: stub_entry_def Let_def)

lemma ParseExports_binds: "ParseExports img = Inr img' \<Longrightarrow> im_binds img' = im_binds img"
proof -
  have a: "im_binds (fold add_reexport es i) = im_binds i" for es i
    by (induction es arbitrary: i) (simp_all add: add_reexport_def)
  have b: "im_binds (fold add_export_symbol es i) = im_binds i" for es i
    by (induction es arbitrary: i) (simp_all add: add_export_symbol_def split: option.split)
  show "ParseExports img = Inr img' \<Longrightarrow> im_binds img' = im_binds img"
    by (auto simp: ParseExports_def Let_def table_error_Inr a b)
qed

lemma add_rebases_binds: "sum_fold add_rebase img xs = Inr img' \<Longrightarrow> im_binds img' = im_binds img"
  by (erule sum_fold_inv [where I = "\<lambda>i. im_binds i = im_binds img"])
    (auto simp: add_rebase_def split: option.splits)

lemma ParseFixups_binds:
  assumes "ParseFixups img = Inr img'" and "im_binds img = []"
  shows "map_of (im_binds img') =
    map_of (rev (map (\<lambda>(named, e). (be_address e, make_bind named img e)) (bind_log (im_object img))))"
proof -
  let ?obj = "im_object img"
  obtain r where r: "sum_fold add_rebase img (fst (rebase_table ?obj)) = Inr r"
    and img': "img' = fold add_fixup (fst (fixup_table ?obj)) (fold (add_bind False) (fst (weak_bind_table ?obj))
        (fold (add_bind True) (fst (lazy_bind_table ?obj)) (fold (add_bind True) (fst (bind_table ?obj)) r)))"
    using ParseFixups_Inr [OF assms(1)] by (auto simp: Let_def)
  have lr: "late_frame img r" by (rule sum_fold_late [OF r]) (rule add_rebase_late)
  have same: "make_bind n (fold (add_bind b) es i) = make_bind n i" for n b es i
    by (rule make_bind_late [OF fold_late [OF add_bind_late], symmetric])
  have mr: "make_bind n r = make_bind n img" for n
    by (rule make_bind_late [OF lr, symmetric])
  have "im_binds img' = fold (\<lambda>(n, e). omap_set (be_address e) (make_bind n img e)) (bind_log ?obj) []"
    unfolding img' fold_add_fixup fold_add_bind same mr bind_log_def add_rebases_binds [OF r] assms(2)
    by simp
  then show ?thesis by (simp add: map_of_fold_omap_set)
qed

text \<open>a bind slot that several tables name is bound by the last record for it, the tables counted in the
  order of \<open>ParseFixups\<close>: bind, lazy bind, weak bind (which names no library), chained fixups; and
  the slots bound are exactly those with a record.\<close>

theorem Parse_binds_last:
  assumes "Parse decodeULEB128 (new_image path obj) = Some (Inr img)"
  shows "map_of (im_binds img) =
    map_of (rev (map (\<lambda>(named, e). (be_address e, make_bind named img e)) (bind_log obj)))"
proof -
  from assms obtain a b c where
    a: "parse_load_commands decodeULEB128 (load_commands obj) (new_image path obj) = Some a"
    and b: "ParseStubs (parse_functions a) = Inr b" and c: "ParseFixups b = Inr c" and d: "ParseExports c = Inr img"
    unfolding Parse_Some_Inr by (auto simp: new_image_def)
  have fr: "load_phase_frame (new_image path obj) a" using parse_load_commands_frame [OF a] by blast
  have "im_binds b = []" "im_object b = obj"
    using ParseStubs_binds [OF b] ParseStubs_late [OF b] fr
    by (simp_all add: parse_functions_def Let_def late_frame_def load_phase_frame_def new_image_def)
  moreover have "make_bind n b = make_bind n img" for n
    by (rule make_bind_late [OF late_frame_trans [OF ParseFixups_late [OF c] ParseExports_late [OF d]]])
  ultimately show ?thesis
    using ParseFixups_binds [OF c] ParseExports_binds [OF d] by simp
qed

theorem Parse_binds_last_witness:
  "map_of (im_binds sample_image) 0x1008 = Some (make_bind False sample_image sample_bind)"
  using Parse_binds_last [OF sample_parse]
  by (simp add: bind_log_def sample_object_def sample_bind_def)

text \<open>\<open>ParseStubs\<close> fails on exactly two mistakes of the file: a stub section whose entry size is zero, or a
  stub whose indirect symbol is neither local nor absolute and names no symbol.\<close>

theorem ParseStubs_succeeds_iff:
  "(\<exists>img'. ParseStubs img = Inr img') \<longleftrightarrow>
   (\<forall>sec \<in> set (im_sections img). sect_flags sec AND SECTION_TYPE = S_SYMBOL_STUBS \<longrightarrow>
      reserved2 sec \<noteq> 0 \<and>
      (\<forall>i < unat (sect_size sec div ucast (reserved2 sec)).
         let index = indirect_symbol (im_object img) (ucast ((ucast (reserved1 sec) :: u64) + of_nat i))
         in index AND (INDIRECT_SYMBOL_LOCAL OR INDIRECT_SYMBOL_ABS) \<noteq> 0 \<or>
            unat index < length (obj_symbols (im_object img))))"
  unfolding ParseStubs_def
proof (rule sum_fold_returns_iff [where I = "\<lambda>i. im_object i = im_object img"])
  let ?syms = "map (stub_symbol_of img) (obj_symbols (im_object img))"
  fix s :: Image and sec
  assume s: "im_object s = im_object img"
  have "(\<exists>t. sum_fold (stub_entry ?syms sec) s xs = Inr t) \<longleftrightarrow>
      (\<forall>i \<in> set xs.
         let index = indirect_symbol (im_object img) (ucast ((ucast (reserved1 sec) :: u64) + of_nat i))
         in index AND (INDIRECT_SYMBOL_LOCAL OR INDIRECT_SYMBOL_ABS) \<noteq> 0 \<or>
            unat index < length (obj_symbols (im_object img)))" for xs
    by (rule sum_fold_returns_iff [where I = "\<lambda>i. im_object i = im_object img"])
      (auto simp: s stub_entry_def Let_def split: if_splits)
  then show "(\<exists>s'. stub_section ?syms s sec = Inr s') \<longleftrightarrow>
      (sect_flags sec AND SECTION_TYPE = S_SYMBOL_STUBS \<longrightarrow>
       reserved2 sec \<noteq> 0 \<and>
       (\<forall>i < unat (sect_size sec div ucast (reserved2 sec)).
          let index = indirect_symbol (im_object img) (ucast ((ucast (reserved1 sec) :: u64) + of_nat i))
          in index AND (INDIRECT_SYMBOL_LOCAL OR INDIRECT_SYMBOL_ABS) \<noteq> 0 \<or>
             unat index < length (obj_symbols (im_object img))))"
    by (auto simp: stub_section_def)
next
  fix s s' :: Image and sec
  assume "im_object s = im_object img" "stub_section (map (stub_symbol_of img) (obj_symbols (im_object img))) s sec = Inr s'"
  then show "im_object s' = im_object img" using stub_section_late [of _ s sec s'] by (simp add: late_frame_def)
qed simp

theorem ParseStubs_succeeds_iff_witness:
  "\<not> (\<exists>img'. ParseStubs (sample_image\<lparr>im_sections := [\<lparr>segname = ''__TEXT'', sectname = ''__stubs'',
        sect_addr = 0x1000, sect_size = 12, sect_offset = 0, sect_flags = S_SYMBOL_STUBS,
        reserved1 = 0, reserved2 = 0\<rparr>]\<rparr>) = Inr img')"
  by (subst ParseStubs_succeeds_iff) (simp add: S_SYMBOL_STUBS_def SECTION_TYPE_def)

text \<open>reads compose and stay inside the image's extent: a read of \<open>m + n\<close> bytes is the read of \<open>m\<close> bytes
  followed by the read of the next \<open>n\<close>, its bytes lie in one segment, and that segment lies between
  \<open>preferred_base\<close> and \<open>image_end\<close> unless it is \<open>__LINKEDIT\<close>.\<close>

theorem ReadBytes_split:
  assumes wf: "wf_segments img" and rd: "ReadBytes img a (m + n) = Some bs"
    and n: "0 < n" and small: "m + n < 2 ^ 63"
  shows "ReadBytes img a m = Some (take m bs) \<and> ReadBytes img (a + of_nat m) n = Some (drop m bs) \<and>
    (\<exists>s \<in> set (im_segments img). seg_contains s (a - im_slide img) \<and>
       unat (a - im_slide img) + (m + n) \<le> unat (seg_vmaddr s) + unat (seg_vmsize s) \<and>
       preferred_base img \<le> seg_vmaddr s \<and>
       (seg_name s = ''__LINKEDIT'' \<or> seg_vmaddr s + seg_vmsize s \<le> image_end img))"
proof -
  obtain s where s: "SegmentForVM img (a - im_slide img) = Some s"
    "unat (a - im_slide img) + (m + n) \<le> unat (seg_vmaddr s) + unat (seg_vmsize s)"
    using rd ReadBytes_Some [OF wf small] by blast
  note S = SegmentForVM_contains [OF wf s(1)]
  have "seg_vmsize s \<noteq> 0" using S(3) by (auto simp: seg_contains_def)
  then have "preferred_base img \<le> seg_vmaddr s" by (rule preferred_base_le [OF S(1,2)])
  then show ?thesis
    using rd.read_prefix [OF wf rd small] rd.read_rest [OF wf rd small n] S s(2) image_end_ge [OF S(1,2)] by blast
qed

theorem ReadBytes_split_witness:
  "ReadBytes sample_image 0x1010 4 = Some [4, 0, 0, 0] \<and> ReadBytes sample_image 0x1014 8 = Some [8, 0, 1, 0, 0, 0, 0, 0]"
proof -
  have r: "ReadBytes sample_image 0x1010 (4 + 8) = Some [4, 0, 0, 0, 8, 0, 1, 0, 0, 0, 0, 0]"
    by (simp add: ReadBytes_def SegmentForVM_def segment_byte_def sample_defs new_image_def upt_rec)
  from ReadBytes_split [OF sample_wf r] show ?thesis by simp
qed

end
