(* ===== verification/Exports.thy ===== *)
theory Exports
  imports Macho
begin

text \<open>
  What the guest images define, looked up the way a two-level bind does it:
  \<open>xlate/src/exports.h\<close> and \<open>xlate/src/exports.cpp\<close>. The state is the class \<open>GuestExports\<close>; images
  stand for the pointers the class keeps (their slides are set before they are added). \<open>Find\<close> is
  \<open>const\<close> but inserts into the mutable set \<open>reported_\<close> and writes to \<open>stderr\<close>, so it is modelled
  with its state: \<open>ge_log\<close> holds the lines written.
\<close>

section \<open>State\<close>

record GuestExports =
  ge_images :: "Image list"
  ge_bridges :: "Image list"
  ge_by_name :: "(string, Image) omap"
  ge_replaced :: "(string, Image) omap"
  ge_reported :: "string list"
  ge_log :: "string list"

definition no_exports :: GuestExports where
  "no_exports = \<lparr>ge_images = [], ge_bridges = [], ge_by_name = [], ge_replaced = [], ge_reported = [], ge_log = []\<rparr>"

definition kMaxReexportDepth :: nat where
  "kMaxReexportDepth = 8"

definition IsSystemPath :: "string \<Rightarrow> bool" where
  "IsSystemPath path \<longleftrightarrow> starts_with ''/System/'' path \<or> starts_with ''/usr/lib/'' path"

definition Leaf :: "string \<Rightarrow> string" where
  "Leaf path = rev (takeWhile (\<lambda>c. c \<noteq> CHR ''/'') (rev path))"

section \<open>Registration\<close>

text \<open>The warning lines \<open>Add\<close> writes: one for each class of the image that an earlier image defines.\<close>

definition add_warnings :: "GuestExports \<Rightarrow> Image \<Rightarrow> string list" where
  "add_warnings g img = concat (map (\<lambda>(name, vmaddr).
     if \<not> starts_with ''_OBJC_CLASS_$_'' name then []
     else case find (\<lambda>earlier. map_of (im_exports earlier) name \<noteq> None) (ge_images g) of
            None \<Rightarrow> []
          | Some earlier \<Rightarrow> [''xlate: '' @ im_path img @ '': '' @ name @ '' is also defined by '' @ im_path earlier @
              ''; a bind that names no library takes that one'']) (im_exports img))"

definition Add :: "Image \<Rightarrow> bool \<Rightarrow> GuestExports \<Rightarrow> string + GuestExports" where
  "Add img bridge g =
     (case (if im_install_name img = [] then None else map_of (ge_by_name g) (im_install_name img)) of
        Some existing \<Rightarrow> Inl (im_path img @ '' and '' @ im_path existing @ '' are both '' @ im_install_name img @
                           ''; a bind to that library would take either'')
      | None \<Rightarrow> Inr (g\<lparr>ge_by_name := (if im_install_name img = [] then ge_by_name g
                                      else omap_emplace (im_install_name img) img (ge_by_name g)),
                      ge_log := ge_log g @ add_warnings g img,
                      ge_images := ge_images g @ [img],
                      ge_bridges := (if bridge then ge_bridges g @ [img] else ge_bridges g)\<rparr>))"

definition Replace :: "string \<Rightarrow> Image \<Rightarrow> GuestExports \<Rightarrow> string + GuestExports" where
  "Replace library img g =
     (case map_of (ge_by_name g) library of
        Some found \<Rightarrow> Inl (''--replaces '' @ library @ '': that is the install name of '' @ im_path found)
      | None \<Rightarrow>
          (case map_of (ge_replaced g) library of
             Some existing \<Rightarrow> Inl (''--replaces '' @ library @ '' is given twice, for '' @ im_path existing @ '' and '' @
                                im_path img)
           | None \<Rightarrow> Inr (g\<lparr>ge_replaced := omap_emplace library img (ge_replaced g)\<rparr>)))"

section \<open>Lookup\<close>

definition ImageOf :: "GuestExports \<Rightarrow> string \<Rightarrow> Image option" where
  "ImageOf g library =
     (case map_of (ge_replaced g) library of
        Some found \<Rightarrow> Some found
      | None \<Rightarrow> map_of (ge_by_name g) library)"

text \<open>The loop \<open>for (auto image : images)\<close> that answers with the first image's export.\<close>

fun find_export :: "Image list \<Rightarrow> string \<Rightarrow> u64 option" where
  "find_export [] symbol = None"
| "find_export (img # imgs) symbol =
     (case map_of (im_exports img) symbol of
        Some v \<Rightarrow> Some (host img v)
      | None \<Rightarrow> find_export imgs symbol)"

text \<open>The branch of \<open>Find\<close> for a library no image is: say so, once for each library.\<close>

definition alike_image :: "GuestExports \<Rightarrow> string \<Rightarrow> Image option" where
  "alike_image g library =
     fold (\<lambda>img alike. if im_install_name img \<noteq> [] \<and> Leaf (im_install_name img) = Leaf library
                       then Some img else alike) (ge_images g) None"

definition report_unknown :: "string \<Rightarrow> GuestExports \<Rightarrow> GuestExports" where
  "report_unknown library g =
     (if library \<in> set (ge_reported g) then g
      else g\<lparr>ge_reported := oset_insert library (ge_reported g),
             ge_log := ge_log g @
               (case alike_image g library of
                  Some alike \<Rightarrow>
                    [''xlate: a bind names '' @ library @ '', which no guest image is; '' @ im_path alike @ '' is named '' @
                     im_install_name alike @ ''. If it stands for that library, say so with --replaces '' @ library @ ''='' @
                     im_path alike @ ''; its symbols are taken from the host'']
                | None \<Rightarrow>
                    if \<not> IsSystemPath library
                    then [''xlate: a bind names '' @ library @ '', which is no guest image and no system library; '' @
                          ''its symbols are taken from the host'']
                    else [])\<rparr>)"

type_synonym lookup = "GuestExports \<Rightarrow> string \<Rightarrow> string \<Rightarrow> GuestExports \<times> u64 option"

text \<open>The loop over the libraries an image re-exports whole.\<close>

fun find_whole :: "lookup \<Rightarrow> string \<Rightarrow> GuestExports \<Rightarrow> string list \<Rightarrow> GuestExports \<times> u64 option" where
  "find_whole again symbol g [] = (g, None)"
| "find_whole again symbol g (whole # rest) =
     (if ImageOf g whole = None then find_whole again symbol g rest
      else case again g whole symbol of
             (g', Some target) \<Rightarrow> (g', Some target)
           | (g', None) \<Rightarrow> find_whole again symbol g' rest)"

text \<open>The symbol-level re-export of the image, and the library-level ones.\<close>

definition find_sent :: "lookup \<Rightarrow> GuestExports \<Rightarrow> Image \<Rightarrow> string \<Rightarrow> GuestExports \<times> u64 option" where
  "find_sent again g img symbol =
     (case map_of (im_reexports img) symbol of
        None \<Rightarrow> (g, None)
      | Some sent \<Rightarrow> again g (reexport_library sent) (reexport_symbol sent))"

definition find_reexported :: "lookup \<Rightarrow> GuestExports \<Rightarrow> Image \<Rightarrow> string \<Rightarrow> GuestExports \<times> u64 option" where
  "find_reexported again g img symbol =
     (case find_sent again g img symbol of
        (g', Some target) \<Rightarrow> (g', Some target)
      | (g', None) \<Rightarrow> find_whole again symbol g' (im_reexported_libraries img))"

text \<open>
  One level of \<open>Find\<close>. \<open>again\<close> is the recursive call at \<open>depth + 1\<close>, absent at the depth limit, where
  the source follows no re-export.
\<close>

definition find_level :: "lookup option \<Rightarrow> lookup" where
  "find_level again g library symbol =
     (if library = [] then (g, find_export (ge_images g) symbol)
      else case ImageOf g library of
        Some img \<Rightarrow>
          (case map_of (im_exports img) symbol of
             Some v \<Rightarrow> (g, Some (host img v))
           | None \<Rightarrow>
               (case (case again of None \<Rightarrow> (g, None) | Some f \<Rightarrow> find_reexported f g img symbol) of
                  (g', Some target) \<Rightarrow> (g', Some target)
                | (g', None) \<Rightarrow> (g', find_export (ge_bridges g') symbol)))
      | None \<Rightarrow>
          (let g' = report_unknown library g in (g', find_export (ge_bridges g') symbol)))"

text \<open>\<open>Find(library, symbol, depth)\<close>; the first argument is \<open>kMaxReexportDepth - depth\<close>.\<close>

fun Find_left :: "nat \<Rightarrow> lookup" where
  "Find_left 0 g library symbol = find_level None g library symbol"
| "Find_left (Suc left) g library symbol = find_level (Some (Find_left left)) g library symbol"

definition Find :: lookup where
  "Find g library symbol = Find_left kMaxReexportDepth g library symbol"

section \<open>Reporting does not change an answer\<close>

text \<open>The part of the state that lookups read.\<close>

definition same_tables :: "GuestExports \<Rightarrow> GuestExports \<Rightarrow> bool" where
  "same_tables g h \<longleftrightarrow> ge_images g = ge_images h \<and> ge_bridges g = ge_bridges h \<and>
     ge_by_name g = ge_by_name h \<and> ge_replaced g = ge_replaced h"

lemma same_tables_refl [simp]: "same_tables g g"
  by (simp add: same_tables_def)

lemma same_tables_trans: "same_tables a b \<Longrightarrow> same_tables b c \<Longrightarrow> same_tables a c"
  by (simp add: same_tables_def)

lemma same_tables_sym: "same_tables a b \<Longrightarrow> same_tables b a"
  by (simp add: same_tables_def)

lemma same_tables_ImageOf: "same_tables g h \<Longrightarrow> ImageOf g = ImageOf h"
  by (auto simp: same_tables_def ImageOf_def fun_eq_iff split: option.split)

lemma report_unknown_tables [simp]: "same_tables g (report_unknown library g)"
  by (simp add: report_unknown_def same_tables_def)

text \<open>
  The contract of a computation on the registry: it leaves the tables alone, only adds to the
  reported libraries, and run again on any state with the same tables that has reported as much, it
  gives the same answer and changes nothing.
\<close>

definition calm :: "(GuestExports \<Rightarrow> GuestExports \<times> 'r) \<Rightarrow> bool" where
  "calm c \<longleftrightarrow> (\<forall>g. same_tables g (fst (c g)) \<and> set (ge_reported g) \<subseteq> set (ge_reported (fst (c g))) \<and>
     (\<forall>h. same_tables g h \<longrightarrow> snd (c h) = snd (c g)) \<and>
     (\<forall>h. same_tables g h \<longrightarrow> set (ge_reported (fst (c g))) \<subseteq> set (ge_reported h) \<longrightarrow> fst (c h) = h))"

lemma calmD:
  assumes "calm c"
  shows "same_tables g (fst (c g))" and "set (ge_reported g) \<subseteq> set (ge_reported (fst (c g)))"
    and "same_tables g h \<Longrightarrow> snd (c h) = snd (c g)"
    and "same_tables g h \<Longrightarrow> set (ge_reported (fst (c g))) \<subseteq> set (ge_reported h) \<Longrightarrow> fst (c h) = h"
  using assms unfolding calm_def by blast+

lemma calm_answer: "(\<And>g h. same_tables g h \<Longrightarrow> q h = q g) \<Longrightarrow> calm (\<lambda>g. (g, q g))"
  by (simp add: calm_def)

lemma calm_read:
  assumes "\<And>g h. same_tables g h \<Longrightarrow> q h = q g" and c: "\<And>x. calm (F x)"
  shows "calm (\<lambda>g. F (q g) g)"
  unfolding calm_def
proof (intro allI conjI impI)
  fix g h
  show "same_tables g (fst (F (q g) g))" "set (ge_reported g) \<subseteq> set (ge_reported (fst (F (q g) g)))"
    by (rule calmD [OF c])+
  assume s: "same_tables g h"
  show "snd (F (q h) h) = snd (F (q g) g)"
    unfolding assms(1) [OF s] by (rule calmD(3) [OF c s])
  assume "set (ge_reported (fst (F (q g) g))) \<subseteq> set (ge_reported h)"
  then show "fst (F (q h) h) = h"
    unfolding assms(1) [OF s] by (rule calmD(4) [OF c s])
qed

lemma calm_then:
  assumes c: "calm c" and k: "\<And>r. calm (k r)"
  shows "calm (\<lambda>g. case c g of (g', r) \<Rightarrow> k r g')"
  unfolding calm_def case_prod_beta
proof (intro allI conjI impI)
  fix g h
  let ?g = "fst (c g)" and ?r = "snd (c g)"
  show "same_tables g (fst (k ?r ?g))"
    by (rule same_tables_trans [OF calmD(1) [OF c] calmD(1) [OF k]])
  show "set (ge_reported g) \<subseteq> set (ge_reported (fst (k ?r ?g)))"
    by (rule order_trans [OF calmD(2) [OF c] calmD(2) [OF k]])
  assume s: "same_tables g h"
  then have h: "same_tables ?g (fst (c h))" "snd (c h) = ?r"
    using calmD(1) [OF c, of g] calmD(1) [OF c, of h] calmD(3) [OF c s]
    by (auto intro: same_tables_trans same_tables_sym)
  then show "snd (k (snd (c h)) (fst (c h))) = snd (k ?r ?g)"
    by (simp add: calmD(3) [OF k])
  assume rep: "set (ge_reported (fst (k ?r ?g))) \<subseteq> set (ge_reported h)"
  then have "set (ge_reported ?g) \<subseteq> set (ge_reported h)"
    using calmD(2) [OF k, of ?g ?r] by blast
  then have ch: "fst (c h) = h" by (rule calmD(4) [OF c s])
  then show "fst (k (snd (c h)) (fst (c h))) = h"
    using h rep by (simp add: calmD(4) [OF k])
qed

lemma calm_report: "calm (\<lambda>g. (report_unknown library g, ()))"
  by (auto simp: calm_def report_unknown_def same_tables_def)

definition steady :: "lookup \<Rightarrow> bool" where
  "steady f \<longleftrightarrow> (\<forall>library symbol. calm (\<lambda>g. f g library symbol))"

lemma calm_bridges: "calm (\<lambda>g. (g, find_export (ge_bridges g) symbol))"
  by (rule calm_answer) (simp add: same_tables_def)

lemma calm_some: "calm (\<lambda>g. (g, x))"
  by (rule calm_answer) simp

lemma calm_or_else:
  assumes "calm c" and "calm d"
  shows "calm (\<lambda>g. case c g of (g', Some t) \<Rightarrow> (g', Some t) | (g', None) \<Rightarrow> d g')"
proof -
  have "calm (\<lambda>g. case c g of (g', r) \<Rightarrow> (case r of Some t \<Rightarrow> (\<lambda>g. (g, Some t)) | None \<Rightarrow> d) g')"
    by (rule calm_then [OF assms(1)]) (simp add: assms(2) calm_some split: option.split)
  moreover have "(\<lambda>g. case c g of (g', r) \<Rightarrow> (case r of Some t \<Rightarrow> (\<lambda>g. (g, Some t)) | None \<Rightarrow> d) g') =
      (\<lambda>g. case c g of (g', Some t) \<Rightarrow> (g', Some t) | (g', None) \<Rightarrow> d g')"
    by (rule ext) (simp split: prod.split option.split)
  ultimately show ?thesis by simp
qed

lemma calm_find_whole:
  assumes "steady f"
  shows "calm (\<lambda>g. find_whole f symbol g libs)"
proof (induction libs)
  case Nil
  show ?case by (simp add: calm_some)
next
  case (Cons whole rest)
  have "calm (\<lambda>g. case f g whole symbol of
      (g', Some target) \<Rightarrow> (g', Some target) | (g', None) \<Rightarrow> find_whole f symbol g' rest)"
    using assms Cons.IH by (intro calm_or_else) (simp_all add: steady_def)
  then have "calm (\<lambda>g. (if q then \<lambda>g. find_whole f symbol g rest else (\<lambda>g. case f g whole symbol of
      (g', Some target) \<Rightarrow> (g', Some target) | (g', None) \<Rightarrow> find_whole f symbol g' rest)) g)" for q
    using Cons.IH by (cases q) simp_all
  then have "calm (\<lambda>g. (if ImageOf g whole = None then \<lambda>g. find_whole f symbol g rest else (\<lambda>g. case f g whole symbol of
      (g', Some target) \<Rightarrow> (g', Some target) | (g', None) \<Rightarrow> find_whole f symbol g' rest)) g)"
    by (intro calm_read [where q = "\<lambda>g. ImageOf g whole = None" and F = "\<lambda>q g. (if q then \<lambda>g. find_whole f symbol g rest else (\<lambda>g. case f g whole symbol of
      (g', Some target) \<Rightarrow> (g', Some target) | (g', None) \<Rightarrow> find_whole f symbol g' rest)) g"])
      (simp_all add: same_tables_ImageOf)
  moreover have "(\<lambda>g. (if ImageOf g whole = None then \<lambda>g. find_whole f symbol g rest else (\<lambda>g. case f g whole symbol of
      (g', Some target) \<Rightarrow> (g', Some target) | (g', None) \<Rightarrow> find_whole f symbol g' rest)) g) =
      (\<lambda>g. find_whole f symbol g (whole # rest))"
    by (rule ext) simp
  ultimately show ?case by simp
qed

lemma calm_find_sent:
  assumes "steady f"
  shows "calm (\<lambda>g. find_sent f g img symbol)"
  using assms
  by (cases "map_of (im_reexports img) symbol") (simp_all add: find_sent_def steady_def calm_some)

lemma calm_find_reexported:
  assumes "steady f"
  shows "calm (\<lambda>g. find_reexported f g img symbol)"
  unfolding find_reexported_def
  by (rule calm_or_else [OF calm_find_sent [OF assms] calm_find_whole [OF assms]])

lemma calm_find_level:
  assumes "\<And>f. again = Some f \<Longrightarrow> steady f"
  shows "steady (find_level again)"
  unfolding steady_def
proof (intro allI)
  fix library symbol
  let ?sub = "\<lambda>img g. case again of None \<Rightarrow> (g, None) | Some f \<Rightarrow> find_reexported f g img symbol"
  let ?found = "\<lambda>img g. case map_of (im_exports img) symbol of
      Some v \<Rightarrow> (g, Some (host img v))
    | None \<Rightarrow> (case ?sub img g of (g', Some target) \<Rightarrow> (g', Some target)
                             | (g', None) \<Rightarrow> (g', find_export (ge_bridges g') symbol))"
  let ?missing = "\<lambda>g. let g' = report_unknown library g in (g', find_export (ge_bridges g') symbol)"
  let ?F = "\<lambda>x g. case x of Some img \<Rightarrow> ?found img g | None \<Rightarrow> ?missing g"
  have "calm (?sub img)" for img
    using assms by (cases again) (simp_all add: calm_some calm_find_reexported)
  then have found: "calm (?found img)" for img
    by (cases "map_of (im_exports img) symbol") (simp_all add: calm_some calm_or_else calm_bridges)
  have missing: "calm ?missing"
    using calm_then [OF calm_report [of library] calm_bridges] by (simp add: Let_def)
  have F: "calm (?F x)" for x
    using found missing by (cases x) simp_all
  have "calm (\<lambda>g. ?F (ImageOf g library) g)"
    by (rule calm_read [where q = "\<lambda>g. ImageOf g library" and F = ?F, OF _ F]) (simp add: same_tables_ImageOf)
  moreover have "calm (\<lambda>g. (g, find_export (ge_images g) symbol))"
    by (rule calm_answer) (simp add: same_tables_def)
  ultimately show "calm (\<lambda>g. find_level again g library symbol)"
    by (cases "library = []") (simp_all add: find_level_def)
qed

lemma steady_Find_left: "steady (Find_left left)"
proof (induction left)
  case 0
  have "Find_left 0 = find_level None" by (simp add: fun_eq_iff)
  then show ?case using calm_find_level [of None] by simp
next
  case (Suc left)
  have "Find_left (Suc left) = find_level (Some (Find_left left))" by (simp add: fun_eq_iff)
  then show ?case using calm_find_level [of "Some (Find_left left)"] Suc.IH by simp
qed

lemma calm_Find: "calm (\<lambda>g. Find g library symbol)"
  using steady_Find_left unfolding Find_def steady_def by blast

text \<open>The address a bind gets: what the callers use of \<open>Find\<close>.\<close>

definition Found :: "GuestExports \<Rightarrow> string \<Rightarrow> string \<Rightarrow> u64 option" where
  "Found g library symbol = snd (Find g library symbol)"

lemma Found_same_tables: "same_tables g h \<Longrightarrow> Found h library symbol = Found g library symbol"
  unfolding Found_def by (rule calmD(3) [OF calm_Find])

section \<open>The registry\<close>

text \<open>
  The invariant of the registry: the name table holds exactly the named images, each under its
  install name; bridges are registered images.
\<close>

definition registry_ok :: "GuestExports \<Rightarrow> bool" where
  "registry_ok g \<longleftrightarrow> omap_ok (ge_by_name g) \<and> omap_ok (ge_replaced g) \<and> set (ge_bridges g) \<subseteq> set (ge_images g) \<and>
     (\<forall>name img. map_of (ge_by_name g) name = Some img \<longleftrightarrow>
        name \<noteq> [] \<and> img \<in> set (ge_images g) \<and> im_install_name img = name)"

lemma registry_ok_empty: "registry_ok no_exports"
  by (simp add: registry_ok_def no_exports_def)

lemma Add_registry_ok:
  assumes ok: "registry_ok g" and add: "Add img bridge g = Inr g'"
  shows "registry_ok g'"
proof -
  have g': "g' = g\<lparr>ge_by_name := (if im_install_name img = [] then ge_by_name g
                                  else omap_emplace (im_install_name img) img (ge_by_name g)),
                  ge_log := ge_log g @ add_warnings g img, ge_images := ge_images g @ [img],
                  ge_bridges := (if bridge then ge_bridges g @ [img] else ge_bridges g)\<rparr>"
    and new: "im_install_name img \<noteq> [] \<Longrightarrow> map_of (ge_by_name g) (im_install_name img) = None"
    using add by (auto simp: Add_def split: option.splits if_splits)
  then have other: "\<And>i. i \<in> set (ge_images g) \<Longrightarrow> im_install_name i = im_install_name img \<Longrightarrow> im_install_name img = []"
    using ok unfolding registry_ok_def by (metis option.distinct(1))
  show ?thesis
    using ok new other unfolding g' registry_ok_def by (auto simp: fun_upd_apply)
qed

lemma Replace_registry_ok:
  "registry_ok g \<Longrightarrow> Replace library img g = Inr g' \<Longrightarrow> registry_ok g'"
  by (auto simp: registry_ok_def Replace_def split: option.splits)

section \<open>The resolver interface\<close>

text \<open>
  What the rest of the translator relies on when it resolves binds one after the other: a lookup may
  change the state it is run on, but not what any lookup answers. So a loop of lookups gives each
  bind the answer it has in the first state.
\<close>

locale resolver =
  fixes find :: "'g \<Rightarrow> 'l \<Rightarrow> 's \<Rightarrow> 'g \<times> 'a option"
    and same :: "'g \<Rightarrow> 'g \<Rightarrow> bool"
  assumes same_refl: "same g g"
    and same_trans: "same a b \<Longrightarrow> same b c \<Longrightarrow> same a c"
    and find_same: "same g (fst (find g l s))"
    and find_answer: "same g h \<Longrightarrow> snd (find h l s) = snd (find g l s)"
begin

lemma find_after: "snd (find (fst (find g l s)) l' s') = snd (find g l' s')"
  by (rule find_answer [OF find_same])

lemma find_loop:
  "same g h \<Longrightarrow>
   same g (fst (fold (\<lambda>x (k, as). case find k (l x) (s x) of (k', a) \<Rightarrow> (k', as @ [a])) xs (h, as))) \<and>
   snd (fold (\<lambda>x (k, as). case find k (l x) (s x) of (k', a) \<Rightarrow> (k', as @ [a])) xs (h, as)) =
     as @ map (\<lambda>x. snd (find g (l x) (s x))) xs"
proof (induction xs arbitrary: h as)
  case Nil
  then show ?case by simp
next
  case (Cons x xs)
  have "same g (fst (find h (l x) (s x)))" by (rule same_trans [OF Cons.prems find_same])
  from Cons.IH [OF this] find_answer [OF Cons.prems] show ?case
    by (auto simp: split_beta)
qed

end

interpretation ge: resolver Find same_tables
  by unfold_locales (auto intro: same_tables_trans calmD [OF calm_Find])

section \<open>Properties\<close>

lemma find_level_named:
  "library \<noteq> [] \<Longrightarrow> ImageOf g library = Some img \<Longrightarrow> map_of (im_exports img) symbol = Some v \<Longrightarrow>
   find_level again g library symbol = (g, Some (host img v))"
  by (simp add: find_level_def)

lemma Find_left_level:
  obtains again where "Find_left left = find_level again"
proof (cases left)
  case 0
  then have "Find_left left = find_level None" by (simp add: fun_eq_iff)
  then show ?thesis by (rule that)
next
  case (Suc n)
  then have "Find_left left = find_level (Some (Find_left n))" by (simp add: fun_eq_iff)
  then show ?thesis by (rule that)
qed

lemma find_export_Some: "find_export imgs symbol = Some a \<Longrightarrow>
  \<exists>img \<in> set imgs. \<exists>v. map_of (im_exports img) symbol = Some v \<and> a = host img v"
  by (induction imgs) (auto split: option.splits)

text \<open>a second lookup of the same bind changes nothing and answers the same: the missing library is
  reported once, and reporting never changes an answer.\<close>

theorem Find_idempotent:
  "same_tables g (fst (Find g library symbol)) \<and>
   Find (fst (Find g library symbol)) library symbol = Find g library symbol"
proof -
  let ?g = "fst (Find g library symbol)"
  have "same_tables g ?g" by (rule ge.find_same)
  moreover have "snd (Find ?g library symbol) = snd (Find g library symbol)" by (rule ge.find_after)
  moreover have "fst (Find ?g library symbol) = ?g"
    by (rule calmD(4) [OF calm_Find ge.find_same]) simp
  ultimately show ?thesis by (metis prod.collapse)
qed


text \<open>a bind to a library no guest image is, and no one replaced, is never answered by an ordinary guest image:
  only a bridge image may define it, so a host framework's class is not taken by a guest that defines one of
  the same name.\<close>

theorem Find_host_library:
  assumes "library \<noteq> []" and "ImageOf g library = None"
  shows "Found g library symbol = find_export (ge_bridges g) symbol"
proof -
  have "ge_bridges (report_unknown library g) = ge_bridges g" by (simp add: report_unknown_def)
  then have "snd (find_level again g library symbol) = find_export (ge_bridges g) symbol" for again
    using assms by (simp add: find_level_def Let_def)
  then show ?thesis
    using Find_left_level [of kMaxReexportDepth] by (metis Find_def Found_def)
qed

text \<open>The images a lookup may take an answer from.\<close>

definition answer_known :: "GuestExports \<Rightarrow> u64 option \<Rightarrow> bool" where
  "answer_known g r \<longleftrightarrow>
     (\<forall>a. r = Some a \<longrightarrow> (\<exists>img \<in> set (ge_images g). \<exists>name v. map_of (im_exports img) name = Some v \<and> a = host img v))"

definition registered :: "GuestExports \<Rightarrow> bool" where
  "registered g \<longleftrightarrow> registry_ok g \<and> (\<forall>library img. map_of (ge_replaced g) library = Some img \<longrightarrow> img \<in> set (ge_images g))"

lemma registered_ImageOf: "registered g \<Longrightarrow> ImageOf g library = Some img \<Longrightarrow> img \<in> set (ge_images g)"
  by (auto simp: registered_def registry_ok_def ImageOf_def split: option.splits)

lemma answer_known_export:
  "set imgs \<subseteq> set (ge_images g) \<Longrightarrow> answer_known g (find_export imgs symbol)"
  unfolding answer_known_def using find_export_Some by blast

definition sound :: "GuestExports \<Rightarrow> lookup \<Rightarrow> bool" where
  "sound g f \<longleftrightarrow> (\<forall>h library symbol. same_tables g h \<longrightarrow>
     answer_known g (snd (f h library symbol)) \<and> same_tables g (fst (f h library symbol)))"

lemma sound_find_whole:
  "sound g f \<Longrightarrow> same_tables g h \<Longrightarrow>
   answer_known g (snd (find_whole f symbol h libs)) \<and> same_tables g (fst (find_whole f symbol h libs))"
proof (induction libs arbitrary: h)
  case Nil
  then show ?case by (simp add: answer_known_def)
next
  case (Cons whole rest)
  obtain h' r where f: "f h whole symbol = (h', r)" by fastforce
  then have "answer_known g r" "same_tables g h'"
    using Cons.prems unfolding sound_def by (metis snd_conv, metis fst_conv)
  with Cons f show ?case by (auto split: option.split)
qed

lemma sound_find_reexported:
  assumes "sound g f" and "same_tables g h"
  shows "answer_known g (snd (find_reexported f h img symbol)) \<and> same_tables g (fst (find_reexported f h img symbol))"
proof -
  obtain h' r where f: "find_sent f h img symbol = (h', r)" by fastforce
  have "answer_known g r \<and> same_tables g h'"
  proof (cases "map_of (im_reexports img) symbol")
    case None
    with f assms(2) show ?thesis by (auto simp: find_sent_def answer_known_def)
  next
    case (Some sent)
    with f have "f h (reexport_library sent) (reexport_symbol sent) = (h', r)" by (simp add: find_sent_def)
    with assms show ?thesis unfolding sound_def by (metis fst_conv snd_conv)
  qed
  with f sound_find_whole [OF assms(1)] show ?thesis
    by (auto simp: find_reexported_def split: option.split)
qed

lemma sound_find_level:
  assumes reg: "registered g" and again: "\<And>f. again = Some f \<Longrightarrow> sound g f"
  shows "sound g (find_level again)"
  unfolding sound_def
proof (intro allI impI)
  fix h library symbol
  assume s: "same_tables g h"
  have imgs: "ge_images h = ge_images g" "set (ge_bridges g) \<subseteq> set (ge_images g)"
    using s reg by (simp_all add: same_tables_def registered_def registry_ok_def)
  have br: "same_tables g k \<Longrightarrow> answer_known g (find_export (ge_bridges k) symbol)" for k
    using imgs(2) by (simp add: same_tables_def answer_known_export)
  show "answer_known g (snd (find_level again h library symbol)) \<and> same_tables g (fst (find_level again h library symbol))"
  proof (cases "library = []")
    case True
    with s show ?thesis by (simp add: find_level_def imgs(1) answer_known_export)
  next
    case False
    show ?thesis
    proof (cases "ImageOf h library")
      case None
      have "same_tables g (report_unknown library h)"
        by (rule same_tables_trans [OF s report_unknown_tables])
      with None False br show ?thesis by (simp add: find_level_def Let_def)
    next
      case (Some img)
      then have img: "img \<in> set (ge_images g)"
        using registered_ImageOf [OF reg] same_tables_ImageOf [OF s] by metis
      obtain h' r where sub: "(case again of None \<Rightarrow> (h, None) | Some f \<Rightarrow> find_reexported f h img symbol) = (h', r)"
        by fastforce
      have "answer_known g r \<and> same_tables g h'"
      proof (cases again)
        case None
        with sub s show ?thesis by (auto simp: answer_known_def)
      next
        case (Some f)
        with sub sound_find_reexported [OF again [OF Some] s, of img symbol] show ?thesis by simp
      qed
      with Some False sub img br show ?thesis
        by (auto simp: find_level_def s answer_known_def split: option.split)
    qed
  qed
qed

lemma sound_Find_left: "registered g \<Longrightarrow> sound g (Find_left left)"
proof (induction left)
  case 0
  have "Find_left 0 = find_level None" by (simp add: fun_eq_iff)
  then show ?case using sound_find_level [OF 0, of None] by simp
next
  case (Suc left)
  have "Find_left (Suc left) = find_level (Some (Find_left left))" by (simp add: fun_eq_iff)
  then show ?case using sound_find_level [OF Suc.prems, of "Some (Find_left left)"] Suc by simp
qed


text \<open>
  Re-export chains, as the export tries spell them: \<open>leads g n library symbol a\<close> when \<open>n\<close> symbol-level
  re-exports send the name to an image that defines it, at host address \<open>a\<close>.
\<close>

inductive leads :: "GuestExports \<Rightarrow> nat \<Rightarrow> string \<Rightarrow> string \<Rightarrow> u64 \<Rightarrow> bool" for g where
  own: "library \<noteq> [] \<Longrightarrow> ImageOf g library = Some img \<Longrightarrow> map_of (im_exports img) symbol = Some v \<Longrightarrow>
     leads g 0 library symbol (host img v)"
| sent: "library \<noteq> [] \<Longrightarrow> ImageOf g library = Some img \<Longrightarrow> map_of (im_exports img) symbol = None \<Longrightarrow>
     map_of (im_reexports img) symbol = Some r \<Longrightarrow>
     leads g n (reexport_library r) (reexport_symbol r) a \<Longrightarrow> leads g (Suc n) library symbol a"

inductive_cases leads_Suc: "leads g (Suc n) library symbol a"

lemma leads_Find_left: "leads g n library symbol a \<Longrightarrow> n \<le> left \<Longrightarrow> snd (Find_left left g library symbol) = Some a"
proof (induction arbitrary: left rule: leads.induct)
  case (own library img symbol v)
  then show ?case using Find_left_level [of left] by (metis find_level_named snd_conv)
next
  case (sent library img symbol r n a)
  then obtain l where left: "left = Suc l" "n \<le> l" by (cases left) auto
  obtain g' where g': "Find_left l g (reexport_library r) (reexport_symbol r) = (g', Some a)"
    using sent.IH [OF left(2)] by (metis prod.collapse)
  then show ?case
    using sent left by (simp add: find_level_def find_reexported_def find_sent_def)
qed

text \<open>a chain of at most eight symbol re-exports is followed to the definition, which is how libc++ hands
  out libc++abi's operators.\<close>

theorem Find_follows_reexports:
  assumes "leads g n library symbol a" and "n \<le> 8"
  shows "Found g library symbol = Some a"
  using leads_Find_left [OF assms(1), of kMaxReexportDepth] assms(2)
  by (simp add: Found_def Find_def kMaxReexportDepth_def)

text \<open>The registries the driver can build.\<close>

inductive registry_built :: "GuestExports \<Rightarrow> bool" where
  none: "registry_built no_exports"
| add: "registry_built g \<Longrightarrow> Add img bridge g = Inr g' \<Longrightarrow> registry_built g'"
| replace: "registry_built g \<Longrightarrow> img \<in> set (ge_images g) \<Longrightarrow> Replace library img g = Inr g' \<Longrightarrow> registry_built g'"

text \<open>C3: a registry built by \<open>Add\<close> and \<open>Replace\<close> is consistent: the name table holds exactly the named
  images, no two registered images share an install name, and every replacement is a registered image.\<close>

theorem registry_built_consistent:
  assumes "registry_built g"
  shows "registered g \<and>
    (\<forall>i \<in> set (ge_images g). \<forall>j \<in> set (ge_images g).
       im_install_name i = im_install_name j \<and> im_install_name i \<noteq> [] \<longrightarrow> i = j)"
proof -
  from assms have "registered g"
  proof (induction rule: registry_built.induct)
    case none
    then show ?case using registry_ok_empty by (simp add: registered_def) (simp add: no_exports_def)
  next
    case (add g img bridge g')
    then have "ge_replaced g' = ge_replaced g" "set (ge_images g) \<subseteq> set (ge_images g')"
      by (auto simp: Add_def split: option.splits)
    with add Add_registry_ok [OF _ add.hyps(2)] show ?case by (auto simp: registered_def)
  next
    case (replace g img library g')
    with Replace_registry_ok [OF _ replace.hyps(3)] show ?case
      by (auto simp: registered_def Replace_def split: option.splits if_splits)
  qed
  moreover from this have "\<forall>i \<in> set (ge_images g). \<forall>j \<in> set (ge_images g).
      im_install_name i = im_install_name j \<and> im_install_name i \<noteq> [] \<longrightarrow> i = j"
    unfolding registered_def registry_ok_def by (metis option.inject)
  ultimately show ?thesis by blast
qed

text \<open>the invoker is told of every ambiguity: \<open>Add\<close> refuses exactly an image whose install name is taken, and
  \<open>Replace\<close> exactly a library that is an image's own install name or is already replaced.\<close>

theorem registry_refusals:
  "((\<exists>e. Add img bridge g = Inl e) \<longleftrightarrow>
      im_install_name img \<noteq> [] \<and> im_install_name img \<in> dom (map_of (ge_by_name g))) \<and>
   ((\<exists>e. Replace library img g = Inl e) \<longleftrightarrow>
      library \<in> dom (map_of (ge_by_name g)) \<union> dom (map_of (ge_replaced g)))"
  by (auto simp: Add_def Replace_def split: option.splits)

section \<open>A concrete registry\<close>

text \<open>Two images: an application library that re-exports \<open>_free\<close> from the C++ ABI library, which defines it.\<close>

definition abi_object :: macho_object where
  "abi_object = \<lparr>obj_data = [], obj_is64 = True, obj_cputype = CPU_TYPE_ARM64, obj_flags = 0x80,
     load_commands = [], obj_symbols = [], indirect_symbol = (\<lambda>_. 0), rebase_table = ([], None),
     bind_table = ([], None), lazy_bind_table = ([], None), weak_bind_table = ([], None),
     fixup_table = ([], None), export_trie = ([], None)\<rparr>"

definition abi_image :: Image where
  "abi_image = (new_image ''abi.dylib'' abi_object)\<lparr>im_install_name := ''@rpath/abi.dylib'',
     im_slide := 0x1000, im_exports := [(''_free'', 0x20)]\<rparr>"

definition cxx_image :: Image where
  "cxx_image = (new_image ''cxx.dylib'' abi_object)\<lparr>im_install_name := ''@rpath/cxx.dylib'',
     im_reexports := [(''_free'', \<lparr>reexport_library = ''@rpath/abi.dylib'', reexport_symbol = ''_free''\<rparr>)]\<rparr>"

definition demo_registry :: GuestExports where
  "demo_registry = \<lparr>ge_images = [cxx_image, abi_image], ge_bridges = [],
     ge_by_name = [(''@rpath/abi.dylib'', abi_image), (''@rpath/cxx.dylib'', cxx_image)],
     ge_replaced = [], ge_reported = [], ge_log = []\<rparr>"

lemmas demo_defs = demo_registry_def abi_image_def cxx_image_def new_image_def

lemma demo_built: "registry_built demo_registry"
proof -
  have a: "Add cxx_image False no_exports = Inr \<lparr>ge_images = [cxx_image], ge_bridges = [],
      ge_by_name = [(''@rpath/cxx.dylib'', cxx_image)], ge_replaced = [], ge_reported = [], ge_log = []\<rparr>"
    by (simp add: Add_def no_exports_def add_warnings_def cxx_image_def new_image_def omap_emplace_def)
  have "''@rpath/abi.dylib'' < ''@rpath/cxx.dylib''" by (simp add: less_char_def)
  then have b: "Add abi_image False \<lparr>ge_images = [cxx_image], ge_bridges = [],
      ge_by_name = [(''@rpath/cxx.dylib'', cxx_image)], ge_replaced = [], ge_reported = [], ge_log = []\<rparr> =
      Inr demo_registry"
    by (simp add: Add_def add_warnings_def starts_with_def demo_defs omap_emplace_def)
  show ?thesis
    by (rule registry_built.add [OF registry_built.add [OF registry_built.none a] b])
qed

lemma demo_leads: "leads demo_registry 1 ''@rpath/cxx.dylib'' ''_free'' 0x1020"
proof -
  have "leads demo_registry 0 ''@rpath/abi.dylib'' ''_free'' (host abi_image 0x20)"
    by (rule leads.own) (simp_all add: ImageOf_def demo_defs)
  then have "leads demo_registry (Suc 0) ''@rpath/cxx.dylib'' ''_free'' (host abi_image 0x20)"
    by (intro leads.sent [where img = cxx_image
        and r = "\<lparr>reexport_library = ''@rpath/abi.dylib'', reexport_symbol = ''_free''\<rparr>"])
      (simp_all add: ImageOf_def demo_defs)
  then show ?thesis by (simp add: host_def abi_image_def new_image_def)
qed

theorem registry_built_consistent_witness: "registered demo_registry"
  using registry_built_consistent [OF demo_built] by blast

lemma demo_registered: "registered demo_registry"
proof -
  have "registry_ok demo_registry"
    by (auto simp: registry_ok_def omap_ok_def less_char_def demo_defs)
  then show ?thesis by (simp add: registered_def demo_registry_def)
qed

theorem Find_follows_reexports_witness: "Found demo_registry ''@rpath/cxx.dylib'' ''_free'' = Some 0x1020"
  by (rule Find_follows_reexports [OF demo_leads]) simp



theorem Find_host_library_witness: "Found demo_registry ''/System/Library/Foundation'' ''_free'' = None"
proof -
  have h: "''/System/Library/Foundation'' \<noteq> []" "ImageOf demo_registry ''/System/Library/Foundation'' = None"
    by (simp_all add: ImageOf_def demo_registry_def)
  from Find_host_library [OF h] show ?thesis by (simp add: demo_registry_def)
qed

end
