(* ===== verification/Dataflow.thy ===== *)
theory Dataflow
  imports Prelude
begin

text \<open>
  The worklist loop the thread-data scan runs (\<open>FunctionAnalysis::Solve\<close> in
  \<open>xlate/src/tsd_scan.cpp\<close>), with the merge, the comparison and the block transfer as arguments,
  and the theory of it: it ends, what it leaves is a fixpoint, and that fixpoint covers every path.
  The transfer of a block also yields records (call sites), which the loop collects in the order
  it visits the blocks.
\<close>

section \<open>The loop\<close>

text \<open>One successor: merge, and when that changed its state, store it and push the block.\<close>

definition flow_to :: "('s \<Rightarrow> 's \<Rightarrow> 's) \<Rightarrow> ('s \<Rightarrow> 's \<Rightarrow> bool) \<Rightarrow> 's \<Rightarrow> nat \<Rightarrow> 's list \<times> nat list \<Rightarrow> 's list \<times> nat list" where
  "flow_to merge differs out s = (\<lambda>(ins, work).
     (let merged = merge (ins ! s) out
      in if differs (ins ! s) merged then (ins[s := merged], s # work) else (ins, work)))"

partial_function (option) worklist ::
  "('s \<Rightarrow> 's \<Rightarrow> 's) \<Rightarrow> ('s \<Rightarrow> 's \<Rightarrow> bool) \<Rightarrow> (nat \<Rightarrow> 's \<Rightarrow> 's \<times> 'c list) \<Rightarrow> (nat \<Rightarrow> nat list) \<Rightarrow>
   's list \<Rightarrow> nat list \<Rightarrow> 'c list \<Rightarrow> ('s list \<times> 'c list) option" where
  "worklist merge differs transfer succs ins work calls =
     (if work = [] then Some (ins, calls)
      else worklist merge differs transfer succs
             (fst (fold (flow_to merge differs (fst (transfer (hd work) (ins ! hd work)))) (succs (hd work)) (ins, tl work)))
             (snd (fold (flow_to merge differs (fst (transfer (hd work) (ins ! hd work)))) (succs (hd work)) (ins, tl work)))
             (calls @ snd (transfer (hd work) (ins ! hd work))))"

section \<open>Paths\<close>

text \<open>The state a path of blocks leaves in front of its last block, from a state in front of its first.\<close>

fun is_path :: "(nat \<Rightarrow> nat list) \<Rightarrow> nat list \<Rightarrow> bool" where
  "is_path succs (b # c # p) \<longleftrightarrow> c \<in> set (succs b) \<and> is_path succs (c # p)"
| "is_path succs p \<longleftrightarrow> True"

fun along :: "(nat \<Rightarrow> 's \<Rightarrow> 's \<times> 'c list) \<Rightarrow> nat list \<Rightarrow> 's \<Rightarrow> 's" where
  "along transfer (b # c # p) s = along transfer (c # p) (fst (transfer b s))"
| "along transfer p s = s"

section \<open>What one visit does\<close>

locale worklist_solver =
  fixes merge :: "'s \<Rightarrow> 's \<Rightarrow> 's" and differs :: "'s \<Rightarrow> 's \<Rightarrow> bool"
    and transfer :: "nat \<Rightarrow> 's \<Rightarrow> 's \<times> 'c list" and succs :: "nat \<Rightarrow> nat list"
    and n :: nat and le :: "'s \<Rightarrow> 's \<Rightarrow> bool" and height :: "'s \<Rightarrow> nat"
  assumes le_refl: "le a a"
    and le_trans: "le a b \<Longrightarrow> le b c \<Longrightarrow> le a c"
    and merge_left: "le a (merge a b)"
    and merge_right: "le b (merge a b)"
    and same_le: "\<not> differs a (merge a b) \<Longrightarrow> le b a"
    and height_less: "differs a (merge a b) \<Longrightarrow> height (merge a b) < height a"
    and succs_range: "i < n \<Longrightarrow> j \<in> set (succs i) \<Longrightarrow> j < n"
    and transfer_mono: "le a b \<Longrightarrow> le (fst (transfer x a)) (fst (transfer x b))"
begin

text \<open>
  After flowing \<open>out\<close> into the successors: no state shrank, each successor is above \<open>out\<close>, the blocks whose
  state changed are on the list, the list only grew by successors, and the measure fell or nothing was pushed.
\<close>

definition flowed :: "'s \<Rightarrow> nat list \<Rightarrow> 's list \<Rightarrow> nat list \<Rightarrow> 's list \<Rightarrow> nat list \<Rightarrow> bool" where
  "flowed out ss ins work ins' work' \<longleftrightarrow> length ins' = n \<and> (\<forall>b < n. le (ins ! b) (ins' ! b)) \<and>
     (\<forall>s \<in> set ss. le out (ins' ! s)) \<and> (\<forall>b < n. ins' ! b = ins ! b \<or> b \<in> set work') \<and>
     set work \<subseteq> set work' \<and> set work' \<subseteq> set work \<union> set ss \<and>
     (sum_list (map height ins') < sum_list (map height ins) \<or> (ins' = ins \<and> work' = work))"

lemma flow_one:
  assumes len: "length ins = n" and s: "s < n"
  obtains ins' work' where "flow_to merge differs out s (ins, work) = (ins', work')"
    and "flowed out [s] ins work ins' work'"
proof (cases "differs (ins ! s) (merge (ins ! s) out)")
  case False
  then have "flow_to merge differs out s (ins, work) = (ins, work)" by (simp add: flow_to_def Let_def)
  moreover have "flowed out [s] ins work ins work"
    using len same_le [OF False] by (auto simp: flowed_def le_refl)
  ultimately show ?thesis by (rule that)
next
  case True
  let ?m = "merge (ins ! s) out"
  have "flow_to merge differs out s (ins, work) = (ins[s := ?m], s # work)"
    using True by (simp add: flow_to_def Let_def)
  moreover have "sum_list (map height (ins[s := ?m])) < sum_list (map height ins)"
  proof -
    have "height (ins ! s) \<le> sum_list (map height ins)"
      using s len by (intro member_le_sum_list) auto
    then show ?thesis
      using height_less [OF True] s len by (simp add: map_update sum_list_update)
  qed
  then have "flowed out [s] ins work (ins[s := ?m]) (s # work)"
    using len s by (auto simp: flowed_def nth_list_update le_refl merge_left merge_right)
  ultimately show ?thesis by (rule that)
qed

lemma flowed_trans:
  assumes "flowed out [s] ins work ins1 work1" and "flowed out ss ins1 work1 ins2 work2" and "s < n"
  shows "flowed out (s # ss) ins work ins2 work2"
proof -
  have a: "\<forall>b < n. le (ins ! b) (ins2 ! b)" "le out (ins2 ! s)"
    using assms le_trans unfolding flowed_def by (blast, metis list.set_intros(1))
  have b: "\<forall>b < n. ins2 ! b = ins ! b \<or> b \<in> set work2"
    using assms unfolding flowed_def by (metis subsetD)
  show ?thesis
    using assms a b unfolding flowed_def by auto
qed

lemma flow_all:
  assumes "length ins = n" and "\<forall>s \<in> set ss. s < n"
  obtains ins' work' where "fold (flow_to merge differs out) ss (ins, work) = (ins', work')"
    and "flowed out ss ins work ins' work'"
  using assms
proof (induction ss arbitrary: ins work thesis)
  case Nil
  then show ?case by (simp add: flowed_def le_refl)
next
  case (Cons s ss)
  have s: "s < n" "\<forall>s \<in> set ss. s < n" using Cons.prems(3) by auto
  obtain ins1 work1 where one: "flow_to merge differs out s (ins, work) = (ins1, work1)"
    "flowed out [s] ins work ins1 work1"
    by (rule flow_one [OF Cons.prems(2) s(1)])
  obtain ins2 work2 where rest: "fold (flow_to merge differs out) ss (ins1, work1) = (ins2, work2)"
    "flowed out ss ins1 work1 ins2 work2"
    using Cons.IH [of ins1 work1] one(2) s(2) by (auto simp: flowed_def)
  show ?case
    by (rule Cons.prems(1)) (use one rest in simp, rule flowed_trans [OF one(2) rest(2) s(1)])
qed

section \<open>The loop ends\<close>

lemma worklist_step:
  "work \<noteq> [] \<Longrightarrow> transfer (hd work) (ins ! hd work) = (out, cs) \<Longrightarrow>
   fold (flow_to merge differs out) (succs (hd work)) (ins, tl work) = (ins', work') \<Longrightarrow>
   worklist merge differs transfer succs ins work calls = worklist merge differs transfer succs ins' work' (calls @ cs)"
  by (subst worklist.simps) simp

lemma worklist_returns:
  "length ins = n \<Longrightarrow> set work \<subseteq> {..<n} \<Longrightarrow> \<exists>r. worklist merge differs transfer succs ins work calls = Some r"
proof (induction "(ins, work)" arbitrary: ins work calls
    rule: wf_induct [OF wf_measures [of "[\<lambda>(ins, work). sum_list (map height ins), \<lambda>(ins, work). length work]"]])
  case 1
  show ?case
  proof (cases work)
    case Nil
    then show ?thesis by (subst worklist.simps) simp
  next
    case (Cons b rest)
    obtain out cs where t: "transfer b (ins ! b) = (out, cs)" by fastforce
    have ss: "\<forall>s \<in> set (succs b). s < n" using 1(3) Cons succs_range by auto
    obtain ins' work' where f: "fold (flow_to merge differs out) (succs b) (ins, rest) = (ins', work')"
      "flowed out (succs b) ins rest ins' work'"
      by (rule flow_all [OF 1(2) ss])
    have step: "worklist merge differs transfer succs ins work calls =
        worklist merge differs transfer succs ins' work' (calls @ cs)"
      using Cons t f(1) by (intro worklist_step) simp_all
    have "length ins' = n" "set work' \<subseteq> {..<n}"
      using f(2) ss 1(3) Cons unfolding flowed_def by auto
    moreover have "((ins', work'), (ins, work)) \<in> measures
        [\<lambda>(ins, work). sum_list (map height ins), \<lambda>(ins, work). length work]"
      using f(2) Cons unfolding flowed_def by auto
    ultimately show ?thesis using 1(1) step by auto
  qed
qed

section \<open>What it leaves is a fixpoint above its start\<close>

text \<open>
  A block that is not on the list has been visited in the state it now has: what it leaves has reached
  its successors, and its records have been collected.
\<close>

definition settled :: "'s list \<Rightarrow> nat list \<Rightarrow> 'c list \<Rightarrow> bool" where
  "settled ins work calls \<longleftrightarrow> (\<forall>b < n. b \<in> set work \<or>
     (\<forall>s \<in> set (succs b). le (fst (transfer b (ins ! b))) (ins ! s)) \<and> set (snd (transfer b (ins ! b))) \<subseteq> set calls)"

lemma settled_visit:
  assumes inv: "settled ins (b # rest) calls" and b: "b < n"
    and f: "flowed (fst (transfer b (ins ! b))) (succs b) ins rest ins' work'"
  shows "settled ins' work' (calls @ snd (transfer b (ins ! b)))"
  unfolding settled_def
proof (intro allI impI)
  fix c
  assume c: "c < n"
  show "c \<in> set work' \<or> (\<forall>s \<in> set (succs c). le (fst (transfer c (ins' ! c))) (ins' ! s)) \<and>
    set (snd (transfer c (ins' ! c))) \<subseteq> set (calls @ snd (transfer b (ins ! b)))"
  proof (cases "c \<in> set work'")
    case False
    then have same: "ins' ! c = ins ! c" "c \<notin> set rest" using f c unfolding flowed_def by auto
    have "le (fst (transfer c (ins ! c))) (ins' ! s)" if s: "s \<in> set (succs c)" for s
    proof (cases "c = b")
      case True
      then show ?thesis using f s unfolding flowed_def by simp
    next
      case False
      then have "le (fst (transfer c (ins ! c))) (ins ! s)"
        using inv c same s unfolding settled_def by auto
      moreover have "le (ins ! s) (ins' ! s)" using f succs_range [OF c s] unfolding flowed_def by simp
      ultimately show ?thesis by (rule le_trans)
    qed
    moreover have "set (snd (transfer c (ins ! c))) \<subseteq> set (calls @ snd (transfer b (ins ! b)))"
      using inv c same unfolding settled_def by (cases "c = b") auto
    ultimately show ?thesis using same by simp
  qed simp
qed

lemma worklist_fixpoint:
  "length ins = n \<Longrightarrow> set work \<subseteq> {..<n} \<Longrightarrow> settled ins work calls \<Longrightarrow>
   worklist merge differs transfer succs ins work calls = Some (ins', cs') \<Longrightarrow>
   length ins' = n \<and> settled ins' [] cs' \<and> (\<forall>b < n. le (ins ! b) (ins' ! b))"
proof (induction "(ins, work)" arbitrary: ins work calls
    rule: wf_induct [OF wf_measures [of "[\<lambda>(ins, work). sum_list (map height ins), \<lambda>(ins, work). length work]"]])
  case 1
  show ?case
  proof (cases work)
    case Nil
    with 1(2-5) show ?thesis by (subst (asm) worklist.simps) (simp add: le_refl)
  next
    case (Cons b rest)
    obtain out cs where t: "transfer b (ins ! b) = (out, cs)" by fastforce
    have b: "b < n" using 1(3) Cons by simp
    have ss: "\<forall>s \<in> set (succs b). s < n" using b succs_range by auto
    obtain ins1 work1 where f: "fold (flow_to merge differs out) (succs b) (ins, rest) = (ins1, work1)"
      "flowed out (succs b) ins rest ins1 work1"
      by (rule flow_all [OF 1(2) ss])
    have step: "worklist merge differs transfer succs ins work calls =
        worklist merge differs transfer succs ins1 work1 (calls @ cs)"
      using Cons t f(1) by (intro worklist_step) simp_all
    have w: "length ins1 = n" "set work1 \<subseteq> {..<n}" "\<forall>b < n. le (ins ! b) (ins1 ! b)"
      using f(2) ss 1(3) Cons unfolding flowed_def by auto
    have set1: "settled ins1 work1 (calls @ cs)"
      using settled_visit [OF _ b, of ins rest calls ins1 work1] 1(4) f(2) t Cons by simp
    have "((ins1, work1), (ins, work)) \<in> measures
        [\<lambda>(ins, work). sum_list (map height ins), \<lambda>(ins, work). length work]"
      using f(2) Cons unfolding flowed_def by auto
    then have "length ins' = n \<and> settled ins' [] cs' \<and> (\<forall>b < n. le (ins1 ! b) (ins' ! b))"
      using 1(1) w(1,2) set1 1(5) step by auto
    with w(3) le_trans show ?thesis by blast
  qed
qed

section \<open>An invariant of the states\<close>

lemma flow_inv:
  "length ins = n \<Longrightarrow> \<forall>j \<in> set ss. j < n \<Longrightarrow> \<forall>b < n. I b (ins ! b) \<Longrightarrow>
   (\<And>j t. j \<in> set ss \<Longrightarrow> I j t \<Longrightarrow> I j (merge t out)) \<Longrightarrow>
   fold (flow_to merge differs out) ss (ins, work) = (ins', work') \<Longrightarrow> \<forall>b < n. I b (ins' ! b)"
proof (induction ss arbitrary: ins work)
  case Nil
  then show ?case by simp
next
  case (Cons s ss)
  have "I s (merge (ins ! s) out)" using Cons.prems by simp
  then have one: "\<forall>b < n. I b (fst (flow_to merge differs out s (ins, work)) ! b)"
    "length (fst (flow_to merge differs out s (ins, work))) = n"
    using Cons.prems by (auto simp: flow_to_def Let_def nth_list_update)
  show ?case
    by (rule Cons.IH [of "fst (flow_to merge differs out s (ins, work))" "snd (flow_to merge differs out s (ins, work))"])
       (use one Cons.prems in auto)
qed

lemma worklist_inv:
  "length ins = n \<Longrightarrow> set work \<subseteq> {..<n} \<Longrightarrow> \<forall>b < n. I b (ins ! b) \<Longrightarrow>
   \<forall>b < n. \<forall>j \<in> set (succs b). \<forall>s t. I b s \<longrightarrow> I j t \<longrightarrow> I j (merge t (fst (transfer b s))) \<Longrightarrow>
   worklist merge differs transfer succs ins work calls = Some (ins', cs') \<Longrightarrow> \<forall>b < n. I b (ins' ! b)"
proof (induction "(ins, work)" arbitrary: ins work calls
    rule: wf_induct [OF wf_measures [of "[\<lambda>(ins, work). sum_list (map height ins), \<lambda>(ins, work). length work]"]])
  case 1
  show ?case
  proof (cases work)
    case Nil
    with 1(2-6) show ?thesis by (subst (asm) worklist.simps) simp
  next
    case (Cons b rest)
    obtain out cs where t: "transfer b (ins ! b) = (out, cs)" by fastforce
    have b: "b < n" using 1(3) Cons by simp
    have ss: "\<forall>s \<in> set (succs b). s < n" using b succs_range by auto
    obtain ins1 work1 where f: "fold (flow_to merge differs out) (succs b) (ins, rest) = (ins1, work1)"
      "flowed out (succs b) ins rest ins1 work1"
      by (rule flow_all [OF 1(2) ss])
    have step: "worklist merge differs transfer succs ins work calls =
        worklist merge differs transfer succs ins1 work1 (calls @ cs)"
      using Cons t f(1) by (intro worklist_step) simp_all
    have w: "length ins1 = n" "set work1 \<subseteq> {..<n}"
      using f(2) ss 1(3) Cons unfolding flowed_def by auto
    have "I j (merge x out)" if "j \<in> set (succs b)" "I j x" for j x
      using 1(5) 1(4) b t that by (metis fst_conv)
    then have inv: "\<forall>b < n. I b (ins1 ! b)"
      using flow_inv [where I = I, OF 1(2) ss 1(4) _ f(1)] by blast
    have "((ins1, work1), (ins, work)) \<in> measures
        [\<lambda>(ins, work). sum_list (map height ins), \<lambda>(ins, work). length work]"
      using f(2) Cons unfolding flowed_def by auto
    then show ?thesis
      using 1(1) w inv 1(5) 1(6) step by auto
  qed
qed

section \<open>The fixpoint covers every path\<close>

lemma path_covered:
  "settled ins' [] cs' \<Longrightarrow> b < n \<Longrightarrow> is_path succs (b # p) \<Longrightarrow> le s (ins' ! b) \<Longrightarrow>
   last (b # p) < n \<and> le (along transfer (b # p) s) (ins' ! last (b # p))"
proof (induction p arbitrary: b s)
  case Nil
  then show ?case by simp
next
  case (Cons c p)
  then have c: "c \<in> set (succs b)" "is_path succs (c # p)" by simp_all
  have "le (fst (transfer b s)) (fst (transfer b (ins' ! b)))"
    by (rule transfer_mono [OF Cons.prems(4)])
  moreover have "le (fst (transfer b (ins' ! b))) (ins' ! c)"
    using Cons.prems(1,2) c(1) unfolding settled_def by simp
  ultimately have "le (fst (transfer b s)) (ins' ! c)" by (rule le_trans)
  from Cons.IH [OF Cons.prems(1) succs_range [OF Cons.prems(2) c(1)] c(2) this] show ?case by simp
qed

end

end
