(* ===== verification/TsdScan.thy ===== *)
theory TsdScan
  imports Macho Dataflow
begin

text \<open>
  The thread-data scan, \<open>xlate/src/tsd_scan.h\<close> and \<open>xlate/src/tsd_scan.cpp\<close>: a forward
  data-flow analysis over each function that reads \<open>TPIDRRO_EL0\<close>, and the seed propagation across
  calls. The instruction decoder (farmdec) is a library: an instruction is the record of the fields
  the scan reads, and the decoder, its two accessors and its two enumeration constants are the
  argument \<open>farmdec\<close>.
\<close>

section \<open>Instructions\<close>

datatype (plugins only: code size) Op =
    A64_ERROR | A64_UNKNOWN
  | A64_LD1_MULT | A64_ST1_MULT | A64_LD2_MULT | A64_ST2_MULT | A64_LD3_MULT | A64_ST3_MULT
  | A64_LD4_MULT | A64_ST4_MULT | A64_LD1_SINGLE | A64_ST1_SINGLE | A64_LD2_SINGLE | A64_ST2_SINGLE
  | A64_LD3_SINGLE | A64_ST3_SINGLE | A64_LD4_SINGLE | A64_ST4_SINGLE
  | A64_LD1R | A64_LD2R | A64_LD3R | A64_LD4R | A64_LDNP_FP | A64_STNP_FP | A64_LDP_FP | A64_STP_FP
  | A64_LDR_FP | A64_STR_FP | A64_STNP | A64_STP | A64_STR | A64_STXR | A64_STXP
  | A64_CBZ | A64_CBNZ | A64_TBZ | A64_TBNZ | A64_LDP | A64_LDNP | A64_LDXP | A64_LDR
  | A64_BCOND | A64_B | A64_BL | A64_BR | A64_BLR | A64_RET | A64_SVC | A64_BRK | A64_HVC | A64_SMC
  | A64_DCPS1 | A64_DCPS2 | A64_DCPS3 | A64_MRS
  | A64_OTHER nat

text \<open>
  \<open>rd\<close> and \<open>rt\<close> are one union slot, and so are \<open>rm\<close>, \<open>rt2\<close> and \<open>rs\<close>. A register is a number; the
  arrays indexed by \<open>rt\<close> have 32 entries and the decoder answers at most 31 there.
\<close>

record Inst =
  op :: Op
  flags :: u8
  rd :: nat
  rn :: nat
  rm :: nat
  imm :: u64
  inst_offset :: u64

abbreviation rt :: "Inst \<Rightarrow> nat" where "rt inst \<equiv> rd inst"
abbreviation rt2 :: "Inst \<Rightarrow> nat" where "rt2 inst \<equiv> rm inst"

record farmdec =
  fad_decode :: "u32 list \<Rightarrow> Inst list"
  fad_get_cond :: "u8 \<Rightarrow> nat"
  fad_get_addrmode :: "u8 \<Rightarrow> nat"
  COND_AL :: nat
  AM_OFF_IMM :: nat
  ZERO_REG :: nat
  op_number :: "Op \<Rightarrow> nat"

section \<open>Classifying instructions\<close>

definition Hex :: "u64 \<Rightarrow> string" where
  "Hex value = ''0x'' @ hex_string (unat value)"

definition kAllowedTSDOffsets :: "u64 list" where
  "kAllowedTSDOffsets = [0x358]"

definition IsAllowedOffset :: "u64 \<Rightarrow> bool" where
  "IsAllowedOffset off \<longleftrightarrow> list_ex (\<lambda>entry. entry = off) kAllowedTSDOffsets"

definition IsVectorDestOp :: "Op \<Rightarrow> bool" where
  "IsVectorDestOp code \<longleftrightarrow> List.member
     [A64_LD1_MULT, A64_ST1_MULT, A64_LD2_MULT, A64_ST2_MULT, A64_LD3_MULT, A64_ST3_MULT,
      A64_LD4_MULT, A64_ST4_MULT, A64_LD1_SINGLE, A64_ST1_SINGLE, A64_LD2_SINGLE, A64_ST2_SINGLE,
      A64_LD3_SINGLE, A64_ST3_SINGLE, A64_LD4_SINGLE, A64_ST4_SINGLE, A64_LD1R, A64_LD2R, A64_LD3R,
      A64_LD4R, A64_LDNP_FP, A64_STNP_FP, A64_LDP_FP, A64_STP_FP, A64_LDR_FP, A64_STR_FP] code"

definition IsStoreLikeOp :: "Op \<Rightarrow> bool" where
  "IsStoreLikeOp code \<longleftrightarrow> List.member
     [A64_ST1_MULT, A64_ST2_MULT, A64_ST3_MULT, A64_ST4_MULT, A64_ST1_SINGLE, A64_ST2_SINGLE,
      A64_ST3_SINGLE, A64_ST4_SINGLE, A64_STNP, A64_STP, A64_STR, A64_STXR, A64_STXP] code"

definition IsTestBranchOp :: "Op \<Rightarrow> bool" where
  "IsTestBranchOp code \<longleftrightarrow> List.member [A64_CBZ, A64_CBNZ, A64_TBZ, A64_TBNZ] code"

definition ClobbersGPR :: "Inst \<Rightarrow> nat \<Rightarrow> bool" where
  "ClobbersGPR inst r =
     (if IsVectorDestOp (op inst) \<or> IsStoreLikeOp (op inst) \<or> IsTestBranchOp (op inst) then False
      else if List.member [A64_LDP, A64_LDNP, A64_LDXP] (op inst) then rt inst = r \<or> rt2 inst = r
      else rd inst = r)"

definition UsesReg :: "Inst \<Rightarrow> nat \<Rightarrow> bool" where
  "UsesReg inst r \<longleftrightarrow> rn inst = r \<or> rm inst = r"

definition IsBranchOp :: "Op \<Rightarrow> bool" where
  "IsBranchOp code \<longleftrightarrow> code = A64_BCOND \<or> code = A64_B \<or> code = A64_BL \<or> code = A64_BR \<or> code = A64_BLR \<or>
     IsTestBranchOp code"

definition IsIndirectBranchOp :: "Op \<Rightarrow> bool" where
  "IsIndirectBranchOp code \<longleftrightarrow> code = A64_BR \<or> code = A64_BLR"

definition IsCallOp :: "Op \<Rightarrow> bool" where
  "IsCallOp code \<longleftrightarrow> code = A64_BL \<or> code = A64_BLR"

definition IsUnconditionalOp :: "farmdec \<Rightarrow> Inst \<Rightarrow> bool" where
  "IsUnconditionalOp D inst =
     (if List.member [A64_B, A64_BR, A64_BLR] (op inst) then True
      else if op inst = A64_BCOND then fad_get_cond D (flags inst) = COND_AL D
      else False)"

definition IsNoReturnOp :: "Op \<Rightarrow> bool" where
  "IsNoReturnOp code \<longleftrightarrow> List.member
     [A64_RET, A64_SVC, A64_BRK, A64_HVC, A64_SMC, A64_DCPS1, A64_DCPS2, A64_DCPS3] code"

definition BranchTarget :: "Inst \<Rightarrow> u64 \<Rightarrow> u64 option" where
  "BranchTarget inst addr =
     (if IsIndirectBranchOp (op inst) then None
      else if op inst \<noteq> A64_B \<and> op inst \<noteq> A64_BL \<and> op inst \<noteq> A64_BCOND \<and> \<not> IsTestBranchOp (op inst)
           then None
      else Some (addr + inst_offset inst))"

lemmas op_classes = IsVectorDestOp_def IsStoreLikeOp_def IsTestBranchOp_def IsBranchOp_def
  IsIndirectBranchOp_def IsCallOp_def IsNoReturnOp_def

text \<open>An operation the scan steps over.\<close>

definition undecoded :: "Inst \<Rightarrow> bool" where
  "undecoded inst \<longleftrightarrow> op inst = A64_ERROR \<or> op inst = A64_UNKNOWN"

section \<open>Code\<close>

record FunctionRange =
  fr_start :: u64
  fr_end :: u64

definition FunctionName :: "Image \<Rightarrow> u64 \<Rightarrow> string" where
  "FunctionName img vmaddr =
     (case find (\<lambda>(name, addr). addr = vmaddr) (im_exports img) of
        Some (name, addr) \<Rightarrow> name
      | None \<Rightarrow> ''sub_'' @ drop 2 (Hex vmaddr))"

definition InDataInCode :: "DataInCodeRange list \<Rightarrow> u64 \<Rightarrow> bool" where
  "InDataInCode ranges vmaddr \<longleftrightarrow>
     list_ex (\<lambda>range. dic_vmaddr range \<le> vmaddr \<and> vmaddr < dic_vmaddr range + dic_length range) ranges"

record Code =
  section_addrs :: "u64 list"
  section_sizes :: "u64 list"
  insts :: "Inst list list"

definition Code_At :: "Code \<Rightarrow> u64 \<Rightarrow> Inst option" where
  "Code_At code addr =
     map_option (\<lambda>i. insts code ! i ! (unat (addr - section_addrs code ! i) div 4))
       (find (\<lambda>i. section_addrs code ! i \<le> addr \<and>
                  addr + 4 \<le> section_addrs code ! i + section_sizes code ! i)
          [0..<length (section_addrs code)])"

text \<open>
  The addresses of \<open>for (addr = start; addr < end; addr += 4)\<close>. The loop is bounded by \<open>end\<close>; the
  last step would wrap only for an \<open>end\<close> in the last word of the address space.
\<close>

definition addresses :: "u64 \<Rightarrow> u64 \<Rightarrow> u64 list" where
  "addresses first fin =
     (if first < fin then map (\<lambda>i. first + 4 * of_nat i) [0..<(unat fin - unat first + 3) div 4] else [])"

section \<open>The tracked registers\<close>

record State =
  tracked :: "nat \<Rightarrow> bool"
  mrs_at :: "nat \<Rightarrow> u64"

definition empty_state :: State where
  "empty_state = \<lparr>tracked = (\<lambda>r. False), mrs_at = (\<lambda>r. 0)\<rparr>"

definition MergeInto :: "bool \<Rightarrow> State \<Rightarrow> State \<Rightarrow> State" where
  "MergeInto may into other =
     \<lparr>tracked = (\<lambda>r. if may then tracked into r \<or> tracked other r else tracked into r \<and> tracked other r),
      mrs_at = (\<lambda>r. if \<not> may \<or> mrs_at into r = 0 then mrs_at other r else mrs_at into r)\<rparr>"

definition Differs :: "State \<Rightarrow> State \<Rightarrow> bool" where
  "Differs a b \<longleftrightarrow> list_ex (\<lambda>r. tracked a r \<noteq> tracked b r) [0..<32]"

definition kFirstCalleeSaved :: nat where "kFirstCalleeSaved = 19"
definition kLastCalleeSaved :: nat where "kLastCalleeSaved = 28"

definition callee_saved :: "nat \<Rightarrow> bool" where
  "callee_saved r \<longleftrightarrow> kFirstCalleeSaved \<le> r \<and> r \<le> kLastCalleeSaved"

record CallSite =
  cs_addr :: u64
  cs_target :: u64
  cs_resolvable :: bool
  cs_tracked :: "nat \<Rightarrow> bool"
  cs_mrs_at :: "nat \<Rightarrow> u64"

record Block =
  b_start :: u64
  b_end :: u64
  b_succs :: "nat list"

record FunctionResult =
  r_blocks :: "Block list"
  r_calls :: "CallSite list"
  r_violations :: "string list"

section \<open>One function\<close>

text \<open>The members a \<open>FunctionAnalysis\<close> is built from.\<close>

record FunctionAnalysis =
  fa_decoder :: farmdec
  fa_image :: Image
  fa_code :: Code
  fa_range :: FunctionRange
  fa_function_starts :: "u64 list"

definition At :: "FunctionAnalysis \<Rightarrow> u64 \<Rightarrow> Inst option" where
  "At fa addr =
     (if addr < fr_start (fa_range fa) \<or> addr + 4 > fr_end (fa_range fa) then None
      else if InDataInCode (im_data_in_code (fa_image fa)) addr then None
      else Code_At (fa_code fa) addr)"

text \<open>The instruction at an address, when it is one the scan looks at.\<close>

definition decoded_at :: "FunctionAnalysis \<Rightarrow> u64 \<Rightarrow> Inst option" where
  "decoded_at fa addr =
     (case At fa addr of Some inst \<Rightarrow> if undecoded inst then None else Some inst | None \<Rightarrow> None)"

subsection \<open>\<open>BuildBlocks\<close>\<close>

definition add_leaders :: "FunctionAnalysis \<Rightarrow> u64 \<Rightarrow> u64 list \<Rightarrow> u64 list" where
  "add_leaders fa addr leaders =
     (case decoded_at fa addr of
        None \<Rightarrow> leaders
      | Some inst \<Rightarrow>
          if \<not> IsBranchOp (op inst) \<and> \<not> IsNoReturnOp (op inst) then leaders
          else let leaders =
                     (case BranchTarget inst addr of
                        None \<Rightarrow> leaders
                      | Some target \<Rightarrow>
                          if fr_start (fa_range fa) \<le> target \<and> target + 4 \<le> fr_end (fa_range fa) \<and>
                             target mod 4 = 0
                          then oset_insert target leaders else leaders)
               in if addr + 4 < fr_end (fa_range fa) then oset_insert (addr + 4) leaders else leaders)"

definition leaders :: "FunctionAnalysis \<Rightarrow> u64 list" where
  "leaders fa = fold (add_leaders fa) (addresses (fr_start (fa_range fa)) (fr_end (fa_range fa)))
     [fr_start (fa_range fa)]"

definition index_of :: "u64 list \<Rightarrow> u64 \<Rightarrow> nat option" where
  "index_of starts target = find (\<lambda>i. starts ! i = target) [0..<length starts]"

definition add_edge :: "u64 list \<Rightarrow> u64 \<Rightarrow> nat list" where
  "add_edge starts target = (case index_of starts target of Some i \<Rightarrow> [i] | None \<Rightarrow> [])"

definition block_succs :: "FunctionAnalysis \<Rightarrow> u64 list \<Rightarrow> u64 \<Rightarrow> u64 \<Rightarrow> nat list" where
  "block_succs fa starts start fin =
     (if fin \<le> start then []
      else let last_addr = fin - 4 in
        case decoded_at fa last_addr of
          None \<Rightarrow> add_edge starts fin
        | Some last_inst \<Rightarrow>
            if IsNoReturnOp (op last_inst) then []
            else case BranchTarget last_inst last_addr of
                   Some target \<Rightarrow>
                     if IsUnconditionalOp (fa_decoder fa) last_inst then add_edge starts target
                     else add_edge starts target @ add_edge starts fin
                 | None \<Rightarrow> if IsBranchOp (op last_inst) then [] else add_edge starts fin)"

text \<open>The \<open>preds\<close> lists of the source are filled and never read; they are left out.\<close>

definition BuildBlocks :: "FunctionAnalysis \<Rightarrow> Block list" where
  "BuildBlocks fa =
     (let sorted = leaders fa;
          finof = (\<lambda>i. if i + 1 < length sorted then sorted ! (i + 1) else fr_end (fa_range fa))
      in map (\<lambda>i. \<lparr>b_start = sorted ! i, b_end = finof i,
                   b_succs = block_succs fa sorted (sorted ! i) (finof i)\<rparr>)
           [0..<length sorted])"

subsection \<open>\<open>Transfer\<close> and \<open>Solve\<close>\<close>

definition set_tracked :: "nat \<Rightarrow> bool \<Rightarrow> State \<Rightarrow> State" where
  "set_tracked r b state = state\<lparr>tracked := (tracked state)(r := b)\<rparr>"

text \<open>An \<open>mrs\<close>: 0xde83 names \<open>TPIDRRO_EL0\<close>.\<close>

definition is_tpidrro :: "Inst \<Rightarrow> bool" where
  "is_tpidrro inst \<longleftrightarrow> imm inst = 0xde83"

definition read_mrs :: "farmdec \<Rightarrow> Inst \<Rightarrow> u64 \<Rightarrow> State \<Rightarrow> State" where
  "read_mrs D inst addr state =
     (if rt inst \<noteq> ZERO_REG D
      then let state = set_tracked (rt inst) (is_tpidrro inst) state
           in if is_tpidrro inst then state\<lparr>mrs_at := (mrs_at state)(rt inst := addr)\<rparr> else state
      else state)"

text \<open>What a call does not preserve: the loop over X0 to X17, then X30.\<close>

definition forget_call :: "State \<Rightarrow> State" where
  "forget_call state = set_tracked 30 False (fold (\<lambda>r. set_tracked r False) [0..<18] state)"

definition forget_clobbered :: "Inst \<Rightarrow> State \<Rightarrow> State" where
  "forget_clobbered inst state =
     fold (\<lambda>r state. if tracked state r \<and> ClobbersGPR inst r then set_tracked r False state else state)
       [0..<31] state"

text \<open>
  The call record starts with its members at their defaults; the loop copies the callee-saved registers.
\<close>

definition call_site :: "FunctionAnalysis \<Rightarrow> Inst \<Rightarrow> u64 \<Rightarrow> State \<Rightarrow> CallSite" where
  "call_site fa inst addr state =
     (let site = \<lparr>cs_addr = addr, cs_target = 0, cs_resolvable = False,
                  cs_tracked = (\<lambda>r. callee_saved r \<and> tracked state r),
                  cs_mrs_at = (\<lambda>r. if callee_saved r then mrs_at state r else 0)\<rparr>
      in case BranchTarget inst addr of
           Some target \<Rightarrow> if target \<in> set (fa_function_starts fa)
                          then site\<lparr>cs_target := target, cs_resolvable := True\<rparr> else site
         | None \<Rightarrow> site)"

text \<open>One instruction: the state after it and the call it records.\<close>

definition step_inst :: "farmdec \<Rightarrow> Inst \<Rightarrow> u64 \<Rightarrow> State \<Rightarrow> State" where
  "step_inst D inst addr state =
     (if op inst = A64_MRS then read_mrs D inst addr state
      else forget_clobbered inst (if IsCallOp (op inst) then forget_call state else state))"

definition transfer_inst :: "FunctionAnalysis \<Rightarrow> bool \<Rightarrow> u64 \<Rightarrow> State \<times> CallSite list \<Rightarrow> State \<times> CallSite list" where
  "transfer_inst fa may addr = (\<lambda>(state, calls).
     (case decoded_at fa addr of
        None \<Rightarrow> (state, calls)
      | Some inst \<Rightarrow>
          (step_inst (fa_decoder fa) inst addr state,
           if op inst \<noteq> A64_MRS \<and> IsCallOp (op inst) \<and> \<not> may
           then calls @ [call_site fa inst addr state] else calls)))"

definition Transfer :: "FunctionAnalysis \<Rightarrow> Block list \<Rightarrow> bool \<Rightarrow> nat \<Rightarrow> State \<Rightarrow> State \<times> CallSite list" where
  "Transfer fa blocks may b state =
     fold (transfer_inst fa may) (addresses (b_start (blocks ! b)) (b_end (blocks ! b))) (state, [])"

text \<open>The states in front of the blocks, and the calls recorded on the way.\<close>

definition Solve :: "FunctionAnalysis \<Rightarrow> Block list \<Rightarrow> State \<Rightarrow> bool \<Rightarrow> (State list \<times> CallSite list) option" where
  "Solve fa blocks seed may =
     worklist (MergeInto may) Differs (Transfer fa blocks may) (\<lambda>b. b_succs (blocks ! b))
       ((replicate (length blocks) empty_state)[0 := seed]) (rev [0..<length blocks]) []"

subsection \<open>\<open>Report\<close> and \<open>Run\<close>\<close>

definition access_line :: "FunctionAnalysis \<Rightarrow> u64 \<Rightarrow> u64 \<Rightarrow> u64 \<Rightarrow> string" where
  "access_line fa addr mrs off =
     im_path (fa_image fa) @ '': '' @ FunctionName (fa_image fa) (fr_start (fa_range fa)) @ '': '' @ Hex addr @
     '': load/store off TPIDRRO_EL0 (from mrs at '' @ Hex mrs @ '') at offset '' @ Hex off @
     '', not on the audited allow-list''"

definition unmodelled_line :: "FunctionAnalysis \<Rightarrow> u64 \<Rightarrow> u64 \<Rightarrow> Inst \<Rightarrow> string" where
  "unmodelled_line fa addr mrs inst =
     im_path (fa_image fa) @ '': '' @ FunctionName (fa_image fa) (fr_start (fa_range fa)) @ '': '' @ Hex addr @
     '': register holding TPIDRRO_EL0 (from mrs at '' @ Hex mrs @
     '') used in a form this scanner does not model (opcode '' @
     dec_string (op_number (fa_decoder fa) (op inst)) @
     ''); extend xlate/src/tsd_scan.cpp to classify it, or confirm this is not a TSD access''"

definition fixed_offset_access :: "farmdec \<Rightarrow> Inst \<Rightarrow> nat \<Rightarrow> bool" where
  "fixed_offset_access D inst r \<longleftrightarrow> (op inst = A64_LDR \<or> op inst = A64_STR) \<and> rn inst = r \<and>
     fad_get_addrmode D (flags inst) = AM_OFF_IMM D"

definition report_register :: "FunctionAnalysis \<Rightarrow> Inst \<Rightarrow> u64 \<Rightarrow> State \<Rightarrow> State \<Rightarrow> nat \<Rightarrow> string list" where
  "report_register fa inst addr state certain r =
     (if \<not> tracked state r then []
      else if fixed_offset_access (fa_decoder fa) inst r
      then if \<not> IsAllowedOffset (inst_offset inst)
           then [access_line fa addr (mrs_at state r) (inst_offset inst)] else []
      else if tracked certain r \<and> UsesReg inst r
      then [unmodelled_line fa addr (mrs_at state r) inst] else [])"

definition report_inst :: "FunctionAnalysis \<Rightarrow> u64 \<Rightarrow> State \<times> State \<times> string list \<Rightarrow> State \<times> State \<times> string list" where
  "report_inst fa addr = (\<lambda>(state, certain, violations).
     (case decoded_at fa addr of
        None \<Rightarrow> (state, certain, violations)
      | Some inst \<Rightarrow>
          (step_inst (fa_decoder fa) inst addr state, step_inst (fa_decoder fa) inst addr certain,
           if op inst = A64_MRS then violations
           else violations @ concat (map (report_register fa inst addr state certain) [0..<31]))))"

definition Report :: "FunctionAnalysis \<Rightarrow> Block \<Rightarrow> State \<Rightarrow> State \<Rightarrow> string list" where
  "Report fa block may_in must_in =
     snd (snd (fold (report_inst fa) (addresses (b_start block) (b_end block)) (may_in, must_in, [])))"

definition Run :: "FunctionAnalysis \<Rightarrow> State \<Rightarrow> FunctionResult option" where
  "Run fa seed =
     (let blocks = BuildBlocks fa
      in if blocks = [] then Some \<lparr>r_blocks = blocks, r_calls = [], r_violations = []\<rparr>
         else case Solve fa blocks seed True of
           None \<Rightarrow> None
         | Some (may_in, may_calls) \<Rightarrow>
             (case Solve fa blocks seed False of
                None \<Rightarrow> None
              | Some (must_in, must_calls) \<Rightarrow>
                  Some \<lparr>r_blocks = blocks, r_calls = may_calls @ must_calls,
                        r_violations = remdups_adj (sort (concat (map
                          (\<lambda>b. Report fa (blocks ! b) (may_in ! b) (must_in ! b)) [0..<length blocks])))\<rparr>))"

section \<open>The image\<close>

definition HasMRS :: "farmdec \<Rightarrow> FunctionRange \<Rightarrow> Code \<Rightarrow> Image \<Rightarrow> bool" where
  "HasMRS D fr code img =
     list_ex (\<lambda>addr. \<not> InDataInCode (im_data_in_code img) addr \<and>
         (case Code_At code addr of
            None \<Rightarrow> False
          | Some inst \<Rightarrow> op inst = A64_MRS \<and> is_tpidrro inst \<and> rt inst \<noteq> ZERO_REG D))
       (filter (\<lambda>addr. addr + 4 \<le> fr_end fr) (addresses (fr_start fr) (fr_end fr)))"

definition code_section :: "farmdec \<Rightarrow> Image \<Rightarrow> Code \<Rightarrow> Section \<Rightarrow> Code" where
  "code_section D img code sec =
     (if sect_flags sec AND (S_ATTR_PURE_INSTRUCTIONS OR S_ATTR_SOME_INSTRUCTIONS) = 0 then code
      else if sect_size sec < 4 then code
      else case ReadBytes img (host img (sect_addr sec)) (unat (sect_size sec)) of
             None \<Rightarrow> code
           | Some bytes \<Rightarrow>
               let words = unat (ucast (sect_size sec div 4) :: u32);
                   raw = map (\<lambda>i. le_word (take 4 (drop (4 * i) bytes))) [0..<words]
               in code\<lparr>section_addrs := section_addrs code @ [sect_addr sec],
                       section_sizes := section_sizes code @ [sect_size sec],
                       insts := insts code @ [fad_decode D raw]\<rparr>)"

definition scan_code :: "farmdec \<Rightarrow> Image \<Rightarrow> Code" where
  "scan_code D img = foldl (code_section D img) \<lparr>section_addrs = [], section_sizes = [], insts = []\<rparr>
     (im_sections img)"

text \<open>
  Two orders the C++ library leaves open are arguments: how \<open>std::sort\<close> orders ranges with the
  same start, and the order in which an \<open>unordered_set\<close> of function starts is visited.
\<close>

record unspecified =
  sort_ranges :: "FunctionRange list \<Rightarrow> FunctionRange list"
  visit_order :: "u64 list \<Rightarrow> u64 list"

definition function_ranges :: "Code \<Rightarrow> u64 list \<Rightarrow> FunctionRange list" where
  "function_ranges code starts = concat (map (\<lambda>i.
     (let fin = (if i + 1 < length starts then starts ! (i + 1) else 0)
      in if fin = 0 then []
         else if Code_At code (starts ! i) = None then []
         else [\<lparr>fr_start = starts ! i, fr_end = fin\<rparr>])) [0..<length starts])"

definition add_section_tail :: "Code \<Rightarrow> FunctionRange list \<Rightarrow> nat \<Rightarrow> FunctionRange list" where
  "add_section_tail code ranges s =
     (let section_end = section_addrs code ! s + section_sizes code ! s;
          last_start = foldl (\<lambda>acc range. if section_addrs code ! s \<le> fr_start range \<and> fr_start range < section_end
                                           then fr_start range else acc) 0 ranges
      in if last_start \<noteq> 0 \<and> last_start < section_end
         then ranges @ [\<lparr>fr_start = last_start, fr_end = section_end\<rparr>] else ranges)"

definition scan_ranges :: "unspecified \<Rightarrow> Code \<Rightarrow> u64 list \<Rightarrow> FunctionRange list" where
  "scan_ranges U code starts =
     sort_ranges U (foldl (add_section_tail code) (function_ranges code starts) [0..<length (section_addrs code)])"


text \<open>What the propagation keeps: the callee-saved registers each function starts with, and the complaints.\<close>

record ScanState =
  seeds :: "(u64, nat \<Rightarrow> bool) omap"
  seed_mrs :: "(u64, nat \<Rightarrow> u64) omap"
  next_pending :: "u64 list"
  scan_violations :: "string list"

text \<open>\<open>seeds[call.target]\<close> default-constructs a missing entry.\<close>

definition seed_of :: "ScanState \<Rightarrow> u64 \<Rightarrow> nat \<Rightarrow> bool" where
  "seed_of st start = (case map_of (seeds st) start of Some t \<Rightarrow> t | None \<Rightarrow> (\<lambda>r. False))"

definition seed_mrs_of :: "ScanState \<Rightarrow> u64 \<Rightarrow> nat \<Rightarrow> u64" where
  "seed_mrs_of st start = (case map_of (seed_mrs st) start of Some m \<Rightarrow> m | None \<Rightarrow> (\<lambda>r. 0))"

definition seed_register :: "CallSite \<Rightarrow> nat \<Rightarrow> (nat \<Rightarrow> bool) \<times> (nat \<Rightarrow> u64) \<times> bool \<Rightarrow> (nat \<Rightarrow> bool) \<times> (nat \<Rightarrow> u64) \<times> bool" where
  "seed_register call r = (\<lambda>(callee_seed, callee_mrs, grew).
     (if \<not> cs_tracked call r then (callee_seed, callee_mrs, grew)
      else (callee_seed(r := True),
            if callee_mrs r = 0 then callee_mrs(r := cs_mrs_at call r) else callee_mrs,
            grew \<or> \<not> callee_seed r)))"

definition propagate_call :: "CallSite \<Rightarrow> ScanState \<Rightarrow> ScanState" where
  "propagate_call call st =
     (if \<not> cs_resolvable call then st
      else let target = cs_target call;
               (callee_seed, callee_mrs, grew) =
                 fold (seed_register call) [kFirstCalleeSaved..<Suc kLastCalleeSaved]
                   (seed_of st target, seed_mrs_of st target, False)
           in st\<lparr>seeds := omap_set target callee_seed (seeds st),
                 seed_mrs := omap_set target callee_mrs (seed_mrs st),
                 next_pending := (if grew then oset_insert target (next_pending st) else next_pending st)\<rparr>)"

definition scan_function :: "farmdec \<Rightarrow> Image \<Rightarrow> Code \<Rightarrow> u64 list \<Rightarrow> FunctionRange list \<Rightarrow> u64 \<Rightarrow> ScanState \<Rightarrow> ScanState option" where
  "scan_function D img code starts ranges start st =
     (case find (\<lambda>r. fr_start r = start) ranges of
        None \<Rightarrow> Some st
      | Some found \<Rightarrow>
          let seed = \<lparr>tracked = seed_of st start, mrs_at = seed_mrs_of st start\<rparr>;
              fa = \<lparr>fa_decoder = D, fa_image = img, fa_code = code, fa_range = found, fa_function_starts = starts\<rparr>
          in map_option (\<lambda>result. fold propagate_call (r_calls result)
                 (st\<lparr>scan_violations := scan_violations st @ r_violations result\<rparr>))
               (Run fa seed))"

fun scan_pending :: "farmdec \<Rightarrow> Image \<Rightarrow> Code \<Rightarrow> u64 list \<Rightarrow> FunctionRange list \<Rightarrow> u64 list \<Rightarrow> ScanState \<Rightarrow> ScanState option" where
  "scan_pending D img code starts ranges [] st = Some st"
| "scan_pending D img code starts ranges (start # pending) st =
     (case scan_function D img code starts ranges start st of
        None \<Rightarrow> None
      | Some st \<Rightarrow> scan_pending D img code starts ranges pending st)"

definition kMaxRounds :: nat where "kMaxRounds = 4096"

text \<open>
  The rounds: the first argument counts those left. Running out is the loud failure of the source:
  the answer is false, with the complaint appended and nothing sorted.
\<close>

fun scan_rounds :: "unspecified \<Rightarrow> farmdec \<Rightarrow> Image \<Rightarrow> Code \<Rightarrow> u64 list \<Rightarrow> FunctionRange list \<Rightarrow> nat \<Rightarrow> u64 list \<Rightarrow>
    ScanState \<Rightarrow> (bool \<times> string list) option" where
  "scan_rounds U D img code starts ranges rounds pending st =
     (if pending = [] then
        (let violations = remdups_adj (sort (scan_violations st)) in Some (violations = [], violations))
      else case rounds of
        0 \<Rightarrow> Some (False, scan_violations st @
               [im_path img @ '': the TSD scan's interprocedural seed propagation did not settle in '' @
                dec_string kMaxRounds @ '' rounds; fix xlate/src/tsd_scan.cpp''])
      | Suc rounds \<Rightarrow>
          (case scan_pending D img code starts ranges (visit_order U pending) (st\<lparr>next_pending := []\<rparr>) of
             None \<Rightarrow> None
           | Some st \<Rightarrow> scan_rounds U D img code starts ranges rounds (next_pending st) st))"

text \<open>\<open>violations\<close> is the caller's list; the scan appends to it and answers whether it stayed empty.\<close>

definition ScanTSDOffsets :: "unspecified \<Rightarrow> farmdec \<Rightarrow> Image \<Rightarrow> string list \<Rightarrow> (bool \<times> string list) option" where
  "ScanTSDOffsets U D img violations =
     (let code = scan_code D img;
          starts = remdups_adj (sort (im_functions img));
          ranges = scan_ranges U code starts;
          pending = fold (\<lambda>fr pending. if HasMRS D fr code img then oset_insert (fr_start fr) pending else pending)
                      ranges []
      in scan_rounds U D img code starts ranges kMaxRounds pending
           \<lparr>seeds = [], seed_mrs = [], next_pending = [], scan_violations = violations\<rparr>)"

end
