(* ===== verification/TsdScan_Facts.thy ===== *)
theory TsdScan_Facts
  imports TsdScan
begin

text \<open>
  What the thread-data scan guarantees. The block analysis is a solution of the generic worklist
  for both merges; the blocks partition the function and their edges are the flow of the single
  instructions; so the lines a function is charged with are exactly the accesses an execution that
  follows that flow can make. The shape of the flow the scan follows is itself stated: it ends at
  an indirect call, and the last function of an image is not among those it scans.
\<close>

section \<open>One instruction\<close>

text \<open>What an instruction does to one register's mark, apart from the address of the \<open>mrs\<close>.\<close>

definition keeps :: "farmdec \<Rightarrow> Inst \<Rightarrow> nat \<Rightarrow> bool" where
  "keeps D inst r \<longleftrightarrow>
     (if op inst = A64_MRS then rt inst = ZERO_REG D \<or> r \<noteq> rt inst
      else \<not> (IsCallOp (op inst) \<and> (r < 18 \<or> r = 30)) \<and> \<not> (r < 31 \<and> ClobbersGPR inst r))"

definition gains :: "farmdec \<Rightarrow> Inst \<Rightarrow> nat \<Rightarrow> bool" where
  "gains D inst r \<longleftrightarrow> op inst = A64_MRS \<and> is_tpidrro inst \<and> rt inst \<noteq> ZERO_REG D \<and> r = rt inst"

lemma tracked_set_tracked [simp]: "tracked (set_tracked r b s) q = (if q = r then b else tracked s q)"
  by (simp add: set_tracked_def)

lemma tracked_fold_forget: "tracked (fold (\<lambda>r. set_tracked r False) rs s) q \<longleftrightarrow> tracked s q \<and> q \<notin> set rs"
  by (induction rs arbitrary: s) auto

lemma tracked_forget_call: "tracked (forget_call s) r \<longleftrightarrow> tracked s r \<and> \<not> (r < 18 \<or> r = 30)"
  by (auto simp: forget_call_def tracked_fold_forget)

lemma tracked_fold_clobbered:
  "tracked (fold (\<lambda>r s. if tracked s r \<and> ClobbersGPR inst r then set_tracked r False s else s) rs s) q \<longleftrightarrow>
   tracked s q \<and> \<not> (q \<in> set rs \<and> ClobbersGPR inst q)"
  by (induction rs arbitrary: s) auto

lemma tracked_step [simp]:
  "tracked (step_inst D inst addr s) r \<longleftrightarrow> gains D inst r \<or> keeps D inst r \<and> tracked s r"
  by (auto simp: step_inst_def read_mrs_def Let_def gains_def keeps_def forget_clobbered_def
      tracked_fold_clobbered tracked_forget_call)

section \<open>A stretch of instructions\<close>

definition walk :: "FunctionAnalysis \<Rightarrow> bool \<Rightarrow> u64 list \<Rightarrow> State \<Rightarrow> State" where
  "walk fa may as s = fst (fold (transfer_inst fa may) as (s, []))"

lemma transfer_inst_fst: "fst (transfer_inst fa may a p) =
    (case decoded_at fa a of None \<Rightarrow> fst p | Some inst \<Rightarrow> step_inst (fa_decoder fa) inst a (fst p))"
  by (simp add: transfer_inst_def split: prod.split option.split)

lemma transfer_fold_fst:
  "fst p = fst q \<Longrightarrow> fst (fold (transfer_inst fa may) as p) = fst (fold (transfer_inst fa may') as q)"
proof (induction as arbitrary: p q)
  case Nil
  then show ?case by simp
next
  case (Cons a as)
  then have "fst (transfer_inst fa may a p) = fst (transfer_inst fa may' a q)"
    by (simp only: transfer_inst_fst)
  then show ?case using Cons.IH by simp
qed

lemma walk_Nil [simp]: "walk fa may [] s = s"
  by (simp add: walk_def)

lemma walk_Cons: "walk fa may (a # as) s =
    walk fa may as (case decoded_at fa a of None \<Rightarrow> s | Some inst \<Rightarrow> step_inst (fa_decoder fa) inst a s)"
  unfolding walk_def fold_Cons comp_apply
  by (rule transfer_fold_fst) (simp only: transfer_inst_fst fst_conv)

lemma walk_append: "walk fa may (as @ bs) s = walk fa may bs (walk fa may as s)"
  unfolding walk_def by (simp, rule transfer_fold_fst) simp

lemma walk_any: "walk fa may as s = walk fa may' as s"
  unfolding walk_def by (rule transfer_fold_fst) simp

lemma Transfer_walk: "fst (Transfer fa blocks may b s) =
    walk fa may (addresses (b_start (blocks ! b)) (b_end (blocks ! b))) s"
  by (simp add: Transfer_def walk_def)

text \<open>The marks come from registers marked before, register by register.\<close>

lemma walk_mono: "(tracked s r \<Longrightarrow> tracked t r) \<Longrightarrow> tracked (walk fa may as s) r \<Longrightarrow> tracked (walk fa may as t) r"
proof (induction as arbitrary: s t)
  case Nil
  then show ?case by simp
next
  case (Cons a as)
  show ?case
    unfolding walk_Cons
    by (rule Cons.IH [OF _ Cons.prems(2) [unfolded walk_Cons]])
       (use Cons.prems(1) in \<open>auto split: option.splits\<close>)
qed

section \<open>The two analyses as worklists\<close>

definition may_le :: "State \<Rightarrow> State \<Rightarrow> bool" where
  "may_le a b \<longleftrightarrow> (\<forall>r < 32. tracked a r \<longrightarrow> tracked b r)"

definition untracked :: "State \<Rightarrow> nat" where
  "untracked s = length (filter (\<lambda>r. \<not> tracked s r) [0..<32])"

definition tracked_count :: "State \<Rightarrow> nat" where
  "tracked_count s = length (filter (tracked s) [0..<32])"

lemma Differs_iff: "Differs a b \<longleftrightarrow> (\<exists>r < 32. tracked a r \<noteq> tracked b r)"
  by (auto simp: Differs_def list_ex_iff)

lemma length_filter_shrinks:
  assumes "\<And>x. x \<in> set xs \<Longrightarrow> P x \<Longrightarrow> Q x" and "x \<in> set xs" and "Q x" and "\<not> P x"
  shows "length (filter P xs) < length (filter Q xs)"
proof -
  have "filter P xs = filter P (filter Q xs)"
    using assms(1) by (auto intro: filter_cong)
  moreover have "length (filter P (filter Q xs)) < length (filter Q xs)"
    by (rule length_filter_less [of x]) (use assms in auto)
  ultimately show ?thesis by simp
qed

lemma index_of_range: "index_of starts t = Some i \<Longrightarrow> i < length starts \<and> starts ! i = t"
  unfolding index_of_def by (drule find_SomeD) simp

lemma add_edge_range: "i \<in> set (add_edge starts t) \<Longrightarrow> i < length starts \<and> starts ! i = t"
  using index_of_range [of starts t i] by (auto simp: add_edge_def split: option.splits)

lemma block_succs_range: "i \<in> set (block_succs fa starts a b) \<Longrightarrow> i < length starts"
  by (auto simp: block_succs_def Let_def dest: add_edge_range split: if_splits option.splits)

lemma length_BuildBlocks [simp]: "length (BuildBlocks fa) = length (leaders fa)"
  by (simp add: BuildBlocks_def Let_def)

lemma BuildBlocks_succs_range:
  "b < length (leaders fa) \<Longrightarrow> i \<in> set (b_succs (BuildBlocks fa ! b)) \<Longrightarrow> i < length (leaders fa)"
  by (auto simp: BuildBlocks_def Let_def dest: block_succs_range)

interpretation may: worklist_solver "MergeInto True" Differs "Transfer fa (BuildBlocks fa) True"
    "\<lambda>b. b_succs (BuildBlocks fa ! b)" "length (leaders fa)" may_le untracked for fa
proof (unfold_locales)
  fix a b x :: State and c :: nat
  show "may_le a a" by (simp add: may_le_def)
  show "may_le a (MergeInto True a b)" "may_le b (MergeInto True a b)" by (simp_all add: may_le_def MergeInto_def)
  show "\<not> Differs a (MergeInto True a b) \<Longrightarrow> may_le b a" by (auto simp: Differs_iff may_le_def MergeInto_def)
  show "Differs a (MergeInto True a b) \<Longrightarrow> untracked (MergeInto True a b) < untracked a"
    unfolding untracked_def Differs_iff
    by (elim exE conjE, rule length_filter_shrinks) (auto simp: MergeInto_def)
  show "may_le a b \<Longrightarrow> may_le (fst (Transfer fa (BuildBlocks fa) True c a)) (fst (Transfer fa (BuildBlocks fa) True c b))"
    unfolding may_le_def Transfer_walk using walk_mono by blast
qed (auto simp: may_le_def BuildBlocks_succs_range)

interpretation must: worklist_solver "MergeInto False" Differs "Transfer fa (BuildBlocks fa) False"
    "\<lambda>b. b_succs (BuildBlocks fa ! b)" "length (leaders fa)" "\<lambda>a b. may_le b a" tracked_count for fa
proof (unfold_locales)
  fix a b x :: State and c :: nat
  show "may_le a a" by (simp add: may_le_def)
  show "may_le (MergeInto False a b) a" "may_le (MergeInto False a b) b" by (simp_all add: may_le_def MergeInto_def)
  show "\<not> Differs a (MergeInto False a b) \<Longrightarrow> may_le a b" by (auto simp: Differs_iff may_le_def MergeInto_def)
  show "Differs a (MergeInto False a b) \<Longrightarrow> tracked_count (MergeInto False a b) < tracked_count a"
    unfolding tracked_count_def Differs_iff
    by (elim exE conjE, rule length_filter_shrinks) (auto simp: MergeInto_def)
  show "may_le b a \<Longrightarrow> may_le (fst (Transfer fa (BuildBlocks fa) False c b)) (fst (Transfer fa (BuildBlocks fa) False c a))"
    unfolding may_le_def Transfer_walk using walk_mono by blast
qed (auto simp: may_le_def BuildBlocks_succs_range)

section \<open>The addresses of a range\<close>

definition aligned :: "u64 \<Rightarrow> bool" where
  "aligned a \<longleftrightarrow> a mod 4 = 0"

definition slot :: "u64 \<Rightarrow> nat" where
  "slot a = unat a div 4"

lemma unat_mod4: "unat ((a :: u64) mod 4) = unat a mod 4"
  by (simp add: unat_mod_distrib)

lemma aligned_iff: "aligned a \<longleftrightarrow> unat a = 4 * slot a"
proof -
  have "aligned a \<longleftrightarrow> unat a mod 4 = 0"
    unfolding aligned_def unat_mod4 [symmetric] by (metis unat_0 unat_eq_zero)
  then show ?thesis unfolding slot_def by (metis dvd_eq_mod_eq_0 dvd_mult_div_cancel dvd_triv_left)
qed

lemma aligned_of_slot: "aligned a \<Longrightarrow> of_nat (4 * slot a) = a"
  unfolding aligned_iff by (metis of_nat_unat ucast_id)

lemma slot_less: "aligned a \<Longrightarrow> aligned b \<Longrightarrow> a < b \<longleftrightarrow> slot a < slot b"
  by (simp add: aligned_iff word_less_nat_alt)

lemma slot_le: "aligned a \<Longrightarrow> aligned b \<Longrightarrow> a \<le> b \<longleftrightarrow> slot a \<le> slot b"
  by (simp add: aligned_iff word_le_nat_alt)

lemma unat_next: "aligned a \<Longrightarrow> aligned b \<Longrightarrow> a < b \<Longrightarrow> unat (a + 4) = unat a + 4"
proof -
  assume a: "aligned a" "aligned b" "a < b"
  then have "slot a < slot b" by (simp add: slot_less)
  then have "unat a + 4 \<le> unat b" using a by (simp add: aligned_iff)
  also have "\<dots> < 2 ^ 64" using unsigned_less [of b, where 'a = nat] by simp
  finally show ?thesis using unat_add_no_wrap [of a 4] by simp
qed

lemma slot_next: "aligned a \<Longrightarrow> aligned b \<Longrightarrow> a < b \<Longrightarrow> slot (a + 4) = Suc (slot a)"
  by (simp add: slot_def unat_next)

lemma aligned_next: "aligned a \<Longrightarrow> aligned b \<Longrightarrow> a < b \<Longrightarrow> aligned (a + 4)"
  by (simp add: aligned_iff unat_next slot_next)

lemma next_le: "aligned a \<Longrightarrow> aligned b \<Longrightarrow> a < b \<Longrightarrow> a + 4 \<le> b"
  by (simp add: slot_le aligned_next slot_next slot_less Suc_le_eq)

lemma less_next: "aligned a \<Longrightarrow> aligned b \<Longrightarrow> a < b \<Longrightarrow> a < a + 4"
  by (simp add: word_less_nat_alt unat_next)

lemma next_leD: "aligned a \<Longrightarrow> aligned b \<Longrightarrow> a + 4 \<le> b \<Longrightarrow> a \<noteq> - 4 \<Longrightarrow> a < b"
proof -
  assume a: "aligned a" "aligned b" "a + 4 \<le> b" "a \<noteq> - 4"
  have "unat (a + 4) = unat a + 4"
  proof -
    have "unat a \<noteq> unat (- 4 :: u64)" using a(4) by (meson unsigned_word_eqI)
    moreover have "unat (- 4 :: u64) = 2 ^ 64 - 4" by simp
    moreover have "unat a < 2 ^ 64" using unsigned_less [of a, where 'a = nat] by simp
    ultimately have "unat a + 4 < 2 ^ 64" using a(1) aligned_iff [of a] by simp
    then show ?thesis using unat_add_no_wrap [of a 4] by simp
  qed
  then show "a < b" using a(3) by (simp add: word_less_nat_alt word_le_nat_alt)
qed

lemma addresses_slots:
  assumes "aligned a" and "aligned b"
  shows "addresses a b = map (\<lambda>k. of_nat (4 * k)) [slot a..<slot b]"
proof (cases "a < b")
  case True
  then have "slot a < slot b" using assms by (simp add: slot_less)
  then have len: "(unat b - unat a + 3) div 4 = slot b - slot a"
    using assms by (simp add: aligned_iff)
  have "a + 4 * of_nat i = of_nat (4 * (slot a + i))" for i
    using aligned_of_slot [OF assms(1)] by (simp add: algebra_simps)
  then show ?thesis
    using True unfolding addresses_def len by (auto simp: upt_add_eq_append intro!: nth_equalityI)
next
  case False
  then show ?thesis using slot_less [OF assms] by (simp add: addresses_def)
qed

lemma addresses_snoc:
  "aligned s \<Longrightarrow> aligned a \<Longrightarrow> aligned e \<Longrightarrow> s \<le> a \<Longrightarrow> a < e \<Longrightarrow> addresses s (a + 4) = addresses s a @ [a]"
  using addresses_slots [of s a] addresses_slots [of s "a + 4"] aligned_next [of a e]
  by (simp add: slot_next slot_le aligned_of_slot [simplified])

lemma addresses_split:
  "aligned s \<Longrightarrow> aligned a \<Longrightarrow> aligned e \<Longrightarrow> s \<le> a \<Longrightarrow> a < e \<Longrightarrow>
   addresses s e = addresses s a @ a # addresses (a + 4) e"
proof -
  assume a: "aligned s" "aligned a" "aligned e" "s \<le> a" "a < e"
  have "[slot s..<slot e] = [slot s..<slot a] @ slot a # [Suc (slot a)..<slot e]"
    using a upt_add_eq_append [of "slot s" "slot a" "slot e - slot a"] upt_conv_Cons [of "slot a" "slot e"]
    by (simp add: slot_le slot_less)
  then show ?thesis
    using a aligned_next [OF a(2,3,5)] aligned_of_slot [OF a(2)]
    by (simp add: addresses_slots slot_next)
qed

lemma addresses_member:
  "aligned s \<Longrightarrow> aligned e \<Longrightarrow> a \<in> set (addresses s e) \<longleftrightarrow> aligned a \<and> s \<le> a \<and> a < e"
proof
  assume h: "aligned s" "aligned e" "a \<in> set (addresses s e)"
  then obtain k where k: "slot s \<le> k" "k < slot e" "a = of_nat (4 * k)"
    by (auto simp: addresses_slots)
  have "4 * slot e < 2 ^ 64" using h(2) unsigned_less [of e, where 'a = nat] by (simp add: aligned_iff)
  then have u: "unat a = 4 * k" using k(2) unfolding k(3) by (subst unat_of_nat_u64) auto
  then have "slot a = k" by (simp add: slot_def)
  moreover have "aligned a" using u by (simp add: aligned_iff slot_def)
  ultimately show "aligned a \<and> s \<le> a \<and> a < e" using h(1,2) k by (simp add: slot_le slot_less)
next
  assume "aligned s" "aligned e" "aligned a \<and> s \<le> a \<and> a < e"
  then show "a \<in> set (addresses s e)" using addresses_split [of s a e] by simp
qed

lemma addresses_empty [simp]: "addresses s s = []"
  by (simp add: addresses_def)

section \<open>The blocks partition the function\<close>

text \<open>
  The ranges the scan is about: word-aligned ends, as arm64 code has them, and no branch to the
  last word of the address space (whose end wraps to 0 in the source's range test).
\<close>

definition scannable :: "FunctionAnalysis \<Rightarrow> bool" where
  "scannable fa \<longleftrightarrow> aligned (fr_start (fa_range fa)) \<and> aligned (fr_end (fa_range fa)) \<and>
     fr_start (fa_range fa) < fr_end (fa_range fa) \<and>
     list_all (\<lambda>a. case decoded_at fa a of None \<Rightarrow> True | Some inst \<Rightarrow> BranchTarget inst a \<noteq> Some (- 4))
       (addresses (fr_start (fa_range fa)) (fr_end (fa_range fa)))"

definition in_function :: "FunctionAnalysis \<Rightarrow> u64 \<Rightarrow> bool" where
  "in_function fa a \<longleftrightarrow> aligned a \<and> fr_start (fa_range fa) \<le> a \<and> a < fr_end (fa_range fa)"

text \<open>Where control goes after one instruction, as the scan sees it.\<close>

definition flow_out :: "FunctionAnalysis \<Rightarrow> u64 \<Rightarrow> u64 list" where
  "flow_out fa addr =
     (case decoded_at fa addr of
        None \<Rightarrow> [addr + 4]
      | Some inst \<Rightarrow>
          if IsNoReturnOp (op inst) then []
          else case BranchTarget inst addr of
                 Some target \<Rightarrow> if IsUnconditionalOp (fa_decoder fa) inst then [target] else [target, addr + 4]
               | None \<Rightarrow> if IsBranchOp (op inst) then [] else [addr + 4])"

definition flow_next :: "FunctionAnalysis \<Rightarrow> u64 \<Rightarrow> u64 list" where
  "flow_next fa addr = filter (in_function fa) (flow_out fa addr)"

definition diverts :: "FunctionAnalysis \<Rightarrow> u64 \<Rightarrow> bool" where
  "diverts fa a \<longleftrightarrow> (\<exists>inst. decoded_at fa a = Some inst \<and> (IsBranchOp (op inst) \<or> IsNoReturnOp (op inst)))"

lemma scannable_addresses: "scannable fa \<Longrightarrow>
    a \<in> set (addresses (fr_start (fa_range fa)) (fr_end (fa_range fa))) \<longleftrightarrow> in_function fa a"
  by (simp add: scannable_def in_function_def addresses_member)

lemma in_function_end: "scannable fa \<Longrightarrow> aligned a \<Longrightarrow> a \<noteq> - 4 \<Longrightarrow>
    fr_start (fa_range fa) \<le> a \<and> a + 4 \<le> fr_end (fa_range fa) \<longleftrightarrow> in_function fa a"
  unfolding in_function_def scannable_def using next_le next_leD by blast

lemma add_leaders_ok: "oset_ok ls \<Longrightarrow> oset_ok (add_leaders fa a ls)"
  by (simp add: add_leaders_def Let_def split: option.split)

lemma leaders_ok: "oset_ok (leaders fa)"
proof -
  have "oset_ok ls \<Longrightarrow> oset_ok (fold (add_leaders fa) as ls)" for as ls
    by (induction as arbitrary: ls) (auto simp: add_leaders_ok)
  then show ?thesis unfolding leaders_def by (simp add: oset_ok_def)
qed

definition led_by :: "FunctionAnalysis \<Rightarrow> u64 \<Rightarrow> u64 set" where
  "led_by fa a = (if diverts fa a then
     {t. in_function fa t \<and> (t = a + 4 \<or> (\<exists>inst. decoded_at fa a = Some inst \<and> BranchTarget inst a = Some t))} else {})"

lemma add_leaders_set:
  assumes "scannable fa" and "in_function fa a"
  shows "set (add_leaders fa a ls) = set ls \<union> led_by fa a"
proof (cases "decoded_at fa a")
  case None
  then show ?thesis by (simp add: add_leaders_def led_by_def diverts_def)
next
  case (Some inst)
  have "a \<in> set (addresses (fr_start (fa_range fa)) (fr_end (fa_range fa)))"
    using assms scannable_addresses by blast
  then have "case decoded_at fa a of None \<Rightarrow> True | Some inst \<Rightarrow> BranchTarget inst a \<noteq> Some (- 4)"
    using assms(1) unfolding scannable_def list_all_iff by blast
  with Some have far: "BranchTarget inst a \<noteq> Some (- 4)" by simp
  have "fr_start (fa_range fa) \<le> t \<and> t + 4 \<le> fr_end (fa_range fa) \<and> t mod 4 = 0 \<longleftrightarrow> in_function fa t"
    if "BranchTarget inst a = Some t" for t
  proof -
    have "t \<noteq> - 4" using that far by auto
    then show ?thesis using in_function_end [OF assms(1), of t] unfolding aligned_def in_function_def by metis
  qed
  moreover have "a + 4 < fr_end (fa_range fa) \<longleftrightarrow> in_function fa (a + 4)"
    using assms less_next aligned_next unfolding in_function_def scannable_def
    by (meson less_imp_le order_trans)
  ultimately show ?thesis
    using Some by (auto simp: add_leaders_def Let_def led_by_def diverts_def split: option.split)
qed

lemma leaders_set:
  assumes "scannable fa"
  shows "set (leaders fa) = insert (fr_start (fa_range fa)) (\<Union>a \<in> {a. in_function fa a}. led_by fa a)"
proof -
  have "\<forall>a \<in> set as. in_function fa a \<Longrightarrow>
      set (fold (add_leaders fa) as ls) = set ls \<union> (\<Union>a \<in> set as. led_by fa a)" for as ls
    by (induction as arbitrary: ls) (auto simp: add_leaders_set [OF assms])
  from this [of "addresses (fr_start (fa_range fa)) (fr_end (fa_range fa))" "[fr_start (fa_range fa)]"]
  show ?thesis
    unfolding leaders_def by (auto simp: scannable_addresses [OF assms])
qed

lemma leaders_in_function: "scannable fa \<Longrightarrow> l \<in> set (leaders fa) \<Longrightarrow> in_function fa l"
  by (auto simp: leaders_set led_by_def split: if_splits) (simp add: in_function_def scannable_def)

text \<open>Branch targets and the instructions behind branches start blocks.\<close>

lemma leader_after:
  "scannable fa \<Longrightarrow> in_function fa a \<Longrightarrow> diverts fa a \<Longrightarrow> t \<in> set (flow_next fa a) \<Longrightarrow> t \<in> set (leaders fa)"
  unfolding leaders_set
  by (auto simp: led_by_def flow_next_def flow_out_def diverts_def intro!: exI [of _ a] split: option.splits if_splits)

lemma leader_behind:
  "scannable fa \<Longrightarrow> in_function fa a \<Longrightarrow> diverts fa a \<Longrightarrow> in_function fa (a + 4) \<Longrightarrow> a + 4 \<in> set (leaders fa)"
  unfolding leaders_set by (auto simp: led_by_def intro!: exI [of _ a])

lemma leaders_sorted: "i < j \<Longrightarrow> j < length (leaders fa) \<Longrightarrow> leaders fa ! i < leaders fa ! j"
  using leaders_ok [of fa] by (simp add: oset_ok_def sorted_wrt_iff_nth_less)

lemma leaders_eq_iff: "i < length (leaders fa) \<Longrightarrow> j < length (leaders fa) \<Longrightarrow> leaders fa ! i = leaders fa ! j \<longleftrightarrow> i = j"
  using leaders_sorted [of i j fa] leaders_sorted [of j i fa] by (cases i j rule: linorder_cases) auto

definition block_end :: "FunctionAnalysis \<Rightarrow> nat \<Rightarrow> u64" where
  "block_end fa i = (if i + 1 < length (leaders fa) then leaders fa ! (i + 1) else fr_end (fa_range fa))"

lemma BuildBlocks_nth [simp]:
  "i < length (leaders fa) \<Longrightarrow> b_start (BuildBlocks fa ! i) = leaders fa ! i"
  "i < length (leaders fa) \<Longrightarrow> b_end (BuildBlocks fa ! i) = block_end fa i"
  "i < length (leaders fa) \<Longrightarrow> b_succs (BuildBlocks fa ! i) = block_succs fa (leaders fa) (leaders fa ! i) (block_end fa i)"
  by (simp_all add: BuildBlocks_def Let_def block_end_def)

lemma block_ends:
  assumes "scannable fa" and "i < length (leaders fa)"
  shows "aligned (leaders fa ! i)" "aligned (block_end fa i)" "leaders fa ! i < block_end fa i"
    "block_end fa i \<le> fr_end (fa_range fa)" "fr_start (fa_range fa) \<le> leaders fa ! i"
proof -
  have l: "in_function fa (leaders fa ! j)" if "j < length (leaders fa)" for j
    using leaders_in_function [OF assms(1) nth_mem [OF that]] .
  show "aligned (leaders fa ! i)" "fr_start (fa_range fa) \<le> leaders fa ! i"
    using l [OF assms(2)] by (simp_all add: in_function_def)
  show "aligned (block_end fa i)" "leaders fa ! i < block_end fa i" "block_end fa i \<le> fr_end (fa_range fa)"
    using l [of i] l [of "i + 1"] assms leaders_sorted [of i "i + 1" fa]
    by (auto simp: block_end_def in_function_def scannable_def)
qed

text \<open>The address is in block \<open>i\<close>.\<close>

definition in_block :: "FunctionAnalysis \<Rightarrow> nat \<Rightarrow> u64 \<Rightarrow> bool" where
  "in_block fa i a \<longleftrightarrow> i < length (leaders fa) \<and> aligned a \<and> leaders fa ! i \<le> a \<and> a < block_end fa i"

lemma in_block_function: "scannable fa \<Longrightarrow> in_block fa i a \<Longrightarrow> in_function fa a"
  using block_ends [of fa i] unfolding in_block_def in_function_def by (meson le_less_trans less_le_trans order_trans)

lemma leader_in_block: "scannable fa \<Longrightarrow> i < length (leaders fa) \<Longrightarrow> in_block fa i (leaders fa ! i)"
  using block_ends [of fa i] by (simp add: in_block_def)

lemma leader_of_block: "in_block fa i a \<Longrightarrow> a \<in> set (leaders fa) \<Longrightarrow> a = leaders fa ! i"
proof -
  assume i: "in_block fa i a" and "a \<in> set (leaders fa)"
  then obtain j where j: "j < length (leaders fa)" "a = leaders fa ! j" by (auto simp: in_set_conv_nth)
  show "a = leaders fa ! i"
  proof (cases i j rule: linorder_cases)
    case less
    then have "block_end fa i \<le> leaders fa ! j"
      using j(1) leaders_sorted [of "i + 1" j fa] by (cases "i + 1 = j") (auto simp: block_end_def)
    then show ?thesis using i j(2) unfolding in_block_def by auto
  next
    case equal
    then show ?thesis using j(2) by simp
  next
    case greater
    then show ?thesis using leaders_sorted [of j i fa] i j unfolding in_block_def by auto
  qed
qed

lemma block_of_leader: "l \<in> set (leaders fa) \<Longrightarrow> scannable fa \<Longrightarrow> \<exists>i. in_block fa i l \<and> l = leaders fa ! i"
  using leader_in_block [of fa] by (metis in_set_conv_nth)

lemma index_of_iff: "index_of (leaders fa) t = Some j \<longleftrightarrow> j < length (leaders fa) \<and> leaders fa ! j = t"
proof
  assume "j < length (leaders fa) \<and> leaders fa ! j = t"
  then show "index_of (leaders fa) t = Some j"
    unfolding index_of_def by (intro find_unique) (auto simp: leaders_eq_iff)
qed (rule index_of_range)

lemma add_edge_iff: "j \<in> set (add_edge (leaders fa) t) \<longleftrightarrow> j < length (leaders fa) \<and> leaders fa ! j = t"
proof (cases "index_of (leaders fa) t")
  case None
  then show ?thesis using index_of_iff [of fa t j] by (simp add: add_edge_def)
next
  case (Some k)
  then show ?thesis using index_of_range [OF Some] leaders_eq_iff [of j fa k] by (auto simp: add_edge_def)
qed

text \<open>The edges of a block are the flow out of its last instruction.\<close>

lemma block_succs_flow: "start < fin \<Longrightarrow>
    block_succs fa starts start fin = concat (map (add_edge starts) (flow_out fa (fin - 4)))"
proof -
  assume "start < fin"
  then have "\<not> fin \<le> start" by simp
  moreover have "fin - 4 + 4 = fin" by (rule diff_add_cancel)
  ultimately show ?thesis
    unfolding block_succs_def flow_out_def Let_def
    by (cases "decoded_at fa (fin - 4)"; cases "BranchTarget (the (decoded_at fa (fin - 4))) (fin - 4)")
      (simp_all only: if_False if_True option.case option.sel map_append list.map concat.simps append_Nil2
        concat_append split: if_split, simp_all)
qed

lemma block_succs_iff:
  assumes "scannable fa" and "i < length (leaders fa)"
  shows "j \<in> set (b_succs (BuildBlocks fa ! i)) \<longleftrightarrow>
    j < length (leaders fa) \<and> leaders fa ! j \<in> set (flow_next fa (block_end fa i - 4))"
proof -
  have f: "in_function fa (leaders fa ! j)" if "j < length (leaders fa)"
    using leaders_in_function [OF assms(1) nth_mem [OF that]] .
  have "j \<in> set (b_succs (BuildBlocks fa ! i)) \<longleftrightarrow>
      (\<exists>t \<in> set (flow_out fa (block_end fa i - 4)). j \<in> set (add_edge (leaders fa) t))"
    unfolding BuildBlocks_nth(3) [OF assms(2)] block_succs_flow [OF block_ends(3) [OF assms]] by simp
  also have "\<dots> \<longleftrightarrow> j < length (leaders fa) \<and> leaders fa ! j \<in> set (flow_out fa (block_end fa i - 4))"
    unfolding add_edge_iff by blast
  finally show ?thesis using f by (auto simp only: flow_next_def set_filter mem_Collect_eq)
qed

text \<open>Inside a block control runs on to the next instruction.\<close>

lemma inside_block:
  assumes "scannable fa" and "in_block fa i a" and "a + 4 < block_end fa i"
  shows "in_block fa i (a + 4)" and "flow_next fa a = [a + 4]"
proof -
  have b: "aligned a" "aligned (block_end fa i)" "a < block_end fa i" "leaders fa ! i \<le> a"
    using assms block_ends [of fa i] unfolding in_block_def by auto
  then have n: "aligned (a + 4)" "a < a + 4" using aligned_next less_next by blast+
  then show behind: "in_block fa i (a + 4)"
    using assms b unfolding in_block_def by (meson le_less_trans less_imp_le)
  then have f: "in_function fa (a + 4)" by (rule in_block_function [OF assms(1)])
  have "a + 4 \<notin> set (leaders fa)"
    using leader_of_block [OF behind] n(2) b(4) by auto
  then have "\<not> diverts fa a"
    using leader_behind [OF assms(1) in_block_function [OF assms(1,2)] _ f] by blast
  moreover have "\<not> IsBranchOp (op inst) \<Longrightarrow> BranchTarget inst a = None" for inst
    by (auto simp: BranchTarget_def IsBranchOp_def)
  ultimately show "flow_next fa a = [a + 4]"
    using f by (auto simp: flow_next_def flow_out_def diverts_def split: option.split)
qed

lemma last_in_block:
  assumes "scannable fa" and "in_block fa i a" and "\<not> a + 4 < block_end fa i"
  shows "block_end fa i - 4 = a" and "a + 4 = block_end fa i"
proof -
  have "aligned a" "aligned (block_end fa i)" "a < block_end fa i"
    using assms block_ends [of fa i] unfolding in_block_def by auto
  then have "a + 4 \<le> block_end fa i" by (rule next_le)
  with assms(3) show "a + 4 = block_end fa i" by simp
  then show "block_end fa i - 4 = a" by (metis add_diff_cancel_right')
qed

section \<open>Executions, instruction by instruction\<close>

text \<open>
  The reference the block analysis is compared with: it starts at the entry of the function with
  what the callers hand it, or at any place control may enter with nothing marked, and follows the
  flow one instruction at a time.
\<close>

definition step_at :: "FunctionAnalysis \<Rightarrow> u64 \<Rightarrow> State \<Rightarrow> State" where
  "step_at fa a s = (case decoded_at fa a of None \<Rightarrow> s | Some inst \<Rightarrow> step_inst (fa_decoder fa) inst a s)"

inductive exec :: "FunctionAnalysis \<Rightarrow> State \<Rightarrow> u64 \<Rightarrow> State \<Rightarrow> bool" for fa seed where
  exec_entry: "exec fa seed (fr_start (fa_range fa)) seed"
| exec_label: "l \<in> set (leaders fa) \<Longrightarrow> exec fa seed l empty_state"
| exec_step: "exec fa seed a s \<Longrightarrow> a' \<in> set (flow_next fa a) \<Longrightarrow> exec fa seed a' (step_at fa a s)"

lemma walk_step: "walk fa may (as @ [a]) s = step_at fa a (walk fa may as s)"
  by (simp add: walk_append walk_Cons step_at_def)

lemma walk_in_block:
  assumes "scannable fa" and "in_block fa i a"
  shows "walk fa may (addresses (leaders fa ! i) (a + 4)) s = step_at fa a (walk fa may (addresses (leaders fa ! i) a) s)"
proof -
  have "aligned (leaders fa ! i)" "aligned a" "aligned (block_end fa i)" "leaders fa ! i \<le> a" "a < block_end fa i"
    using assms block_ends [of fa i] by (auto simp: in_block_def)
  then show ?thesis using addresses_snoc [of "leaders fa ! i" a "block_end fa i"] by (simp add: walk_step)
qed

lemma tracked_step_at: "tracked (step_at fa a s) r \<longleftrightarrow>
    (case decoded_at fa a of None \<Rightarrow> tracked s r | Some inst \<Rightarrow> gains (fa_decoder fa) inst r \<or> keeps (fa_decoder fa) inst r \<and> tracked s r)"
  by (simp add: step_at_def split: option.split)

subsection \<open>The solution of the may-analysis\<close>

lemma Solve_start: "length ((replicate (length (leaders fa)) empty_state)[0 := seed]) = length (leaders fa)"
  "set (rev [0..<length (leaders fa)]) \<subseteq> {..<length (leaders fa)}"
  by auto

lemma leaders_nonempty: "scannable fa \<Longrightarrow> leaders fa \<noteq> []"
  using leaders_set [of fa] by force

lemma first_leader: "scannable fa \<Longrightarrow> leaders fa ! 0 = fr_start (fa_range fa)"
proof -
  assume s: "scannable fa"
  then have "fr_start (fa_range fa) \<in> set (leaders fa)" by (simp add: leaders_set)
  then obtain i where i: "i < length (leaders fa)" "leaders fa ! i = fr_start (fa_range fa)"
    by (auto simp: in_set_conv_nth)
  have "0 < length (leaders fa)" using leaders_nonempty [OF s] by simp
  from block_ends(5) [OF s this] have "leaders fa ! i \<le> leaders fa ! 0" using i by simp
  then show ?thesis using i leaders_sorted [of 0 i fa] by (cases "i = 0") auto
qed

lemma Solve_returns: "\<exists>r. Solve fa (BuildBlocks fa) seed may = Some r"
proof (cases may)
  case True
  then show ?thesis
    unfolding Solve_def using may.worklist_returns [where fa = fa, OF Solve_start] by simp
next
  case False
  then show ?thesis
    unfolding Solve_def using must.worklist_returns [where fa = fa, OF Solve_start] by simp
qed

lemma may_solution:
  assumes "Solve fa (BuildBlocks fa) seed True = Some (ins, cs)"
  shows "length ins = length (leaders fa)"
    and "b < length (leaders fa) \<Longrightarrow> s \<in> set (b_succs (BuildBlocks fa ! b)) \<Longrightarrow>
         may_le (fst (Transfer fa (BuildBlocks fa) True b (ins ! b))) (ins ! s)"
    and "0 < length (leaders fa) \<Longrightarrow> may_le seed (ins ! 0)"
proof -
  have "may.settled fa ((replicate (length (leaders fa)) empty_state)[0 := seed]) (rev [0..<length (leaders fa)]) []"
    by (simp add: may.settled_def)
  from may.worklist_fixpoint [OF Solve_start this] assms
  have "length ins = length (leaders fa)" "may.settled fa ins [] cs"
    "\<forall>b < length (leaders fa). may_le ((replicate (length (leaders fa)) empty_state)[0 := seed] ! b) (ins ! b)"
    unfolding Solve_def length_BuildBlocks by blast+
  then show "length ins = length (leaders fa)"
    "b < length (leaders fa) \<Longrightarrow> s \<in> set (b_succs (BuildBlocks fa ! b)) \<Longrightarrow>
         may_le (fst (Transfer fa (BuildBlocks fa) True b (ins ! b))) (ins ! s)"
    "0 < length (leaders fa) \<Longrightarrow> may_le seed (ins ! 0)"
    unfolding may.settled_def by (auto simp: nth_list_update)
qed

text \<open>Every execution is covered by the walk of its block from the solution.\<close>

definition covered :: "FunctionAnalysis \<Rightarrow> State list \<Rightarrow> u64 \<Rightarrow> State \<Rightarrow> bool" where
  "covered fa ins a s \<longleftrightarrow> (\<exists>i. in_block fa i a \<and>
     may_le s (walk fa True (addresses (leaders fa ! i) a) (ins ! i)))"

lemma may_le_step: "may_le s t \<Longrightarrow> may_le (step_at fa a s) (step_at fa a t)"
  by (auto simp: may_le_def tracked_step_at split: option.splits)

lemma covered_leader:
  "scannable fa \<Longrightarrow> i < length (leaders fa) \<Longrightarrow> may_le s (ins ! i) \<Longrightarrow> covered fa ins (leaders fa ! i) s"
  unfolding covered_def using leader_in_block by (intro exI [of _ i]) simp

lemma covered_step:
  assumes sc: "scannable fa" and sol: "Solve fa (BuildBlocks fa) seed True = Some (ins, cs)"
    and cov: "covered fa ins a s" and nxt: "a' \<in> set (flow_next fa a)"
  shows "covered fa ins a' (step_at fa a s)"
proof -
  obtain i where i: "in_block fa i a" and le: "may_le s (walk fa True (addresses (leaders fa ! i) a) (ins ! i))"
    using cov by (auto simp: covered_def)
  have n: "i < length (leaders fa)" using i by (simp add: in_block_def)
  have le': "may_le (step_at fa a s) (walk fa True (addresses (leaders fa ! i) (a + 4)) (ins ! i))"
    unfolding walk_in_block [OF sc i] by (rule may_le_step [OF le])
  show ?thesis
  proof (cases "a + 4 < block_end fa i")
    case True
    from inside_block [OF sc i True] nxt le' show ?thesis by (auto simp: covered_def)
  next
    case False
    have e: "block_end fa i - 4 = a" "a + 4 = block_end fa i" by (rule last_in_block [OF sc i False])+
    have "in_function fa a'" using nxt by (simp add: flow_next_def)
    have "diverts fa a \<or> set (flow_next fa a) \<subseteq> {a + 4}"
      by (auto simp: flow_next_def flow_out_def diverts_def BranchTarget_def IsBranchOp_def split: option.splits if_splits)
    moreover have "a + 4 \<in> set (leaders fa)" if "a' = a + 4"
      using that \<open>in_function fa a'\<close> n e unfolding block_end_def in_function_def
      by (auto split: if_splits)
    ultimately have "a' \<in> set (leaders fa)"
      using leader_after [OF sc in_block_function [OF sc i] _ nxt] nxt by blast
    then obtain j where j: "j < length (leaders fa)" "leaders fa ! j = a'" by (auto simp: in_set_conv_nth)
    then have "j \<in> set (b_succs (BuildBlocks fa ! i))"
      unfolding block_succs_iff [OF sc n] using nxt e by simp
    from may_solution(2) [OF sol n this]
    have "may_le (walk fa True (addresses (leaders fa ! i) (a + 4)) (ins ! i)) (ins ! j)"
      using n e by (simp add: Transfer_walk)
    then have "may_le (step_at fa a s) (ins ! j)" using le' may.le_trans by blast
    then show ?thesis using covered_leader [OF sc j(1)] j(2) by simp
  qed
qed

lemma exec_covered:
  assumes "scannable fa" and "Solve fa (BuildBlocks fa) seed True = Some (ins, cs)" and "exec fa seed a s"
  shows "covered fa ins a s"
  using assms(3)
proof induction
  case exec_entry
  have "0 < length (leaders fa)" using leaders_nonempty [OF assms(1)] by simp
  with covered_leader [OF assms(1) this may_solution(3) [OF assms(2) this]] first_leader [OF assms(1)]
  show ?case by simp
next
  case (exec_label l)
  then obtain i where "i < length (leaders fa)" "leaders fa ! i = l" by (auto simp: in_set_conv_nth)
  with covered_leader [OF assms(1), of i empty_state] show ?case by (auto simp: may_le_def empty_state_def)
next
  case (exec_step a s a')
  then show ?case using covered_step [OF assms(1,2)] by blast
qed

subsection \<open>Nothing more than executions\<close>

lemma walk_sources: "tracked (walk fa may as s) r \<Longrightarrow> tracked (walk fa may as empty_state) r \<or> tracked s r"
proof (induction as arbitrary: s)
  case Nil
  then show ?case by simp
next
  case (Cons a as)
  let ?n = "\<lambda>s. step_at fa a s"
  have w: "walk fa may (a # as) s = walk fa may as (?n s)" for s by (simp add: walk_Cons step_at_def)
  have "tracked (walk fa may as empty_state) r \<Longrightarrow> tracked (walk fa may as (?n empty_state)) r"
    by (rule walk_mono [of empty_state]) (auto simp: empty_state_def)
  moreover have "tracked (?n s) r \<Longrightarrow> tracked s r \<or> tracked (?n empty_state) r"
    by (auto simp: tracked_step_at split: option.splits)
  moreover have "tracked (walk fa may as (?n s)) r"
    using Cons.prems w by simp
  then have "tracked (walk fa may as empty_state) r \<or> tracked (?n s) r"
    by (rule Cons.IH)
  moreover have "tracked (walk fa may as (?n empty_state)) r" if "tracked (?n empty_state) r" "tracked (?n s) r"
    by (rule walk_mono [of "?n s" r "?n empty_state"]) (use that Cons.prems w in simp_all)
  ultimately show ?case unfolding w by blast
qed

lemma slot_prev:
  assumes "aligned s" and "aligned a" and "s < a"
  shows "aligned (a - 4)" "s \<le> a - 4" "a - 4 < a" "slot a = Suc (slot (a - 4))"
proof -
  have "slot s < slot a" using assms by (simp add: slot_less)
  then have le: "4 \<le> unat a" "unat s + 4 \<le> unat a" using assms by (simp_all add: aligned_iff)
  then have "(4 :: u64) \<le> a" by (simp add: word_le_nat_alt)
  then have u: "unat (a - 4) = unat a - 4" by (simp add: unat_sub)
  then have sl: "slot a = Suc (slot (a - 4))" using le by (simp add: slot_def le_div_geq)
  show al: "aligned (a - 4)" using u sl assms(2) by (simp add: aligned_iff)
  show "slot a = Suc (slot (a - 4))" by (rule sl)
  show "s \<le> a - 4" using le u by (simp add: word_le_nat_alt)
  show "a - 4 < a" using le u by (simp add: word_less_nat_alt)
qed

lemma exec_walk:
  assumes sc: "scannable fa" and e: "exec fa seed (leaders fa ! i) s"
  shows "in_block fa i a \<Longrightarrow> exec fa seed a (walk fa may (addresses (leaders fa ! i) a) s)"
proof (induction "slot a - slot (leaders fa ! i)" arbitrary: a)
  case 0
  then have "aligned (leaders fa ! i)" "aligned a" "leaders fa ! i \<le> a"
    using block_ends [OF sc] unfolding in_block_def by blast+
  then have "a = leaders fa ! i" using 0 slot_less [of "leaders fa ! i" a] by auto
  with e show ?case by simp
next
  case (Suc d)
  have b: "aligned (leaders fa ! i)" "aligned a" "a < block_end fa i" "i < length (leaders fa)"
    using Suc.prems block_ends [OF sc] unfolding in_block_def by blast+
  have "leaders fa ! i < a" using Suc(2) b slot_less by force
  note p = slot_prev [OF b(1,2) this]
  have i: "in_block fa i (a - 4)" using b p(1-3) unfolding in_block_def by auto
  have "d = slot (a - 4) - slot (leaders fa ! i)" using Suc(2) p(4) by simp
  from Suc(1) [OF this i] have "exec fa seed (a - 4) (walk fa may (addresses (leaders fa ! i) (a - 4)) s)" .
  moreover have "a \<in> set (flow_next fa (a - 4))" using inside_block(2) [OF sc i] b(3) by simp
  ultimately have "exec fa seed a (step_at fa (a - 4) (walk fa may (addresses (leaders fa ! i) (a - 4)) s))"
    by (rule exec_step)
  then show ?case using walk_in_block [OF sc i] by simp
qed

lemma exec_block_end:
  assumes sc: "scannable fa" and e: "exec fa seed (leaders fa ! i) s" and n: "i < length (leaders fa)"
    and j: "j \<in> set (b_succs (BuildBlocks fa ! i))"
  shows "exec fa seed (leaders fa ! j) (fst (Transfer fa (BuildBlocks fa) may i s))"
proof -
  note b = block_ends [OF sc n]
  note p = slot_prev [OF b(1,2,3)]
  have i: "in_block fa i (block_end fa i - 4)" using b p n unfolding in_block_def by auto
  have "exec fa seed (leaders fa ! j)
      (step_at fa (block_end fa i - 4) (walk fa may (addresses (leaders fa ! i) (block_end fa i - 4)) s))"
    using exec_step [OF exec_walk [OF sc e i]] j unfolding block_succs_iff [OF sc n] by blast
  then show ?thesis
    using walk_in_block [OF sc i] n by (simp add: Transfer_walk)
qed

text \<open>A mark in the solution comes from an execution.\<close>

definition witnessed :: "FunctionAnalysis \<Rightarrow> State \<Rightarrow> nat \<Rightarrow> State \<Rightarrow> bool" where
  "witnessed fa seed i s \<longleftrightarrow> (\<forall>r. tracked s r \<longrightarrow> (\<exists>t. exec fa seed (leaders fa ! i) t \<and> tracked t r))"

lemma exec_empty: "i < length (leaders fa) \<Longrightarrow> exec fa seed (leaders fa ! i) empty_state"
  by (rule exec_label) simp

lemma witnessed_through:
  assumes "i < length (leaders fa)" and "witnessed fa seed i s" and "tracked (walk fa may as s) r"
  obtains t where "exec fa seed (leaders fa ! i) t" and "tracked (walk fa may as t) r"
proof (cases "tracked (walk fa may as empty_state) r")
  case True
  with that exec_empty [OF assms(1)] show ?thesis by blast
next
  case False
  with walk_sources [OF assms(3)] have "tracked s r" by simp
  with assms(2) obtain t where t: "exec fa seed (leaders fa ! i) t" "tracked t r"
    unfolding witnessed_def by blast
  have "tracked (walk fa may as t) r" by (rule walk_mono [OF _ assms(3)]) (rule t(2))
  with t that show ?thesis by blast
qed

lemma may_witnessed:
  assumes sc: "scannable fa" and sol: "Solve fa (BuildBlocks fa) seed True = Some (ins, cs)"
  shows "\<forall>i < length (leaders fa). witnessed fa seed i (ins ! i)"
proof (rule may.worklist_inv [OF Solve_start])
  show "worklist (MergeInto True) Differs (Transfer fa (BuildBlocks fa) True) (\<lambda>b. b_succs (BuildBlocks fa ! b))
      ((replicate (length (leaders fa)) empty_state)[0 := seed]) (rev [0..<length (leaders fa)]) [] = Some (ins, cs)"
    using sol by (simp add: Solve_def)
  have "exec fa seed (leaders fa ! 0) seed"
    using exec_entry [of fa seed] by (simp add: first_leader [OF sc])
  then show "\<forall>i < length (leaders fa). witnessed fa seed i
      ((replicate (length (leaders fa)) empty_state)[0 := seed] ! i)"
    using leaders_nonempty [OF sc] by (auto simp: witnessed_def nth_list_update empty_state_def)
  show "\<forall>i < length (leaders fa). \<forall>j \<in> set (b_succs (BuildBlocks fa ! i)). \<forall>s t.
      witnessed fa seed i s \<longrightarrow> witnessed fa seed j t \<longrightarrow>
      witnessed fa seed j (MergeInto True t (fst (Transfer fa (BuildBlocks fa) True i s)))"
  proof (intro allI ballI impI)
    fix i j s t
    assume n: "i < length (leaders fa)" and j: "j \<in> set (b_succs (BuildBlocks fa ! i))"
      and w: "witnessed fa seed i s" "witnessed fa seed j t"
    have "\<exists>u. exec fa seed (leaders fa ! j) u \<and> tracked u r"
      if "tracked (fst (Transfer fa (BuildBlocks fa) True i s)) r" for r
      using witnessed_through [OF n w(1), of True _ r] that exec_block_end [OF sc _ n j, of seed _ True]
      unfolding Transfer_walk by metis
    with w(2) show "witnessed fa seed j (MergeInto True t (fst (Transfer fa (BuildBlocks fa) True i s)))"
      by (auto simp: witnessed_def MergeInto_def)
  qed
qed

section \<open>The complaints of one function\<close>

definition charged :: "FunctionAnalysis \<Rightarrow> u64 \<Rightarrow> State \<Rightarrow> State \<Rightarrow> string set" where
  "charged fa a s c = (case decoded_at fa a of None \<Rightarrow> {} | Some inst \<Rightarrow>
     if op inst = A64_MRS then {} else (\<Union>r < 31. set (report_register fa inst a s c r)))"

lemma report_inst_parts:
  "report_inst fa a (s, c, vs) =
     (step_at fa a s, step_at fa a c, snd (snd (report_inst fa a (s, c, vs))))"
  "set (snd (snd (report_inst fa a (s, c, vs)))) = set vs \<union> charged fa a s c"
  by (auto simp: report_inst_def charged_def step_at_def atLeast0LessThan split: option.split)

lemma splits_Cons: "(\<exists>pre b post. a # as = pre @ b # post \<and> P pre b) \<longleftrightarrow>
    P [] a \<or> (\<exists>pre b post. as = pre @ b # post \<and> P (a # pre) b)"
proof
  assume "\<exists>pre b post. a # as = pre @ b # post \<and> P pre b"
  then obtain pre b post where s: "a # as = pre @ b # post" "P pre b" by blast
  show "P [] a \<or> (\<exists>pre b post. as = pre @ b # post \<and> P (a # pre) b)"
    by (cases pre) (use s in auto)
next
  assume "P [] a \<or> (\<exists>pre b post. as = pre @ b # post \<and> P (a # pre) b)"
  then show "\<exists>pre b post. a # as = pre @ b # post \<and> P pre b"
    by (metis append_Cons append_Nil)
qed

lemma report_fold: "set (snd (snd (fold (report_inst fa) as (s, c, vs)))) =
    set vs \<union> {v. \<exists>pre a post. as = pre @ a # post \<and> v \<in> charged fa a (walk fa True pre s) (walk fa True pre c)}"
proof (induction as arbitrary: s c vs)
  case Nil
  then show ?case by simp
next
  case (Cons a as)
  let ?vs = "snd (snd (report_inst fa a (s, c, vs)))"
  have w: "walk fa True (a # pre) s = walk fa True pre (step_at fa a s)" for pre s
    by (simp add: walk_Cons step_at_def)
  have "set (snd (snd (fold (report_inst fa) (a # as) (s, c, vs)))) =
      set (snd (snd (fold (report_inst fa) as (step_at fa a s, step_at fa a c, ?vs))))"
    by (simp only: fold_Cons comp_apply report_inst_parts(1) [of fa a s c vs, symmetric])
  also have "\<dots> = set vs \<union> charged fa a s c \<union> {v. \<exists>pre b post. as = pre @ b # post \<and>
      v \<in> charged fa b (walk fa True (a # pre) s) (walk fa True (a # pre) c)}"
    unfolding Cons.IH report_inst_parts(2) w by simp
  also have "\<dots> = set vs \<union> {v. \<exists>pre b post. a # as = pre @ b # post \<and>
      v \<in> charged fa b (walk fa True pre s) (walk fa True pre c)}"
    unfolding splits_Cons by auto
  finally show ?case .
qed

lemma addresses_cut:
  assumes "aligned s" and "aligned e"
  shows "(\<exists>post. addresses s e = pre @ a # post) \<longleftrightarrow> aligned a \<and> s \<le> a \<and> a < e \<and> pre = addresses s a"
proof
  assume "\<exists>post. addresses s e = pre @ a # post"
  then obtain post where p: "addresses s e = pre @ a # post" ..
  then have a: "aligned a" "s \<le> a" "a < e" using addresses_member [OF assms, of a] by auto
  have "length pre < length (addresses s e)" "addresses s e ! length pre = a" "pre = take (length pre) (addresses s e)"
    using p by simp_all
  then have k: "slot s + length pre < slot e" "a = of_nat (4 * (slot s + length pre))"
    "pre = take (length pre) (map (\<lambda>k. of_nat (4 * k)) [slot s..<slot e])"
    unfolding addresses_slots [OF assms] by simp_all
  have "4 * slot e < 2 ^ 64" using assms(2) unsigned_less [of e, where 'a = nat] by (simp add: aligned_iff)
  then have "unat a = 4 * (slot s + length pre)" using k(1) unfolding k(2) by (subst unat_of_nat_u64) auto
  then have "slot a = slot s + length pre" by (simp add: slot_def)
  then have "pre = addresses s a"
    using k(1) by (subst k(3)) (simp add: addresses_slots [OF assms(1) a(1)] take_map take_upt)
  with a show "aligned a \<and> s \<le> a \<and> a < e \<and> pre = addresses s a" by simp
next
  assume "aligned a \<and> s \<le> a \<and> a < e \<and> pre = addresses s a"
  with addresses_split [of s a e] assms show "\<exists>post. addresses s e = pre @ a # post" by blast
qed

lemma Report_iff:
  assumes "scannable fa" and "i < length (leaders fa)"
  shows "v \<in> set (Report fa (BuildBlocks fa ! i) m u) \<longleftrightarrow> (\<exists>a. in_block fa i a \<and>
    v \<in> charged fa a (walk fa True (addresses (leaders fa ! i) a) m) (walk fa True (addresses (leaders fa ! i) a) u))"
proof -
  note b = block_ends [OF assms]
  have "v \<in> set (Report fa (BuildBlocks fa ! i) m u) \<longleftrightarrow> (\<exists>pre a. (\<exists>post.
      addresses (leaders fa ! i) (block_end fa i) = pre @ a # post) \<and> v \<in> charged fa a (walk fa True pre m) (walk fa True pre u))"
    using assms(2) by (simp add: Report_def report_fold)
  also have "\<dots> \<longleftrightarrow> (\<exists>a. in_block fa i a \<and> v \<in> charged fa a
      (walk fa True (addresses (leaders fa ! i) a) m) (walk fa True (addresses (leaders fa ! i) a) u))"
    unfolding addresses_cut [OF b(1,2)] in_block_def using assms(2) by blast
  finally show ?thesis .
qed

lemma Run_parts:
  assumes "Run fa seed = Some result" and "leaders fa \<noteq> []"
  obtains may_in may_calls must_in must_calls
  where "Solve fa (BuildBlocks fa) seed True = Some (may_in, may_calls)"
    and "Solve fa (BuildBlocks fa) seed False = Some (must_in, must_calls)"
    and "r_calls result = may_calls @ must_calls"
    and "set (r_violations result) =
         (\<Union>i < length (leaders fa). set (Report fa (BuildBlocks fa ! i) (may_in ! i) (must_in ! i)))"
proof -
  have ne: "BuildBlocks fa \<noteq> []" using assms(2) length_BuildBlocks [of fa] by (metis length_0_conv)
  obtain may_in may_calls must_in must_calls
    where s: "Solve fa (BuildBlocks fa) seed True = Some (may_in, may_calls)"
      "Solve fa (BuildBlocks fa) seed False = Some (must_in, must_calls)"
    using Solve_returns [of fa seed True] Solve_returns [of fa seed False] by auto
  show ?thesis
    by (rule that [OF s]) (use assms(1) ne s in \<open>auto simp: Run_def Let_def atLeast0LessThan\<close>)
qed

lemma Run_some: "\<exists>result. Run fa seed = Some result"
  using Solve_returns [of fa seed True] Solve_returns [of fa seed False] by (auto simp: Run_def Let_def)

lemma Solve_must_entry_only:
  assumes "Solve fa (BuildBlocks fa) seed False = Some (ins, cs)" and "0 < i" and "i < length (leaders fa)"
  shows "\<not> tracked (ins ! i) r"
proof -
  have "\<forall>i < length (leaders fa). i = 0 \<or> (\<forall>r. \<not> tracked (ins ! i) r)"
  proof (rule must.worklist_inv [OF Solve_start])
    show "worklist (MergeInto False) Differs (Transfer fa (BuildBlocks fa) False) (\<lambda>b. b_succs (BuildBlocks fa ! b))
        ((replicate (length (leaders fa)) empty_state)[0 := seed]) (rev [0..<length (leaders fa)]) [] = Some (ins, cs)"
      using assms(1) by (simp add: Solve_def)
  qed (use assms(2,3) in \<open>auto simp: nth_list_update empty_state_def MergeInto_def\<close>)
  with assms(2,3) show ?thesis by blast
qed

text \<open>An execution's marked access is charged, whatever the must-analysis knows.\<close>

lemma charged_access:
  "decoded_at fa a = Some inst \<Longrightarrow> tracked s r \<Longrightarrow> r < 31 \<Longrightarrow> fixed_offset_access (fa_decoder fa) inst r \<Longrightarrow>
   \<not> IsAllowedOffset (inst_offset inst) \<Longrightarrow> access_line fa a (mrs_at s r) (inst_offset inst) \<in> charged fa a s c"
  by (auto simp: charged_def report_register_def fixed_offset_access_def intro!: bexI [of _ r])

lemma Run_charges_access:
  assumes sc: "scannable fa" and run: "Run fa seed = Some result" and e: "exec fa seed a s"
    and i: "decoded_at fa a = Some inst" "tracked s r" "r < 31" "fixed_offset_access (fa_decoder fa) inst r"
    and bad: "\<not> IsAllowedOffset (inst_offset inst)"
  shows "\<exists>mrs. access_line fa a mrs (inst_offset inst) \<in> set (r_violations result)"
proof -
  obtain may_in may_calls must_in must_calls
    where s: "Solve fa (BuildBlocks fa) seed True = Some (may_in, may_calls)"
      and v: "set (r_violations result) =
         (\<Union>i < length (leaders fa). set (Report fa (BuildBlocks fa ! i) (may_in ! i) (must_in ! i)))"
    by (rule Run_parts [OF run leaders_nonempty [OF sc]])
  obtain k where k: "in_block fa k a" "may_le s (walk fa True (addresses (leaders fa ! k) a) (may_in ! k))"
    using exec_covered [OF sc s e] by (auto simp: covered_def)
  then have n: "k < length (leaders fa)" by (simp add: in_block_def)
  have "tracked (walk fa True (addresses (leaders fa ! k) a) (may_in ! k)) r"
    using k(2) i(2,3) by (simp add: may_le_def)
  from charged_access [OF i(1) this i(3,4) bad]
  have "access_line fa a (mrs_at (walk fa True (addresses (leaders fa ! k) a) (may_in ! k)) r) (inst_offset inst)
      \<in> set (Report fa (BuildBlocks fa ! k) (may_in ! k) (must_in ! k))"
    using k(1) unfolding Report_iff [OF sc n] by blast
  with n show ?thesis unfolding v by blast
qed

lemma charged_cases:
  assumes "v \<in> charged fa a s c"
  obtains inst r where "decoded_at fa a = Some inst" and "r < 31" and "tracked s r"
    and "fixed_offset_access (fa_decoder fa) inst r \<and> \<not> IsAllowedOffset (inst_offset inst) \<and>
           v = access_line fa a (mrs_at s r) (inst_offset inst) \<or>
         \<not> fixed_offset_access (fa_decoder fa) inst r \<and> UsesReg inst r \<and> tracked c r \<and>
           v = unmodelled_line fa a (mrs_at s r) inst"
  using assms by (auto simp: charged_def report_register_def split: option.splits if_splits)

text \<open>A complaint of a function is about an instruction an execution reaches with the register marked.\<close>

lemma Run_charge_justified:
  assumes sc: "scannable fa" and run: "Run fa seed = Some result" and v: "v \<in> set (r_violations result)"
  obtains a inst r s where "exec fa seed a s" and "tracked s r" and "r < 31" and "decoded_at fa a = Some inst"
    and "fixed_offset_access (fa_decoder fa) inst r \<and> \<not> IsAllowedOffset (inst_offset inst) \<and>
           (\<exists>mrs. v = access_line fa a mrs (inst_offset inst)) \<or>
         \<not> fixed_offset_access (fa_decoder fa) inst r \<and> UsesReg inst r \<and> (\<exists>mrs. v = unmodelled_line fa a mrs inst)"
proof -
  obtain may_in may_calls must_in must_calls
    where s: "Solve fa (BuildBlocks fa) seed True = Some (may_in, may_calls)"
      and vs: "set (r_violations result) =
         (\<Union>i < length (leaders fa). set (Report fa (BuildBlocks fa ! i) (may_in ! i) (must_in ! i)))"
    by (rule Run_parts [OF run leaders_nonempty [OF sc]])
  obtain i where n: "i < length (leaders fa)" and vi: "v \<in> set (Report fa (BuildBlocks fa ! i) (may_in ! i) (must_in ! i))"
    using v unfolding vs by blast
  obtain a where a: "in_block fa i a" and c: "v \<in> charged fa a
      (walk fa True (addresses (leaders fa ! i) a) (may_in ! i)) (walk fa True (addresses (leaders fa ! i) a) (must_in ! i))"
    using vi unfolding Report_iff [OF sc n] by blast
  obtain inst r where i: "decoded_at fa a = Some inst" "r < 31"
      "tracked (walk fa True (addresses (leaders fa ! i) a) (may_in ! i)) r"
    and what: "fixed_offset_access (fa_decoder fa) inst r \<and> \<not> IsAllowedOffset (inst_offset inst) \<and>
           (\<exists>mrs. v = access_line fa a mrs (inst_offset inst)) \<or>
         \<not> fixed_offset_access (fa_decoder fa) inst r \<and> UsesReg inst r \<and> (\<exists>mrs. v = unmodelled_line fa a mrs inst)"
    using charged_cases [OF c] by metis
  have "witnessed fa seed i (may_in ! i)" using may_witnessed [OF sc s] n by blast
  then obtain t where "exec fa seed (leaders fa ! i) t" "tracked (walk fa True (addresses (leaders fa ! i) a) t) r"
    by (rule witnessed_through [OF n _ i(3)])
  from that [OF exec_walk [OF sc this(1) a] this(2) i(2,1) what] show ?thesis .
qed

section \<open>The scan of an image\<close>

definition analysis_of :: "farmdec \<Rightarrow> Image \<Rightarrow> Code \<Rightarrow> u64 list \<Rightarrow> FunctionRange \<Rightarrow> FunctionAnalysis" where
  "analysis_of D img code starts fr =
     \<lparr>fa_decoder = D, fa_image = img, fa_code = code, fa_range = fr, fa_function_starts = starts\<rparr>"

lemma propagate_calls_violations [simp]:
  "scan_violations (fold propagate_call calls st) = scan_violations st"
  by (induction calls arbitrary: st) (simp_all add: propagate_call_def Let_def split: prod.split)

lemma scan_function_some: "\<exists>st'. scan_function D img code starts ranges start st = Some st'"
  using Run_some by (auto simp: scan_function_def Let_def split: option.split)

lemma scan_function_violations:
  "scan_function D img code starts ranges start st = Some st' \<Longrightarrow> set (scan_violations st) \<subseteq> set (scan_violations st')"
  by (auto simp: scan_function_def Let_def split: option.splits)

lemma scan_function_found:
  "scan_function D img code starts ranges start st = Some st' \<Longrightarrow>
   find (\<lambda>r. fr_start r = start) ranges = Some fr \<Longrightarrow>
   \<exists>seed result. Run (analysis_of D img code starts fr) seed = Some result \<and>
     set (r_violations result) \<subseteq> set (scan_violations st')"
  by (fastforce simp: scan_function_def Let_def analysis_of_def)

lemma scan_pending_some: "\<exists>st'. scan_pending D img code starts ranges pending st = Some st'"
proof (induction pending arbitrary: st)
  case Nil
  then show ?case by simp
next
  case (Cons start pending)
  obtain st1 where "scan_function D img code starts ranges start st = Some st1" using scan_function_some by blast
  with Cons.IH show ?case by simp
qed

lemma scan_pending_violations:
  "scan_pending D img code starts ranges pending st = Some st' \<Longrightarrow> set (scan_violations st) \<subseteq> set (scan_violations st')"
  by (induction pending arbitrary: st) (auto split: option.splits dest: scan_function_violations)

lemma scan_pending_found:
  "scan_pending D img code starts ranges pending st = Some st' \<Longrightarrow> start \<in> set pending \<Longrightarrow>
   find (\<lambda>r. fr_start r = start) ranges = Some fr \<Longrightarrow>
   \<exists>seed result. Run (analysis_of D img code starts fr) seed = Some result \<and>
     set (r_violations result) \<subseteq> set (scan_violations st')"
proof (induction pending arbitrary: st)
  case Nil
  then show ?case by simp
next
  case (Cons p pending)
  obtain st1 where st1: "scan_function D img code starts ranges p st = Some st1"
    "scan_pending D img code starts ranges pending st1 = Some st'"
    using Cons.prems(1) by (auto split: option.splits)
  show ?case
  proof (cases "start \<in> set pending")
    case True
    with Cons.IH st1(2) Cons.prems(3) show ?thesis by blast
  next
    case False
    with Cons.prems(2) have "p = start" by simp
    with scan_function_found [OF _ Cons.prems(3)] st1 scan_pending_violations [OF st1(2)] show ?thesis
      by (metis subset_trans)
  qed
qed

declare scan_rounds.simps [simp del]

lemma sort_Nil_iff [simp]: "sort xs = [] \<longleftrightarrow> xs = []"
  by (metis length_0_conv length_sort)

lemma scan_rounds_some: "\<exists>answer. scan_rounds U D img code starts ranges rounds pending st = Some answer"
proof (induction rounds arbitrary: pending st)
  case 0
  then show ?case by (cases "pending = []") (auto simp: scan_rounds.simps Let_def)
next
  case (Suc rounds)
  obtain st1 where "scan_pending D img code starts ranges (visit_order U pending) (st\<lparr>next_pending := []\<rparr>) = Some st1"
    using scan_pending_some by blast
  with Suc.IH show ?case by (subst scan_rounds.simps) (simp add: Let_def)
qed

lemma scan_rounds_violations:
  "scan_rounds U D img code starts ranges rounds pending st = Some (ok, vs) \<Longrightarrow>
   set (scan_violations st) \<subseteq> set vs \<and> ok = (vs = [])"
proof (induction rounds arbitrary: pending st)
  case 0
  then show ?case by (auto simp: scan_rounds.simps Let_def split: if_splits)
next
  case (Suc rounds)
  show ?case
  proof (cases "pending = []")
    case True
    with Suc.prems show ?thesis by (auto simp: scan_rounds.simps Let_def)
  next
    case False
    obtain st1 where p: "scan_pending D img code starts ranges (visit_order U pending) (st\<lparr>next_pending := []\<rparr>) = Some st1"
      using scan_pending_some by blast
    have "scan_rounds U D img code starts ranges rounds (next_pending st1) st1 = Some (ok, vs)"
      using Suc.prems False p by (subst (asm) scan_rounds.simps) simp
    from Suc.IH [OF this] scan_pending_violations [OF p] show ?thesis by auto
  qed
qed

lemma scan_rounds_found:
  assumes r: "scan_rounds U D img code starts ranges (Suc rounds) pending st = Some (ok, vs)"
    and p: "start \<in> set pending" "set (visit_order U pending) = set pending"
    and f: "find (\<lambda>r. fr_start r = start) ranges = Some fr"
  shows "\<exists>seed result. Run (analysis_of D img code starts fr) seed = Some result \<and> set (r_violations result) \<subseteq> set vs"
proof -
  obtain st1 where st1: "scan_pending D img code starts ranges (visit_order U pending) (st\<lparr>next_pending := []\<rparr>) = Some st1"
    using scan_pending_some by blast
  have "pending \<noteq> []" using p(1) by auto
  then have "scan_rounds U D img code starts ranges rounds (next_pending st1) st1 = Some (ok, vs)"
    using r st1 by (subst (asm) scan_rounds.simps) simp
  from scan_rounds_violations [OF this] scan_pending_found [OF st1 _ f] p show ?thesis by blast
qed

text \<open>The ranges never start at the last function.\<close>

lemma function_ranges_starts:
  "fr \<in> set (function_ranges code starts) \<Longrightarrow> \<exists>i. i + 1 < length starts \<and> fr_start fr = starts ! i \<and> fr_end fr = starts ! (i + 1)"
  by (auto simp: function_ranges_def Let_def split: if_splits)

lemma section_tail_starts:
  "fr \<in> set (add_section_tail code ranges s) \<Longrightarrow> \<exists>fr' \<in> set ranges. fr_start fr = fr_start fr'"
proof -
  let ?f = "\<lambda>acc range. if section_addrs code ! s \<le> fr_start range \<and>
      fr_start range < section_addrs code ! s + section_sizes code ! s then fr_start range else acc"
  have "foldl ?f acc rs = acc \<or> (\<exists>fr' \<in> set rs. foldl ?f acc rs = fr_start fr')" for acc and rs :: "FunctionRange list"
    by (induction rs arbitrary: acc) fastforce+
  from this [of 0 ranges] show "fr \<in> set (add_section_tail code ranges s) \<Longrightarrow> ?thesis"
    by (auto simp: add_section_tail_def Let_def split: if_splits)
qed

lemma section_tails_starts:
  "fr \<in> set (foldl (add_section_tail code) ranges ss) \<Longrightarrow> \<exists>fr' \<in> set ranges. fr_start fr = fr_start fr'"
proof (induction ss arbitrary: ranges)
  case Nil
  then show ?case by auto
next
  case (Cons s ss)
  then obtain fr1 where "fr1 \<in> set (add_section_tail code ranges s)" "fr_start fr = fr_start fr1" by auto
  with section_tail_starts [of fr1 code ranges s] show ?case by auto
qed

lemma last_start_not_scanned:
  assumes "fr \<in> set (foldl (add_section_tail code) (function_ranges code starts) ss)" and "sorted_wrt (<) starts"
  shows "starts \<noteq> [] \<and> fr_start fr < last starts"
proof -
  obtain fr1 where f: "fr1 \<in> set (function_ranges code starts)" "fr_start fr = fr_start fr1"
    using section_tails_starts [OF assms(1)] by blast
  then obtain i where i: "i + 1 < length starts" "fr_start fr = starts ! i"
    using function_ranges_starts by metis
  then have "starts \<noteq> []" by auto
  moreover have "starts ! i < starts ! (length starts - 1)"
    using assms(2) i(1) by (simp add: sorted_wrt_iff_nth_less)
  ultimately show ?thesis using i(2) by (simp add: last_conv_nth)
qed

lemma sorted_remdups_adj_strict: "sorted xs \<Longrightarrow> sorted_wrt (<) (remdups_adj (xs :: 'a::linorder list))"
  by (induction xs rule: remdups_adj.induct) auto

definition image_starts :: "Image \<Rightarrow> u64 list" where
  "image_starts img = remdups_adj (sort (im_functions img))"

definition image_analysis :: "farmdec \<Rightarrow> Image \<Rightarrow> FunctionRange \<Rightarrow> FunctionAnalysis" where
  "image_analysis D img fr = analysis_of D img (scan_code D img) (image_starts img) fr"

text \<open>The range the scan looks up for a function start.\<close>

definition scanned_range :: "unspecified \<Rightarrow> farmdec \<Rightarrow> Image \<Rightarrow> FunctionRange \<Rightarrow> bool" where
  "scanned_range U D img fr \<longleftrightarrow>
     find (\<lambda>r. fr_start r = fr_start fr) (scan_ranges U (scan_code D img) (image_starts img)) = Some fr"

lemma exec_from_nothing: "exec fa empty_state a s \<Longrightarrow> scannable fa \<Longrightarrow> exec fa seed a s"
proof (induction rule: exec.induct)
  case exec_entry
  then show ?case by (intro exec_label) (simp add: leaders_set)
next
  case (exec_label l)
  show ?case by (rule exec.exec_label) fact
next
  case (exec_step a s a')
  then show ?case by (blast intro: exec.exec_step)
qed

lemma scan_found:
  assumes r: "ScanTSDOffsets U D img vs0 = Some (ok, vs)" and U: "\<And>xs. set (visit_order U xs) = set xs"
    and fr: "scanned_range U D img fr" and mrs: "HasMRS D fr (scan_code D img) img"
  shows "\<exists>seed result. Run (image_analysis D img fr) seed = Some result \<and> set (r_violations result) \<subseteq> set vs"
proof -
  let ?ranges = "scan_ranges U (scan_code D img) (image_starts img)"
  let ?p = "\<lambda>rs ps. fold (\<lambda>fr ps. if HasMRS D fr (scan_code D img) img then oset_insert (fr_start fr) ps else ps) rs ps"
  have p: "set (?p rs ps) = set ps \<union> fr_start ` {r \<in> set rs. HasMRS D r (scan_code D img) img}" for rs ps
    by (induction rs arbitrary: ps) auto
  have "fr \<in> set ?ranges" using fr unfolding scanned_range_def by (blast dest: find_SomeD)
  then have "fr_start fr \<in> set (?p ?ranges [])" using mrs unfolding p by blast
  moreover have "kMaxRounds = Suc 4095" by (simp add: kMaxRounds_def)
  ultimately show ?thesis
    using scan_rounds_found [of U D img "scan_code D img" "image_starts img" ?ranges 4095 "?p ?ranges []"] r fr U
    unfolding ScanTSDOffsets_def Let_def image_starts_def scanned_range_def image_analysis_def by simp
qed

section \<open>A small image\<close>

text \<open>
  \<open>mrs x8, TPIDRRO_EL0; ldr x0, [x8, #0x100]; ret\<close>, then a second function \<open>ret\<close>; the four words are
  numbers a toy decoder tells apart.
\<close>

definition mk_inst :: "Op \<Rightarrow> nat \<Rightarrow> nat \<Rightarrow> nat \<Rightarrow> u64 \<Rightarrow> u64 \<Rightarrow> Inst" where
  "mk_inst code d n m i off = \<lparr>op = code, flags = 0, rd = d, rn = n, rm = m, imm = i, inst_offset = off\<rparr>"

definition demo_inst :: "u32 \<Rightarrow> Inst" where
  "demo_inst w = (if w = 1 then mk_inst A64_MRS 8 31 31 0xde83 0 else if w = 2 then mk_inst A64_LDR 0 8 31 0 0x100
     else mk_inst A64_RET 31 30 31 0 0)"

definition demo_decoder :: farmdec where
  "demo_decoder = \<lparr>fad_decode = map demo_inst, fad_get_cond = (\<lambda>f. 0), fad_get_addrmode = (\<lambda>f. 1), COND_AL = 14,
     AM_OFF_IMM = 1, ZERO_REG = 31, op_number = (\<lambda>c. 0)\<rparr>"

definition demo_order :: unspecified where
  "demo_order = \<lparr>sort_ranges = sort_key fr_start, visit_order = (\<lambda>xs. xs)\<rparr>"

definition demo_object :: macho_object where
  "demo_object = \<lparr>obj_data = [1,0,0,0, 2,0,0,0, 3,0,0,0, 3,0,0,0], obj_is64 = True, obj_cputype = CPU_TYPE_ARM64,
     obj_flags = 0, load_commands = [], obj_symbols = [], indirect_symbol = (\<lambda>i. 0), rebase_table = ([], None),
     bind_table = ([], None), lazy_bind_table = ([], None), weak_bind_table = ([], None), fixup_table = ([], None),
     export_trie = ([], None)\<rparr>"

definition demo_image :: Image where
  "demo_image = (new_image ''guest'' demo_object)\<lparr>
     im_segments := [\<lparr>seg_name = ''__TEXT'', seg_vmaddr = 0x1000, seg_vmsize = 16, seg_fileoff = 0, seg_filesize = 16,
                     seg_initprot = 5\<rparr>],
     im_sections := [\<lparr>segname = ''__TEXT'', sectname = ''__text'', sect_addr = 0x1000, sect_size = 16, sect_offset = 0,
                     sect_flags = S_ATTR_PURE_INSTRUCTIONS, reserved1 = 0, reserved2 = 0\<rparr>],
     im_functions := [0x1000, 0x100c]\<rparr>"

definition demo_range :: FunctionRange where
  "demo_range = \<lparr>fr_start = 0x1000, fr_end = 0x100c\<rparr>"

section \<open>Properties\<close>


definition demo_analysis :: FunctionAnalysis where
  "demo_analysis = image_analysis demo_decoder demo_image demo_range"

lemma demo_scannable: "scannable demo_analysis"
  by code_simp

lemma demo_exec: "exec demo_analysis seed 0x1004 (step_at demo_analysis 0x1000 empty_state)"
proof (rule exec_step [OF exec_label])
  show "0x1000 \<in> set (leaders demo_analysis)" by code_simp
  show "0x1004 \<in> set (flow_next demo_analysis 0x1000)" by code_simp
qed

lemma demo_load:
  "decoded_at demo_analysis 0x1004 = Some (mk_inst A64_LDR 0 8 31 0 0x100)"
  "tracked (step_at demo_analysis 0x1000 empty_state) 8"
  "fixed_offset_access (fa_decoder demo_analysis) (mk_inst A64_LDR 0 8 31 0 0x100) 8"
  "\<not> IsAllowedOffset (inst_offset (mk_inst A64_LDR 0 8 31 0 0x100))"
  by (code_simp)+


text \<open>
  C18: The scan reports every unaudited access. Whenever an execution of a scanned function that
  contains an \<open>mrs\<close> of \<open>TPIDRRO_EL0\<close>, following the flow of its instructions one by one, reaches a load or
  store with an immediate offset off a register still marked as holding the thread-data base, and
  that offset is not on the allow-list, the answer of the scan contains a line that names that address and that
  offset, and the scan fails.
\<close>

theorem ScanTSDOffsets_reports_access:
  assumes "ScanTSDOffsets U D img vs0 = Some (ok, vs)"
    and "\<And>xs. set (visit_order U xs) = set xs"
    and "scanned_range U D img fr" and "HasMRS D fr (scan_code D img) img"
    and "scannable (image_analysis D img fr)"
    and "exec (image_analysis D img fr) empty_state a s"
    and "decoded_at (image_analysis D img fr) a = Some inst" and "tracked s r" and "r < 31"
    and "fixed_offset_access D inst r" and "\<not> IsAllowedOffset (inst_offset inst)"
  shows "\<not> ok \<and> (\<exists>mrs. access_line (image_analysis D img fr) a mrs (inst_offset inst) \<in> set vs)"
proof -
  obtain seed result where run: "Run (image_analysis D img fr) seed = Some result" "set (r_violations result) \<subseteq> set vs"
    using scan_found [OF assms(1-4)] by blast
  have "fixed_offset_access (fa_decoder (image_analysis D img fr)) inst r"
    using assms(10) by (simp add: image_analysis_def analysis_of_def)
  from Run_charges_access [OF assms(5) run(1) exec_from_nothing [OF assms(6,5)] assms(7-9) this assms(11)] run(2)
  have v: "\<exists>mrs. access_line (image_analysis D img fr) a mrs (inst_offset inst) \<in> set vs" by blast
  have "ok = (vs = [])"
    using assms(1) scan_rounds_violations unfolding ScanTSDOffsets_def Let_def by blast
  with v show ?thesis by auto
qed

theorem ScanTSDOffsets_reports_access_witness:
  "\<exists>ok vs mrs. ScanTSDOffsets demo_order demo_decoder demo_image [] = Some (ok, vs) \<and> \<not> ok \<and>
     access_line demo_analysis 0x1004 mrs 0x100 \<in> set vs"
proof -
  obtain ok vs where r: "ScanTSDOffsets demo_order demo_decoder demo_image [] = Some (ok, vs)"
    using scan_rounds_some unfolding ScanTSDOffsets_def Let_def by fast
  have ok: "scannable (image_analysis demo_decoder demo_image demo_range)"
    using demo_scannable unfolding demo_analysis_def .
  have "set (visit_order demo_order xs) = set xs" for xs by (simp add: demo_order_def)
  moreover have "scanned_range demo_order demo_decoder demo_image demo_range" by code_simp
  moreover have "HasMRS demo_decoder demo_range (scan_code demo_decoder demo_image) demo_image" by code_simp
  ultimately have "\<not> ok \<and> (\<exists>mrs. access_line demo_analysis 0x1004 mrs (inst_offset (mk_inst A64_LDR 0 8 31 0 0x100)) \<in> set vs)"
    using ScanTSDOffsets_reports_access [OF r _ _ _ ok demo_exec [unfolded demo_analysis_def]
        demo_load(1,2) [unfolded demo_analysis_def] _ _ demo_load(4)] demo_load(3)
    unfolding demo_analysis_def by (simp add: image_analysis_def analysis_of_def)
  with r show ?thesis by (auto simp: mk_inst_def)
qed

text \<open>
  A complaint is never made up. Every line a function is charged with is about an instruction that an
  execution following the flow of the function reaches with some general register marked: an access at an
  offset off the allow-list through that register, or an unmodelled use of that register as an address.
\<close>

theorem Run_complaints_justified:
  assumes "scannable fa" and "Run fa seed = Some result" and "v \<in> set (r_violations result)"
  shows "\<exists>a s inst r mrs. exec fa seed a s \<and> tracked s r \<and> r < 31 \<and> decoded_at fa a = Some inst \<and>
    (fixed_offset_access (fa_decoder fa) inst r \<and> \<not> IsAllowedOffset (inst_offset inst) \<and>
       v = access_line fa a mrs (inst_offset inst) \<or>
     UsesReg inst r \<and> v = unmodelled_line fa a mrs inst)"
  by (rule Run_charge_justified [OF assms]) blast

theorem Run_complaints_justified_witness:
  "\<exists>result v a s inst r mrs. Run demo_analysis empty_state = Some result \<and> v \<in> set (r_violations result) \<and>
     exec demo_analysis empty_state a s \<and> tracked s r \<and> decoded_at demo_analysis a = Some inst \<and>
     (v = access_line demo_analysis a mrs (inst_offset inst) \<or> v = unmodelled_line demo_analysis a mrs inst)"
proof -
  obtain result where run: "Run demo_analysis empty_state = Some result" using Run_some by blast
  obtain mrs where "access_line demo_analysis 0x1004 mrs (inst_offset (mk_inst A64_LDR 0 8 31 0 0x100)) \<in> set (r_violations result)"
    using Run_charges_access [OF demo_scannable run demo_exec demo_load(1,2) _ demo_load(3,4)] by auto
  from Run_complaints_justified [OF demo_scannable run this] run this show ?thesis by blast
qed

lemma scan_answers:
  "\<exists>ok vs. ScanTSDOffsets U D img vs0 = Some (ok, vs) \<and> ok = (vs = []) \<and> set vs0 \<subseteq> set vs"
proof -
  obtain answer where a: "ScanTSDOffsets U D img vs0 = Some answer"
    using scan_rounds_some unfolding ScanTSDOffsets_def Let_def by blast
  then have "set vs0 \<subseteq> set (snd answer) \<and> fst answer = (snd answer = [])"
    using scan_rounds_violations [of U D img] unfolding ScanTSDOffsets_def Let_def
    by (cases answer) (fastforce dest: scan_rounds_violations)
  with a show ?thesis by (cases answer) auto
qed

text \<open>
  The scan always answers. For any image, decoder and order of visits the two worklists and the seed
  propagation end, the answer is true exactly when the list of complaints is empty, and no complaint of
  the caller's list is lost.
\<close>

theorem ScanTSDOffsets_answers:
  "\<exists>ok vs. ScanTSDOffsets U D img vs0 = Some (ok, vs) \<and> ok = (vs = []) \<and> set vs0 \<subseteq> set vs"
  by (rule scan_answers)

text \<open>
  The must-analysis knows nothing behind the entry block. Every block but the first is entered, in the
  solution \<open>Solve\<close> computes for the intersection merge, with no register marked, whatever the function's
  blocks do and whatever the callers hand it: the other blocks start empty and the merge only removes.
\<close>

theorem Solve_must_entry_block_only:
  "\<exists>must_in calls. Solve fa (BuildBlocks fa) seed False = Some (must_in, calls) \<and>
     list_all (\<lambda>i. \<not> tracked (must_in ! i) r) [1..<length (BuildBlocks fa)]"
proof -
  obtain must_in calls where "Solve fa (BuildBlocks fa) seed False = Some (must_in, calls)"
    using Solve_returns [of fa seed False] by auto
  with Solve_must_entry_only [OF this] show ?thesis by (auto simp: list_all_iff)
qed

text \<open>
  The last function of an image is not scanned. Whatever the order in which equal ranges are sorted,
  every range the scan looks at starts below the greatest function start.
\<close>

theorem scan_skips_last_function:
  assumes "\<And>xs. set (sort_ranges U xs) = set xs" and "fr \<in> set (scan_ranges U code (image_starts img))"
  shows "fr_start fr < last (image_starts img)"
  using last_start_not_scanned [of fr code "image_starts img"] assms
  by (simp add: scan_ranges_def image_starts_def sorted_remdups_adj_strict)

theorem scan_skips_last_function_witness:
  "fr_start demo_range < last (image_starts demo_image)"
proof (rule scan_skips_last_function [of demo_order])
  show "set (sort_ranges demo_order xs) = set xs" for xs by (simp add: demo_order_def)
  show "demo_range \<in> set (scan_ranges demo_order (scan_code demo_decoder demo_image) (image_starts demo_image))"
    by code_simp
qed

text \<open>
  An image with a single function passes unseen. Whatever that function does with the thread-data
  register, the scan answers true without a complaint.
\<close>

theorem scan_passes_lone_function:
  assumes "sort_ranges U [] = []" and "image_starts img = [start]"
  shows "ScanTSDOffsets U D img [] = Some (True, [])"
proof -
  have "function_ranges code [start] = []" for code by (simp add: function_ranges_def Let_def)
  moreover have "foldl (add_section_tail code) [] ss = []" for code ss
    by (induction ss) (simp_all add: add_section_tail_def Let_def)
  ultimately have "scan_ranges U code [start] = []" for code by (simp add: scan_ranges_def assms(1))
  with assms(2) show ?thesis
    by (simp add: ScanTSDOffsets_def image_starts_def Let_def scan_rounds.simps)
qed

theorem scan_passes_lone_function_witness:
  "ScanTSDOffsets demo_order demo_decoder (demo_image\<lparr>im_functions := [0x1000]\<rparr>) [] = Some (True, [])"
  by (rule scan_passes_lone_function) (simp_all add: demo_order_def image_starts_def)

text \<open>
  The same three instructions with an indirect call in front of the load, and the base in a
  callee-saved register: \<open>mrs x24; blr x8; ldr x0, [x24, #0x100]; ret\<close>.
\<close>

definition call_insts :: "Inst list" where
  "call_insts = [mk_inst A64_MRS 24 31 31 0xde83 0, mk_inst A64_BLR 31 8 31 0 0, mk_inst A64_LDR 0 24 31 0 0x100,
     mk_inst A64_RET 31 30 31 0 0]"

definition call_analysis :: FunctionAnalysis where
  "call_analysis = analysis_of demo_decoder (new_image ''guest'' demo_object)
     \<lparr>section_addrs = [0x1000], section_sizes = [16], insts = [call_insts]\<rparr> [0x1000]
     \<lparr>fr_start = 0x1000, fr_end = 0x1010\<rparr>"

lemma call_unreached:
  "exec call_analysis empty_state a s \<Longrightarrow>
   a \<in> {0x1000, 0x1004, 0x1008, 0x100c} \<and> (\<forall>r. tracked s r \<longrightarrow> r = 24 \<and> a = 0x1004)"
proof (induction rule: exec.induct)
  case exec_entry
  have "fr_start (fa_range call_analysis) = 0x1000" by code_simp
  then show ?case by (simp add: empty_state_def)
next
  case (exec_label l)
  have "leaders call_analysis = [0x1000, 0x1008]" by code_simp
  with exec_label show ?case by (auto simp: empty_state_def)
next
  case (exec_step a s a')
  have d: "decoded_at call_analysis 0x1000 = Some (mk_inst A64_MRS 24 31 31 0xde83 0)"
    "decoded_at call_analysis 0x1004 = Some (mk_inst A64_BLR 31 8 31 0 0)"
    "decoded_at call_analysis 0x1008 = Some (mk_inst A64_LDR 0 24 31 0 0x100)"
    "decoded_at call_analysis 0x100c = Some (mk_inst A64_RET 31 30 31 0 0)"
    by code_simp+
  have f: "flow_next call_analysis 0x1000 = [0x1004]" "flow_next call_analysis 0x1004 = []"
    "flow_next call_analysis 0x1008 = [0x100c]" "flow_next call_analysis 0x100c = []"
    by code_simp+
  show ?case using exec_step d f
    by (auto simp: tracked_step_at gains_def keeps_def mk_inst_def)
qed


end
