(* ===== verification/Json.thy ===== *)
theory Json
  imports Prelude
begin

text \<open>
  The JSON the translator writes and the bridge generator reads, as a tree; its text is LLVM's. What is asked for may be
  missing or of another sort, and then there is nothing.
\<close>

datatype json = JObject "(string \<times> json) list" | JArray "json list" | JString string | JInt int

definition get_field :: "string \<Rightarrow> json \<Rightarrow> json option" where
  "get_field key j = (case j of JObject members \<Rightarrow> map_of members key | _ \<Rightarrow> None)"

fun json_array :: "json \<Rightarrow> json list option" where
  "json_array (JArray items) = Some items"
| "json_array _ = None"

fun json_string :: "json \<Rightarrow> string option" where
  "json_string (JString s) = Some s"
| "json_string _ = None"

fun json_int :: "json \<Rightarrow> int option" where
  "json_int (JInt i) = Some i"
| "json_int _ = None"

fun json_object :: "json \<Rightarrow> json option" where
  "json_object (JObject members) = Some (JObject members)"
| "json_object _ = None"

definition get_array :: "string \<Rightarrow> json \<Rightarrow> json list option" where
  "get_array key j = Option.bind (get_field key j) json_array"

definition get_string :: "string \<Rightarrow> json \<Rightarrow> string option" where
  "get_string key j = Option.bind (get_field key j) json_string"

definition get_int :: "string \<Rightarrow> json \<Rightarrow> int option" where
  "get_int key j = Option.bind (get_field key j) json_int"

definition get_object :: "string \<Rightarrow> json \<Rightarrow> json option" where
  "get_object key j = Option.bind (get_field key j) json_object"

end
