(* ===== verification/Objc.thy ===== *)
theory Objc
  imports Exports Json "HOL-Library.State_Monad"
begin

text \<open>
  The Objective-C metadata of an image, \<open>xlate/src/objc.h\<close> and \<open>xlate/src/objc.cpp\<close>: reading the
  class, category, protocol, string and selector tables out of the guest's data, moving the Swift
  classes whose ancestry is the guest's own out of the class lists, resolving the imports another
  guest image defines, and the manifest. The list of errors the readers append to is the state of a
  state monad; a value of type \<open>'a reading\<close> is one read.
\<close>

section \<open>Data\<close>

datatype Kind = Null | Local | Import | Raw

record Pointer =
  kind :: Kind
  ptr_host :: u64
  ptr_symbol :: string
  ptr_library :: string

record Method =
  selector :: string
  types :: string
  name_address :: u64
  types_address :: u64
  imp :: u64

record Ivar =
  ivar_name :: string
  ivar_type :: string
  offset_address :: u64
  offset_value :: u32
  ivar_name_address :: u64
  type_address :: u64
  alignment :: u32
  ivar_size :: u32

record Property =
  prop_name :: string
  attributes :: string
  prop_name_address :: u64
  attributes_address :: u64

record ObjCProtocol =
  proto_address :: u64
  proto_name :: string
  proto_name_address :: u64
  proto_protocols :: "u64 list"
  proto_instance_methods :: "Method list"
  proto_class_methods :: "Method list"
  optional_instance_methods :: "Method list"
  optional_class_methods :: "Method list"
  proto_properties :: "Property list"
  proto_flags :: u32
  proto_size :: u32

record ClassData =
  cd_flags :: u32
  instance_start :: u32
  instance_size :: u32
  cd_name :: string
  cd_name_address :: u64
  methods :: "Method list"
  ivars :: "Ivar list"
  properties :: "Property list"
  protocols :: "u64 list"

record ObjCClass =
  cls_address :: u64
  swift :: bool
  superclass :: Pointer
  cls_data :: ClassData
  metaclass :: u64
  meta_isa :: Pointer
  meta_superclass :: Pointer
  meta_data :: ClassData

record ObjCCategory =
  cat_name :: string
  cat_name_address :: u64
  cat_cls :: Pointer
  cat_instance_methods :: "Method list"
  cat_class_methods :: "Method list"
  cat_properties :: "Property list"
  cat_protocols :: "u64 list"

record ConstantString =
  str_address :: u64
  str_flags :: u32
  str_string :: u64
  str_length :: u64

record SelectorReference =
  sel_slot :: u64
  sel_string :: u64
  sel_selector :: string

record ObjCImage =
  oi_classes :: "ObjCClass list"
  swift_static_classes :: "u64 list"
  clsrolist_superclass :: "(u64 \<times> Pointer) list"
  swift_listed_classes :: "u64 list"
  clsrolist_count :: u64
  clsrolist_unowned :: u64
  categories :: "ObjCCategory list"
  oi_protocols :: "ObjCProtocol list"
  strings :: "ConstantString list"
  selectors :: "SelectorReference list"
  errors :: "string list"

type_synonym 'a reading = "(string list, 'a) state"

section \<open>\<open>Reader\<close>\<close>

definition U32 :: "Image \<Rightarrow> u64 \<Rightarrow> u32" where
  "U32 img host_addr = (case ReadBytes img host_addr 4 of Some bytes \<Rightarrow> le_word bytes | None \<Rightarrow> 0)"

definition U64 :: "Image \<Rightarrow> u64 \<Rightarrow> u64" where
  "U64 img host_addr = ucast (U32 img host_addr) OR push_bit 32 (ucast (U32 img (host_addr + 4)))"

definition Read :: "Image \<Rightarrow> u64 \<Rightarrow> Pointer" where
  "Read img host_addr =
     (let vmaddr = host_addr - im_slide img
      in case map_of (im_binds img) vmaddr of
           Some bound \<Rightarrow> \<lparr>kind = Import, ptr_host = 0, ptr_symbol = bind_symbol bound, ptr_library = bind_library bound\<rparr>
         | None \<Rightarrow>
             (case map_of (im_rebases img) vmaddr of
                Some rebase \<Rightarrow> \<lparr>kind = Local, ptr_host = host img (rebase AND 0x00FFFFFFFFFFFFFF),
                               ptr_symbol = '''', ptr_library = ''''\<rparr>
              | None \<Rightarrow> \<lparr>kind = (if U64 img host_addr \<noteq> 0 then Raw else Null), ptr_host = U64 img host_addr,
                         ptr_symbol = '''', ptr_library = ''''\<rparr>))"

definition report :: "string \<Rightarrow> unit reading" where
  "report message = State_Monad.update (\<lambda>errors. errors @ [message])"

definition read_Local :: "Image \<Rightarrow> u64 \<Rightarrow> string \<Rightarrow> u64 reading" where
  "read_Local img host_addr what =
     (let pointer = Read img host_addr
      in if kind pointer = Null then State_Monad.return 0
         else if kind pointer \<noteq> Local
              then do { report (what @ '' is not a pointer into the image''); State_Monad.return 0 }
         else State_Monad.return (ptr_host pointer))"

text \<open>
  \<open>String\<close>: the loop ends at a zero byte, where nothing can be read, or when the address wraps to 0.
\<close>

function String :: "Image \<Rightarrow> u64 \<Rightarrow> string" where
  "String img host_addr =
     (if host_addr = 0 then ''''
      else case ReadBytes img host_addr 1 of
             None \<Rightarrow> ''''
           | Some bytes \<Rightarrow> if hd bytes = 0 then '''' else char_of (unat (hd bytes)) # String img (host_addr + 1))"
  by pat_completeness auto

lemma host_climbs: "host_addr \<noteq> 0 \<Longrightarrow> unat (- host_addr - 1) < unat (- (host_addr :: u64))"
  by (subst unat_minus_one) (auto simp: unat_gt_0)

termination String
  by (relation "measure (\<lambda>(img, host_addr). unat (- host_addr))") (simp_all add: host_climbs)

declare String.simps [simp del]

definition SectionNamed :: "Image \<Rightarrow> string \<Rightarrow> Section option" where
  "SectionNamed img name =
     find (\<lambda>sec. sectname sec = name \<and> starts_with ''__DATA'' (segname sec)) (im_sections img)"

section \<open>Lists\<close>

text \<open>The values of \<open>for (offset = 0; offset < size; offset += 8)\<close>.\<close>

definition offsets :: "u64 \<Rightarrow> u64 list" where
  "offsets n = map (\<lambda>i. of_nat (8 * i)) [0..<(unat n + 7) div 8]"

text \<open>A loop whose body pushes at most one element.\<close>

definition collect :: "('a \<Rightarrow> 'b option reading) \<Rightarrow> 'a list \<Rightarrow> 'b list reading" where
  "collect f xs = do { rs \<leftarrow> State_Monad.traverse_list f xs; State_Monad.return (List.map_filter (\<lambda>r. r) rs) }"

definition entry_at :: "u64 \<Rightarrow> u32 \<Rightarrow> nat \<Rightarrow> u64" where
  "entry_at list entsize i = list + 8 + of_nat i * ucast entsize"

definition read_relative_method :: "Image \<Rightarrow> u64 \<Rightarrow> Method option reading" where
  "read_relative_method img entry =
     (let name = (scast (U32 img entry) :: u64);
          types = (scast (U32 img (entry + 4)) :: u64);
          imp = (scast (U32 img (entry + 8)) :: u64);
          selref = Read img (entry + name)
      in if kind selref \<noteq> Local
         then do { report ''relative method name does not point to a selector reference''; State_Monad.return None }
         else State_Monad.return (Some
           \<lparr>selector = String img (ptr_host selref), types = String img (entry + 4 + types),
            name_address = ptr_host selref, types_address = entry + 4 + types, imp = entry + 8 + imp\<rparr>))"

definition read_absolute_method :: "Image \<Rightarrow> u64 \<Rightarrow> Method option reading" where
  "read_absolute_method img entry = do {
     name_addr \<leftarrow> read_Local img entry ''method name'';
     types_addr \<leftarrow> read_Local img (entry + 8) ''method types'';
     implementation \<leftarrow> read_Local img (entry + 16) ''method implementation'';
     State_Monad.return (Some
       \<lparr>selector = String img name_addr, types = String img types_addr, name_address = name_addr,
        types_address = types_addr, imp = implementation\<rparr>)
   }"

definition ReadMethods :: "Image \<Rightarrow> u64 \<Rightarrow> Method list reading" where
  "ReadMethods img list =
     (if list = 0 then State_Monad.return []
      else let header = U32 img list;
               count = unat (U32 img (list + 4));
               relative = header AND 0x80000000 \<noteq> 0;
               entsize = header AND 0x0000FFFC
           in if relative then collect (\<lambda>i. read_relative_method img (entry_at list entsize i)) [0..<count]
              else if 0 < count \<and> entsize \<noteq> 24
                   then do { report ''unexpected method entry size''; State_Monad.return [] }
              else collect (\<lambda>i. read_absolute_method img (entry_at list entsize i)) [0..<count])"

definition read_property :: "Image \<Rightarrow> u64 \<Rightarrow> Property reading" where
  "read_property img entry = do {
     name_addr \<leftarrow> read_Local img entry ''property name'';
     attributes_addr \<leftarrow> read_Local img (entry + 8) ''property attributes'';
     State_Monad.return \<lparr>prop_name = String img name_addr, attributes = String img attributes_addr,
       prop_name_address = name_addr, attributes_address = attributes_addr\<rparr>
   }"

definition ReadProperties :: "Image \<Rightarrow> u64 \<Rightarrow> Property list reading" where
  "ReadProperties img list =
     (if list = 0 then State_Monad.return []
      else State_Monad.traverse_list (\<lambda>i. read_property img (entry_at list (U32 img list) i))
             [0..<unat (U32 img (list + 4))])"

definition read_protocol_entry :: "Image \<Rightarrow> u64 \<Rightarrow> u64 option reading" where
  "read_protocol_entry img entry = do {
     protocol \<leftarrow> read_Local img entry ''protocol list entry'';
     State_Monad.return (if protocol \<noteq> 0 then Some protocol else None)
   }"

definition ReadProtocolList :: "Image \<Rightarrow> u64 \<Rightarrow> u64 list reading" where
  "ReadProtocolList img list =
     (if list = 0 then State_Monad.return []
      else collect (\<lambda>i. read_protocol_entry img (list + 8 + of_nat i * 8)) [0..<unat (U64 img list)])"

definition read_ivar :: "Image \<Rightarrow> u64 \<Rightarrow> Ivar reading" where
  "read_ivar img entry = do {
     offset_addr \<leftarrow> read_Local img entry ''ivar offset'';
     name_addr \<leftarrow> read_Local img (entry + 8) ''ivar name'';
     type_addr \<leftarrow> read_Local img (entry + 16) ''ivar type'';
     State_Monad.return
       \<lparr>ivar_name = String img name_addr, ivar_type = String img type_addr, offset_address = offset_addr,
        offset_value = (if offset_addr \<noteq> 0 then U32 img offset_addr else 0), ivar_name_address = name_addr,
        type_address = type_addr, alignment = U32 img (entry + 24), ivar_size = U32 img (entry + 28)\<rparr>
   }"

definition ReadData :: "Image \<Rightarrow> u64 \<Rightarrow> ClassData reading" where
  "ReadData img ro = do {
     name_addr \<leftarrow> read_Local img (ro + 24) ''class name'';
     method_list \<leftarrow> read_Local img (ro + 32) ''method list'';
     ms \<leftarrow> ReadMethods img method_list;
     protocol_list \<leftarrow> read_Local img (ro + 40) ''class protocols'';
     ps \<leftarrow> ReadProtocolList img protocol_list;
     ivar_list \<leftarrow> read_Local img (ro + 48) ''ivar list'';
     vs \<leftarrow> (if ivar_list = 0 then State_Monad.return []
           else State_Monad.traverse_list (\<lambda>i. read_ivar img (entry_at ivar_list (U32 img ivar_list) i))
                  [0..<unat (U32 img (ivar_list + 4))]);
     property_list \<leftarrow> read_Local img (ro + 64) ''property list'';
     props \<leftarrow> ReadProperties img property_list;
     State_Monad.return
       \<lparr>cd_flags = U32 img ro, instance_start = U32 img (ro + 4), instance_size = U32 img (ro + 8),
        cd_name = String img name_addr, cd_name_address = name_addr, methods = ms, ivars = vs, properties = props,
        protocols = ps\<rparr>
   }"

section \<open>\<open>AnalyzeObjC\<close>\<close>

text \<open>The entries of a pointer table: the loop over a named section, when the image has it.\<close>

definition table_entries :: "Image \<Rightarrow> string \<Rightarrow> u64 list" where
  "table_entries img name =
     (case SectionNamed img name of
        None \<Rightarrow> []
      | Some list \<Rightarrow> map (\<lambda>offset. host img (sect_addr list + offset)) (offsets (sect_size list)))"

definition read_class :: "Image \<Rightarrow> u64 \<Rightarrow> ObjCClass option reading" where
  "read_class img slot = do {
     address \<leftarrow> read_Local img slot ''class list entry'';
     if address = 0 then State_Monad.return None
     else do {
       meta \<leftarrow> read_Local img address ''class isa'';
       bits \<leftarrow> read_Local img (address + 32) ''class data'';
       data \<leftarrow> ReadData img (bits AND NOT 7);
       meta_bits \<leftarrow> read_Local img (meta + 32) ''metaclass data'';
       meta_data \<leftarrow> ReadData img (meta_bits AND NOT 7);
       State_Monad.return (Some
         \<lparr>cls_address = address, swift = (bits AND 3 \<noteq> 0), superclass = Read img (address + 8), cls_data = data,
          metaclass = meta, meta_isa = Read img meta, meta_superclass = Read img (meta + 8), meta_data = meta_data\<rparr>)
     }
   }"

definition read_ro_entry :: "Image \<Rightarrow> u64 \<Rightarrow> u64 option reading" where
  "read_ro_entry img slot = do {
     ro \<leftarrow> read_Local img slot ''class ro list entry'';
     State_Monad.return (if ro \<noteq> 0 then Some ro else None)
   }"

text \<open>The slots of the data sections searched for class objects: eight bytes that fit in the section.\<close>

definition object_section :: "Section \<Rightarrow> bool" where
  "object_section sec \<longleftrightarrow> starts_with ''__DATA'' (segname sec) \<and> sectname sec \<noteq> ''__objc_clsrolist'' \<and>
     sectname sec \<noteq> ''__bss'' \<and> sectname sec \<noteq> ''__common''"

definition section_slots :: "Image \<Rightarrow> Section \<Rightarrow> u64 list" where
  "section_slots img sec = map (\<lambda>i. host img (sect_addr sec + of_nat (8 * i))) [0..<unat (sect_size sec) div 8]"

text \<open>\<open>object_ro\<close>: the objects found, each with its ro; its keys are the set \<open>objects\<close>.\<close>

definition find_objects :: "Image \<Rightarrow> u64 list \<Rightarrow> (u64, u64) omap" where
  "find_objects img ros =
     fold (\<lambda>slot object_ro.
         (let pointer = Read img slot
          in if kind pointer = Local \<and> ptr_host pointer AND NOT 7 \<in> set ros
             then omap_set (slot - 32) (ptr_host pointer AND NOT 7) object_ro else object_ro))
       (concat (map (section_slots img) (filter object_section (im_sections img)))) []"

definition owned_ros :: "Image \<Rightarrow> u64 list \<Rightarrow> u64 list" where
  "owned_ros img ros =
     fold (\<lambda>slot owned.
         (let pointer = Read img slot
          in if kind pointer = Local \<and> ptr_host pointer AND NOT 7 \<in> set ros
             then oset_insert (ptr_host pointer AND NOT 7) owned else owned))
       (concat (map (section_slots img) (filter object_section (im_sections img)))) []"

definition is_meta :: "Image \<Rightarrow> u64 \<Rightarrow> bool" where
  "is_meta img ro \<longleftrightarrow> U32 img ro AND 1 \<noteq> 0"

text \<open>One class object: its address, and its superclass when it is not a metaclass.\<close>

definition read_object :: "Image \<Rightarrow> (u64, u64) omap \<Rightarrow> u64 \<times> u64 \<Rightarrow> (u64 \<times> Pointer option) option reading" where
  "read_object img object_ro = (\<lambda>(object, ro).
     (let isa = Read img object;
          meta = is_meta img ro
      in if \<not> meta \<and> \<not> (kind isa = Local \<and> ptr_host isa \<in> fst ` set object_ro)
         then do {
           report ''class object of __objc_clsrolist whose isa is not a listed metaclass'';
           State_Monad.return None
         }
         else State_Monad.return (Some (object, if meta then None else Some (Read img (object + 8))))))"

definition read_clsrolist :: "Image \<Rightarrow> (u64 list \<times> (u64 \<times> Pointer) list \<times> u64 \<times> u64) reading" where
  "read_clsrolist img = do {
     entries \<leftarrow> collect (read_ro_entry img) (table_entries img ''__objc_clsrolist'');
     let ros = fold oset_insert entries [];
     let object_ro = find_objects img ros;
     objects \<leftarrow> collect (read_object img object_ro) object_ro;
     State_Monad.return (map fst objects,
       List.map_filter (\<lambda>(object, super). map_option (\<lambda>s. (object, s)) super) objects,
       of_nat (length ros), of_nat (length ros) - of_nat (length (owned_ros img ros)))
   }"

definition read_category :: "Image \<Rightarrow> u64 \<Rightarrow> ObjCCategory option reading" where
  "read_category img slot = do {
     address \<leftarrow> read_Local img slot ''category list entry'';
     if address = 0 then State_Monad.return None
     else do {
       name_addr \<leftarrow> read_Local img address ''category name'';
       instance_list \<leftarrow> read_Local img (address + 16) ''category methods'';
       instance_ms \<leftarrow> ReadMethods img instance_list;
       class_list \<leftarrow> read_Local img (address + 24) ''category class methods'';
       class_ms \<leftarrow> ReadMethods img class_list;
       protocol_list \<leftarrow> read_Local img (address + 32) ''category protocols'';
       ps \<leftarrow> ReadProtocolList img protocol_list;
       property_list \<leftarrow> read_Local img (address + 40) ''category properties'';
       props \<leftarrow> ReadProperties img property_list;
       State_Monad.return (Some
         \<lparr>cat_name = String img name_addr, cat_name_address = name_addr, cat_cls = Read img (address + 8),
          cat_instance_methods = instance_ms, cat_class_methods = class_ms, cat_properties = props,
          cat_protocols = ps\<rparr>)
     }
   }"

text \<open>\<open>offset + 32 <= size\<close>: the last string has to fit.\<close>

definition constant_string_addresses :: "Image \<Rightarrow> u64 list" where
  "constant_string_addresses img =
     (case SectionNamed img ''__cfstring'' of
        None \<Rightarrow> []
      | Some list \<Rightarrow> map (\<lambda>i. host img (sect_addr list + of_nat (32 * i))) [0..<unat (sect_size list) div 32])"

definition read_constant_string :: "Image \<Rightarrow> u64 \<Rightarrow> ConstantString option reading" where
  "read_constant_string img address =
     (let isa = Read img address
      in if kind isa \<noteq> Import \<or> ptr_symbol isa \<noteq> ''___CFConstantStringClassReference''
         then do { report ''constant string without the CFString class''; State_Monad.return None }
         else do {
           contents \<leftarrow> read_Local img (address + 16) ''constant string contents'';
           State_Monad.return (Some
             \<lparr>str_address = address, str_flags = U32 img (address + 8), str_string = contents,
              str_length = U64 img (address + 24)\<rparr>)
         })"

definition read_selref :: "Image \<Rightarrow> u64 \<Rightarrow> SelectorReference reading" where
  "read_selref img slot = do {
     string \<leftarrow> read_Local img slot ''selector reference'';
     State_Monad.return \<lparr>sel_slot = slot, sel_string = string, sel_selector = String img string\<rparr>
   }"

definition read_protocol :: "Image \<Rightarrow> u64 \<Rightarrow> ObjCProtocol option reading" where
  "read_protocol img slot = do {
     address \<leftarrow> read_Local img slot ''protocol list entry'';
     if address = 0 then State_Monad.return None
     else do {
       name_addr \<leftarrow> read_Local img (address + 8) ''protocol name'';
       protocol_list \<leftarrow> read_Local img (address + 16) ''adopted protocols'';
       ps \<leftarrow> ReadProtocolList img protocol_list;
       l1 \<leftarrow> read_Local img (address + 24) ''protocol methods'';
       instance_ms \<leftarrow> ReadMethods img l1;
       l2 \<leftarrow> read_Local img (address + 32) ''protocol class methods'';
       class_ms \<leftarrow> ReadMethods img l2;
       l3 \<leftarrow> read_Local img (address + 40) ''optional methods'';
       optional_instance_ms \<leftarrow> ReadMethods img l3;
       l4 \<leftarrow> read_Local img (address + 48) ''optional class methods'';
       optional_class_ms \<leftarrow> ReadMethods img l4;
       property_list \<leftarrow> read_Local img (address + 56) ''protocol properties'';
       props \<leftarrow> ReadProperties img property_list;
       State_Monad.return (Some
         \<lparr>proto_address = address, proto_name = String img name_addr, proto_name_address = name_addr,
          proto_protocols = ps, proto_instance_methods = instance_ms, proto_class_methods = class_ms,
          optional_instance_methods = optional_instance_ms, optional_class_methods = optional_class_ms,
          proto_properties = props, proto_flags = U32 img (address + 68), proto_size = U32 img (address + 64)\<rparr>)
     }
   }"

text \<open>A protocol listed twice is kept once, where it was first.\<close>

definition add_protocol :: "ObjCProtocol \<Rightarrow> ObjCProtocol list \<Rightarrow> ObjCProtocol list" where
  "add_protocol protocol kept =
     (if list_ex (\<lambda>existing. proto_address existing = proto_address protocol) kept then kept else kept @ [protocol])"

definition analyze :: "Image \<Rightarrow> ObjCImage reading" where
  "analyze img = do {
     cs \<leftarrow> collect (read_class img) (table_entries img ''__objc_classlist'');
     (statics, supers, count, unowned) \<leftarrow> read_clsrolist img;
     cats \<leftarrow> collect (read_category img) (table_entries img ''__objc_catlist'');
     strs \<leftarrow> collect (read_constant_string img) (constant_string_addresses img);
     sels \<leftarrow> State_Monad.traverse_list (read_selref img) (table_entries img ''__objc_selrefs'');
     ps \<leftarrow> collect (read_protocol img) (table_entries img ''__objc_protolist'');
     State_Monad.return
       \<lparr>oi_classes = cs, swift_static_classes = statics, clsrolist_superclass = supers, swift_listed_classes = [],
        clsrolist_count = count, clsrolist_unowned = unowned, categories = cats,
        oi_protocols = fold add_protocol ps [], strings = strs, selectors = sels, errors = []\<rparr>
   }"

definition AnalyzeObjC :: "Image \<Rightarrow> ObjCImage" where
  "AnalyzeObjC img = (case run_state (analyze img) [] of (objc, messages) \<Rightarrow> objc\<lparr>errors := messages\<rparr>)"

section \<open>\<open>SplitGuestLayoutClasses\<close>\<close>

definition superclass_table :: "ObjCImage list \<Rightarrow> (u64, Pointer) omap" where
  "superclass_table objc =
     fold (\<lambda>oi table.
         fold (\<lambda>(address, super). omap_set address super) (clsrolist_superclass oi)
           (fold (\<lambda>cls. omap_set (cls_address cls) (superclass cls)) (oi_classes oi) table))
       objc []"

text \<open>The walk up the superclasses: at most 256 steps, from the superclass of the class asked about.\<close>

fun guest_only_from :: "(u64, Pointer) omap \<Rightarrow> nat \<Rightarrow> Pointer \<Rightarrow> bool" where
  "guest_only_from superclass_of 0 super = False"
| "guest_only_from superclass_of (Suc depth) super =
     (case kind super of
        Null \<Rightarrow> True
      | Local \<Rightarrow> (case map_of superclass_of (ptr_host super) of
                   Some next_super \<Rightarrow> guest_only_from superclass_of depth next_super
                 | None \<Rightarrow> False)
      | _ \<Rightarrow> False)"

definition guest_only :: "(u64, Pointer) omap \<Rightarrow> ObjCClass \<Rightarrow> bool" where
  "guest_only superclass_of start = guest_only_from superclass_of 256 (superclass start)"

definition moved_classes :: "ObjCImage list \<Rightarrow> u64 list" where
  "moved_classes objc =
     fold (\<lambda>cls moved. if swift cls \<and> guest_only (superclass_table objc) cls
                        then oset_insert (cls_address cls) moved else moved)
       (concat (map oi_classes objc)) []"

definition check_category :: "u64 list \<Rightarrow> unit \<Rightarrow> ObjCCategory \<Rightarrow> string + unit" where
  "check_category moved u category =
     (if kind (cat_cls category) = Local \<and> ptr_host (cat_cls category) \<in> set moved
      then Inl (''category '' @ cat_name category @ '' extends a Swift class that keeps the guest's class layout'')
      else Inr ())"

definition check_class :: "u64 list \<Rightarrow> unit \<Rightarrow> ObjCClass \<Rightarrow> string + unit" where
  "check_class moved u cls =
     (if cls_address cls \<notin> set moved \<and> kind (superclass cls) = Local \<and> ptr_host (superclass cls) \<in> set moved
      then Inl (''class '' @ cd_name (cls_data cls) @ '' has a superclass that keeps the guest's class layout'')
      else Inr ())"

definition check_image :: "u64 list \<Rightarrow> unit \<Rightarrow> ObjCImage \<Rightarrow> string + unit" where
  "check_image moved u oi =
     sum_bind (sum_fold (check_category moved) () (categories oi))
       (\<lambda>u. sum_fold (check_class moved) () (oi_classes oi))"

definition split_image :: "u64 list \<Rightarrow> ObjCImage \<Rightarrow> ObjCImage" where
  "split_image moved oi =
     (let out = filter (\<lambda>cls. cls_address cls \<in> set moved) (oi_classes oi)
      in oi\<lparr>oi_classes := filter (\<lambda>cls. cls_address cls \<notin> set moved) (oi_classes oi),
            swift_static_classes := swift_static_classes oi @ concat (map (\<lambda>cls. [cls_address cls, metaclass cls]) out),
            swift_listed_classes := swift_listed_classes oi @ map cls_address out\<rparr>)"

definition SplitGuestLayoutClasses :: "ObjCImage list \<Rightarrow> string + ObjCImage list" where
  "SplitGuestLayoutClasses objc =
     (let moved = moved_classes objc
      in sum_bind (sum_fold (check_image moved) () objc) (\<lambda>u. Inr (map (split_image moved) objc)))"

section \<open>\<open>ResolveGuestImports\<close>\<close>

text \<open>The lookup logs the libraries it does not know, so the exports are the state.\<close>

type_synonym 'a resolving = "(GuestExports, 'a) state"

definition resolve_pointer :: "Pointer \<Rightarrow> Pointer resolving" where
  "resolve_pointer pointer =
     (if kind pointer \<noteq> Import then State_Monad.return pointer
      else do {
        exports \<leftarrow> State_Monad.get;
        (case Find exports (ptr_library pointer) (ptr_symbol pointer) of
           (exports, found) \<Rightarrow> do {
             State_Monad.set exports;
             State_Monad.return (case found of
                 None \<Rightarrow> pointer
               | Some address \<Rightarrow> \<lparr>kind = Local, ptr_host = address, ptr_symbol = '''', ptr_library = ''''\<rparr>)
           })
      })"

definition resolve_class :: "ObjCClass \<Rightarrow> ObjCClass resolving" where
  "resolve_class cls = do {
     super \<leftarrow> resolve_pointer (superclass cls);
     isa \<leftarrow> resolve_pointer (meta_isa cls);
     meta_super \<leftarrow> resolve_pointer (meta_superclass cls);
     State_Monad.return (cls\<lparr>superclass := super, meta_isa := isa, meta_superclass := meta_super\<rparr>)
   }"

definition resolve_category :: "ObjCCategory \<Rightarrow> ObjCCategory resolving" where
  "resolve_category category = do {
     cls \<leftarrow> resolve_pointer (cat_cls category);
     State_Monad.return (category\<lparr>cat_cls := cls\<rparr>)
   }"

definition resolve_image :: "ObjCImage \<Rightarrow> ObjCImage resolving" where
  "resolve_image oi = do {
     classes \<leftarrow> State_Monad.traverse_list resolve_class (oi_classes oi);
     cats \<leftarrow> State_Monad.traverse_list resolve_category (categories oi);
     State_Monad.return (oi\<lparr>oi_classes := classes, categories := cats\<rparr>)
   }"

definition ResolveGuestImports :: "ObjCImage list \<Rightarrow> ObjCImage list resolving" where
  "ResolveGuestImports objc = State_Monad.traverse_list resolve_image objc"

section \<open>\<open>WriteManifest\<close>\<close>

text \<open>
  The JSON writer is LLVM's: what is modelled is the tree of attributes, arrays and values the
  callbacks emit, in their order. An address is written as the \<open>int64_t\<close> it is cast to.
\<close>

definition address_json :: "u64 \<Rightarrow> json" where
  "address_json address = JInt (sint address)"

definition word_json :: "u32 \<Rightarrow> json" where
  "word_json w = JInt (uint w)"

definition WritePointer :: "Pointer \<Rightarrow> json" where
  "WritePointer pointer = JObject
     (case kind pointer of
        Null \<Rightarrow> [(''kind'', JString ''null'')]
      | Local \<Rightarrow> [(''kind'', JString ''local''), (''address'', address_json (ptr_host pointer))]
      | Import \<Rightarrow> [(''kind'', JString ''import''), (''symbol'', JString (ptr_symbol pointer))]
      | Raw \<Rightarrow> [(''kind'', JString ''raw''), (''address'', address_json (ptr_host pointer))])"

definition WriteMethods :: "Method list \<Rightarrow> json" where
  "WriteMethods ms = JArray (map (\<lambda>m. JObject
     [(''selector'', JString (selector m)), (''types'', JString (types m)),
      (''name_address'', address_json (name_address m)), (''imp'', address_json (imp m))]) ms)"

definition WriteProperties :: "Property list \<Rightarrow> json" where
  "WriteProperties ps = JArray (map (\<lambda>p. JObject
     [(''name'', JString (prop_name p)), (''attributes'', JString (attributes p)),
      (''name_address'', address_json (prop_name_address p)),
      (''attributes_address'', address_json (attributes_address p))]) ps)"

definition WriteAddresses :: "u64 list \<Rightarrow> json" where
  "WriteAddresses addresses = JArray (map address_json addresses)"

definition WriteData :: "ClassData \<Rightarrow> json" where
  "WriteData data = JObject
     [(''flags'', word_json (cd_flags data)), (''instance_start'', word_json (instance_start data)),
      (''instance_size'', word_json (instance_size data)), (''name'', JString (cd_name data)),
      (''name_address'', address_json (cd_name_address data)), (''methods'', WriteMethods (methods data)),
      (''ivars'', JArray (map (\<lambda>ivar. JObject
         [(''name'', JString (ivar_name ivar)), (''type'', JString (ivar_type ivar)),
          (''offset_address'', address_json (offset_address ivar)), (''offset_value'', word_json (offset_value ivar)),
          (''name_address'', address_json (ivar_name_address ivar)),
          (''type_address'', address_json (type_address ivar)),
          (''alignment'', word_json (alignment ivar)), (''size'', word_json (ivar_size ivar))]) (ivars data))),
      (''properties'', WriteProperties (properties data)), (''protocols'', WriteAddresses (protocols data))]"

definition class_json :: "ObjCClass \<Rightarrow> json" where
  "class_json cls = JObject
     [(''address'', address_json (cls_address cls)), (''metaclass'', address_json (metaclass cls)),
      (''superclass'', WritePointer (superclass cls)), (''meta_isa'', WritePointer (meta_isa cls)),
      (''meta_superclass'', WritePointer (meta_superclass cls)), (''data'', WriteData (cls_data cls)),
      (''meta_data'', WriteData (meta_data cls))]"

definition category_json :: "ObjCCategory \<Rightarrow> json" where
  "category_json category = JObject
     [(''name'', JString (cat_name category)), (''name_address'', address_json (cat_name_address category)),
      (''class'', WritePointer (cat_cls category)),
      (''instance_methods'', WriteMethods (cat_instance_methods category)),
      (''class_methods'', WriteMethods (cat_class_methods category)),
      (''properties'', WriteProperties (cat_properties category)),
      (''protocols'', WriteAddresses (cat_protocols category))]"

definition protocol_json :: "ObjCProtocol \<Rightarrow> json" where
  "protocol_json protocol = JObject
     [(''address'', address_json (proto_address protocol)), (''name'', JString (proto_name protocol)),
      (''name_address'', address_json (proto_name_address protocol)), (''flags'', word_json (proto_flags protocol)),
      (''protocols'', WriteAddresses (proto_protocols protocol)),
      (''instance_methods'', WriteMethods (proto_instance_methods protocol)),
      (''class_methods'', WriteMethods (proto_class_methods protocol)),
      (''optional_instance_methods'', WriteMethods (optional_instance_methods protocol)),
      (''optional_class_methods'', WriteMethods (optional_class_methods protocol)),
      (''properties'', WriteProperties (proto_properties protocol))]"

definition image_json :: "nat \<Rightarrow> Image \<Rightarrow> ObjCImage \<Rightarrow> json" where
  "image_json index img info = JObject
     [(''path'', JString (im_path img)), (''index'', JInt (int index)),
      (''errors'', JArray (map JString (errors info))),
      (''classes'', JArray (map class_json (oi_classes info))),
      (''swift_static_classes'', WriteAddresses (swift_static_classes info)),
      (''swift_listed_classes'', WriteAddresses (swift_listed_classes info)),
      (''clsrolist_count'', address_json (clsrolist_count info)),
      (''clsrolist_unowned'', address_json (clsrolist_unowned info)),
      (''categories'', JArray (map category_json (categories info))),
      (''protocols'', JArray (map protocol_json (oi_protocols info))),
      (''selectors'', JArray (map (\<lambda>selref. JObject
         [(''slot'', address_json (sel_slot selref)), (''selector'', JString (sel_selector selref))]) (selectors info))),
      (''constant_strings'', JInt (int (length (strings info))))]"

definition WriteManifest :: "Image list \<Rightarrow> ObjCImage list \<Rightarrow> json" where
  "WriteManifest imgs objc = JObject
     [(''images'', JArray (map (\<lambda>index. image_json index (imgs ! index) (objc ! index)) [0..<length imgs]))]"

end
