(* ===== verification/Objc_Facts.thy ===== *)
theory Objc_Facts
  imports Objc Macho_Facts
begin

text \<open>
  What the Objective-C metadata pass guarantees: the readers of words and strings agree with the
  bytes of the image, the tables list what they say, the split keeps the two kinds of class apart,
  resolving imports answers every pointer as a single lookup would, and the manifest can be read back.
\<close>

section \<open>Reads\<close>

lemma U32_bytes: "ReadBytes img a 4 = Some bs \<Longrightarrow> U32 img a = le_word bs"
  by (simp add: U32_def)

text \<open>A little-endian word as a number.\<close>

definition le_nat :: "u8 list \<Rightarrow> nat" where
  "le_nat bs = foldr (\<lambda>b acc. unat b + 256 * acc) bs 0"

lemma le_word_nat: "le_word bs = (of_nat (le_nat bs) :: 'a::len word)"
  by (induction bs) (simp_all add: le_nat_def)

lemma le_nat_append: "le_nat (as @ bs) = le_nat as + 256 ^ length as * le_nat bs"
  by (induction as) (simp_all add: le_nat_def algebra_simps)

lemma le_nat_bound: "le_nat bs < 256 ^ length bs"
proof (induction bs)
  case Nil
  then show ?case by (simp add: le_nat_def)
next
  case (Cons b bs)
  have "unat b < 256" using unsigned_less [of b, where 'a = nat] by simp
  with Cons show ?case by (simp add: le_nat_def)
qed

lemma U64_bytes:
  assumes "wf_segments img" and "ReadBytes img a 8 = Some bs"
  shows "U64 img a = le_word bs"
proof -
  have len: "length bs = 8" by (rule ReadBytes_length [OF assms(2)])
  define lo hi where "lo = le_nat (take 4 bs)" and "hi = le_nat (drop 4 bs)"
  have b: "lo < 2 ^ 32" "hi < 2 ^ 32"
    using le_nat_bound [of "take 4 bs"] le_nat_bound [of "drop 4 bs"] len by (simp_all add: lo_def hi_def)
  have "U32 img a = of_nat lo" "U32 img (a + 4) = of_nat hi"
    using rd.read_halves [OF assms] by (simp_all add: U32_bytes le_word_nat lo_def hi_def)
  then have "U64 img a = of_nat lo OR push_bit 32 (of_nat hi)"
    using b by (simp add: U64_def unsigned_of_nat take_bit_nat_eq_self)
  also have "\<dots> = of_nat (lo + 2 ^ 32 * hi)"
  proof -
    have low: "n < 32" if "bit (of_nat lo :: u64) n" for n
    proof -
      have "take_bit 32 (of_nat lo :: u64) = of_nat lo"
        using b(1) by (simp add: take_bit_of_nat take_bit_nat_eq_self)
      then show ?thesis using that by (metis bit_take_bit_iff)
    qed
    have "(of_nat lo :: u64) + push_bit 32 (of_nat hi) = of_nat lo OR push_bit 32 (of_nat hi)"
      by (rule disjunctive_add) (auto simp: bit_push_bit_iff dest: low)
    then show ?thesis by (simp add: push_bit_eq_mult mult.commute)
  qed
  also have "\<dots> = le_word bs"
    using le_nat_append [of "take 4 bs" "drop 4 bs"] len by (simp add: le_word_nat lo_def hi_def)
  finally show ?thesis .
qed

text \<open>The string starting at an address: its bytes one by one, then a zero.\<close>

definition holds_string :: "Image \<Rightarrow> u64 \<Rightarrow> string \<Rightarrow> bool" where
  "holds_string img a s \<longleftrightarrow>
     (\<forall>i < length s. a + of_nat i \<noteq> 0 \<and> s ! i \<noteq> CHR 0x00 \<and>
        ReadBytes img (a + of_nat i) 1 = Some [of_nat (of_char (s ! i))]) \<and>
     ReadBytes img (a + of_nat (length s)) 1 = Some [0]"

lemma holds_string_Cons: "holds_string img a (c # s) \<longleftrightarrow>
    a \<noteq> 0 \<and> c \<noteq> CHR 0x00 \<and> ReadBytes img a 1 = Some [of_nat (of_char c)] \<and> holds_string img (a + 1) s"
  by (auto simp: holds_string_def All_less_Suc2 algebra_simps)

lemma char_byte: "char_of (unat (of_nat (of_char c) :: u8)) = (c :: char)" "(of_nat (of_char c) :: u8) = 0 \<longleftrightarrow> c = CHR 0x00"
proof -
  have "of_char c < (256 :: nat)" by simp
  then have u: "unat (of_nat (of_char c) :: u8) = of_char c" by (simp add: unat_of_nat)
  then show "char_of (unat (of_nat (of_char c) :: u8)) = c" by simp
  have "(of_nat (of_char c) :: u8) = 0 \<longleftrightarrow> unat (of_nat (of_char c) :: u8) = 0" by (simp add: unat_eq_zero)
  also have "\<dots> \<longleftrightarrow> of_char c = (of_char (CHR 0x00) :: nat)" using u by simp
  finally show "(of_nat (of_char c) :: u8) = 0 \<longleftrightarrow> c = CHR 0x00" by (simp only: of_char_eq_iff)
qed

lemma String_holds: "holds_string img a s \<Longrightarrow> String img a = s"
proof (induction s arbitrary: a)
  case Nil
  then show ?case by (simp add: holds_string_def String.simps)
next
  case (Cons c s)
  then show ?case by (simp add: holds_string_Cons String.simps [of img a] char_byte)
qed

section \<open>Monadic loops\<close>

lemma run_collect_Nil [simp]: "run_state (collect f []) e = ([], e)"
  by (simp add: collect_def)

lemma run_collect_Cons: "run_state (collect f (x # xs)) e =
    (case run_state (f x) e of (r, e1) \<Rightarrow> case run_state (collect f xs) e1 of (rs, e2) \<Rightarrow>
       ((case r of None \<Rightarrow> rs | Some y \<Rightarrow> y # rs), e2))"
  by (simp add: collect_def List.map_filter_def case_prod_beta split: option.split)

text \<open>A loop whose body's answer does not depend on the errors so far.\<close>

lemma run_state_update [simp]: "run_state (State_Monad.update f) s = ((), f s)"
  by (simp add: State_Monad.update_def)

lemma collect_pure:
  "(\<And>x e. x \<in> set xs \<Longrightarrow> fst (run_state (f x) e) = g x) \<Longrightarrow> fst (run_state (collect f xs) e) = List.map_filter g xs"
proof (induction xs arbitrary: e)
  case Nil
  then show ?case by (simp add: List.map_filter_def)
next
  case (Cons x xs)
  then show ?case by (simp add: run_collect_Cons List.map_filter_def case_prod_beta split: option.split)
qed

lemma read_Local_pure: "fst (run_state (read_Local img a what) e) =
    (if kind (Read img a) = Local then ptr_host (Read img a) else 0)"
  by (simp add: read_Local_def Let_def report_def)

lemma read_Local_errors: "snd (run_state (read_Local img a what) e) =
    e @ (if kind (Read img a) = Local \<or> kind (Read img a) = Null then [] else [what @ '' is not a pointer into the image''])"
  by (simp add: read_Local_def Let_def report_def)

section \<open>The split\<close>

text \<open>
  The promise of the split: a class is the guest's own when the chain of superclasses, each found
  in the tables of the guest's images, ends at a class without a superclass after \<open>n\<close> steps.
\<close>

inductive own_ancestry :: "(u64, Pointer) omap \<Rightarrow> nat \<Rightarrow> Pointer \<Rightarrow> bool" for table where
  own_root: "kind p = Null \<Longrightarrow> own_ancestry table 0 p"
| own_up: "kind p = Local \<Longrightarrow> map_of table (ptr_host p) = Some q \<Longrightarrow> own_ancestry table n q \<Longrightarrow>
    own_ancestry table (Suc n) p"

inductive_cases own_rootE: "own_ancestry table 0 p"
inductive_cases own_upE: "own_ancestry table (Suc n) p"
inductive_simps own_root_simp: "own_ancestry table 0 p"
inductive_simps own_up_simp: "own_ancestry table (Suc n) p"

definition own_class :: "(u64, Pointer) omap \<Rightarrow> ObjCClass \<Rightarrow> bool" where
  "own_class table cls \<longleftrightarrow> (\<exists>n < 256. own_ancestry table n (superclass cls))"

lemma guest_only_from_iff: "guest_only_from table depth p \<longleftrightarrow> (\<exists>n < depth. own_ancestry table n p)"
proof (induction depth arbitrary: p)
  case 0
  then show ?case by simp
next
  case (Suc depth)
  have split: "(\<exists>n < Suc depth. own_ancestry table n p) \<longleftrightarrow>
      own_ancestry table 0 p \<or> (\<exists>n < depth. own_ancestry table (Suc n) p)"
    by (auto simp: less_Suc_eq_0_disj)
  show ?case
    unfolding split own_root_simp own_up_simp
    by (cases "kind p"; cases "map_of table (ptr_host p)") (auto simp: Suc)
qed

lemma moved_set: "set (moved_classes objc) =
    {cls_address cls | cls. cls \<in> set (concat (map oi_classes objc)) \<and> swift cls \<and> guest_only (superclass_table objc) cls}"
proof -
  have "set (fold (\<lambda>cls moved. if P cls then oset_insert (cls_address cls) moved else moved) cs ms) =
      set ms \<union> {cls_address cls | cls. cls \<in> set cs \<and> P cls}" for P and cs :: "ObjCClass list" and ms
    by (induction cs arbitrary: ms) auto
  then show ?thesis unfolding moved_classes_def by simp
qed

lemma guest_only_own: "guest_only table cls \<longleftrightarrow> own_class table cls"
  unfolding guest_only_def guest_only_from_iff own_class_def ..

lemma unit_fold_returns: "(\<exists>t. sum_fold f () xs = Inr t) \<longleftrightarrow> (\<forall>x \<in> set xs. f () x = Inr ())"
proof -
  have "(\<exists>s. f s x = Inr s) \<longleftrightarrow> f () x = Inr ()" for s :: unit and x by simp
  then show ?thesis
    by (intro sum_fold_returns_iff [where I = "\<lambda>_. True"]) simp_all
qed

lemma sum_fold_unit: "sum_fold f () xs = Inr (u :: unit) \<longleftrightarrow> (\<forall>x \<in> set xs. f () x = Inr ())"
  using unit_fold_returns [of f xs] by (cases "sum_fold f () xs") auto

definition names_moved :: "u64 list \<Rightarrow> Pointer \<Rightarrow> bool" where
  "names_moved moved p \<longleftrightarrow> kind p = Local \<and> ptr_host p \<in> set moved"

lemma check_image_iff: "check_image moved () oi = Inr () \<longleftrightarrow>
    (\<forall>category \<in> set (categories oi). \<not> names_moved moved (cat_cls category)) \<and>
    (\<forall>cls \<in> set (oi_classes oi). cls_address cls \<notin> set moved \<longrightarrow> \<not> names_moved moved (superclass cls))"
  unfolding check_image_def sum_bind_Inr sum_fold_unit
  by (auto simp: check_category_def check_class_def names_moved_def split: if_splits)

lemma Split_Inr: "SplitGuestLayoutClasses objc = Inr objc' \<longleftrightarrow>
    (\<forall>oi \<in> set objc. check_image (moved_classes objc) () oi = Inr ()) \<and>
    objc' = map (split_image (moved_classes objc)) objc"
  unfolding SplitGuestLayoutClasses_def Let_def sum_bind_Inr sum_fold_unit by auto

section \<open>Resolving\<close>

definition resolved :: "GuestExports \<Rightarrow> Pointer \<Rightarrow> Pointer" where
  "resolved g p =
     (if kind p \<noteq> Import then p
      else case Found g (ptr_library p) (ptr_symbol p) of
             None \<Rightarrow> p
           | Some a \<Rightarrow> \<lparr>kind = Local, ptr_host = a, ptr_symbol = [], ptr_library = []\<rparr>)"

text \<open>A computation that answers the same on any log and leaves the tables alone.\<close>

definition answers :: "GuestExports \<Rightarrow> 'a resolving \<Rightarrow> 'a \<Rightarrow> bool" where
  "answers g m x \<longleftrightarrow> (\<forall>h. same_tables g h \<longrightarrow> fst (run_state m h) = x \<and> same_tables g (snd (run_state m h)))"

lemma answersD: "answers g m x \<Longrightarrow> fst (run_state m g) = x"
  by (simp add: answers_def)

lemma answers_return: "answers g (State_Monad.return x) x"
  by (simp add: answers_def)

lemma answers_bind: "answers g m x \<Longrightarrow> answers g (f x) y \<Longrightarrow> answers g (State_Monad.bind m f) y"
  by (simp add: answers_def case_prod_beta)

lemma answers_traverse:
  "(\<And>x. x \<in> set xs \<Longrightarrow> answers g (f x) (q x)) \<Longrightarrow> answers g (State_Monad.traverse_list f xs) (map q xs)"
proof (induction xs)
  case Nil
  then show ?case by (simp add: answers_return)
next
  case (Cons x xs)
  then show ?case by (auto intro!: answers_bind answers_return)
qed

lemma answers_pointer: "answers g (resolve_pointer p) (resolved g p)"
proof (cases "kind p = Import")
  case False
  then show ?thesis by (simp add: resolve_pointer_def resolved_def answers_return)
next
  case True
  have "same_tables g (fst (Find h (ptr_library p) (ptr_symbol p)))" if "same_tables g h" for h
    using that ge.find_same ge.same_trans by blast
  moreover have "snd (Find h (ptr_library p) (ptr_symbol p)) = Found g (ptr_library p) (ptr_symbol p)"
    if "same_tables g h" for h
    using ge.find_answer [OF that] by (simp add: Found_def)
  ultimately show ?thesis
    using True by (simp add: answers_def resolve_pointer_def resolved_def case_prod_beta)
qed

definition resolved_class :: "GuestExports \<Rightarrow> ObjCClass \<Rightarrow> ObjCClass" where
  "resolved_class g cls = cls\<lparr>superclass := resolved g (superclass cls), meta_isa := resolved g (meta_isa cls),
     meta_superclass := resolved g (meta_superclass cls)\<rparr>"

definition resolved_category :: "GuestExports \<Rightarrow> ObjCCategory \<Rightarrow> ObjCCategory" where
  "resolved_category g category = category\<lparr>cat_cls := resolved g (cat_cls category)\<rparr>"

definition resolved_image :: "GuestExports \<Rightarrow> ObjCImage \<Rightarrow> ObjCImage" where
  "resolved_image g oi = oi\<lparr>oi_classes := map (resolved_class g) (oi_classes oi),
     categories := map (resolved_category g) (categories oi)\<rparr>"

lemma answers_class: "answers g (resolve_class cls) (resolved_class g cls)"
  unfolding resolve_class_def resolved_class_def
  by (rule answers_bind [OF answers_pointer], rule answers_bind [OF answers_pointer],
      rule answers_bind [OF answers_pointer], rule answers_return)

lemma answers_category: "answers g (resolve_category category) (resolved_category g category)"
  unfolding resolve_category_def resolved_category_def
  by (rule answers_bind [OF answers_pointer], rule answers_return)

lemma answers_image: "answers g (resolve_image oi) (resolved_image g oi)"
  unfolding resolve_image_def resolved_image_def
  by (rule answers_bind [OF answers_traverse [OF answers_class]],
      rule answers_bind [OF answers_traverse [OF answers_category]], rule answers_return)

lemma resolved_twice: "resolved g (resolved g p) = resolved g p"
  by (auto simp: resolved_def split: option.split)

section \<open>Tables\<close>

lemma run_traverse_length: "length (fst (run_state (State_Monad.traverse_list f xs) e)) = length xs"
  by (induction xs arbitrary: e) (auto simp: case_prod_beta)

definition listed_address :: "Image \<Rightarrow> u64 \<Rightarrow> u64 option" where
  "listed_address img slot =
     (if kind (Read img slot) = Local \<and> ptr_host (Read img slot) \<noteq> 0 then Some (ptr_host (Read img slot)) else None)"

lemma read_class_address: "map_option cls_address (fst (run_state (read_class img slot) e)) = listed_address img slot"
proof -
  have "fst (run_state (read_Local img slot ''class list entry'') e) = (case listed_address img slot of None \<Rightarrow> 0 | Some a \<Rightarrow> a)"
    by (simp add: read_Local_pure listed_address_def)
  moreover have "listed_address img slot \<noteq> Some 0" by (auto simp: listed_address_def)
  ultimately show ?thesis
    unfolding read_class_def by (cases "listed_address img slot") (auto simp: case_prod_beta)
qed

lemma collect_classes: "map cls_address (fst (run_state (collect (read_class img) slots) e)) =
    List.map_filter (listed_address img) slots"
proof (induction slots arbitrary: e)
  case Nil
  then show ?case by (simp add: List.map_filter_def)
next
  case (Cons slot slots)
  show ?case
    using Cons.IH read_class_address [of img slot e, symmetric]
    by (cases "fst (run_state (read_class img slot) e)")
       (simp_all add: run_collect_Cons List.map_filter_def case_prod_beta)
qed

lemma analyze_classes: "oi_classes (AnalyzeObjC img) =
    fst (run_state (collect (read_class img) (table_entries img ''__objc_classlist'')) [])"
  by (simp add: AnalyzeObjC_def analyze_def case_prod_beta)

lemma analyze_protocols: "\<exists>ps. oi_protocols (AnalyzeObjC img) = fold add_protocol ps []"
  by (auto simp: AnalyzeObjC_def analyze_def case_prod_beta)

lemma add_protocol_distinct: "distinct (map proto_address ps) \<Longrightarrow> distinct (map proto_address (add_protocol p ps))"
  by (auto simp: add_protocol_def list_ex_iff)

lemma fold_add_protocol_distinct: "distinct (map proto_address qs) \<Longrightarrow> distinct (map proto_address (fold add_protocol ps qs))"
  by (induction ps arbitrary: qs) (auto simp: add_protocol_distinct)

section \<open>Reading the manifest back\<close>

text \<open>A reader of the manifest: what the attributes of a pointer object determine.\<close>

definition pointer_of_json :: "json \<Rightarrow> Pointer option" where
  "pointer_of_json j = (case j of
     JObject [(_, JString k)] \<Rightarrow> if k = ''null'' then Some \<lparr>kind = Null, ptr_host = 0, ptr_symbol = [], ptr_library = []\<rparr> else None
   | JObject [(_, JString k), (_, JInt a)] \<Rightarrow>
       if k = ''local'' then Some \<lparr>kind = Local, ptr_host = word_of_int a, ptr_symbol = [], ptr_library = []\<rparr>
       else if k = ''raw'' then Some \<lparr>kind = Raw, ptr_host = word_of_int a, ptr_symbol = [], ptr_library = []\<rparr> else None
   | JObject [(_, JString k), (_, JString s)] \<Rightarrow>
       if k = ''import'' then Some \<lparr>kind = Import, ptr_host = 0, ptr_symbol = s, ptr_library = []\<rparr> else None
   | _ \<Rightarrow> None)"

text \<open>A pointer as \<open>Read\<close> and the resolver build them: only an import has a symbol, only a local or raw one an address.\<close>

definition pointer_ok :: "Pointer \<Rightarrow> bool" where
  "pointer_ok p \<longleftrightarrow> (kind p = Import \<longrightarrow> ptr_host p = 0) \<and> (kind p = Null \<longrightarrow> ptr_host p = 0) \<and>
     (kind p \<noteq> Import \<longrightarrow> ptr_symbol p = [] \<and> ptr_library p = [])"

lemma Read_ok: "pointer_ok (Read img a)"
  by (auto simp: pointer_ok_def Read_def Let_def split: option.split)

lemma resolved_ok: "pointer_ok p \<Longrightarrow> pointer_ok (resolved g p)"
  by (auto simp: pointer_ok_def resolved_def split: option.split)

lemma pointer_of_json_Write: "pointer_ok p \<Longrightarrow> pointer_of_json (WritePointer p) = Some (p\<lparr>ptr_library := []\<rparr>)"
  by (cases p; cases "kind p") (auto simp: pointer_ok_def pointer_of_json_def WritePointer_def address_json_def)

section \<open>Properties\<close>

text \<open>
  Strings are read back. A zero-terminated string laid out in a segment of a well-formed image, at
  an address from which it does not run past the end of the address space, is what \<open>String\<close> returns.
\<close>

theorem String_reads_back:
  assumes "wf_segments img" and "ReadBytes img a (length s + 1) = Some (map (\<lambda>c. of_nat (of_char c)) s @ [0])"
    and "CHR 0x00 \<notin> set s" and "a \<noteq> 0" and "unat a + length s < 2 ^ 63"
  shows "String img a = s"
proof (rule String_holds)
  have a0: "0 < unat a" using assms(4) by (simp add: unat_gt_0)
  have byte: "ReadBytes img (a + of_nat k) 1 = Some [(map (\<lambda>c. of_nat (of_char c)) s @ [0]) ! k]" if "k < length s + 1" for k
    by (rule rd.read_bytewise [OF assms(1,2) _ that]) (use assms(5) a0 in linarith)
  have "a + of_nat i \<noteq> 0" if "i < length s" for i
  proof -
    have "unat (a + of_nat i) = unat a + i" using that assms(5) by (intro unat_add_of_nat) simp
    with a0 show ?thesis by (metis add_is_0 not_less_zero unat_0)
  qed
  moreover have "s ! i \<noteq> CHR 0x00" if "i < length s" for i using that assms(3) nth_mem by metis
  moreover have "ReadBytes img (a + of_nat i) 1 = Some [of_nat (of_char (s ! i))]" if "i < length s" for i
    using byte [of i] that by (simp add: nth_append)
  moreover have "ReadBytes img (a + of_nat (length s)) 1 = Some [0]"
    using byte [of "length s"] by (simp add: nth_append)
  ultimately show "holds_string img a s" unfolding holds_string_def by blast
qed

text \<open>
  A word is its eight bytes. In a well-formed image the two 32-bit reads of \<open>U64\<close> put together the
  little-endian value of the eight bytes at the address, across a segment's file and zero part alike.
\<close>

theorem U64_reads_word:
  assumes "wf_segments img" and "ReadBytes img a 8 = Some bs"
  shows "U64 img a = le_word bs"
  by (rule U64_bytes [OF assms])

text \<open>
  The class list is what is analyzed. The classes of an image are, in the order of the list, the non-null
  entries of \<open>__objc_classlist\<close> that point into the image.
\<close>

theorem AnalyzeObjC_classes:
  "map cls_address (oi_classes (AnalyzeObjC img)) =
     List.map_filter (\<lambda>slot. if kind (Read img slot) = Local \<and> ptr_host (Read img slot) \<noteq> 0
                              then Some (ptr_host (Read img slot)) else None)
       (table_entries img ''__objc_classlist'')"
  unfolding analyze_classes collect_classes by (simp add: listed_address_def [abs_def])

text \<open>A protocol is kept once. The protocols of an image have distinct addresses.\<close>

theorem AnalyzeObjC_protocols_distinct: "distinct (map proto_address (oi_protocols (AnalyzeObjC img)))"
proof -
  obtain ps where "oi_protocols (AnalyzeObjC img) = fold add_protocol ps []" using analyze_protocols by blast
  then show ?thesis using fold_add_protocol_distinct [of "[]" ps] by simp
qed

text \<open>
  C17: The split refuses exactly when something would be torn. \<open>SplitGuestLayoutClasses\<close> fails if and only if
  some category, or some class that stays, has a local pointer to a class that moves, where the classes that
  move are the Swift classes whose chain of superclasses ends, within 255 steps, at a guest class without one.
\<close>

theorem Split_refuses_iff:
  "((\<exists>e. SplitGuestLayoutClasses objc = Inl e) \<longleftrightarrow>
   (\<exists>oi \<in> set objc.
      (\<exists>category \<in> set (categories oi). kind (cat_cls category) = Local \<and> ptr_host (cat_cls category) \<in> set (moved_classes objc)) \<or>
      (\<exists>cls \<in> set (oi_classes oi). cls_address cls \<notin> set (moved_classes objc) \<and>
         kind (superclass cls) = Local \<and> ptr_host (superclass cls) \<in> set (moved_classes objc)))) \<and>
   set (moved_classes objc) = {cls_address cls | cls. \<exists>oi \<in> set objc. cls \<in> set (oi_classes oi) \<and> swift cls \<and>
      own_class (superclass_table objc) cls}"
proof -
  have "(\<exists>e. SplitGuestLayoutClasses objc = Inl e) \<longleftrightarrow> \<not> (\<exists>objc'. SplitGuestLayoutClasses objc = Inr objc')"
    by (cases "SplitGuestLayoutClasses objc") auto
  also have "\<dots> \<longleftrightarrow> (\<exists>oi \<in> set objc. check_image (moved_classes objc) () oi \<noteq> Inr ())"
    by (simp add: Split_Inr)
  also have "\<dots> \<longleftrightarrow> (\<exists>oi \<in> set objc.
      (\<exists>category \<in> set (categories oi). names_moved (moved_classes objc) (cat_cls category)) \<or>
      (\<exists>cls \<in> set (oi_classes oi). cls_address cls \<notin> set (moved_classes objc) \<and> names_moved (moved_classes objc) (superclass cls)))"
    unfolding check_image_iff by blast
  finally have refuses: "(\<exists>e. SplitGuestLayoutClasses objc = Inl e) \<longleftrightarrow> \<dots>" .
  show ?thesis
    by (rule conjI) (simp only: refuses names_moved_def, auto simp: moved_set guest_only_own)
qed


text \<open>
  Resolving is one lookup for each pointer. Whatever the lookups log on the way, every superclass, metaclass and
  category pointer that is an import becomes the local address \<open>Find\<close> answers on the registry as it was, or stays
  as it is; nothing else changes, and resolving the result again changes nothing.
\<close>

theorem ResolveGuestImports_pointwise:
  "fst (run_state (ResolveGuestImports objc) g) = map (resolved_image g) objc \<and>
   map (resolved_image g) (map (resolved_image g) objc) = map (resolved_image g) objc"
proof
  show "fst (run_state (ResolveGuestImports objc) g) = map (resolved_image g) objc"
    unfolding ResolveGuestImports_def by (rule answersD [OF answers_traverse [OF answers_image]])
  show "map (resolved_image g) (map (resolved_image g) objc) = map (resolved_image g) objc"
    by (simp add: resolved_image_def resolved_class_def resolved_category_def resolved_twice comp_def)
qed

text \<open>
  The manifest keeps every address. From the JSON of a class, the reader above gets back the address, the metaclass and
  the three pointers (all but the library of an import), for a class as the analysis and the resolver build it.
\<close>

theorem class_manifest_reads_back:
  assumes "pointer_ok (superclass cls)" and "pointer_ok (meta_isa cls)" and "pointer_ok (meta_superclass cls)"
  shows "\<exists>address meta super isa meta_super data mdata.
    class_json cls = JObject [(''address'', JInt address), (''metaclass'', JInt meta), (''superclass'', super),
      (''meta_isa'', isa), (''meta_superclass'', meta_super), (''data'', data), (''meta_data'', mdata)] \<and>
    word_of_int address = cls_address cls \<and> word_of_int meta = metaclass cls \<and>
    pointer_of_json super = Some ((superclass cls)\<lparr>ptr_library := []\<rparr>) \<and>
    pointer_of_json isa = Some ((meta_isa cls)\<lparr>ptr_library := []\<rparr>) \<and>
    pointer_of_json meta_super = Some ((meta_superclass cls)\<lparr>ptr_library := []\<rparr>)"
  using assms by (simp add: class_json_def address_json_def pointer_of_json_Write)

section \<open>Instances\<close>

theorem String_reads_back_witness: "String sample_image 0x100e = [CHR 0x0e, CHR 0x0f, CHR 0x04]"
proof -
  have "ReadBytes sample_image 0x100e (length [CHR 0x0e, CHR 0x0f, CHR 0x04] + 1) =
      Some (map (\<lambda>c. of_nat (of_char c)) [CHR 0x0e, CHR 0x0f, CHR 0x04] @ [0])"
    by (simp add: ReadBytes_def SegmentForVM_def segment_byte_def sample_defs new_image_def upt_rec)
  then show ?thesis by (rule String_reads_back [OF sample_wf]) simp_all
qed

theorem U64_reads_word_witness: "U64 sample_image 0x1014 = 0x10008"
proof -
  have "ReadBytes sample_image 0x1014 8 = Some [8, 0, 1, 0, 0, 0, 0, 0]"
    by (simp add: ReadBytes_def SegmentForVM_def segment_byte_def sample_defs new_image_def upt_rec)
  from U64_reads_word [OF sample_wf this] show ?thesis by simp
qed

definition local_pointer :: "u64 \<Rightarrow> Pointer" where
  "local_pointer a = \<lparr>kind = Local, ptr_host = a, ptr_symbol = [], ptr_library = []\<rparr>"

definition import_pointer :: "string \<Rightarrow> string \<Rightarrow> Pointer" where
  "import_pointer library symbol = \<lparr>kind = Import, ptr_host = 0, ptr_symbol = symbol, ptr_library = library\<rparr>"

definition null_pointer :: Pointer where
  "null_pointer = \<lparr>kind = Null, ptr_host = 0, ptr_symbol = [], ptr_library = []\<rparr>"

definition plain_data :: "string \<Rightarrow> ClassData" where
  "plain_data name = \<lparr>cd_flags = 0, instance_start = 0, instance_size = 0, cd_name = name, cd_name_address = 0, methods = [],
     ivars = [], properties = [], protocols = []\<rparr>"

definition plain_class :: "u64 \<Rightarrow> bool \<Rightarrow> Pointer \<Rightarrow> ObjCClass" where
  "plain_class a is_swift super = \<lparr>cls_address = a, swift = is_swift, superclass = super, cls_data = plain_data ''C'',
     metaclass = a + 40, meta_isa = import_pointer ''/usr/lib/libobjc.A.dylib'' ''_OBJC_METACLASS_$_NSObject'',
     meta_superclass = import_pointer ''/usr/lib/libobjc.A.dylib'' ''_OBJC_METACLASS_$_NSObject'', meta_data = plain_data ''C''\<rparr>"

text \<open>A Swift root, a Swift class under it, and a Swift class under a host class.\<close>

definition swift_image :: ObjCImage where
  "swift_image =
     \<lparr>oi_classes = [plain_class 0x3000 True null_pointer, plain_class 0x3100 True (local_pointer 0x3000),
        plain_class 0x3200 True (import_pointer ''/usr/lib/libobjc.A.dylib'' ''_OBJC_CLASS_$_NSObject'')],
      swift_static_classes = [], clsrolist_superclass = [], swift_listed_classes = [], clsrolist_count = 0,
      clsrolist_unowned = 0, categories = [], oi_protocols = [], strings = [], selectors = [], errors = []\<rparr>"

lemma swift_moved: "moved_classes [swift_image] = [0x3000, 0x3100]"
  by code_simp

lemma swift_split: "SplitGuestLayoutClasses [swift_image] = Inr [split_image [0x3000, 0x3100] swift_image]"
  unfolding Split_Inr swift_moved check_image_iff
  by (simp add: swift_image_def plain_class_def names_moved_def local_pointer_def null_pointer_def import_pointer_def)


theorem class_manifest_reads_back_witness:
  "\<exists>super rest. class_json (plain_class 0x3100 True (local_pointer 0x3000)) =
     JObject ((''address'', JInt 0x3100) # (''metaclass'', JInt 0x3128) # (''superclass'', super) # rest) \<and>
     pointer_of_json super = Some (local_pointer 0x3000)"
proof -
  have ok: "pointer_ok (local_pointer a)" "pointer_ok (import_pointer l s)" for a l s
    by (simp_all add: pointer_ok_def local_pointer_def import_pointer_def)
  let ?c = "plain_class 0x3100 True (local_pointer 0x3000)"
  have p: "superclass ?c = local_pointer 0x3000" "pointer_ok (superclass ?c)" "pointer_ok (meta_isa ?c)" "pointer_ok (meta_superclass ?c)"
    using ok by (simp_all add: plain_class_def)
  have "class_json ?c = JObject [(''address'', JInt 0x3100), (''metaclass'', JInt 0x3128),
      (''superclass'', WritePointer (superclass ?c)), (''meta_isa'', WritePointer (meta_isa ?c)),
      (''meta_superclass'', WritePointer (meta_superclass ?c)), (''data'', WriteData (cls_data ?c)),
      (''meta_data'', WriteData (meta_data ?c))]"
    by (simp add: class_json_def address_json_def plain_class_def)
  with class_manifest_reads_back [OF p(2-4)] p(1) show ?thesis
    by (auto simp: local_pointer_def)
qed

end
