(* ===== verification/Program.thy ===== *)
theory Program
  imports Exports
begin

text \<open>
  The program under translation, the first part of \<open>xlate/src/xlate.cpp\<close>: where the guest images go in
  the host's address space, which stubs and binds are answered by which image, and what of the code
  the lifter may read. The command line, the equivalence of two paths in the file system and the lines
  of the passthrough file are arguments; what the source prints is the list \<open>log\<close>.
\<close>

section \<open>Data\<close>

definition kTrapPrefix :: string where
  "kTrapPrefix = ''_xl_trap_''"

definition AlignUp :: "u64 \<Rightarrow> u64 \<Rightarrow> u64" where
  "AlignUp v boundary = (v + boundary - 1) AND NOT (boundary - 1)"

text \<open>\<open>format_hex_no_prefix(value, 8)\<close>: at least eight digits.\<close>

definition Hex8 :: "u64 \<Rightarrow> string" where
  "Hex8 v = (let digits = hex_string (unat v) in replicate (8 - length digits) (CHR ''0'') @ digits)"

definition IRName :: "string \<Rightarrow> string" where
  "IRName symbol = (if symbol \<noteq> [] \<and> hd symbol = CHR ''_'' then tl symbol else CHR 0x01 # symbol)"

record Options =
  Base :: u64
  Bridges :: "string list"
  Replaces :: "string list"
  equivalent :: "string \<Rightarrow> string \<Rightarrow> bool option"

record Program =
  images :: "Image list"
  exports :: GuestExports
  stub_to_guest :: "(u64, u64) omap"
  stub_to_host :: "(u64, string) omap"
  passthrough :: "string list"
  prog_functions :: "u64 list"
  log :: "string list"

definition new_program :: "Image list \<Rightarrow> Program" where
  "new_program imgs = \<lparr>images = imgs, exports = no_exports, stub_to_guest = [], stub_to_host = [], passthrough = [],
     prog_functions = [], log = []\<rparr>"

definition err :: "string \<Rightarrow> Program \<Rightarrow> Program" where
  "err line program = program\<lparr>log := log program @ [line]\<rparr>"

definition covers :: "Image \<Rightarrow> u64 \<Rightarrow> bool" where
  "covers img a \<longleftrightarrow> host img (preferred_base img) \<le> a \<and> a < host img (image_end img)"

definition ImageAt :: "Program \<Rightarrow> u64 \<Rightarrow> Image option" where
  "ImageAt program a = find (\<lambda>img. covers img a) (images program)"

section \<open>Reading code\<close>

text \<open>The answer is the bytes written to the buffer; \<open>None\<close> is a return of 0.\<close>

definition ReadCode :: "Program \<Rightarrow> u64 \<Rightarrow> u64 \<Rightarrow> u8 list option" where
  "ReadCode program address n =
     (case ImageAt program address of
        None \<Rightarrow> None
      | Some img \<Rightarrow>
          if \<not> IsExecutable img address \<or> map_of (stub_to_guest program) address \<noteq> None \<or>
             map_of (stub_to_host program) address \<noteq> None then None
          else case SectionAt img address of
                 None \<Rightarrow> None
               | Some sec \<Rightarrow>
                   let fin = host img (sect_addr sec + sect_size sec)
                   in ReadBytes img address (unat (min n (fin - address))))"

definition LoadPassthrough :: "string list option \<Rightarrow> Program \<Rightarrow> Program option" where
  "LoadPassthrough file program =
     (case file of
        None \<Rightarrow> None
      | Some lines \<Rightarrow> Some (program\<lparr>passthrough :=
          fold (\<lambda>line set. if line \<noteq> [] \<and> hd line \<noteq> CHR ''#'' then oset_insert line set else set)
            lines (passthrough program)\<rparr>))"

section \<open>\<open>LayoutAndResolve\<close>\<close>

definition IsBridge :: "Options \<Rightarrow> string \<Rightarrow> bool" where
  "IsBridge opts path \<longleftrightarrow> list_ex (\<lambda>bridge. equivalent opts bridge path = Some True) (Bridges opts)"

text \<open>The images one after the other, each from a megabyte boundary.\<close>

fun place_images :: "u64 \<Rightarrow> Image list \<Rightarrow> Image list" where
  "place_images cursor [] = []"
| "place_images cursor (img # imgs) =
     (let placed = img\<lparr>im_slide := cursor - preferred_base img\<rparr>
      in placed # place_images (AlignUp (host placed (image_end placed)) 0x100000) imgs)"

definition add_image :: "Options \<Rightarrow> Program \<Rightarrow> Image \<Rightarrow> string + Program" where
  "add_image opts program img =
     (case Add img (IsBridge opts (im_path img)) (exports program) of
        Inl error \<Rightarrow> Inl (''xlate: '' @ error)
      | Inr g \<Rightarrow> Inr (program\<lparr>exports := g,
          prog_functions := fold (\<lambda>vmaddr. oset_insert (host img vmaddr)) (im_functions img) (prog_functions program)\<rparr>))"

text \<open>\<open>spec.find('=')\<close>; the last image the rest of the spec names is the target.\<close>

definition split_at :: "string \<Rightarrow> nat option" where
  "split_at spec = find (\<lambda>i. spec ! i = CHR ''='') [0..<length spec]"

definition replace_target :: "Options \<Rightarrow> Image list \<Rightarrow> string \<Rightarrow> (string \<times> Image) option" where
  "replace_target opts imgs spec =
     (case split_at spec of
        None \<Rightarrow> None
      | Some k \<Rightarrow> map_option (\<lambda>img. (take k spec, img))
          (fold (\<lambda>img target. if equivalent opts (drop (k + 1) spec) (im_path img) = Some True then Some img else target)
             imgs None))"

definition apply_replace :: "Options \<Rightarrow> Program \<Rightarrow> string \<Rightarrow> string + Program" where
  "apply_replace opts program spec =
     (case replace_target opts (images program) spec of
        None \<Rightarrow> Inl (''xlate: --replaces '' @ spec @ '': expected LIBRARY=IMAGE, IMAGE being one of the inputs'')
      | Some (library, target) \<Rightarrow>
          (case Replace library target (exports program) of
             Inl error \<Rightarrow> Inl (''xlate: '' @ error)
           | Inr g \<Rightarrow> Inr (program\<lparr>exports := g\<rparr>)))"

text \<open>A lookup on the program's registry.\<close>

definition lookup_symbol :: "string \<Rightarrow> string \<Rightarrow> Program \<Rightarrow> Program \<times> u64 option" where
  "lookup_symbol library symbol program =
     (case Find (exports program) library symbol of (g, found) \<Rightarrow> (program\<lparr>exports := g\<rparr>, found))"

definition left_unbound_line :: "Image \<Rightarrow> string \<Rightarrow> string \<Rightarrow> string" where
  "left_unbound_line img symbol library =
     ''xlate: '' @ im_path img @ '': weak import '' @ symbol @ '' of '' @ library @
     '' is left unbound although a guest image defines that name; a bind takes the library it names''"

definition resolve_stub :: "bool \<Rightarrow> Image \<Rightarrow> u64 \<times> Stub \<Rightarrow> Program \<times> bool \<Rightarrow> Program \<times> bool" where
  "resolve_stub strict img = (\<lambda>(vmaddr, stub) (program, ok).
     (case lookup_symbol (stub_library stub) (stub_symbol stub) program of
        (program, Some target) \<Rightarrow> (program\<lparr>stub_to_guest := omap_set (host img vmaddr) target (stub_to_guest program)\<rparr>, ok)
      | (program, None) \<Rightarrow>
          if starts_with kTrapPrefix (stub_symbol stub)
          then (program\<lparr>stub_to_host := omap_set (host img vmaddr)
                  (''xl_h_'' @ drop (length kTrapPrefix) (stub_symbol stub)) (stub_to_host program)\<rparr>, ok)
          else if stub_weak stub
          then (case lookup_symbol [] (stub_symbol stub) program of
                  (program, Some a) \<Rightarrow> (err (left_unbound_line img (stub_symbol stub) (stub_library stub)) program, ok)
                | (program, None) \<Rightarrow> (program, ok))
          else if strict
          then (case lookup_symbol [] (stub_symbol stub) program of
                  (program, found) \<Rightarrow>
                    (err (''xlate: '' @ im_path img @ '': call stub for unresolved import '' @ stub_symbol stub @
                       (if found \<noteq> None then '' (a guest image defines that name, but the bind names '' @
                          stub_library stub @ '')'' else [])) program, False))
          else (program, ok)))"

definition resolve_stubs :: "bool \<Rightarrow> Program \<Rightarrow> Program \<times> bool" where
  "resolve_stubs strict program =
     fold (\<lambda>img. fold (resolve_stub strict img) (im_stubs img)) (images program) (program, True)"

text \<open>\<open>Inl\<close> is an early return of false, with what was printed; else the program and the answer.\<close>

definition LayoutAndResolve :: "Options \<Rightarrow> bool \<Rightarrow> Program \<Rightarrow> string + Program \<times> bool" where
  "LayoutAndResolve opts strict program =
     (let program = program\<lparr>images := place_images (Base opts) (images program)\<rparr>
      in sum_bind (sum_fold (add_image opts) program (images program)) (\<lambda>program.
         sum_bind (sum_fold (apply_replace opts) program (Replaces opts)) (\<lambda>program.
           Inr (resolve_stubs strict program))))"

section \<open>\<open>WriteResolved\<close>\<close>

text \<open>One name an image imports: the library and symbol that are looked up, and the name noted.\<close>

definition imported_names :: "Image \<Rightarrow> (string \<times> string \<times> string) list" where
  "imported_names img =
     map (\<lambda>(vmaddr, stub). (stub_library stub, stub_symbol stub, stub_symbol stub)) (im_stubs img) @
     map (\<lambda>(vmaddr, bind). (bind_library bind, bind_symbol bind, bind_symbol bind)) (im_binds img) @
     map (\<lambda>(name, target). (reexport_library target, reexport_symbol target, name)) (im_reexports img)"

definition note_symbol :: "string \<times> string \<times> string \<Rightarrow> Program \<times> string list \<times> string list \<Rightarrow> Program \<times> string list \<times> string list" where
  "note_symbol = (\<lambda>(library, symbol, name) (program, answered, from_host).
     (case lookup_symbol library symbol program of
        (program, Some a) \<Rightarrow> (program, oset_insert name answered, from_host)
      | (program, None) \<Rightarrow> (program, answered, oset_insert name from_host)))"

text \<open>The lines of the file; the answer of the file system to the open is not modelled.\<close>

definition WriteResolved :: "Program \<Rightarrow> string list" where
  "WriteResolved program =
     (case fold note_symbol (concat (map imported_names (images program))) (program, [], []) of
        (program, answered, from_host) \<Rightarrow> filter (\<lambda>symbol. symbol \<notin> set from_host) answered)"

section \<open>\<open>Lifter::Target\<close>\<close>

text \<open>
  What a call of a program counter is turned into. The lifted functions are named; the function a host
  stub is handled by is its name.
\<close>

definition Target :: "Program \<Rightarrow> (u64, string) omap \<Rightarrow> u64 \<Rightarrow> string option" where
  "Target program lifted pc =
     (let pc = (case map_of (stub_to_guest program) pc of Some guest \<Rightarrow> guest | None \<Rightarrow> pc)
      in case map_of (stub_to_host program) pc of
           Some name \<Rightarrow> Some name
         | None \<Rightarrow> map_of lifted pc)"

end
