(* ===== verification/Program_Facts.thy ===== *)
theory Program_Facts
  imports Program
begin

text \<open>
  What the layout and the resolution guarantee: the images lie in disjoint ranges, so an address is
  of one image; the lifter reads executable bytes of one section only; stubs are answered by the
  registry, and the build is refused exactly when a strong stub is not; the file of resolved names
  holds the names every import of which an input image answers.
\<close>

section \<open>Aligning\<close>

lemma AlignUp_mask: "AlignUp v (2 ^ k) = (v + 2 ^ k - 1) AND NOT (mask k)"
  by (simp add: AlignUp_def mask_eq_exp_minus_1)

lemma unat_and_not_mask: "unat (w AND NOT (mask k) :: u64) = unat w div 2 ^ k * 2 ^ k"
proof -
  have "w AND NOT (mask k) = push_bit k (drop_bit k w)"
    by (rule bit_word_eqI) (auto simp: bit_simps)
  then have "w AND NOT (mask k) = w - take_bit k w"
    using bits_ident [of k w] by (metis add_diff_cancel_right')
  moreover have "unat (take_bit k w) = unat w mod 2 ^ k" by (subst unsigned_take_bit_eq) (rule take_bit_eq_mod)
  ultimately have "unat (w AND NOT (mask k)) = unat w - unat w mod 2 ^ k"
    by (simp only: unat_sub word_le_nat_alt mod_less_eq_dividend)
  then show ?thesis by (simp add: minus_mod_eq_div_mult)
qed

lemma AlignUp_bounds:
  assumes "unat v + 2 ^ k \<le> 2 ^ 64" and "k < 64"
  shows "unat v \<le> unat (AlignUp v (2 ^ k))" "unat (AlignUp v (2 ^ k)) < unat v + 2 ^ k"
    "2 ^ k dvd unat (AlignUp v (2 ^ k))"
proof -
  have "(2 ^ k :: u64) - 1 = of_nat (2 ^ k - 1)" by simp
  then have "v + 2 ^ k - 1 = v + of_nat (2 ^ k - 1)" by (simp add: add_diff_eq [symmetric])
  moreover have "unat (v + of_nat (2 ^ k - 1)) = unat v + (2 ^ k - 1)"
  proof (rule unat_add_of_nat)
    have "(1 :: nat) \<le> 2 ^ k" by simp
    then show "unat v + (2 ^ k - 1) < 2 ^ 64" using assms(1) by linarith
  qed
  ultimately have u: "unat (AlignUp v (2 ^ k)) = (unat v + (2 ^ k - 1)) div 2 ^ k * 2 ^ k"
    by (simp only: AlignUp_mask unat_and_not_mask)
  let ?x = "unat v + (2 ^ k - 1)"
  have d: "?x div 2 ^ k * 2 ^ k + ?x mod 2 ^ k = ?x" by (rule div_mult_mod_eq)
  have m: "?x mod 2 ^ k < 2 ^ k" by simp
  have p: "(1 :: nat) \<le> 2 ^ k" by simp
  show "unat v \<le> unat (AlignUp v (2 ^ k))" "unat (AlignUp v (2 ^ k)) < unat v + 2 ^ k"
    using d m p unfolding u by linarith+
  show "2 ^ k dvd unat (AlignUp v (2 ^ k))" unfolding u by simp
qed

section \<open>Placing the images\<close>

definition span :: "Image \<Rightarrow> nat" where
  "span img = unat (image_end img - preferred_base img)"

text \<open>The images fit in the address space from \<open>cursor\<close>, each rounded up to a megabyte.\<close>

definition fits :: "u64 \<Rightarrow> Image list \<Rightarrow> bool" where
  "fits cursor imgs \<longleftrightarrow> unat cursor + sum_list (map (\<lambda>img. span img + 0x100000) imgs) < 2 ^ 64"

lemma slide_frame [simp]:
  "preferred_base (img\<lparr>im_slide := s\<rparr>) = preferred_base img" "image_end (img\<lparr>im_slide := s\<rparr>) = image_end img"
  "span (img\<lparr>im_slide := s\<rparr>) = span img"
  by (simp_all add: preferred_base_def image_end_def span_def)

lemma placed_start [simp]: "host (img\<lparr>im_slide := cursor - preferred_base img\<rparr>) (preferred_base img) = cursor"
  by (simp add: host_def)

lemma placed_end: "unat cursor + span img < 2 ^ 64 \<Longrightarrow>
    unat (host (img\<lparr>im_slide := cursor - preferred_base img\<rparr>) (image_end img)) = unat cursor + span img"
proof -
  have "host (img\<lparr>im_slide := cursor - preferred_base img\<rparr>) (image_end img) = cursor + (image_end img - preferred_base img)"
    by (simp add: host_def algebra_simps)
  then show "unat cursor + span img < 2 ^ 64 \<Longrightarrow> ?thesis" by (simp add: span_def unat_add_no_wrap)
qed

definition range_start :: "Image \<Rightarrow> nat" where
  "range_start img = unat (host img (preferred_base img))"

definition range_end :: "Image \<Rightarrow> nat" where
  "range_end img = unat (host img (image_end img))"

lemma place_images_bounds:
  "fits cursor imgs \<Longrightarrow> img \<in> set (place_images cursor imgs) \<Longrightarrow>
   unat cursor \<le> range_start img \<and> range_end img = range_start img + span img \<and>
   range_end img \<le> unat cursor + sum_list (map (\<lambda>img. span img + 0x100000) imgs)"
proof (induction imgs arbitrary: cursor)
  case Nil
  then show ?case by simp
next
  case (Cons i imgs)
  let ?p = "i\<lparr>im_slide := cursor - preferred_base i\<rparr>"
  let ?next = "AlignUp (host ?p (image_end ?p)) 0x100000"
  have f: "unat cursor + span i + 2 ^ 20 + sum_list (map (\<lambda>img. span img + 0x100000) imgs) < 2 ^ 64"
    using Cons.prems(1) by (simp add: fits_def)
  then have e: "unat (host ?p (image_end i)) = unat cursor + span i" by (intro placed_end) simp
  have a: "unat cursor + span i \<le> unat ?next" "unat ?next < unat cursor + span i + 2 ^ 20"
    using AlignUp_bounds(1,2) [of "host ?p (image_end i)" 20] f e by simp_all
  then have "fits ?next imgs" using f by (simp add: fits_def)
  from Cons.IH [OF this] Cons.prems(2) a e f show ?case
    by (auto simp: range_start_def range_end_def Let_def)
qed

lemma place_images_disjoint:
  "fits cursor imgs \<Longrightarrow> sorted_wrt (\<lambda>a b. range_end a \<le> range_start b) (place_images cursor imgs)"
proof (induction imgs arbitrary: cursor)
  case Nil
  then show ?case by simp
next
  case (Cons i imgs)
  let ?p = "i\<lparr>im_slide := cursor - preferred_base i\<rparr>"
  let ?next = "AlignUp (host ?p (image_end ?p)) 0x100000"
  have f: "unat cursor + span i + 2 ^ 20 + sum_list (map (\<lambda>img. span img + 0x100000) imgs) < 2 ^ 64"
    using Cons.prems(1) by (simp add: fits_def)
  then have e: "unat (host ?p (image_end i)) = unat cursor + span i" by (intro placed_end) simp
  have a: "unat cursor + span i \<le> unat ?next" "unat ?next < unat cursor + span i + 2 ^ 20"
    using AlignUp_bounds(1,2) [of "host ?p (image_end i)" 20] f e by simp_all
  then have fn: "fits ?next imgs" using f by (simp add: fits_def)
  have "range_end ?p \<le> range_start b" if "b \<in> set (place_images ?next imgs)" for b
    using place_images_bounds [OF fn that] a(1) e by (simp add: range_end_def)
  then show ?case using Cons.IH [OF fn] by (simp add: Let_def)
qed

lemma covers_range: "covers img a \<longleftrightarrow> range_start img \<le> unat a \<and> unat a < range_end img"
  by (simp add: covers_def range_start_def range_end_def word_le_nat_alt word_less_nat_alt)

lemma sorted_wrt_find:
  "sorted_wrt (\<lambda>a b. range_end a \<le> range_start b) imgs \<Longrightarrow> (\<forall>img \<in> set imgs. range_start img \<le> range_end img) \<Longrightarrow>
   img \<in> set imgs \<Longrightarrow> covers img a \<Longrightarrow> find (\<lambda>img. covers img a) imgs = Some img"
  by (induction imgs) (auto simp: covers_range)

section \<open>Resolving\<close>

lemma lookup_symbol_parts:
  "lookup_symbol library symbol program =
     (program\<lparr>exports := fst (Find (exports program) library symbol)\<rparr>, Found (exports program) library symbol)"
  by (simp add: lookup_symbol_def Found_def split: prod.split)

definition answer :: "GuestExports \<Rightarrow> Stub \<Rightarrow> u64 option" where
  "answer g stub = Found g (stub_library stub) (stub_symbol stub)"

definition trapped :: "Stub \<Rightarrow> bool" where
  "trapped stub \<longleftrightarrow> starts_with kTrapPrefix (stub_symbol stub)"

definition unresolved :: "GuestExports \<Rightarrow> Stub \<Rightarrow> bool" where
  "unresolved g stub \<longleftrightarrow> answer g stub = None \<and> \<not> trapped stub \<and> \<not> stub_weak stub"

lemma Find_keeps: "same_tables g h \<Longrightarrow> same_tables g (fst (Find h l s))"
  by (rule ge.same_trans [OF _ ge.find_same])

lemma Found_same: "same_tables g h \<Longrightarrow> Found h l s = Found g l s"
  using ge.find_answer by (simp add: Found_def)

lemma resolve_stub_step:
  assumes "same_tables g (exports program)"
  shows "resolve_stub strict img (v, stub) (program, ok) = (program', ok') \<Longrightarrow>
    same_tables g (exports program') \<and> images program' = images program \<and>
    stub_to_guest program' = (case answer g stub of Some t \<Rightarrow> omap_set (host img v) t (stub_to_guest program) | None \<Rightarrow> stub_to_guest program) \<and>
    stub_to_host program' = (if answer g stub = None \<and> trapped stub
       then omap_set (host img v) (''xl_h_'' @ drop (length kTrapPrefix) (stub_symbol stub)) (stub_to_host program)
       else stub_to_host program) \<and>
    ok' = (ok \<and> \<not> (strict \<and> unresolved g stub))"
  using assms Found_same [OF assms]
  by (auto simp: resolve_stub_def lookup_symbol_parts answer_def trapped_def unresolved_def err_def
      intro!: Find_keeps split: option.splits if_splits)

text \<open>All the stubs of the program, in the order of the loops.\<close>

definition all_stubs :: "Image list \<Rightarrow> (Image \<times> u64 \<times> Stub) list" where
  "all_stubs imgs = concat (map (\<lambda>img. map (Pair img) (im_stubs img)) imgs)"

lemma resolve_stubs_flat: "fold (\<lambda>img. fold (resolve_stub strict img) (im_stubs img)) imgs s =
    fold (\<lambda>(img, e). resolve_stub strict img e) (all_stubs imgs) s"
proof -
  have "fold (\<lambda>(img, e). resolve_stub strict img e) (map (Pair img) es) s = fold (resolve_stub strict img) es s" for img es s
    by (induction es arbitrary: s) simp_all
  then show ?thesis by (induction imgs arbitrary: s) (simp_all add: all_stubs_def)
qed

definition guest_hosts :: "GuestExports \<Rightarrow> (Image \<times> u64 \<times> Stub) list \<Rightarrow> u64 set" where
  "guest_hosts g ss = {host img v | img v stub. (img, v, stub) \<in> set ss \<and> answer g stub \<noteq> None}"

definition trap_hosts :: "GuestExports \<Rightarrow> (Image \<times> u64 \<times> Stub) list \<Rightarrow> u64 set" where
  "trap_hosts g ss = {host img v | img v stub. (img, v, stub) \<in> set ss \<and> answer g stub = None \<and> trapped stub}"

lemma hosts_Nil [simp]: "guest_hosts g [] = {}" "trap_hosts g [] = {}"
  by (simp_all add: guest_hosts_def trap_hosts_def)

lemma hosts_Cons [simp]:
  "guest_hosts g ((img, v, stub) # ss) = (if answer g stub = None then {} else {host img v}) \<union> guest_hosts g ss"
  "trap_hosts g ((img, v, stub) # ss) = (if answer g stub = None \<and> trapped stub then {host img v} else {}) \<union> trap_hosts g ss"
  by (auto simp: guest_hosts_def trap_hosts_def)

lemma resolve_stubs_fold:
  "same_tables g (exports program) \<Longrightarrow> fold (\<lambda>(img, e). resolve_stub strict img e) ss (program, ok) = (program', ok') \<Longrightarrow>
   same_tables g (exports program') \<and> images program' = images program \<and>
   (ok' \<longleftrightarrow> ok \<and> \<not> (strict \<and> (\<exists>(img, v, stub) \<in> set ss. unresolved g stub))) \<and>
   dom (map_of (stub_to_guest program')) = dom (map_of (stub_to_guest program)) \<union>
     guest_hosts g ss \<and>
   dom (map_of (stub_to_host program')) = dom (map_of (stub_to_host program)) \<union>
     trap_hosts g ss"
proof (induction ss arbitrary: program ok)
  case Nil
  then show ?case by simp
next
  case (Cons e ss)
  obtain img v stub where e: "e = (img, v, stub)" by (cases e)
  obtain p1 ok1 where one: "resolve_stub strict img (v, stub) (program, ok) = (p1, ok1)" by fastforce
  note s = resolve_stub_step [OF Cons.prems(1) one]
  have rest: "fold (\<lambda>(img, e). resolve_stub strict img e) ss (p1, ok1) = (program', ok')"
    using Cons.prems(2) one e by simp
  from s have "same_tables g (exports p1)" by simp
  note r = Cons.IH [OF this rest]
  have g: "dom (map_of (stub_to_guest p1)) = dom (map_of (stub_to_guest program)) \<union> (if answer g stub = None then {} else {host img v})"
    using s by (auto split: option.splits)
  have h: "dom (map_of (stub_to_host p1)) = dom (map_of (stub_to_host program)) \<union>
      (if answer g stub = None \<and> trapped stub then {host img v} else {})"
    using s by (auto split: if_splits)
  show ?case
  proof (intro conjI)
    show "dom (map_of (stub_to_guest program')) = dom (map_of (stub_to_guest program)) \<union> guest_hosts g (e # ss)"
      using r g unfolding e by (simp add: Un_assoc)
    show "dom (map_of (stub_to_host program')) = dom (map_of (stub_to_host program)) \<union> trap_hosts g (e # ss)"
      using r h unfolding e by (simp add: Un_assoc)
    show "ok' \<longleftrightarrow> ok \<and> \<not> (strict \<and> (\<exists>(img, v, stub) \<in> set (e # ss). unresolved g stub))"
      using r s unfolding e by auto
  qed (use r s in simp_all)
qed

lemma resolve_stubs_values:
  "same_tables g (exports program) \<Longrightarrow> fold (\<lambda>(img, e). resolve_stub strict img e) ss (program, ok) = (program', ok') \<Longrightarrow>
   map_of (stub_to_guest program') k = Some t \<Longrightarrow>
   map_of (stub_to_guest program) k = Some t \<or> (\<exists>img v stub. (img, v, stub) \<in> set ss \<and> host img v = k \<and> answer g stub = Some t)"
proof (induction ss arbitrary: program ok)
  case Nil
  then show ?case by simp
next
  case (Cons e ss)
  obtain img v stub where e: "e = (img, v, stub)" by (cases e)
  obtain p1 ok1 where one: "resolve_stub strict img (v, stub) (program, ok) = (p1, ok1)" by fastforce
  note s = resolve_stub_step [OF Cons.prems(1) one]
  have rest: "fold (\<lambda>(img, e). resolve_stub strict img e) ss (p1, ok1) = (program', ok')"
    using Cons.prems(2) one e by simp
  have "same_tables g (exports p1)" using s by simp
  from Cons.IH [OF this rest Cons.prems(3)] show ?case
  proof
    assume "map_of (stub_to_guest p1) k = Some t"
    then have "map_of (stub_to_guest program) k = Some t \<or> host img v = k \<and> answer g stub = Some t"
      using s by (auto split: option.splits if_splits)
    then show ?thesis unfolding e by auto
  next
    assume "\<exists>img v stub. (img, v, stub) \<in> set ss \<and> host img v = k \<and> answer g stub = Some t"
    then show ?thesis by auto
  qed
qed

lemma add_image_images: "add_image opts program img = Inr program' \<Longrightarrow>
    images program' = images program \<and> stub_to_guest program' = stub_to_guest program \<and> stub_to_host program' = stub_to_host program"
  by (auto simp: add_image_def split: sum.splits)

lemma apply_replace_images: "apply_replace opts program spec = Inr program' \<Longrightarrow>
    images program' = images program \<and> stub_to_guest program' = stub_to_guest program \<and> stub_to_host program' = stub_to_host program"
  by (auto simp: apply_replace_def split: sum.splits option.splits)

lemma LayoutAndResolve_parts:
  assumes "LayoutAndResolve opts strict program = Inr (program', ok)"
  obtains p where "images p = place_images (Base opts) (images program)"
    and "stub_to_guest p = stub_to_guest program" and "stub_to_host p = stub_to_host program"
    and "resolve_stubs strict p = (program', ok)" and "images program' = images p" and "same_tables (exports p) (exports program')"
proof -
  let ?start = "program\<lparr>images := place_images (Base opts) (images program)\<rparr>"
  let ?I = "\<lambda>q. images q = images ?start \<and> stub_to_guest q = stub_to_guest program \<and> stub_to_host q = stub_to_host program"
  obtain p1 p where f: "sum_fold (add_image opts) ?start (images ?start) = Inr p1"
    "sum_fold (apply_replace opts) p1 (Replaces opts) = Inr p" "resolve_stubs strict p = (program', ok)"
    using assms by (auto simp: LayoutAndResolve_def Let_def sum_bind_Inr)
  have "?I p1" by (rule sum_fold_inv [where I = ?I, OF f(1)]) (simp, use add_image_images in metis)
  then have p: "?I p" by (rule sum_fold_inv [where I = ?I, OF f(2)]) (use apply_replace_images in metis)
  have "same_tables (exports p) (exports program') \<and> images program' = images p"
    using resolve_stubs_fold [of "exports p" p strict "all_stubs (images p)" True program' ok] f(3)
    unfolding resolve_stubs_def resolve_stubs_flat by simp
  with that p f(3) show ?thesis by auto
qed

lemma place_images_aligned:
  "fits cursor imgs \<Longrightarrow> img \<in> set (tl (place_images cursor imgs)) \<Longrightarrow> 0x100000 dvd range_start img"
proof (induction imgs arbitrary: cursor)
  case Nil
  then show ?case by simp
next
  case (Cons i imgs)
  let ?p = "i\<lparr>im_slide := cursor - preferred_base i\<rparr>"
  let ?next = "AlignUp (host ?p (image_end ?p)) 0x100000"
  have f: "unat cursor + span i + 2 ^ 20 + sum_list (map (\<lambda>img. span img + 0x100000) imgs) < 2 ^ 64"
    using Cons.prems(1) by (simp add: fits_def)
  then have e: "unat (host ?p (image_end i)) = unat cursor + span i" by (intro placed_end) simp
  have a: "unat ?next < unat cursor + span i + 2 ^ 20" "0x100000 dvd unat ?next"
    using AlignUp_bounds(2,3) [of "host ?p (image_end i)" 20] f e by simp_all
  then have fn: "fits ?next imgs" using f by (simp add: fits_def)
  show ?case
  proof (cases imgs)
    case Nil
    then show ?thesis using Cons.prems(2) by (simp add: Let_def)
  next
    case (Cons j rest)
    then have "img = j\<lparr>im_slide := ?next - preferred_base j\<rparr> \<or> img \<in> set (tl (place_images ?next imgs))"
      using Cons.prems(2) by (auto simp: Let_def)
    then show ?thesis using Cons.IH [OF fn] a(2) by (auto simp: range_start_def)
  qed
qed

section \<open>Properties\<close>

text \<open>
  C19: The images do not overlap. When they fit in the address space from the base, the layout gives each
  image a range behind the one before, every range but the first begins on a megabyte, and \<open>ImageAt\<close> answers for
  every address of a range with the image placed there.
\<close>

theorem layout_places_apart:
  assumes "LayoutAndResolve opts strict program = Inr (program', ok)" and "fits (Base opts) (images program)"
  shows "sorted_wrt (\<lambda>a b. range_end a \<le> range_start b) (images program') \<and>
    (\<forall>img \<in> set (tl (images program')). 0x100000 dvd range_start img) \<and>
    (\<forall>img \<in> set (images program'). \<forall>a. covers img a \<longrightarrow> ImageAt program' a = Some img)"
proof -
  have i: "images program' = place_images (Base opts) (images program)"
    by (rule LayoutAndResolve_parts [OF assms(1)]) simp
  have "range_start img \<le> range_end img" if "img \<in> set (images program')" for img
    using place_images_bounds [OF assms(2)] that i by (metis le_add1)
  then show ?thesis
    using place_images_disjoint [OF assms(2)] place_images_aligned [OF assms(2)] sorted_wrt_find
    unfolding ImageAt_def i by blast
qed

text \<open>
  C36: Stubs are answered by the registry, and a strong import that nothing answers stops the build. After a strict
  layout of fresh images the call stubs sent to guest code are those whose bind a guest image answers, at the address
  it answers; those sent to the host are the trap stubs nothing answers; and the answer is true exactly when no stub
  is left that is neither answered, a trap nor weak.
\<close>

theorem LayoutAndResolve_stubs:
  assumes "LayoutAndResolve opts True (new_program imgs) = Inr (program', ok)"
  shows "ok = (\<not> (\<exists>(img, v, stub) \<in> set (all_stubs (images program')). unresolved (exports program') stub)) \<and>
    dom (map_of (stub_to_guest program')) = guest_hosts (exports program') (all_stubs (images program')) \<and>
    dom (map_of (stub_to_host program')) = trap_hosts (exports program') (all_stubs (images program')) \<and>
    (map_of (stub_to_guest program') k = Some t \<longrightarrow> (\<exists>img v stub. (img, v, stub) \<in> set (all_stubs (images program')) \<and>
       host img v = k \<and> answer (exports program') stub = Some t))"
proof -
  obtain p where p: "stub_to_guest p = []" "stub_to_host p = []" "resolve_stubs True p = (program', ok)"
      "images program' = images p" "same_tables (exports p) (exports program')"
    using assms by (rule LayoutAndResolve_parts) (auto simp: new_program_def)
  have s: "same_tables (exports program') (exports p)" using p(5) by (rule same_tables_sym)
  have f: "fold (\<lambda>(img, e). resolve_stub True img e) (all_stubs (images program')) (p, True) = (program', ok)"
    using p(3,4) unfolding resolve_stubs_def resolve_stubs_flat by simp
  show ?thesis
    using resolve_stubs_fold [OF s f] resolve_stubs_values [OF s f] p(1,2) by simp
qed

text \<open>
  The lifter reads code only. What \<open>ReadCode\<close> hands out is not empty-handed guesswork: the bytes are those of
  the one image at the address, in a section with instructions and not past its end, and the address is no stub's.
\<close>

theorem ReadCode_reads_code:
  assumes "ReadCode program a n = Some bs"
  shows "\<exists>img sec. ImageAt program a = Some img \<and> SectionAt img a = Some sec \<and>
    sect_flags sec AND (S_ATTR_PURE_INSTRUCTIONS OR S_ATTR_SOME_INSTRUCTIONS) \<noteq> 0 \<and>
    ReadBytes img a (length bs) = Some bs \<and> length bs \<le> unat n \<and>
    length bs \<le> unat (host img (sect_addr sec + sect_size sec) - a) \<and>
    a \<notin> dom (map_of (stub_to_guest program)) \<and> a \<notin> dom (map_of (stub_to_host program))"
proof -
  obtain img where i: "ImageAt program a = Some img" "IsExecutable img a"
      "map_of (stub_to_guest program) a = None" "map_of (stub_to_host program) a = None"
    using assms by (auto simp: ReadCode_def split: option.splits if_splits)
  then obtain sec where s: "SectionAt img a = Some sec"
      "sect_flags sec AND (S_ATTR_PURE_INSTRUCTIONS OR S_ATTR_SOME_INSTRUCTIONS) \<noteq> 0"
    by (auto simp: IsExecutable_def split: option.splits)
  let ?m = "unat (min n (host img (sect_addr sec + sect_size sec) - a))"
  have r: "ReadBytes img a ?m = Some bs" using assms i s by (simp add: ReadCode_def Let_def)
  then have "length bs = ?m" by (auto simp: ReadBytes_def Let_def split: option.splits if_splits)
  moreover have "?m \<le> unat n" "?m \<le> unat (host img (sect_addr sec + sect_size sec) - a)"
    by (simp_all add: min_def word_le_nat_alt)
  ultimately show ?thesis using i s r by auto
qed

text \<open>The names imported with an answer, and those imported without one.\<close>

definition noted :: "GuestExports \<Rightarrow> bool \<Rightarrow> (string \<times> string \<times> string) list \<Rightarrow> string set" where
  "noted g found ns = {n | l s n. (l, s, n) \<in> set ns \<and> (Found g l s \<noteq> None) = found}"

lemma noted_Nil [simp]: "noted g found [] = {}"
  by (simp add: noted_def)

lemma noted_Cons [simp]: "noted g found ((l, s, n) # ns) = (if (Found g l s \<noteq> None) = found then {n} else {}) \<union> noted g found ns"
  by (auto simp: noted_def)

lemma note_symbols:
  "same_tables g (exports program) \<Longrightarrow> fold note_symbol ns (program, answered, from_host) = (program', answered', from_host') \<Longrightarrow>
   set answered' = set answered \<union> noted g True ns \<and> set from_host' = set from_host \<union> noted g False ns"
proof (induction ns arbitrary: program answered from_host)
  case Nil
  then show ?case by simp
next
  case (Cons e ns)
  obtain l s n where e: "e = (l, s, n)" by (cases e)
  let ?p = "program\<lparr>exports := fst (Find (exports program) l s)\<rparr>"
  have t: "same_tables g (exports ?p)" using Find_keeps [OF Cons.prems(1)] by simp
  have "fold note_symbol ns (if Found g l s = None then (?p, answered, oset_insert n from_host)
      else (?p, oset_insert n answered, from_host)) = (program', answered', from_host')"
    using Cons.prems(2) Found_same [OF Cons.prems(1)]
    by (auto simp: e note_symbol_def lookup_symbol_parts split: option.splits if_splits)
  with Cons.IH [OF t] show ?case unfolding e by (cases "Found g l s = None") auto
qed

text \<open>
  The resolved names are those the host never supplies. A name is written exactly when some image imports it (by
  a stub, a bind or a re-export) with an answer in the registry and no image imports it without one.
\<close>

theorem WriteResolved_names:
  "set (WriteResolved program) =
     noted (exports program) True (concat (map imported_names (images program))) -
     noted (exports program) False (concat (map imported_names (images program)))"
proof -
  obtain p as hs where f: "fold note_symbol (concat (map imported_names (images program))) (program, [], []) = (p, as, hs)"
    by (metis prod.exhaust)
  then have "set (WriteResolved program) = set as - set hs" by (auto simp: WriteResolved_def)
  with note_symbols [OF same_tables_refl f] show ?thesis by simp
qed

section \<open>Instances\<close>

text \<open>An executable of one page that calls a function of a library of one page, and a trap.\<close>

definition lib_object :: macho_object where
  "lib_object = \<lparr>obj_data = [1, 0, 0, 0, 2, 0, 0, 0], obj_is64 = True, obj_cputype = CPU_TYPE_ARM64, obj_flags = 0x80,
     load_commands = [], obj_symbols = [], indirect_symbol = (\<lambda>_. 0), rebase_table = ([], None), bind_table = ([], None),
     lazy_bind_table = ([], None), weak_bind_table = ([], None), fixup_table = ([], None), export_trie = ([], None)\<rparr>"

definition lib_image :: Image where
  "lib_image = (new_image ''lib'' lib_object)
     \<lparr>im_install_name := ''@rpath/lib'',
      im_segments := [\<lparr>seg_name = ''__TEXT'', seg_vmaddr = 0, seg_vmsize = 0x1000, seg_fileoff = 0, seg_filesize = 8,
                      seg_initprot = 5\<rparr>],
      im_sections := [\<lparr>segname = ''__TEXT'', sectname = ''__text'', sect_addr = 0, sect_size = 8, sect_offset = 0,
                      sect_flags = S_ATTR_PURE_INSTRUCTIONS, reserved1 = 0, reserved2 = 0\<rparr>],
      im_functions := [0], im_exports := [(''_f'', 4)]\<rparr>"

definition app_image :: Image where
  "app_image = (new_image ''app'' lib_object)
     \<lparr>im_segments := [\<lparr>seg_name = ''__TEXT'', seg_vmaddr = 0x100000000, seg_vmsize = 0x1000, seg_fileoff = 0,
                      seg_filesize = 8, seg_initprot = 5\<rparr>],
      im_stubs := [(0x100000100, \<lparr>stub_symbol = ''_f'', stub_library = ''@rpath/lib'', stub_weak = False\<rparr>),
                   (0x100000110, \<lparr>stub_symbol = ''_xl_trap_g'', stub_library = ''/usr/lib/g'', stub_weak = False\<rparr>)]\<rparr>"

definition app_options :: Options where
  "app_options = \<lparr>Base = 0x10000000, Bridges = [], Replaces = [], equivalent = (\<lambda>a b. Some (a = b))\<rparr>"

definition app_program :: Program where
  "app_program = new_program [app_image, lib_image]"


lemma app_layout: "\<exists>program'. LayoutAndResolve app_options True app_program = Inr (program', True) \<and>
    stub_to_guest program' = [(0x10000100, 0x10100004)] \<and> stub_to_host program' = [(0x10000110, ''xl_h_g'')]"
proof -
  have "case LayoutAndResolve app_options True app_program of Inl e \<Rightarrow> False | Inr (p, ok) \<Rightarrow>
      ok \<and> stub_to_guest p = [(0x10000100, 0x10100004)] \<and> stub_to_host p = [(0x10000110, ''xl_h_g'')]"
    by code_simp
  then show ?thesis by (auto split: sum.splits prod.splits)
qed

theorem layout_places_apart_witness:
  "\<exists>program'. LayoutAndResolve app_options True app_program = Inr (program', True) \<and>
     sorted_wrt (\<lambda>a b. range_end a \<le> range_start b) (images program')"
proof -
  obtain program' where l: "LayoutAndResolve app_options True app_program = Inr (program', True)"
    using app_layout by blast
  moreover have "fits (Base app_options) (images app_program)"
    by (simp add: fits_def span_def app_options_def app_program_def new_program_def app_image_def lib_image_def new_image_def
        preferred_base_def image_end_def)
  ultimately show ?thesis using layout_places_apart [OF l] by blast
qed

theorem LayoutAndResolve_stubs_witness:
  "\<exists>program'. LayoutAndResolve app_options True app_program = Inr (program', True) \<and>
     0x10000110 \<in> trap_hosts (exports program') (all_stubs (images program')) \<and>
     0x10000100 \<in> guest_hosts (exports program') (all_stubs (images program'))"
proof -
  obtain program' where l: "LayoutAndResolve app_options True app_program = Inr (program', True)"
      and s: "stub_to_guest program' = [(0x10000100, 0x10100004)]" "stub_to_host program' = [(0x10000110, ''xl_h_g'')]"
    using app_layout by blast
  have "dom (map_of (stub_to_guest program')) = guest_hosts (exports program') (all_stubs (images program')) \<and>
      dom (map_of (stub_to_host program')) = trap_hosts (exports program') (all_stubs (images program'))"
    using LayoutAndResolve_stubs [OF l [unfolded app_program_def]] by blast
  then have "guest_hosts (exports program') (all_stubs (images program')) = {0x10000100}"
      "trap_hosts (exports program') (all_stubs (images program')) = {0x10000110}"
    unfolding s by simp_all
  with l show ?thesis by blast
qed

theorem ReadCode_reads_code_witness:
  "\<exists>img sec. ImageAt (new_program [lib_image]) 4 = Some img \<and> SectionAt img 4 = Some sec \<and>
     ReadCode (new_program [lib_image]) 4 16 = Some [2, 0, 0, 0]"
proof -
  have "ReadCode (new_program [lib_image]) 4 16 = Some [2, 0, 0, 0]" by code_simp
  with ReadCode_reads_code [OF this] show ?thesis by blast
qed

end
