(* ===== verification/GuestData.thy ===== *)
theory GuestData
  imports Objc Program
begin

text \<open>
  The guest's data and tables as they are emitted, the second part of \<open>xlate/src/xlate.cpp\<close>: the slots
  rebases and binds fill, the Objective-C structures that replace the guest's, the chunks a segment is cut
  into, the function, initializer and thread-local tables, and the linker arguments. LLVM's constants are
  the datatype \<open>field\<close>, as wide as the packed structures of the source lay them out; a global is its
  section, its name and its fields.
\<close>

section \<open>Constants and globals\<close>

text \<open>
  \<open>Address s a\<close> is the 32-bit address of the host symbol \<open>s\<close> plus \<open>a\<close>, \<open>GlobalAddress g\<close> that of a global of the
  module; \<open>HostSlot\<close> is the anonymous packed structure of such an address and a zero word.
\<close>

datatype field = Int32 u32 | Int64 u64 | Address string u32 | GlobalAddress string | HostSlot string u32
  | Padding nat | Bytes "u8 list"

fun field_size :: "field \<Rightarrow> nat" where
  "field_size (Int32 w) = 4"
| "field_size (Int64 w) = 8"
| "field_size (Address s a) = 4"
| "field_size (GlobalAddress g) = 4"
| "field_size (HostSlot s a) = 8"
| "field_size (Padding n) = n"
| "field_size (Bytes bs) = length bs"

record Override =
  ov_fields :: "field list"
  ov_size :: u64
  ov_global :: "string option"

type_synonym Overrides = "(u64, Override) omap"

text \<open>
  The module: the names that are not global variables (the lifted functions), the external globals created
  so far with their weak linkage, and the globals emitted, in order.
\<close>

record Module =
  other_values :: "string list"
  globals :: "(string, bool) omap"
  emitted :: "(string \<times> string \<times> field list) list"

type_synonym 'a building = "(Module, 'a) state"

definition HostSymbol :: "string \<Rightarrow> string building" where
  "HostSymbol symbol = do {
     let name = IRName symbol;
     State_Monad.update (\<lambda>module.
       if name \<in> set (other_values module) \<or> map_of (globals module) name \<noteq> None then module
       else module\<lparr>globals := omap_set name False (globals module)\<rparr>);
     State_Monad.return name
   }"

definition make_weak :: "string \<Rightarrow> unit building" where
  "make_weak name = State_Monad.update (\<lambda>module.
     if map_of (globals module) name \<noteq> None then module\<lparr>globals := omap_set name True (globals module)\<rparr> else module)"

section \<open>\<open>ObjCOverrides\<close>\<close>

definition class_global :: "u64 \<Rightarrow> string" where
  "class_global address = ''xl_guest_class_'' @ Hex8 address"

definition class_addresses :: "ObjCImage list \<Rightarrow> u64 list" where
  "class_addresses objc = concat (map (\<lambda>cls. [cls_address cls, metaclass cls]) (concat (map oi_classes objc)))"

definition symbol_field :: "string \<Rightarrow> field building" where
  "symbol_field name = do { g \<leftarrow> HostSymbol (CHR ''_'' # name); State_Monad.return (Address g 0) }"

definition pointer_field :: "u64 list \<Rightarrow> Pointer \<Rightarrow> field building" where
  "pointer_field classes p =
     (case kind p of
        Local \<Rightarrow> State_Monad.return
          (if ptr_host p \<in> set classes then GlobalAddress (class_global (ptr_host p)) else Int32 (ucast (ptr_host p)))
      | Raw \<Rightarrow> State_Monad.return (Int32 (ucast (ptr_host p)))
      | Import \<Rightarrow> do { g \<leftarrow> HostSymbol (ptr_symbol p); State_Monad.return (Address g 0) }
      | Null \<Rightarrow> State_Monad.return (Int32 0))"

text \<open>One class object: its isa, its superclass, the method cache, and the read-only data.\<close>

definition class_override :: "u64 list \<Rightarrow> u64 \<Rightarrow> Pointer \<Rightarrow> Pointer \<Rightarrow> string \<Rightarrow> Override building" where
  "class_override classes address isa super ro = do {
     f0 \<leftarrow> pointer_field classes isa;
     f1 \<leftarrow> pointer_field classes super;
     f2 \<leftarrow> symbol_field ''_objc_empty_cache'';
     f3 \<leftarrow> symbol_field ''_objc_empty_vtable'';
     f4 \<leftarrow> symbol_field ro;
     State_Monad.return \<lparr>ov_fields = [f0, f1, f2, f3, f4, Padding 20], ov_size = 40, ov_global = Some (class_global address)\<rparr>
   }"

definition override_class :: "u64 list \<Rightarrow> nat \<Rightarrow> nat \<times> ObjCClass \<Rightarrow> Overrides \<Rightarrow> Overrides building" where
  "override_class classes img = (\<lambda>(index, cls) overrides. do {
     let suffix = dec_string img @ ''_'' @ dec_string index;
     object \<leftarrow> class_override classes (cls_address cls)
       \<lparr>kind = Local, ptr_host = metaclass cls, ptr_symbol = [], ptr_library = []\<rparr> (superclass cls)
       (''xl_objc_ro_'' @ suffix);
     meta \<leftarrow> class_override classes (metaclass cls) (meta_isa cls) (meta_superclass cls) (''xl_objc_metaro_'' @ suffix);
     State_Monad.return (omap_set (metaclass cls) meta (omap_set (cls_address cls) object overrides))
   })"

definition protocol_list_field :: "ObjCProtocol \<Rightarrow> bool \<Rightarrow> string \<Rightarrow> field building" where
  "protocol_list_field protocol present part =
     (if present then symbol_field (''xl_objc_proto_'' @ Hex8 (proto_address protocol) @ ''_'' @ part)
      else State_Monad.return (Int32 0))"

text \<open>The replacement takes exactly the bytes of the guest's structure.\<close>

definition occupied :: "ObjCProtocol \<Rightarrow> u32" where
  "occupied protocol = (if 44 \<le> proto_size protocol then proto_size protocol else 96)"

definition override_protocol :: "ObjCProtocol \<Rightarrow> Overrides \<Rightarrow> Overrides building" where
  "override_protocol protocol overrides = do {
     f2 \<leftarrow> protocol_list_field protocol (proto_protocols protocol \<noteq> []) ''protocols'';
     f3 \<leftarrow> protocol_list_field protocol (proto_instance_methods protocol \<noteq> []) ''instance'';
     f4 \<leftarrow> protocol_list_field protocol (proto_class_methods protocol \<noteq> []) ''class'';
     f5 \<leftarrow> protocol_list_field protocol (optional_instance_methods protocol \<noteq> []) ''optional_instance'';
     f6 \<leftarrow> protocol_list_field protocol (optional_class_methods protocol \<noteq> []) ''optional_class'';
     f7 \<leftarrow> protocol_list_field protocol (proto_properties protocol \<noteq> []) ''properties'';
     State_Monad.return (omap_set (proto_address protocol)
       \<lparr>ov_fields = [Int32 0, Int32 (ucast (proto_name_address protocol)), f2, f3, f4, f5, f6, f7, Int32 40,
          Int32 (proto_flags protocol), Int32 0, Padding (unat (occupied protocol) - 44)],
        ov_size = ucast (occupied protocol), ov_global = Some (''xl_guest_protocol_'' @ Hex8 (proto_address protocol))\<rparr>
       overrides)
   }"

definition override_string :: "ConstantString \<Rightarrow> Overrides \<Rightarrow> Overrides building" where
  "override_string str overrides = do {
     f0 \<leftarrow> symbol_field ''__CFConstantStringClassReference'';
     State_Monad.return (omap_set (str_address str)
       \<lparr>ov_fields = [f0, Int32 (str_flags str), Int32 (ucast (str_string str)), Int32 (ucast (str_length str)), Padding 16],
        ov_size = 32, ov_global = None\<rparr> overrides)
   }"

text \<open>A loop that builds as it goes.\<close>

fun build_fold :: "('a \<Rightarrow> 's \<Rightarrow> 's building) \<Rightarrow> 'a list \<Rightarrow> 's \<Rightarrow> 's building" where
  "build_fold f [] s = State_Monad.return s"
| "build_fold f (x # xs) s = do { s \<leftarrow> f x s; build_fold f xs s }"

definition override_image :: "u64 list \<Rightarrow> nat \<times> ObjCImage \<Rightarrow> Overrides \<Rightarrow> Overrides building" where
  "override_image classes = (\<lambda>(img, oi) overrides. do {
     overrides \<leftarrow> build_fold (override_class classes img) (List.enumerate 0 (oi_classes oi)) overrides;
     overrides \<leftarrow> build_fold override_protocol (oi_protocols oi) overrides;
     build_fold override_string (strings oi) overrides
   })"

definition ObjCOverrides :: "ObjCImage list \<Rightarrow> Overrides building" where
  "ObjCOverrides objc = do {
     State_Monad.update (\<lambda>module. module\<lparr>globals :=
       fold (\<lambda>address. omap_set (class_global address) False) (class_addresses objc) (globals module)\<rparr>);
     build_fold (override_image (class_addresses objc)) (List.enumerate 0 objc) []
   }"

section \<open>\<open>EmitGuestData\<close>\<close>

definition not_emitted :: "Segment \<Rightarrow> bool" where
  "not_emitted segment \<longleftrightarrow> seg_name segment = ''__PAGEZERO'' \<or> seg_name segment = ''__LINKEDIT'' \<or> seg_vmsize segment = 0"

text \<open>The segments other than \<open>__TEXT\<close> are merged when each starts where the one before ended.\<close>

fun contiguous :: "u64 option \<Rightarrow> Segment list \<Rightarrow> bool" where
  "contiguous previous_end [] = True"
| "contiguous previous_end (segment # segments) =
     (if not_emitted segment \<or> seg_name segment = ''__TEXT'' then contiguous previous_end segments
      else (case previous_end of None \<Rightarrow> True | Some e \<Rightarrow> seg_vmaddr segment = e) \<and>
           contiguous (Some (seg_vmaddr segment + seg_vmsize segment)) segments)"

definition merge_data :: "Image \<Rightarrow> bool" where
  "merge_data img = contiguous None (im_segments img)"

text \<open>\<open>substr(2, ...)\<close> throws when the name has fewer than two characters: no name, then.\<close>

definition host_name :: "nat \<Rightarrow> Image \<Rightarrow> Segment \<Rightarrow> string option" where
  "host_name index img segment =
     (if length (seg_name segment) < 2 then None
      else Some (''__X'' @ dec_string index @
             (if merge_data img \<and> seg_name segment \<noteq> ''__TEXT'' then ''DATA''
              else take (min 12 (length (seg_name segment) - 2)) (drop 2 (seg_name segment)))))"

definition in_segment :: "Segment \<Rightarrow> u64 \<Rightarrow> bool" where
  "in_segment segment vmaddr \<longleftrightarrow> seg_vmaddr segment \<le> vmaddr \<and> vmaddr < seg_vmaddr segment + seg_vmsize segment"

record Emission =
  em_program :: Program
  em_ok :: bool
  em_slots :: "(u64, field) omap"

type_synonym 'a emitting = "(Module, 'a) state"

definition rebase_slot :: "Image \<Rightarrow> Segment \<Rightarrow> u64 \<times> u64 \<Rightarrow> Emission \<Rightarrow> Emission" where
  "rebase_slot img segment = (\<lambda>(vmaddr, target) em.
     (if \<not> in_segment segment vmaddr then em
      else let v = target AND 0x00FFFFFFFFFFFFFF
           in if v < preferred_base img \<or> image_end img \<le> v
              then em\<lparr>em_program := err (''xlate: '' @ im_path img @ '': rebase at 0x'' @ Hex8 vmaddr @ '' targets 0x'' @
                        Hex8 v @ '' outside the image'') (em_program em), em_ok := False\<rparr>
              else em\<lparr>em_slots := omap_set vmaddr (Int64 (host img v)) (em_slots em)\<rparr>))"

definition bind_slot :: "Image \<Rightarrow> Segment \<Rightarrow> u64 \<times> Bind \<Rightarrow> Emission \<Rightarrow> Emission building" where
  "bind_slot img segment = (\<lambda>(vmaddr, b) em.
     (if \<not> in_segment segment vmaddr then State_Monad.return em
      else case lookup_symbol (bind_library b) (bind_symbol b) (em_program em) of
        (program, Some target) \<Rightarrow>
          State_Monad.return (em\<lparr>em_program := program, em_slots := omap_set vmaddr (Int64 (target + bind_addend b)) (em_slots em)\<rparr>)
      | (program, None) \<Rightarrow>
          if bind_symbol b \<in> set (passthrough program)
          then do {
            name \<leftarrow> HostSymbol (bind_symbol b);
            (if bind_weak_import b then make_weak name else State_Monad.return ());
            State_Monad.return (em\<lparr>em_program := program,
              em_slots := omap_set vmaddr (HostSlot name (ucast (bind_addend b))) (em_slots em)\<rparr>)
          }
          else if bind_symbol b = ''dyld_stub_binder'' \<or> bind_weak_import b \<or> starts_with kTrapPrefix (bind_symbol b)
          then State_Monad.return
            (let program = (if bind_weak_import b
                            then (case lookup_symbol [] (bind_symbol b) program of
                                    (program, Some a) \<Rightarrow> err (left_unbound_line img (bind_symbol b) (bind_library b)) program
                                  | (program, None) \<Rightarrow> program)
                            else program)
             in em\<lparr>em_program := program, em_slots := omap_set vmaddr (Int64 0) (em_slots em)\<rparr>)
          else State_Monad.return
            (em\<lparr>em_program := err (''xlate: '' @ im_path img @ '': data bind to unresolved symbol '' @ bind_symbol b) program,
                em_ok := False\<rparr>)))"

text \<open>
  \<open>pieces\<close>: the slots, then the overrides of the segment, each of which first erases the slots that start
  inside it (from \<open>lower_bound\<close> of its address to that of its end).
\<close>

definition slot_piece :: "field \<Rightarrow> Override" where
  "slot_piece v = \<lparr>ov_fields = [v], ov_size = 8, ov_global = None\<rparr>"

definition place_override :: "u64 \<Rightarrow> Override \<Rightarrow> Overrides \<Rightarrow> Overrides" where
  "place_override vmaddr piece pieces =
     omap_set vmaddr piece (filter (\<lambda>(a, p). \<not> (vmaddr \<le> a \<and> a < vmaddr + ov_size piece)) pieces)"

definition segment_pieces :: "Image \<Rightarrow> Segment \<Rightarrow> (u64, field) omap \<Rightarrow> Overrides \<Rightarrow> Overrides" where
  "segment_pieces img segment slots overrides =
     fold (\<lambda>(host_addr, piece) pieces.
         (let vmaddr = host_addr - im_slide img
          in if in_segment segment vmaddr then place_override vmaddr piece pieces else pieces))
       overrides (map (\<lambda>(vmaddr, v). (vmaddr, slot_piece v)) slots)"

text \<open>The state of the cutting: the fields of the open chunk, the cursor, where the chunk began, the globals placed.\<close>

record Cut =
  cut_fields :: "field list"
  cut_cursor :: u64
  cut_start :: u64
  cut_out :: "(string \<times> field list) list"

definition close_chunk :: "nat \<Rightarrow> Cut \<Rightarrow> Cut" where
  "close_chunk index c =
     (if cut_fields c = [] then c
      else c\<lparr>cut_out := cut_out c @ [(''guest_'' @ dec_string index @ ''_'' @ Hex8 (cut_start c), cut_fields c)],
             cut_fields := []\<rparr>)"

definition flush :: "u64 \<Rightarrow> u8 list \<Rightarrow> u64 \<Rightarrow> Cut \<Rightarrow> Cut" where
  "flush base bytes until c =
     (if cut_cursor c < until
      then c\<lparr>cut_fields := cut_fields c @
               [Bytes (take (unat (until - cut_cursor c)) (drop (unat (cut_cursor c - base)) bytes))],
             cut_cursor := until\<rparr>
      else c)"

definition cut_piece :: "nat \<Rightarrow> u64 \<Rightarrow> u8 list \<Rightarrow> u64 \<times> Override \<Rightarrow> Cut \<Rightarrow> Cut" where
  "cut_piece index base bytes = (\<lambda>(vmaddr, piece) c.
     (let c = flush base bytes vmaddr c
      in case ov_global piece of
           Some name \<Rightarrow>
             (let c = close_chunk index c
              in c\<lparr>cut_out := cut_out c @ [(name, ov_fields piece)], cut_cursor := vmaddr + ov_size piece,
                   cut_start := vmaddr + ov_size piece\<rparr>)
         | None \<Rightarrow> c\<lparr>cut_fields := cut_fields c @ ov_fields piece, cut_cursor := vmaddr + ov_size piece\<rparr>))"

definition cut_segment :: "nat \<Rightarrow> u64 \<Rightarrow> u64 \<Rightarrow> u8 list \<Rightarrow> Overrides \<Rightarrow> (string \<times> field list) list" where
  "cut_segment index base fin bytes pieces =
     cut_out (close_chunk index (flush base bytes fin
       (fold (cut_piece index base bytes) pieces \<lparr>cut_fields = [], cut_cursor = base, cut_start = base, cut_out = []\<rparr>)))"

record GuestSegment =
  gs_image :: Image
  gs_segment :: Segment
  gs_host_name :: string

text \<open>The bytes of the segment: a buffer of zeros that \<open>ReadBytes\<close> fills when it can.\<close>

definition segment_bytes :: "Image \<Rightarrow> Segment \<Rightarrow> u8 list" where
  "segment_bytes img segment =
     (case ReadBytes img (host img (seg_vmaddr segment)) (unat (seg_vmsize segment)) of
        Some bytes \<Rightarrow> bytes
      | None \<Rightarrow> replicate (unat (seg_vmsize segment)) 0)"

text \<open>\<open>None\<close> is the exception; else the program, the flag and the segments so far.\<close>

type_synonym emit_state = "(Program \<times> bool \<times> GuestSegment list) option"

definition emit_segment :: "Overrides \<Rightarrow> nat \<Rightarrow> Image \<Rightarrow> Segment \<Rightarrow> emit_state \<Rightarrow> emit_state building" where
  "emit_segment overrides index img segment st =
     (case st of
        None \<Rightarrow> State_Monad.return None
      | Some (program, ok, out) \<Rightarrow>
          if not_emitted segment then State_Monad.return st
          else case host_name index img segment of
                 None \<Rightarrow> State_Monad.return None
               | Some name \<Rightarrow> do {
                   let em = fold (rebase_slot img segment) (im_rebases img) \<lparr>em_program = program, em_ok = ok, em_slots = []\<rparr>;
                   em \<leftarrow> build_fold (bind_slot img segment) (im_binds img) em;
                   let pieces = segment_pieces img segment (em_slots em) overrides;
                   State_Monad.update (\<lambda>module. module\<lparr>emitted := emitted module @
                     map (\<lambda>(g, fields). (name @ '',__image'', g, fields))
                       (cut_segment index (seg_vmaddr segment) (seg_vmaddr segment + seg_vmsize segment)
                          (segment_bytes img segment) pieces)\<rparr>);
                   State_Monad.return (Some (em_program em, em_ok em,
                     out @ [\<lparr>gs_image = img, gs_segment = segment, gs_host_name = name\<rparr>]))
                 })"

definition emit_image :: "Overrides \<Rightarrow> nat \<times> Image \<Rightarrow> emit_state \<Rightarrow> emit_state building" where
  "emit_image overrides = (\<lambda>(index, img). build_fold (emit_segment overrides index img) (im_segments img))"

definition EmitGuestData :: "Program \<Rightarrow> Overrides \<Rightarrow> emit_state building" where
  "EmitGuestData program overrides =
     build_fold (emit_image overrides) (List.enumerate 0 (images program)) (Some (program, True, []))"

section \<open>\<open>EmitTables\<close>\<close>

definition S_MOD_INIT_FUNC_POINTERS :: u32 where "S_MOD_INIT_FUNC_POINTERS = 0x09"
definition S_INIT_FUNC_OFFSETS :: u32 where "S_INIT_FUNC_OFFSETS = 0x16"
definition S_THREAD_LOCAL_REGULAR :: u32 where "S_THREAD_LOCAL_REGULAR = 0x11"
definition S_THREAD_LOCAL_ZEROFILL :: u32 where "S_THREAD_LOCAL_ZEROFILL = 0x12"
definition S_THREAD_LOCAL_VARIABLES :: u32 where "S_THREAD_LOCAL_VARIABLES = 0x13"

definition section_type :: "Section \<Rightarrow> u32" where
  "section_type sec = sect_flags sec AND SECTION_TYPE"

text \<open>The function table: what was lifted, then what each stub leads to.\<close>

definition function_table :: "Program \<Rightarrow> (u64, string) omap \<Rightarrow> (u64, string) omap" where
  "function_table program lifted =
     fold (\<lambda>(stub, name). omap_set stub name) (stub_to_host program)
       (fold (\<lambda>(stub, target) table. case Target program lifted stub of
                Some function \<Rightarrow> omap_set stub function table
              | None \<Rightarrow> table) (stub_to_guest program) lifted)"

definition entry_address :: "Program \<Rightarrow> u32" where
  "entry_address program = (let main_image = hd (images program)
     in case im_entry main_image of Some e \<Rightarrow> ucast (host main_image e) | None \<Rightarrow> 0)"

definition section_initializers :: "Image \<Rightarrow> Section \<Rightarrow> u32 list" where
  "section_initializers img sec =
     (if section_type sec = S_MOD_INIT_FUNC_POINTERS
      then List.map_filter (\<lambda>i. map_option (\<lambda>target. ucast (host img (target AND 0x00FFFFFFFFFFFFFF)))
             (map_of (im_rebases img) (sect_addr sec + of_nat (8 * i)))) [0..<unat (sect_size sec) div 8]
      else if section_type sec = S_INIT_FUNC_OFFSETS
      then List.map_filter (\<lambda>i. map_option (\<lambda>bytes. ucast (host img (preferred_base img + ucast (le_word bytes :: u32))))
             (ReadBytes img (host img (sect_addr sec + of_nat (4 * i))) 4)) [0..<unat (sect_size sec) div 4]
      else [])"

definition initializers :: "Program \<Rightarrow> u32 list" where
  "initializers program =
     concat (map (\<lambda>img. concat (map (section_initializers img) (im_sections img))) (rev (images program)))"

text \<open>The last section of a type is the one the \<open>switch\<close> leaves in its variable.\<close>

definition last_section :: "Image \<Rightarrow> u32 \<Rightarrow> Section option" where
  "last_section img t = fold (\<lambda>sec found. if section_type sec = t then Some sec else found) (im_sections img) None"

definition tlv_region :: "Image \<Rightarrow> u32 list option" where
  "tlv_region img =
     (case last_section img S_THREAD_LOCAL_VARIABLES of
        None \<Rightarrow> None
      | Some vars \<Rightarrow>
          let data = last_section img S_THREAD_LOCAL_REGULAR;
              bss = last_section img S_THREAD_LOCAL_ZEROFILL;
              data_size = (case data of Some s \<Rightarrow> sect_size s | None \<Rightarrow> 0);
              bss_size = (case bss of Some s \<Rightarrow> sect_size s | None \<Rightarrow> 0)
          in Some [ucast (host img (sect_addr vars)), ucast (host img (sect_addr vars + sect_size vars)),
                   ucast (case data of Some s \<Rightarrow> host img (sect_addr s) | None \<Rightarrow> 0), ucast data_size,
                   ucast (data_size + bss_size)])"

record Tables =
  xl_functions :: "(u32 \<times> string) list"
  xl_function_count :: u32
  xl_entry_address :: u32
  xl_initializers :: "u32 list"
  xl_initializer_count :: u32
  xl_tlv_regions :: "u32 list list"
  xl_tlv_region_count :: u32

definition EmitTables :: "Program \<Rightarrow> (u64, string) omap \<Rightarrow> Tables" where
  "EmitTables program lifted =
     (let table = function_table program lifted;
          inits = initializers program;
          regions = List.map_filter tlv_region (images program)
      in \<lparr>xl_functions = map (\<lambda>(address, function). (ucast address, function)) table,
          xl_function_count = of_nat (length table), xl_entry_address = entry_address program,
          xl_initializers = inits, xl_initializer_count = of_nat (length inits),
          xl_tlv_regions = regions, xl_tlv_region_count = of_nat (length regions)\<rparr>)"

section \<open>\<open>WriteLayout\<close>\<close>

record Layout =
  lay_order :: "string list"
  lay_lowest :: "(string, u64) omap"
  lay_writable :: "(string, bool) omap"

definition lay_segment :: "GuestSegment \<Rightarrow> Layout \<Rightarrow> Layout" where
  "lay_segment entry lay =
     (let name = gs_host_name entry;
          address = host (gs_image entry) (seg_vmaddr (gs_segment entry));
          w = (case map_of (lay_writable lay) name of Some b \<Rightarrow> b | None \<Rightarrow> False)
      in lay\<lparr>lay_order := (if map_of (lay_lowest lay) name = None then lay_order lay @ [name] else lay_order lay),
             lay_lowest := omap_set name (case map_of (lay_lowest lay) name of
                 None \<Rightarrow> address | Some lowest \<Rightarrow> min lowest address) (lay_lowest lay),
             lay_writable := omap_set name (w \<or> seg_initprot (gs_segment entry) AND 2 \<noteq> 0) (lay_writable lay)\<rparr>)"

definition lay_out :: "GuestSegment list \<Rightarrow> Layout" where
  "lay_out segments = fold lay_segment segments \<lparr>lay_order = [], lay_lowest = [], lay_writable = []\<rparr>"

definition layout_lines :: "Layout \<Rightarrow> string \<Rightarrow> string list" where
  "layout_lines lay name =
     (let lowest = (case map_of (lay_lowest lay) name of Some a \<Rightarrow> a | None \<Rightarrow> 0);
          prot = (if map_of (lay_writable lay) name = Some True then ''rw'' else ''r'')
      in [''-Wl,-segaddr,'' @ name @ '',0x'' @ Hex8 lowest,
          ''-Wl,-segprot,'' @ name @ '','' @ prot @ '','' @ prot])"

definition WriteLayout :: "GuestSegment list \<Rightarrow> string list" where
  "WriteLayout segments = (let lay = lay_out segments in concat (map (layout_lines lay) (lay_order lay)))"

section \<open>\<open>WriteStateHeader\<close>\<close>

text \<open>
  The registers of the processor state come from a generated file; each is its name in capitals, its
  size and its offset.
\<close>

definition isalnum :: "char \<Rightarrow> bool" where
  "isalnum c \<longleftrightarrow> CHR ''0'' \<le> c \<and> c \<le> CHR ''9'' \<or> CHR ''A'' \<le> c \<and> c \<le> CHR ''Z'' \<or> CHR ''a'' \<le> c \<and> c \<le> CHR ''z''"

definition macro_name :: "string \<Rightarrow> string" where
  "macro_name name = map (\<lambda>c. if isalnum c then c else CHR ''_'')
     (if name \<noteq> [] \<and> hd name = CHR ''_'' then tl name else name)"

definition int_string :: "int \<Rightarrow> string" where
  "int_string i = (if i < 0 then CHR ''-'' # dec_string (nat (- i)) else dec_string (nat i))"

definition state_size :: "(string \<times> u64 \<times> u64) list \<Rightarrow> u64" where
  "state_size regs = fold (\<lambda>(name, reg_size, off) n. max n (off + reg_size)) regs 0"

definition WriteStateHeader :: "(string \<times> u64 \<times> u64) list \<Rightarrow> Program \<Rightarrow> string list" where
  "WriteStateHeader regs program =
     [''#pragma once''] @
     map (\<lambda>(name, reg_size, off). ''#define XL_OFFSET_'' @ name @ '' '' @ dec_string (unat off) @ ''u'') regs @
     [''#define XL_STATE_SIZE '' @ dec_string (unat (AlignUp (state_size regs) 16)) @ ''u''] @
     concat (map (\<lambda>img. map (\<lambda>(name, vmaddr). ''#define XL_GUEST_'' @ macro_name name @ '' 0x'' @ Hex8 (host img vmaddr) @ ''u'')
                          (im_exports img)) (tl (images program))) @
     [''struct xl_guest_image { const void *header; long slide; };'',
      ''static const struct xl_guest_image xl_guest_images[] = {''] @
     map (\<lambda>img. ''  { (const void *)0x'' @ Hex8 (host img (preferred_base img)) @ ''u, '' @
                int_string (sint (im_slide img)) @ ''L },'') (images program) @
     [''};'', ''static const unsigned xl_guest_image_count = '' @ dec_string (length (images program)) @ ''u;'']"

end
