(* ===== verification/GuestData_Facts.thy ===== *)
theory GuestData_Facts
  imports GuestData
begin

text \<open>
  What emission guarantees: the globals a segment is cut into hold, laid out one after the other without
  padding, the bytes of the segment with each piece at its own address.
\<close>

section \<open>Contents\<close>

text \<open>What a byte of the output is: a byte of the guest, or a part of a constant the linker fills.\<close>

datatype cell = Byte u8 | Part field nat

fun cells :: "field \<Rightarrow> cell list" where
  "cells (Bytes bs) = map Byte bs"
| "cells f = map (Part f) [0..<field_size f]"

definition fields_cells :: "field list \<Rightarrow> cell list" where
  "fields_cells fs = concat (map cells fs)"

definition contents :: "(string \<times> field list) list \<Rightarrow> cell list" where
  "contents gs = concat (map (\<lambda>(name, fs). fields_cells fs) gs)"

lemma length_cells [simp]: "length (cells f) = field_size f"
  by (cases f) simp_all

lemma fields_cells_simps [simp]: "fields_cells [] = []" "fields_cells (f # fs) = cells f @ fields_cells fs"
  "fields_cells (fs @ gs) = fields_cells fs @ fields_cells gs"
  by (simp_all add: fields_cells_def)

lemma length_fields_cells: "length (fields_cells fs) = sum_list (map field_size fs)"
  by (induction fs) simp_all

lemma contents_simps [simp]: "contents [] = []" "contents ((name, fs) # gs) = fields_cells fs @ contents gs"
  "contents (gs @ hs) = contents gs @ contents hs"
  by (simp_all add: contents_def)

text \<open>Writing a stretch of cells over a memory, and all the pieces of a segment over its bytes.\<close>

definition overwrite :: "nat \<Rightarrow> cell list \<Rightarrow> cell list \<Rightarrow> cell list" where
  "overwrite off cs mem = take off mem @ cs @ drop (off + length cs) mem"

definition expected :: "u64 \<Rightarrow> u8 list \<Rightarrow> Overrides \<Rightarrow> cell list" where
  "expected base bytes pieces =
     fold (\<lambda>(v, piece). overwrite (unat v - unat base) (fields_cells (ov_fields piece))) pieces (map Byte bytes)"

text \<open>The pieces lie one after the other inside the segment and are as wide as they say.\<close>

definition piece_fits :: "u64 \<Rightarrow> u64 \<Rightarrow> u64 \<times> Override \<Rightarrow> bool" where
  "piece_fits base fin = (\<lambda>(v, piece). unat base \<le> unat v \<and> unat v + unat (ov_size piece) \<le> unat fin \<and>
     sum_list (map field_size (ov_fields piece)) = unat (ov_size piece))"

definition piece_before :: "u64 \<times> Override \<Rightarrow> u64 \<times> Override \<Rightarrow> bool" where
  "piece_before = (\<lambda>(v, piece) (w, other). unat v + unat (ov_size piece) \<le> unat w)"

definition pieces_tile :: "u64 \<Rightarrow> u64 \<Rightarrow> Overrides \<Rightarrow> bool" where
  "pieces_tile base fin pieces \<longleftrightarrow> list_all (piece_fits base fin) pieces \<and> sorted_wrt piece_before pieces"

section \<open>The cutting keeps the contents\<close>

definition cut_cells :: "Cut \<Rightarrow> cell list" where
  "cut_cells c = contents (cut_out c) @ fields_cells (cut_fields c)"

text \<open>Up to the cursor everything is written; from there on the memory is still the segment's bytes.\<close>

definition cut_inv :: "u64 \<Rightarrow> u8 list \<Rightarrow> cell list \<Rightarrow> Cut \<Rightarrow> bool" where
  "cut_inv base bytes mem c \<longleftrightarrow> unat base \<le> unat (cut_cursor c) \<and> length mem = length bytes \<and>
     unat (cut_cursor c) - unat base \<le> length bytes \<and>
     cut_cells c = take (unat (cut_cursor c) - unat base) mem \<and>
     drop (unat (cut_cursor c) - unat base) mem = map Byte (drop (unat (cut_cursor c) - unat base) bytes)"

lemma close_chunk_cells [simp]: "cut_cells (close_chunk index c) = cut_cells c" "cut_cursor (close_chunk index c) = cut_cursor c"
  "cut_fields (close_chunk index c) = []"
  by (auto simp: close_chunk_def cut_cells_def)

lemma close_chunk_inv [simp]: "cut_inv base bytes mem (close_chunk index c) \<longleftrightarrow> cut_inv base bytes mem c"
  by (simp add: cut_inv_def)

lemma take_more: "m \<le> n \<Longrightarrow> take n xs = take m xs @ take (n - m) (drop m xs)"
  by (metis le_add_diff_inverse take_add)

lemma flush_inv:
  assumes inv: "cut_inv base bytes mem c" and "unat (cut_cursor c) \<le> unat until" and "unat until - unat base \<le> length bytes"
  shows "cut_inv base bytes mem (flush base bytes until c) \<and> cut_cursor (flush base bytes until c) = until \<and>
    cut_out (flush base bytes until c) = cut_out c"
proof (cases "cut_cursor c < until")
  case False
  then have "cut_cursor c = until" using assms(2) by (simp add: word_less_nat_alt word_unat_eq_iff)
  with False inv show ?thesis by (simp add: flush_def)
next
  case True
  let ?m = "unat (cut_cursor c) - unat base" and ?n = "unat until - unat base"
  have b: "unat base \<le> unat (cut_cursor c)" using inv by (simp add: cut_inv_def)
  have u: "unat (until - cut_cursor c) = ?n - ?m" "unat (cut_cursor c - base) = ?m"
    using assms(2) b by (simp_all add: unat_sub word_le_nat_alt)
  have d: "drop ?m mem = map Byte (drop ?m bytes)" and t: "cut_cells c = take ?m mem" and l: "length mem = length bytes"
    using inv by (simp_all add: cut_inv_def)
  have "take ?n mem = take ?m mem @ take (?n - ?m) (drop ?m mem)"
    by (rule take_more) (use assms(2) in simp)
  then have "cut_cells c @ map Byte (take (?n - ?m) (drop ?m bytes)) = take ?n mem"
    using t d by (simp add: take_map)
  moreover have "drop ?n mem = map Byte (drop ?n bytes)"
  proof -
    have mn: "?m \<le> ?n" using assms(2) by simp
    have "drop ?n mem = drop (?n - ?m) (drop ?m mem)"
      unfolding drop_drop le_add_diff_inverse2 [OF mn] ..
    also have "\<dots> = map Byte (drop (?n - ?m) (drop ?m bytes))" unfolding d drop_map ..
    also have "\<dots> = map Byte (drop ?n bytes)" unfolding drop_drop le_add_diff_inverse2 [OF mn] ..
    finally show ?thesis .
  qed
  ultimately show ?thesis
    using True assms(2,3) b l u by (simp add: flush_def cut_inv_def cut_cells_def)
qed

lemma overwrite_inv:
  assumes "cut_inv base bytes mem c" and "cut_cursor c = v" and "unat v + length cs \<le> unat base + length bytes"
    and "unat w = unat v + length cs" and "cut_cursor c' = w" and "cut_cells c' = cut_cells c @ cs"
  shows "cut_inv base bytes (overwrite (unat v - unat base) cs mem) c'"
proof -
  let ?m = "unat v - unat base"
  have i: "unat base \<le> unat v" "length mem = length bytes" "cut_cells c = take ?m mem" "drop ?m mem = map Byte (drop ?m bytes)"
    using assms(1,2) by (simp_all add: cut_inv_def)
  have m: "?m + length cs \<le> length mem" "unat w - unat base = ?m + length cs" using i(1,2) assms(3,4) by simp_all
  have "drop (?m + length cs) mem = map Byte (drop (?m + length cs) bytes)"
    using arg_cong [OF i(4), of "drop (length cs)"] by (simp add: drop_map add.commute)
  then show ?thesis
    using m i assms(4-6) by (simp add: cut_inv_def overwrite_def)
qed

lemma cut_piece_inv:
  assumes inv: "cut_inv base bytes mem c" and v: "unat (cut_cursor c) \<le> unat v"
    and fits: "piece_fits base fin (v, piece)" and len: "length bytes = unat fin - unat base"
  shows "cut_inv base bytes (overwrite (unat v - unat base) (fields_cells (ov_fields piece)) mem) (cut_piece index base bytes (v, piece) c)
    \<and> unat (cut_cursor (cut_piece index base bytes (v, piece) c)) = unat v + unat (ov_size piece)"
proof -
  let ?cs = "fields_cells (ov_fields piece)"
  have f: "unat base \<le> unat v" "unat v + unat (ov_size piece) \<le> unat fin" "length ?cs = unat (ov_size piece)"
    using fits by (simp_all add: piece_fits_def length_fields_cells)
  have "unat fin < 2 ^ 64" using unsigned_less [of fin, where 'a = nat] by simp
  then have w: "unat (v + ov_size piece) = unat v + length ?cs" using f by (simp add: unat_add_no_wrap)
  let ?c = "flush base bytes v c"
  have fl: "cut_inv base bytes mem ?c" "cut_cursor ?c = v"
    using flush_inv [OF inv v] f len by simp_all
  have fit: "unat v + length ?cs \<le> unat base + length bytes" using f len by simp
  have "cut_cursor (cut_piece index base bytes (v, piece) c) = v + ov_size piece \<and>
      cut_cells (cut_piece index base bytes (v, piece) c) = cut_cells ?c @ ?cs"
    using close_chunk_cells(1) [of index ?c]
    by (auto simp: cut_piece_def Let_def cut_cells_def split: option.split)
  with overwrite_inv [OF fl fit w] w f(3) show ?thesis by simp
qed

lemma cut_pieces_inv:
  "cut_inv base bytes mem c \<Longrightarrow> list_all (piece_fits base fin) pieces \<Longrightarrow> sorted_wrt piece_before pieces \<Longrightarrow>
   length bytes = unat fin - unat base \<Longrightarrow> (\<forall>(v, piece) \<in> set pieces. unat (cut_cursor c) \<le> unat v) \<Longrightarrow>
   unat (cut_cursor c) \<le> unat fin \<Longrightarrow>
   cut_inv base bytes (fold (\<lambda>(v, piece). overwrite (unat v - unat base) (fields_cells (ov_fields piece))) pieces mem)
     (fold (cut_piece index base bytes) pieces c) \<and>
   unat (cut_cursor (fold (cut_piece index base bytes) pieces c)) \<le> unat fin"
proof (induction pieces arbitrary: mem c)
  case Nil
  then show ?case by simp
next
  case (Cons e pieces)
  obtain v piece where e: "e = (v, piece)" by (cases e)
  have fits: "piece_fits base fin (v, piece)" using Cons.prems(2) e by simp
  note step = cut_piece_inv [OF Cons.prems(1) _ fits Cons.prems(4), of index]
  have s: "cut_inv base bytes (overwrite (unat v - unat base) (fields_cells (ov_fields piece)) mem) (cut_piece index base bytes (v, piece) c)"
    "unat (cut_cursor (cut_piece index base bytes (v, piece) c)) = unat v + unat (ov_size piece)"
    using step Cons.prems(5) e by auto
  have after: "\<forall>(w, other) \<in> set pieces. unat (cut_cursor (cut_piece index base bytes (v, piece) c)) \<le> unat w"
    using Cons.prems(3) unfolding s(2) e by (auto simp: piece_before_def)
  have "unat v + unat (ov_size piece) \<le> unat fin" using fits by (simp add: piece_fits_def)
  with Cons.IH [OF s(1) _ _ Cons.prems(4) after] Cons.prems(2,3) s(2) show ?case unfolding e by simp
qed

section \<open>Properties\<close>

text \<open>
  C23: Every address of a segment is preserved. The globals a segment is cut into, laid out in order without padding,
  hold at each offset the guest's byte, or the part of the constant that a slot, a class object, a protocol or a string
  puts there, when the pieces lie one after the other inside the segment and are as wide as they say.
\<close>

theorem cut_segment_contents:
  assumes "pieces_tile base fin pieces" and "unat base \<le> unat fin" and "length bytes = unat fin - unat base"
  shows "contents (cut_segment index base fin bytes pieces) = expected base bytes pieces"
proof -
  let ?c = "fold (cut_piece index base bytes) pieces \<lparr>cut_fields = [], cut_cursor = base, cut_start = base, cut_out = []\<rparr>"
  have init: "cut_inv base bytes (map Byte bytes) \<lparr>cut_fields = [], cut_cursor = base, cut_start = base, cut_out = []\<rparr>"
    by (simp add: cut_inv_def cut_cells_def)
  have c: "cut_inv base bytes (expected base bytes pieces) ?c" "unat (cut_cursor ?c) \<le> unat fin"
    using cut_pieces_inv [OF init, of fin pieces index] assms
    by (auto simp: pieces_tile_def expected_def list_all_iff piece_fits_def split: prod.splits)
  have f: "cut_inv base bytes (expected base bytes pieces) (flush base bytes fin ?c)" "cut_cursor (flush base bytes fin ?c) = fin"
    using flush_inv [OF c] assms(3) by simp_all
  have "cut_cells (close_chunk index (flush base bytes fin ?c)) = take (unat fin - unat base) (expected base bytes pieces)"
    using f by (simp add: cut_inv_def)
  moreover have "length (expected base bytes pieces) = unat fin - unat base" using f(1) assms(3) by (simp add: cut_inv_def)
  ultimately have "cut_cells (close_chunk index (flush base bytes fin ?c)) = expected base bytes pieces" by simp
  then show ?thesis by (simp add: cut_segment_def cut_cells_def)
qed

definition sample_pieces :: Overrides where
  "sample_pieces = [(0x1004, slot_piece (Int64 0x500)),
     (0x1010, \<lparr>ov_fields = [Address ''a'' 0, Int32 7], ov_size = 8, ov_global = Some ''g''\<rparr>)]"

text \<open>A slot and a global of its own in a segment of 28 bytes: three globals, and the fields where the pieces are.\<close>

theorem cut_segment_contents_witness:
  "contents (cut_segment 0 0x1000 0x101C (replicate 28 1) sample_pieces) =
     replicate 4 (Byte 1) @ map (Part (Int64 0x500)) [0..<8] @ replicate 4 (Byte 1) @
     map (Part (Address ''a'' 0)) [0..<4] @ map (Part (Int32 7)) [0..<4] @ replicate 4 (Byte 1)"
proof -
  have "contents (cut_segment 0 0x1000 0x101C (replicate 28 1) sample_pieces) = expected 0x1000 (replicate 28 1) sample_pieces"
    by (rule cut_segment_contents) (simp_all add: sample_pieces_def slot_piece_def pieces_tile_def piece_fits_def piece_before_def)
  also have "\<dots> = replicate 4 (Byte 1) @ map (Part (Int64 0x500)) [0..<8] @ replicate 4 (Byte 1) @
     map (Part (Address ''a'' 0)) [0..<4] @ map (Part (Int32 7)) [0..<4] @ replicate 4 (Byte 1)"
    by code_simp
  finally show ?thesis .
qed

section \<open>The linker layout\<close>

definition segment_address :: "GuestSegment \<Rightarrow> u64" where
  "segment_address entry = host (gs_image entry) (seg_vmaddr (gs_segment entry))"

definition segment_writable :: "GuestSegment \<Rightarrow> bool" where
  "segment_writable entry \<longleftrightarrow> seg_initprot (gs_segment entry) AND 2 \<noteq> 0"

text \<open>The addresses of the guest segments of a host segment.\<close>

definition named_addresses :: "GuestSegment list \<Rightarrow> string \<Rightarrow> u64 set" where
  "named_addresses segments name = segment_address ` {e \<in> set segments. gs_host_name e = name}"

lemma named_addresses_snoc:
  "named_addresses (segments @ [e]) name =
     (if name = gs_host_name e then insert (segment_address e) (named_addresses segments name) else named_addresses segments name)"
  by (auto simp: named_addresses_def)

lemma named_addresses_finite [simp]: "finite (named_addresses segments name)"
  by (simp add: named_addresses_def)

lemma named_addresses_empty: "named_addresses segments name = {} \<longleftrightarrow> name \<notin> gs_host_name ` set segments"
  by (auto simp: named_addresses_def)

definition layout_ok :: "GuestSegment list \<Rightarrow> Layout \<Rightarrow> bool" where
  "layout_ok segments lay \<longleftrightarrow> lay_order lay = rev (remdups (rev (map gs_host_name segments))) \<and>
     map_of (lay_lowest lay) = (\<lambda>name. if named_addresses segments name = {} then None else Some (Min (named_addresses segments name))) \<and>
     map_of (lay_writable lay) = (\<lambda>name. if list_ex (\<lambda>e. gs_host_name e = name) segments
        then Some (list_ex (\<lambda>e. gs_host_name e = name \<and> segment_writable e) segments) else None)"

lemma lay_segment_ok:
  assumes "layout_ok segments lay"
  shows "layout_ok (segments @ [e]) (lay_segment e lay)"
proof -
  have o: "lay_order lay = rev (remdups (rev (map gs_host_name segments)))"
    and l: "\<And>name. map_of (lay_lowest lay) name =
       (if named_addresses segments name = {} then None else Some (Min (named_addresses segments name)))"
    and w: "\<And>name. map_of (lay_writable lay) name = (if list_ex (\<lambda>e. gs_host_name e = name) segments
        then Some (list_ex (\<lambda>e. gs_host_name e = name \<and> segment_writable e) segments) else None)"
    using assms by (simp_all add: layout_ok_def)
  have new: "map_of (lay_lowest lay) (gs_host_name e) = None \<longleftrightarrow> gs_host_name e \<notin> gs_host_name ` set segments"
    unfolding l named_addresses_empty by simp
  have lo: "map_of (lay_lowest (lay_segment e lay)) = (\<lambda>name. if named_addresses (segments @ [e]) name = {} then None
       else Some (Min (named_addresses (segments @ [e]) name)))"
    by (rule ext) (simp add: lay_segment_def Let_def l segment_address_def [symmetric] min.commute named_addresses_snoc)
  have "lay_order (lay_segment e lay) = rev (remdups (rev (map gs_host_name (segments @ [e]))))"
    using o new by (simp add: lay_segment_def Let_def)
  moreover have "map_of (lay_writable (lay_segment e lay)) = (\<lambda>name. if list_ex (\<lambda>x. gs_host_name x = name) (segments @ [e])
        then Some (list_ex (\<lambda>x. gs_host_name x = name \<and> segment_writable x) (segments @ [e])) else None)"
    by (rule ext) (auto simp: lay_segment_def Let_def w segment_writable_def [symmetric] list_ex_iff)
  ultimately show ?thesis using lo by (simp add: layout_ok_def)
qed

lemma lay_out_ok: "layout_ok segments (lay_out segments)"
  unfolding lay_out_def
proof (induction segments rule: rev_induct)
  case Nil
  then show ?case by (simp add: layout_ok_def named_addresses_def fun_eq_iff)
next
  case (snoc e segments)
  from lay_segment_ok [OF snoc, of e] show ?case by simp
qed

text \<open>
  The linker arguments have one entry for each host segment name, in the order the segments first appear: the name at
  the lowest address of the guest segments that share it, readable and writable exactly when one of them is writable,
  else readable.
\<close>

theorem WriteLayout_lines:
  "WriteLayout segments = concat (map (\<lambda>name.
     [''-Wl,-segaddr,'' @ name @ '',0x'' @ Hex8 (Min (named_addresses segments name)),
      ''-Wl,-segprot,'' @ name @
        (if list_ex (\<lambda>e. gs_host_name e = name \<and> segment_writable e) segments then '',rw,rw'' else '',r,r'')])
     (rev (remdups (rev (map gs_host_name segments)))))"
proof -
  note ok = lay_out_ok [of segments, unfolded layout_ok_def]
  have "layout_lines (lay_out segments) name =
     [''-Wl,-segaddr,'' @ name @ '',0x'' @ Hex8 (Min (named_addresses segments name)),
      ''-Wl,-segprot,'' @ name @
        (if list_ex (\<lambda>e. gs_host_name e = name \<and> segment_writable e) segments then '',rw,rw'' else '',r,r'')]"
    if "name \<in> set (lay_order (lay_out segments))" for name
  proof -
    have n: "name \<in> gs_host_name ` set segments" using that ok by simp
    then have "named_addresses segments name \<noteq> {}" "list_ex (\<lambda>e. gs_host_name e = name) segments"
      by (auto simp: named_addresses_empty list_ex_iff)
    then show ?thesis unfolding layout_lines_def Let_def using ok by simp
  qed
  then have "map (layout_lines (lay_out segments)) (lay_order (lay_out segments)) = map (\<lambda>name.
     [''-Wl,-segaddr,'' @ name @ '',0x'' @ Hex8 (Min (named_addresses segments name)),
      ''-Wl,-segprot,'' @ name @
        (if list_ex (\<lambda>e. gs_host_name e = name \<and> segment_writable e) segments then '',rw,rw'' else '',r,r'')])
      (lay_order (lay_out segments))" by (intro map_cong) simp_all
  then show ?thesis
    unfolding WriteLayout_def Let_def conjunct1 [OF ok, symmetric] by (rule arg_cong)
qed

section \<open>The function table\<close>

lemma fold_store_ok: "omap_ok m \<Longrightarrow> omap_ok (fold (\<lambda>(k, v). omap_set k v) kvs m)"
  by (induction kvs arbitrary: m) auto

lemma fold_store_lookup:
  "distinct (map fst kvs) \<Longrightarrow> map_of (fold (\<lambda>(k, v). omap_set k v) kvs m) a =
     (case map_of kvs a of Some v \<Rightarrow> Some v | None \<Rightarrow> map_of m a)"
proof (induction kvs arbitrary: m)
  case Nil
  then show ?case by simp
next
  case (Cons e kvs)
  obtain k v where e: "e = (k, v)" by (cases e)
  have "map_of kvs k = None" using Cons.prems by (simp add: e map_of_eq_None_iff)
  then show ?case using Cons by (auto simp: e split: option.split)
qed

definition store_target :: "(u64 \<Rightarrow> string option) \<Rightarrow> u64 \<times> u64 \<Rightarrow> (u64, string) omap \<Rightarrow> (u64, string) omap" where
  "store_target lookup = (\<lambda>(stub, target) table. case lookup stub of
     Some function \<Rightarrow> omap_set stub function table | None \<Rightarrow> table)"

lemma store_target_ok: "omap_ok m \<Longrightarrow> omap_ok (fold (store_target lookup) kvs m)"
  by (induction kvs arbitrary: m) (auto simp: store_target_def split: option.split)

lemma store_target_lookup:
  "map_of (fold (store_target lookup) kvs m) a =
     (case if a \<in> fst ` set kvs then lookup a else None of Some v \<Rightarrow> Some v | None \<Rightarrow> map_of m a)"
  by (induction kvs arbitrary: m) (auto simp: store_target_def split: option.splits)

lemma function_table_ok: "omap_ok lifted \<Longrightarrow> omap_ok (function_table program lifted)"
  using fold_store_ok [OF store_target_ok, of lifted] by (simp add: function_table_def store_target_def)

lemma function_table_map_of:
  assumes "omap_ok lifted" and "omap_ok (stub_to_host program)"
  shows "omap_ok (function_table program lifted) \<and>
    map_of (function_table program lifted) a =
      (case map_of (stub_to_host program) a of
         Some name \<Rightarrow> Some name
       | None \<Rightarrow>
           (case if map_of (stub_to_guest program) a = None then None else Target program lifted a of
              Some function \<Rightarrow> Some function
            | None \<Rightarrow> map_of lifted a))"
proof -
  let ?t = "fold (store_target (Target program lifted)) (stub_to_guest program) lifted"
  have f: "function_table program lifted = fold (\<lambda>(k, v). omap_set k v) (stub_to_host program) ?t"
    by (simp add: function_table_def store_target_def)
  have m: "map_of (stub_to_guest program) a = None \<longleftrightarrow> a \<notin> fst ` set (stub_to_guest program)"
    by (rule map_of_eq_None_iff)
  show ?thesis
    unfolding f fold_store_lookup [OF omap_ok_distinct [OF assms(2)]] store_target_lookup m
    using function_table_ok [OF assms(1), of program] f by simp
qed

text \<open>
  C37: The function table the runtime searches is sorted by address without a repeat, and has at each address what a call
  of it must run: a host stub its host function, a guest stub whose target was lifted (or is itself a host stub) that
  function, and any other address the function lifted there.
\<close>

theorem function_table_lookup:
  assumes "omap_ok lifted" and "omap_ok (stub_to_host program)"
  shows "omap_ok (function_table program lifted) \<and>
    map_of (function_table program lifted) a =
      (case map_of (stub_to_host program) a of
         Some name \<Rightarrow> Some name
       | None \<Rightarrow>
           (case if map_of (stub_to_guest program) a = None then None else Target program lifted a of
              Some function \<Rightarrow> Some function
            | None \<Rightarrow> map_of lifted a))"
  using assms by (rule function_table_map_of)

definition sample_table_program :: Program where
  "sample_table_program = (new_program [])\<lparr>stub_to_guest := [(0x30, 0x10), (0x40, 0x99)], stub_to_host := [(0x20, ''_puts'')]\<rparr>"

theorem function_table_lookup_witness:
  "map_of (function_table sample_table_program [(0x10, ''f'')]) 0x30 = Some ''f'' \<and>
   map_of (function_table sample_table_program [(0x10, ''f'')]) 0x20 = Some ''_puts'' \<and>
   map_of (function_table sample_table_program [(0x10, ''f'')]) 0x40 = None"
proof -
  have ok: "omap_ok [(0x10 :: u64, ''f'')]" "omap_ok (stub_to_host sample_table_program)"
    by (simp_all add: sample_table_program_def omap_ok_def)
  show ?thesis
    unfolding function_table_lookup [OF ok, THEN conjunct2] by (simp add: sample_table_program_def Target_def)
qed

section \<open>Placing the overrides\<close>

text \<open>The overrides of a segment, at the addresses of the image.\<close>

definition placed :: "Image \<Rightarrow> Segment \<Rightarrow> Overrides \<Rightarrow> Overrides" where
  "placed img segment overrides =
     filter (\<lambda>(v, piece). in_segment segment v) (map (\<lambda>(host_addr, piece). (host_addr - im_slide img, piece)) overrides)"

lemma segment_pieces_placed:
  "segment_pieces img segment slots overrides =
     fold (\<lambda>(v, piece). place_override v piece) (placed img segment overrides) (map (\<lambda>(v, f). (v, slot_piece f)) slots)"
proof -
  have "fold (\<lambda>(host_addr, piece) pieces. (let vmaddr = host_addr - im_slide img
          in if in_segment segment vmaddr then place_override vmaddr piece pieces else pieces)) overrides pieces =
      fold (\<lambda>(v, piece). place_override v piece) (placed img segment overrides) pieces" for pieces
    by (induction overrides arbitrary: pieces) (auto simp: placed_def)
  then show ?thesis by (simp add: segment_pieces_def)
qed

text \<open>A piece does not reach into a later one from below: it ends before it or starts inside it or after it.\<close>

definition no_reach :: "u64 \<times> Override \<Rightarrow> u64 \<times> Override \<Rightarrow> bool" where
  "no_reach p q \<longleftrightarrow> piece_before p q \<or> fst q \<le> fst p"

lemma omap_set_members: "set (omap_set k v m) \<subseteq> insert (k, v) (set m)"
  by (induction m) auto

lemma omap_set_tile:
  assumes "sorted_wrt piece_before m"
    and "list_all (\<lambda>p. piece_before p (v, piece) \<and> fst p < v \<or> piece_before (v, piece) p \<and> v < fst p) m"
  shows "sorted_wrt piece_before (omap_set v piece m)"
  using assms
proof (induction m)
  case Nil
  then show ?case by simp
next
  case (Cons e m)
  have later: "fst e \<le> fst p" if "p \<in> set m" for p
  proof -
    have "piece_before e p" using Cons.prems(1) that by simp
    then show ?thesis by (cases e; cases p) (simp add: piece_before_def word_le_nat_alt)
  qed
  show ?case
  proof (cases "fst e < v")
    case True
    then have "piece_before e (v, piece)" using Cons.prems(2) by auto
    with Cons omap_set_members [of v piece m] True show ?thesis by auto
  next
    case False
    then have "piece_before (v, piece) p" if "p \<in> set (e # m)" for p
      using Cons.prems(2) that later [of p] by (auto simp: list_all_iff)
    moreover have "v < fst e" using Cons.prems(2) False by auto
    ultimately show ?thesis using Cons.prems(1) False by auto
  qed
qed

lemma place_override_tile:
  assumes tile: "pieces_tile base fin pieces" and fits: "piece_fits base fin (v, piece)" and pos: "0 < ov_size piece"
    and reach: "list_all (\<lambda>p. no_reach p (v, piece)) pieces"
  shows "pieces_tile base fin (place_override v piece pieces)"
proof -
  let ?f = "filter (\<lambda>(a, p). \<not> (v \<le> a \<and> a < v + ov_size piece)) pieces"
  have n: "unat v + unat (ov_size piece) \<le> unat fin" using fits by (simp add: piece_fits_def)
  also have "\<dots> < 2 ^ 64" using unsigned_less [of fin, where 'a = nat] by simp
  finally have e: "unat (v + ov_size piece) = unat v + unat (ov_size piece)" by (rule unat_add_no_wrap)
  have p: "0 < unat (ov_size piece)" using pos by (simp add: word_less_nat_alt)
  have apart: "list_all (\<lambda>q. piece_before q (v, piece) \<and> fst q < v \<or> piece_before (v, piece) q \<and> v < fst q) ?f"
    unfolding list_all_iff
  proof
    fix q
    assume q: "q \<in> set ?f"
    then have "no_reach q (v, piece)" using reach by (auto simp: list_all_iff)
    with q e p show "piece_before q (v, piece) \<and> fst q < v \<or> piece_before (v, piece) q \<and> v < fst q"
      by (auto simp: no_reach_def piece_before_def word_le_nat_alt word_less_nat_alt not_le not_less)
  qed
  have "sorted_wrt piece_before ?f" using tile by (simp add: pieces_tile_def sorted_wrt_filter)
  then have "sorted_wrt piece_before (omap_set v piece ?f)" using apart by (rule omap_set_tile)
  moreover have "list_all (piece_fits base fin) (omap_set v piece ?f)"
    using tile fits omap_set_members [of v piece ?f] by (auto simp: pieces_tile_def list_all_iff)
  ultimately show ?thesis by (simp add: pieces_tile_def place_override_def)
qed

lemma place_overrides_tile:
  "pieces_tile base fin pieces \<Longrightarrow> pieces_tile base fin ps \<Longrightarrow> list_all (\<lambda>p. 0 < ov_size (snd p)) ps \<Longrightarrow>
   list_all (\<lambda>q. list_all (\<lambda>p. no_reach p q) pieces) ps \<Longrightarrow>
   pieces_tile base fin (fold (\<lambda>(v, piece). place_override v piece) ps pieces)"
proof (induction ps arbitrary: pieces)
  case Nil
  then show ?case by simp
next
  case (Cons e ps)
  obtain v piece where e: "e = (v, piece)" by (cases e)
  have tile: "pieces_tile base fin (place_override v piece pieces)"
    using Cons.prems e by (intro place_override_tile) (auto simp: pieces_tile_def)
  have "set (place_override v piece pieces) \<subseteq> insert e (set pieces)"
    unfolding place_override_def e using omap_set_members [of v piece] by fastforce
  moreover have "piece_before e q" if "q \<in> set ps" for q using Cons.prems(2) that by (simp add: pieces_tile_def)
  ultimately have "list_all (\<lambda>q. list_all (\<lambda>p. no_reach p q) (place_override v piece pieces)) ps"
    using Cons.prems(4) unfolding list_all_iff no_reach_def by fastforce
  with Cons.IH [OF tile] Cons.prems(2,3) show ?case by (simp add: e pieces_tile_def)
qed

text \<open>
  Replacing the slots of a segment by Objective-C structures leaves pieces that do not overlap. When the slots are
  8 bytes apart inside the segment, the structures lie apart inside it, and no slot reaches into a structure
  from below, the pieces are in order, each ends before the next begins, and each is as wide as its fields.
\<close>

theorem segment_pieces_tile:
  assumes "pieces_tile base fin (map (\<lambda>(v, f). (v, slot_piece f)) slots)"
    and "pieces_tile base fin (placed img segment overrides)"
    and "list_all (\<lambda>p. 0 < ov_size (snd p)) (placed img segment overrides)"
    and "list_all (\<lambda>q. list_all (\<lambda>(v, f). no_reach (v, slot_piece f) q) slots) (placed img segment overrides)"
  shows "pieces_tile base fin (segment_pieces img segment slots overrides)"
  unfolding segment_pieces_placed
  using assms by (intro place_overrides_tile) (auto simp: list_all_iff)

definition sample_data_segment :: Segment where
  "sample_data_segment = \<lparr>seg_name = ''__DATA'', seg_vmaddr = 0x1000, seg_vmsize = 0x40, seg_fileoff = 0, seg_filesize = 0, seg_initprot = 3\<rparr>"

definition sample_overrides :: Overrides where
  "sample_overrides = [(0x1008, \<lparr>ov_fields = [Address ''isa'' 0, Int32 7, Padding 24], ov_size = 32, ov_global = None\<rparr>)]"

definition sample_slots :: "(u64, field) omap" where
  "sample_slots = [(0x1000, Int64 1), (0x1010, Int64 2), (0x1030, Int64 3)]"

text \<open>The slot inside the constant string goes, the two around it stay.\<close>

theorem segment_pieces_tile_witness:
  "pieces_tile 0x1000 0x1040 (segment_pieces (new_image ''a'' abi_object) sample_data_segment sample_slots sample_overrides) \<and>
   map fst (segment_pieces (new_image ''a'' abi_object) sample_data_segment sample_slots sample_overrides) = [0x1000, 0x1008, 0x1030]"
proof
  have p: "placed (new_image ''a'' abi_object) sample_data_segment sample_overrides = sample_overrides"
    by (simp add: placed_def sample_overrides_def sample_data_segment_def in_segment_def new_image_def)
  show "pieces_tile 0x1000 0x1040 (segment_pieces (new_image ''a'' abi_object) sample_data_segment sample_slots sample_overrides)"
    by (rule segment_pieces_tile [where img = "new_image ''a'' abi_object"], unfold p)
      (simp_all add: sample_slots_def sample_overrides_def slot_piece_def pieces_tile_def piece_fits_def piece_before_def no_reach_def)
  show "map fst (segment_pieces (new_image ''a'' abi_object) sample_data_segment sample_slots sample_overrides) = [0x1000, 0x1008, 0x1030]"
    unfolding segment_pieces_placed p by (simp add: sample_slots_def sample_overrides_def slot_piece_def place_override_def)
qed

end
