(* ===== verification/JumpTables.thy ===== *)
theory JumpTables
  imports Program
begin

text \<open>
  The recovery of jump tables, \<open>class JumpTables\<close> in \<open>xlate/src/xlate.cpp\<close>, and the loop of \<open>main\<close> that lifts
  what it finds. An LLVM value is a tree of the nodes the code tells apart: each instruction carries a
  number, so that equality of trees is the identity of values. What LLVM's passes answer (the ranges of
  the lazy value analysis, the predecessors and branches of the blocks, the layout of the types) is data.
\<close>

section \<open>Values\<close>

datatype BinOp = Add | Sub | Mul | Shl | LShr | AShr | And | Or | Xor | OtherBin
datatype Predicate = ICMP_EQ | ICMP_NE | ICMP_UGT | ICMP_UGE | ICMP_ULT | ICMP_ULE | ICMP_SGT | ICMP_SGE | ICMP_SLT | ICMP_SLE | OtherPred
datatype CastOp = ZExt | SExt | Trunc | IntToPtr | PtrToInt | OtherCast

text \<open>One index of a \<open>getelementptr\<close>: the offsets of a structure's fields, or the size of an element.\<close>

datatype Stride = Fields "u64 list" | Element u64

text \<open>
  \<open>ConstantInt\<close> has its width and its zero-extended value, \<open>Load\<close> its pointer and its width, \<open>Binary\<close> and \<open>ICmp\<close>
  the width of their operands, \<open>Cast\<close> the two widths, \<open>GEP\<close> the width of each index; \<open>ConstIntToPtr\<close> is the
  constant expression; \<open>Instruction\<close> any other instruction, \<open>Argument\<close> a parameter, \<open>Opaque\<close> any other constant.
\<close>

datatype Value =
    ConstantInt nat u64
  | ConstIntToPtr Value
  | Load nat Value nat
  | Binary nat BinOp nat Value Value
  | Cast nat CastOp nat nat Value
  | GEP nat bool Value "(Value \<times> nat \<times> Stride) list"
  | ICmp nat Predicate nat Value Value
  | Select nat Value Value Value
  | Instruction nat
  | Argument nat
  | Opaque nat

fun is_const :: "Value \<Rightarrow> bool" where
  "is_const (ConstantInt b c) = True"
| "is_const _ = False"

fun is_binary :: "Value \<Rightarrow> bool" where
  "is_binary (Binary i oper b x y) = True"
| "is_binary _ = False"

fun is_cast :: "Value \<Rightarrow> bool" where
  "is_cast (Cast i c from_bits to_bits x) = True"
| "is_cast _ = False"

text \<open>A \<open>GEP\<close> is an instruction or a constant expression.\<close>

fun is_instruction :: "Value \<Rightarrow> bool" where
  "is_instruction (Load i p b) = True"
| "is_instruction (Binary i oper b x y) = True"
| "is_instruction (Cast i c from_bits to_bits x) = True"
| "is_instruction (GEP i inst p ixs) = inst"
| "is_instruction (ICmp i q b x y) = True"
| "is_instruction (Select i c x y) = True"
| "is_instruction (Instruction i) = True"
| "is_instruction _ = False"

fun is_argument :: "Value \<Rightarrow> bool" where
  "is_argument (Argument i) = True"
| "is_argument _ = False"

section \<open>Looking through a program counter\<close>

fun Strip :: "Value \<Rightarrow> Value" where
  "Strip (ConstIntToPtr v) = v"
| "Strip (Cast i c from_bits to_bits v) = (if c = IntToPtr \<or> c = PtrToInt then v else Cast i c from_bits to_bits v)"
| "Strip v = v"

definition is_width_cast :: "CastOp \<Rightarrow> bool" where
  "is_width_cast c \<longleftrightarrow> c = ZExt \<or> c = SExt \<or> c = Trunc"

text \<open>The loop strips one pointer cast, then goes on while an integer cast is in front.\<close>

function StripCasts :: "Value \<Rightarrow> Value" where
  "StripCasts v =
     (case Strip v of
        Cast i c from_bits to_bits x \<Rightarrow> if is_width_cast c then StripCasts x else Cast i c from_bits to_bits x
      | w \<Rightarrow> w)"
  by pat_completeness auto

lemma size_Strip: "size (Strip v) \<le> size v"
  by (cases v) auto

termination StripCasts
proof (relation "measure size")
  fix v i c from_bits to_bits x
  assume "Strip v = Cast i c from_bits to_bits x"
  with size_Strip [of v] show "(x, v) \<in> measure size" by simp
qed simp

declare StripCasts.simps [simp del]

text \<open>
  \<open>FindLoad(value, load, depth)\<close>: the first argument is \<open>13 - depth\<close>. The answer is whether the expression is
  one of constants and a single load, and the load.
\<close>

fun FindLoad :: "nat \<Rightarrow> Value \<Rightarrow> Value option \<Rightarrow> bool \<times> Value option" where
  "FindLoad 0 v load = (False, load)"
| "FindLoad (Suc left) v load =
     (case v of
        Load i p b \<Rightarrow> if load \<noteq> None \<and> load \<noteq> Some v then (False, load) else (True, Some v)
      | ConstantInt b c \<Rightarrow> (True, load)
      | Binary i oper b x y \<Rightarrow>
          (case FindLoad left x load of
             (True, load) \<Rightarrow> FindLoad left y load
           | (False, load) \<Rightarrow> (False, load))
      | Cast i c from_bits to_bits x \<Rightarrow> FindLoad left x load
      | _ \<Rightarrow> (False, load))"

text \<open>The indices of a \<open>GEP\<close> that vary: all one value, past its casts.\<close>

fun find_gep_index :: "(Value \<times> nat \<times> Stride) list \<Rightarrow> Value option \<Rightarrow> bool \<times> Value option" where
  "find_gep_index [] index = (True, index)"
| "find_gep_index ((operand, b, s) # ixs) index =
     (if is_const operand then find_gep_index ixs index
      else let candidate = StripCasts operand
           in if index \<noteq> None \<and> index \<noteq> Some candidate then (False, index)
              else find_gep_index ixs (Some candidate))"

definition latch :: "Value \<Rightarrow> Value option \<Rightarrow> bool \<times> Value option" where
  "latch v index =
     (if is_instruction v \<or> is_argument v
      then if index \<noteq> None \<and> index \<noteq> Some v then (False, index) else (True, Some v)
      else (False, index))"

fun FindIndex :: "nat \<Rightarrow> Value \<Rightarrow> Value option \<Rightarrow> bool \<times> Value option" where
  "FindIndex 0 v index = (False, index)"
| "FindIndex (Suc left) v index =
     (case Strip v of
        ConstantInt b c \<Rightarrow> (True, index)
      | GEP i inst p ixs \<Rightarrow>
          (case FindIndex left p index of
             (True, index) \<Rightarrow> find_gep_index ixs index
           | (False, index) \<Rightarrow> (False, index))
      | Binary i oper b x y \<Rightarrow>
          (case FindIndex left x index of
             (True, index) \<Rightarrow> FindIndex left y index
           | (False, index) \<Rightarrow> (False, index))
      | Cast i c from_bits to_bits x \<Rightarrow>
          if is_width_cast c
          then if index = None \<and> is_instruction x \<and> \<not> is_binary x \<and> \<not> is_cast x then (True, Some x)
               else FindIndex left x index
          else latch (Strip v) index
      | w \<Rightarrow> latch w index)"

section \<open>Evaluating\<close>

text \<open>\<open>SignExtend64(x, bits)\<close> and the mask of a width.\<close>

definition SignExtend64 :: "u64 \<Rightarrow> nat \<Rightarrow> u64" where
  "SignExtend64 x bits = signed_take_bit (bits - 1) x"

definition width_mask :: "nat \<Rightarrow> u64" where
  "width_mask bits = (if 64 \<le> bits then - 1 else push_bit bits 1 - 1)"

text \<open>A shift by 64 or more is undefined in the source; no table of a compiler has one.\<close>

fun eval_binary :: "BinOp \<Rightarrow> nat \<Rightarrow> u64 \<Rightarrow> u64 \<Rightarrow> u64 option" where
  "eval_binary Add bits a b = Some ((a + b) AND width_mask bits)"
| "eval_binary Sub bits a b = Some ((a - b) AND width_mask bits)"
| "eval_binary Mul bits a b = Some ((a * b) AND width_mask bits)"
| "eval_binary Shl bits a b = Some (push_bit (unat b) a AND width_mask bits)"
| "eval_binary LShr bits a b = Some (drop_bit (unat b) a AND width_mask bits)"
| "eval_binary AShr bits a b = Some (signed_drop_bit (unat b) (SignExtend64 a bits) AND width_mask bits)"
| "eval_binary And bits a b = Some (a AND b)"
| "eval_binary Or bits a b = Some (a OR b)"
| "eval_binary Xor bits a b = Some (a XOR b)"
| "eval_binary OtherBin bits a b = None"

definition eval_cast :: "CastOp \<Rightarrow> nat \<Rightarrow> nat \<Rightarrow> u64 \<Rightarrow> u64" where
  "eval_cast c from_bits to_bits operand =
     (if c = SExt then SignExtend64 (operand AND width_mask from_bits) from_bits AND width_mask to_bits
      else operand AND width_mask from_bits AND width_mask to_bits)"

definition of_bool64 :: "bool \<Rightarrow> u64" where
  "of_bool64 b = (if b then 1 else 0)"

fun eval_icmp :: "Predicate \<Rightarrow> nat \<Rightarrow> u64 \<Rightarrow> u64 \<Rightarrow> u64 option" where
  "eval_icmp ICMP_EQ bits a b = Some (of_bool64 (a AND width_mask bits = b AND width_mask bits))"
| "eval_icmp ICMP_NE bits a b = Some (of_bool64 (a AND width_mask bits \<noteq> b AND width_mask bits))"
| "eval_icmp ICMP_UGT bits a b = Some (of_bool64 (a AND width_mask bits > b AND width_mask bits))"
| "eval_icmp ICMP_UGE bits a b = Some (of_bool64 (a AND width_mask bits \<ge> b AND width_mask bits))"
| "eval_icmp ICMP_ULT bits a b = Some (of_bool64 (a AND width_mask bits < b AND width_mask bits))"
| "eval_icmp ICMP_ULE bits a b = Some (of_bool64 (a AND width_mask bits \<le> b AND width_mask bits))"
| "eval_icmp ICMP_SGT bits a b = Some (of_bool64 (sint (SignExtend64 a bits) > sint (SignExtend64 b bits)))"
| "eval_icmp ICMP_SGE bits a b = Some (of_bool64 (sint (SignExtend64 a bits) \<ge> sint (SignExtend64 b bits)))"
| "eval_icmp ICMP_SLT bits a b = Some (of_bool64 (sint (SignExtend64 a bits) < sint (SignExtend64 b bits)))"
| "eval_icmp ICMP_SLE bits a b = Some (of_bool64 (sint (SignExtend64 a bits) \<le> sint (SignExtend64 b bits)))"
| "eval_icmp OtherPred bits a b = None"

definition stride_offset :: "Stride \<Rightarrow> nat \<Rightarrow> u64 \<Rightarrow> u64" where
  "stride_offset s bits idx =
     (case s of
        Fields offs \<Rightarrow> offs ! unat idx
      | Element alloc_size \<Rightarrow> SignExtend64 idx bits * alloc_size)"

text \<open>The loop over the indices of a \<open>GEP\<close>, given the evaluation of an operand.\<close>

fun eval_gep :: "(Value \<Rightarrow> u64 option) \<Rightarrow> (Value \<times> nat \<times> Stride) list \<Rightarrow> u64 \<Rightarrow> u64 option" where
  "eval_gep ev [] address = Some address"
| "eval_gep ev ((operand, bits, s) # ixs) address =
     (case ev operand of
        None \<Rightarrow> None
      | Some idx \<Rightarrow> eval_gep ev ixs (address + stride_offset s bits idx))"

record Env =
  env_index :: Value
  env_index_value :: u64
  env_load :: "Value option"
  env_loaded :: "u64 option"

text \<open>\<open>Evaluate(value, ..., depth)\<close>; the first argument is \<open>17 - depth\<close>.\<close>

fun Evaluate :: "nat \<Rightarrow> Env \<Rightarrow> Value \<Rightarrow> u64 option" where
  "Evaluate 0 env v = None"
| "Evaluate (Suc left) env v =
     (let v = Strip v
      in if v = env_index env then Some (env_index_value env)
         else if Some v = env_load env then env_loaded env
         else case v of
           ConstantInt b c \<Rightarrow> Some c
         | GEP i inst p ixs \<Rightarrow>
             (case Evaluate left env p of
                None \<Rightarrow> None
              | Some base \<Rightarrow> eval_gep (\<lambda>operand. Evaluate left env operand) ixs base)
         | Cast i c from_bits to_bits x \<Rightarrow> map_option (eval_cast c from_bits to_bits) (Evaluate left env x)
         | Binary i oper b x y \<Rightarrow>
             (case (Evaluate left env x, Evaluate left env y) of
                (Some p, Some q) \<Rightarrow> eval_binary oper b p q
              | _ \<Rightarrow> None)
         | ICmp i pred b x y \<Rightarrow>
             (case (Evaluate left env x, Evaluate left env y) of
                (Some p, Some q) \<Rightarrow> eval_icmp pred b p q
              | _ \<Rightarrow> None)
         | Select i c x y \<Rightarrow>
             (case Evaluate left env c of
                None \<Rightarrow> None
              | Some cond \<Rightarrow> Evaluate left env (if cond \<noteq> 0 then x else y))
         | _ \<Rightarrow> None)"

section \<open>Guards and resolution\<close>

text \<open>
  The control flow around a load: the single predecessor of a block and the conditional branch that ends a
  block (its condition and its two successors).
\<close>

record Flow =
  single_predecessor :: "nat \<Rightarrow> nat option"
  branch :: "nat \<Rightarrow> (Value \<times> nat \<times> nat) option"

fun Guards_from :: "nat \<Rightarrow> Flow \<Rightarrow> nat \<Rightarrow> (Value \<times> bool) list" where
  "Guards_from 0 flow bb = []"
| "Guards_from (Suc steps) flow bb =
     (case single_predecessor flow bb of
        None \<Rightarrow> []
      | Some pred \<Rightarrow>
          (case branch flow pred of
             None \<Rightarrow> []
           | Some (cond, succ0, succ1) \<Rightarrow>
               if succ0 = bb then [(cond, True)] else if succ1 = bb then [(cond, False)] else []) @
          Guards_from steps flow pred)"

definition Guards :: "Flow \<Rightarrow> nat \<Rightarrow> (Value \<times> bool) list" where
  "Guards flow bb = Guards_from 32 flow bb"

text \<open>The block of a load, and the largest value the range analysis allows an index, when it bounds it.\<close>

record Analysis =
  flow :: Flow
  load_block :: "Value \<Rightarrow> nat"
  integer_index :: "Value \<Rightarrow> bool"
  index_max :: "Value \<Rightarrow> Value \<Rightarrow> u64 option"

definition table_limit :: "Analysis \<Rightarrow> Value \<Rightarrow> Value \<Rightarrow> u64" where
  "table_limit an index load =
     (if integer_index an index
      then case index_max an index load of Some m \<Rightarrow> min 4096 (m + 1) | None \<Rightarrow> 4096
      else 4096)"

text \<open>The guards are evaluated with the load standing for 0.\<close>

definition guard_env :: "Value \<Rightarrow> Value \<Rightarrow> u64 \<Rightarrow> Env" where
  "guard_env index load i = \<lparr>env_index = index, env_index_value = i, env_load = Some load, env_loaded = Some 0\<rparr>"

definition usable_guards :: "Analysis \<Rightarrow> Value \<Rightarrow> Value \<Rightarrow> (Value \<times> bool) list" where
  "usable_guards an index load =
     filter (\<lambda>(cond, want). Evaluate 17 (guard_env index load 0) cond \<noteq> None \<and>
                             Evaluate 17 (guard_env index load 1) cond \<noteq> None)
       (Guards (flow an) (load_block an load))"

definition in_domain :: "Value \<Rightarrow> Value \<Rightarrow> (Value \<times> bool) list \<Rightarrow> u64 \<Rightarrow> bool" where
  "in_domain index load guards i \<longleftrightarrow>
     \<not> list_ex (\<lambda>(cond, want). case Evaluate 17 (guard_env index load i) cond of
          Some v \<Rightarrow> (v \<noteq> 0) \<noteq> want
        | None \<Rightarrow> False) guards"

text \<open>The entry of the table at an index: read at the address the pointer evaluates to.\<close>

definition table_entry :: "Program \<Rightarrow> Value \<Rightarrow> Value \<Rightarrow> nat \<Rightarrow> Value \<Rightarrow> u64 \<Rightarrow> u64 option" where
  "table_entry program index pointer width load i =
     (case Evaluate 17 \<lparr>env_index = index, env_index_value = i, env_load = None, env_loaded = None\<rparr> pointer of
        None \<Rightarrow> None
      | Some address \<Rightarrow>
          (case ImageAt program address of
             None \<Rightarrow> None
           | Some img \<Rightarrow> map_option le_word (ReadBytes img address width)))"

definition entry_target :: "Value \<Rightarrow> Value \<Rightarrow> Value \<Rightarrow> u64 \<Rightarrow> u64 \<Rightarrow> u64 option" where
  "entry_target pc index load i raw =
     Evaluate 17 \<lparr>env_index = index, env_index_value = i, env_load = Some load, env_loaded = Some raw\<rparr> pc"

text \<open>The loop over the indices; the list is those still to come.\<close>

fun scan_table :: "Program \<Rightarrow> Value \<Rightarrow> Value \<Rightarrow> Value \<Rightarrow> Value \<Rightarrow> nat \<Rightarrow> (Value \<times> bool) list \<Rightarrow> u64 \<Rightarrow> u64 \<Rightarrow> u64 \<Rightarrow>
    u64 list \<Rightarrow> bool \<Rightarrow> u64 list \<Rightarrow> u64 list" where
  "scan_table program pc index load pointer width guards limit start fin [] accepted targets = targets"
| "scan_table program pc index load pointer width guards limit start fin (i # is) accepted targets =
     (if \<not> in_domain index load guards i
      then if accepted then targets
           else scan_table program pc index load pointer width guards limit start fin is accepted targets
      else case table_entry program index pointer width load i of
        None \<Rightarrow> targets
      | Some raw \<Rightarrow>
          (case entry_target pc index load i raw of
             Some target \<Rightarrow>
               if target < start \<or> fin \<le> target \<or> target AND 3 \<noteq> 0
               then if limit = 4096 \<and> guards = [] then targets
                    else scan_table program pc index load pointer width guards limit start fin is accepted targets
               else scan_table program pc index load pointer width guards limit start fin is True
                      (oset_insert target targets)
           | None \<Rightarrow>
               if limit = 4096 \<and> guards = [] then targets
               else scan_table program pc index load pointer width guards limit start fin is accepted targets))"

definition Resolve :: "Program \<Rightarrow> Analysis \<Rightarrow> u64 \<Rightarrow> u64 \<Rightarrow> Value \<Rightarrow> u64 list \<Rightarrow> u64 list" where
  "Resolve program an start fin pc targets =
     (if is_const pc then targets
      else case FindLoad 13 pc None of
        (True, Some (Load n pointer bits)) \<Rightarrow>
          (case FindIndex 13 pointer None of
             (True, Some index) \<Rightarrow>
               let load = Load n pointer bits;
                   limit = table_limit an index load;
                   width = bits div 8
               in if width = 0 \<or> 8 < width then targets
                  else scan_table program pc index load pointer width (usable_guards an index load) limit start fin
                         (map of_nat [0..<unat limit]) False targets
           | _ \<Rightarrow> targets)
      | _ \<Rightarrow> targets)"

text \<open>The members \<open>starts_\<close>: the functions when the class was made, in order.\<close>

definition NextFunction :: "u64 list \<Rightarrow> u64 \<Rightarrow> u64" where
  "NextFunction starts start = (case find (\<lambda>s. start < s) starts of Some next_start \<Rightarrow> next_start | None \<Rightarrow> start + 0x100000)"

definition Owner :: "u64 list \<Rightarrow> u64 \<Rightarrow> u64" where
  "Owner starts address =
     (case filter (\<lambda>s. s \<le> address) starts of [] \<Rightarrow> address | before \<Rightarrow> last before)"

text \<open>\<open>Targets\<close>: the program counters stored in front of the tail calls of the function, each split at its \<open>phi\<close>.\<close>

definition Targets :: "Program \<Rightarrow> u64 list \<Rightarrow> Analysis \<Rightarrow> Value list list \<Rightarrow> u64 \<Rightarrow> u64 list" where
  "Targets program starts an stores start =
     fold (fold (Resolve program an start (NextFunction starts start))) stores []"

section \<open>The loop that lifts\<close>

text \<open>
  What lifting a function yields, the lifter being a library: \<open>None\<close> when it cannot be decoded, else its name and,
  for its owner, the targets of its jump tables.
\<close>

type_synonym lifting = "u64 \<Rightarrow> (string \<times> (u64 \<Rightarrow> u64 list)) option"

record Lifting =
  lf_functions :: "u64 list"
  lf_lifted :: "(u64, string) omap"
  lf_failures :: nat
  lf_discovered :: "u64 list"
  lf_log :: "string list"

definition lift_one :: "lifting \<Rightarrow> u64 list \<Rightarrow> u64 \<Rightarrow> Lifting \<Rightarrow> Lifting" where
  "lift_one lift starts address st =
     (case lift address of
        None \<Rightarrow> st\<lparr>lf_failures := lf_failures st + 1,
                   lf_log := lf_log st @ [''xlate: cannot decode function at 0x'' @ Hex8 address]\<rparr>
      | Some (name, targets) \<Rightarrow>
          (let st = st\<lparr>lf_lifted := omap_set address name (lf_lifted st)\<rparr>
           in fold (\<lambda>target st.
                 if target \<notin> set (lf_functions st) \<and> map_of (lf_lifted st) target = None
                 then st\<lparr>lf_discovered := oset_insert target (lf_discovered st)\<rparr> else st)
               (targets (Owner starts address)) st))"

text \<open>A round over the pending functions, then the discovered ones become functions and the next round's.\<close>

definition lift_round :: "lifting \<Rightarrow> u64 list \<Rightarrow> u64 list \<Rightarrow> Lifting \<Rightarrow> Lifting" where
  "lift_round lift starts pending st =
     (let st = fold (lift_one lift starts) pending (st\<lparr>lf_discovered := []\<rparr>)
      in st\<lparr>lf_functions := fold oset_insert (lf_discovered st) (lf_functions st)\<rparr>)"

partial_function (option) lift_rounds :: "lifting \<Rightarrow> u64 list \<Rightarrow> u64 list \<Rightarrow> Lifting \<Rightarrow> Lifting option" where
  "lift_rounds lift starts pending st =
     (if pending = [] then Some st
      else lift_rounds lift starts (lf_discovered (lift_round lift starts pending st)) (lift_round lift starts pending st))"

declare lift_rounds.simps [code]

definition lift_all :: "lifting \<Rightarrow> Program \<Rightarrow> Lifting option" where
  "lift_all lift program = lift_rounds lift (prog_functions program) (prog_functions program)
     \<lparr>lf_functions = prog_functions program, lf_lifted = [], lf_failures = 0, lf_discovered = [], lf_log = []\<rparr>"

end
