(* ===== verification/JumpTables_Facts.thy ===== *)
theory JumpTables_Facts
  imports JumpTables
begin

text \<open>
  What jump-table recovery guarantees: the evaluator is the two's complement arithmetic of the widths
  involved; every target lies in the function that owns the code, is word-aligned and comes from an entry
  of a table the guards admit; and the loop that lifts what is found ends, with everything it found lifted or
  counted as a failure.
\<close>

section \<open>Arithmetic of a width\<close>

definition fits_in :: "nat \<Rightarrow> u64 \<Rightarrow> bool" where
  "fits_in bits a \<longleftrightarrow> uint a < 2 ^ bits"

text \<open>The value of a pattern of \<open>bits\<close> bits as a signed number.\<close>

definition signed_value :: "nat \<Rightarrow> int \<Rightarrow> int" where
  "signed_value bits k = (if 2 ^ (bits - 1) \<le> k then k - 2 ^ bits else k)"

fun reference_binary :: "BinOp \<Rightarrow> nat \<Rightarrow> int \<Rightarrow> int \<Rightarrow> int" where
  "reference_binary Add bits a b = (a + b) mod 2 ^ bits"
| "reference_binary Sub bits a b = (a - b) mod 2 ^ bits"
| "reference_binary Mul bits a b = (a * b) mod 2 ^ bits"
| "reference_binary Shl bits a b = (a * 2 ^ nat b) mod 2 ^ bits"
| "reference_binary LShr bits a b = a div 2 ^ nat b"
| "reference_binary AShr bits a b = (signed_value bits a div 2 ^ nat b) mod 2 ^ bits"
| "reference_binary And bits a b = a AND b"
| "reference_binary Or bits a b = a OR b"
| "reference_binary Xor bits a b = a XOR b"
| "reference_binary OtherBin bits a b = 0"

fun reference_icmp :: "Predicate \<Rightarrow> nat \<Rightarrow> int \<Rightarrow> int \<Rightarrow> bool" where
  "reference_icmp ICMP_EQ bits a b \<longleftrightarrow> a = b"
| "reference_icmp ICMP_NE bits a b \<longleftrightarrow> a \<noteq> b"
| "reference_icmp ICMP_UGT bits a b \<longleftrightarrow> a > b"
| "reference_icmp ICMP_UGE bits a b \<longleftrightarrow> a \<ge> b"
| "reference_icmp ICMP_ULT bits a b \<longleftrightarrow> a < b"
| "reference_icmp ICMP_ULE bits a b \<longleftrightarrow> a \<le> b"
| "reference_icmp ICMP_SGT bits a b \<longleftrightarrow> signed_value bits a > signed_value bits b"
| "reference_icmp ICMP_SGE bits a b \<longleftrightarrow> signed_value bits a \<ge> signed_value bits b"
| "reference_icmp ICMP_SLT bits a b \<longleftrightarrow> signed_value bits a < signed_value bits b"
| "reference_icmp ICMP_SLE bits a b \<longleftrightarrow> signed_value bits a \<le> signed_value bits b"
| "reference_icmp OtherPred bits a b \<longleftrightarrow> False"

definition reference_cast :: "CastOp \<Rightarrow> nat \<Rightarrow> nat \<Rightarrow> int \<Rightarrow> int" where
  "reference_cast c from_bits to_bits a = (if c = SExt then signed_value from_bits a else a) mod 2 ^ to_bits"

lemma and_width_mask: "a AND width_mask bits = take_bit bits a"
proof (cases "64 \<le> bits")
  case True
  have "bits = 64 + (bits - 64)" using True by simp
  then have "take_bit bits a = a"
    by (intro bit_word_eqI) (auto simp: bit_take_bit_iff)
  with True show ?thesis by (simp add: width_mask_def)
next
  case False
  then show ?thesis by (simp add: width_mask_def take_bit_eq_mask mask_eq_exp_minus_1)
qed

lemma uint_and_mask: "uint (a AND width_mask bits) = uint a mod 2 ^ bits"
  unfolding and_width_mask by (subst unsigned_take_bit_eq) (rule take_bit_eq_mod)

lemma fits_mask: "fits_in bits a \<Longrightarrow> a AND width_mask bits = a"
  unfolding fits_in_def and_width_mask
  by (metis and_width_mask uint_and_mask mod_pos_pos_trivial unsigned_greater_eq word_uint_eqI)

lemma signed_value_take: "0 < bits \<Longrightarrow> 0 \<le> k \<Longrightarrow> k < 2 ^ bits \<Longrightarrow> signed_take_bit (bits - 1) k = signed_value bits k"
proof -
  assume b: "0 < bits" "0 \<le> k" "k < 2 ^ bits"
  have t: "take_bit (Suc (bits - 1)) k = k" using b by (simp add: take_bit_int_eq_self)
  have "bit k (bits - 1) \<longleftrightarrow> 2 ^ (bits - 1) \<le> k"
  proof -
    have w: "(2 :: int) ^ bits = 2 * 2 ^ (bits - 1)" using b(1) by (cases bits) simp_all
    have "k div 2 ^ (bits - 1) < 2"
    proof (rule ccontr)
      assume "\<not> k div 2 ^ (bits - 1) < 2"
      then have "2 * 2 ^ (bits - 1) \<le> k div 2 ^ (bits - 1) * 2 ^ (bits - 1)" by (intro mult_right_mono) simp_all
      also have "\<dots> \<le> k"
      proof -
        have "0 \<le> k mod 2 ^ (bits - 1)" by (rule pos_mod_sign) simp
        then show ?thesis using div_mult_mod_eq [of k "2 ^ (bits - 1)"] by linarith
      qed
      finally show False using b(3) w by simp
    qed
    moreover have "0 \<le> k div 2 ^ (bits - 1)" using b(2) by (simp add: pos_imp_zdiv_nonneg_iff)
    ultimately have "k div 2 ^ (bits - 1) = 0 \<or> k div 2 ^ (bits - 1) = 1" by linarith
    then show ?thesis
    proof
      assume q: "k div 2 ^ (bits - 1) = 0"
      then have "k < 2 ^ (bits - 1)"
        using div_mult_mod_eq [of k "2 ^ (bits - 1)"] pos_mod_bound [of "2 ^ (bits - 1)" k] by simp
      with q show ?thesis by (simp add: bit_iff_odd)
    next
      assume q: "k div 2 ^ (bits - 1) = 1"
      have "0 \<le> k mod 2 ^ (bits - 1)" by (rule pos_mod_sign) simp
      then have "2 ^ (bits - 1) \<le> k" using div_mult_mod_eq [of k "2 ^ (bits - 1)"] unfolding q by linarith
      with q show ?thesis by (simp add: bit_iff_odd)
    qed
  qed
  then show ?thesis
    using b t by (simp add: signed_take_bit_eq_take_bit_minus signed_value_def)
qed

lemma sint_SignExtend64:
  assumes "0 < bits" and "bits \<le> 64" and "fits_in bits a"
  shows "sint (SignExtend64 a bits) = signed_value bits (uint a)"
proof -
  have m: "min (bits - 1) 63 = bits - 1" using assms by simp
  have "sint (SignExtend64 a bits) = signed_take_bit (bits - 1) (sint a)"
    unfolding SignExtend64_def
    by (rule bit_eqI) (use m in \<open>auto simp: bit_signed_take_bit_iff bit_signed_iff min_def\<close>)
  also have "\<dots> = signed_take_bit (bits - 1) (uint a)"
    using m by (simp add: sint_uint)
  also have "\<dots> = signed_value bits (uint a)"
    using assms by (intro signed_value_take) (simp_all add: fits_in_def)
  finally show ?thesis .
qed

lemma uint_arith:
  "uint (a + b :: u64) mod 2 ^ bits = (uint a + uint b) mod 2 ^ bits"
  "uint (a - b :: u64) mod 2 ^ bits = (uint a - uint b) mod 2 ^ bits"
  "uint (a * b :: u64) mod 2 ^ bits = (uint a * uint b) mod 2 ^ bits" if "bits \<le> 64"
proof -
  have d: "(2 :: int) ^ bits dvd 2 ^ 64" using that by (rule le_imp_power_dvd)
  have "uint (a + b) = (uint a + uint b) mod 2 ^ 64" "uint (a - b) = (uint a - uint b) mod 2 ^ 64"
    "uint (a * b) = (uint a * uint b) mod 2 ^ 64"
    by (simp_all add: uint_word_ariths)
  then show "uint (a + b :: u64) mod 2 ^ bits = (uint a + uint b) mod 2 ^ bits"
    "uint (a - b :: u64) mod 2 ^ bits = (uint a - uint b) mod 2 ^ bits"
    "uint (a * b :: u64) mod 2 ^ bits = (uint a * uint b) mod 2 ^ bits"
    using mod_mod_cancel [OF d] by simp_all
qed

lemma uint_push: "n < 64 \<Longrightarrow> uint (push_bit n a :: u64) = (uint a * 2 ^ n) mod 2 ^ 64"
  by (subst unsigned_push_bit_eq) (simp add: push_bit_eq_mult take_bit_eq_mod)

lemma uint_drop: "uint (drop_bit n a :: u64) = uint a div 2 ^ n"
proof -
  have "take_bit 64 (uint a) = uint a"
    by (rule take_bit_int_eq_self) (use unsigned_less [of a, where 'a = int] in simp_all)
  then show ?thesis by (subst unsigned_drop_bit_eq) (simp add: drop_bit_eq_div)
qed

lemma nat_uint: "nat (uint (b :: u64)) = unat b"
  by (rule unat_eq_nat_uint [symmetric])

lemma shift_amount: "uint (b :: u64) < int n \<Longrightarrow> unat b < n"
  unfolding nat_uint [symmetric] by (rule nat_less_iff [THEN iffD2, OF unsigned_greater_eq])

lemma sint_signed_drop: "sint (signed_drop_bit n a :: u64) = sint a div 2 ^ n"
  by (simp only: sint_signed_drop_bit_eq drop_bit_eq_div)

lemma uint_sint_mod: "bits \<le> 64 \<Longrightarrow> uint (a :: u64) mod 2 ^ bits = sint a mod 2 ^ bits"
proof -
  assume "bits \<le> 64"
  then have d: "(2 :: int) ^ bits dvd 2 ^ 64" by (rule le_imp_power_dvd)
  have "uint a = sint a mod 2 ^ 64"
  proof -
    have "LENGTH(64) = 64" by simp
    then show ?thesis using uint_sint [of a] by (simp only: take_bit_eq_mod)
  qed
  then show ?thesis using mod_mod_cancel [OF d] by simp
qed

lemma uint_AND_OR_XOR: "uint (a AND b :: u64) = uint a AND uint b" "uint (a OR b :: u64) = uint a OR uint b"
  "uint (a XOR b :: u64) = uint a XOR uint b"
  by (simp_all add: unsigned_and_eq unsigned_or_eq unsigned_xor_eq)

text \<open>The operators of the evaluator are those of the reference on every pattern that fits the width.\<close>

lemma eval_binary_reference:
  assumes "0 < bits" and "bits \<le> 64" and "fits_in bits a" and "fits_in bits b"
    and "List.member [Shl, LShr, AShr] oper \<Longrightarrow> uint b < int bits" and "eval_binary oper bits a b = Some c"
  shows "uint c = reference_binary oper bits (uint a) (uint b)"
proof (cases oper)
  case Add
  then show ?thesis using assms by (auto simp: uint_and_mask uint_arith)
next
  case Sub
  then show ?thesis using assms by (auto simp: uint_and_mask uint_arith)
next
  case Mul
  then show ?thesis using assms by (auto simp: uint_and_mask uint_arith)
next
  case Shl
  then have n: "unat b < 64" using assms(2,5) shift_amount [of b bits] by simp
  have d: "(2 :: int) ^ bits dvd 2 ^ 64" using assms(2) by (rule le_imp_power_dvd)
  have "uint (push_bit (unat b) a) mod 2 ^ bits = uint a * 2 ^ unat b mod 2 ^ bits"
    unfolding uint_push [OF n] by (rule mod_mod_cancel [OF d])
  then show ?thesis using Shl assms(6) by (auto simp: uint_and_mask nat_uint)
next
  case LShr
  have "uint a div 2 ^ unat b \<le> uint a div 1" by (rule zdiv_mono2) simp_all
  then have "uint a div 2 ^ unat b < 2 ^ bits" using assms(3) by (simp add: fits_in_def)
  then have "uint a div 2 ^ unat b mod 2 ^ bits = uint a div 2 ^ unat b"
    by (intro mod_pos_pos_trivial) (simp_all add: pos_imp_zdiv_nonneg_iff)
  then show ?thesis using LShr assms(6) by (auto simp: uint_and_mask uint_drop nat_uint)
next
  case AShr
  have "uint (signed_drop_bit (unat b) (SignExtend64 a bits)) mod 2 ^ bits = (signed_value bits (uint a) div 2 ^ unat b) mod 2 ^ bits"
    unfolding uint_sint_mod [OF assms(2)] sint_signed_drop sint_SignExtend64 [OF assms(1-3)] ..
  then show ?thesis using AShr assms(6) by (auto simp: uint_and_mask nat_uint)
next
  case OtherBin
  then show ?thesis using assms(6) by simp
qed (use assms(6) in \<open>auto simp: uint_AND_OR_XOR\<close>)

lemma eval_icmp_reference:
  assumes "0 < bits" and "bits \<le> 64" and "fits_in bits a" and "fits_in bits b" and "eval_icmp pred bits a b = Some c"
  shows "(c \<noteq> 0) = reference_icmp pred bits (uint a) (uint b)"
proof -
  have nz: "of_bool64 q \<noteq> 0 \<longleftrightarrow> q" for q by (simp add: of_bool64_def)
  have m: "a AND width_mask bits = a" "b AND width_mask bits = b" using fits_mask assms(3,4) by blast+
  have s: "sint (SignExtend64 a bits) = signed_value bits (uint a)" "sint (SignExtend64 b bits) = signed_value bits (uint b)"
    using sint_SignExtend64 assms(1-4) by blast+
  have "c = of_bool64 (reference_icmp pred bits (uint a) (uint b))"
    using assms(5) by (cases pred) (simp_all add: m s word_uint_eq_iff [of a b] word_less_def word_le_def)
  then show ?thesis using nz by simp
qed

lemma eval_cast_reference:
  assumes "0 < from_bits" and "from_bits \<le> 64" and "to_bits \<le> 64" and "fits_in from_bits a"
  shows "uint (eval_cast c from_bits to_bits a) = reference_cast c from_bits to_bits (uint a)"
  unfolding eval_cast_def reference_cast_def and.assoc [symmetric] fits_mask [OF assms(4)]
  using sint_SignExtend64 [OF assms(1,2,4)] uint_sint_mod [OF assms(3), of "SignExtend64 a from_bits"]
  by (simp add: uint_and_mask)

section \<open>Targets\<close>

definition table_target :: "Program \<Rightarrow> Value \<Rightarrow> Value \<Rightarrow> Value \<Rightarrow> Value \<Rightarrow> nat \<Rightarrow> (Value \<times> bool) list \<Rightarrow> u64 \<Rightarrow> u64 \<Rightarrow> u64 \<Rightarrow> u64 \<Rightarrow> bool" where
  "table_target program pc index load pointer width guards start fin i t \<longleftrightarrow>
     start \<le> t \<and> t < fin \<and> t AND 3 = 0 \<and> in_domain index load guards i \<and>
     (\<exists>raw. table_entry program index pointer width load i = Some raw \<and> entry_target pc index load i raw = Some t)"

lemma scan_table_targets:
  "t \<in> set (scan_table program pc index load pointer width guards limit start fin is accepted targets) \<Longrightarrow>
   t \<in> set targets \<or> (\<exists>i \<in> set is. table_target program pc index load pointer width guards start fin i t)"
proof (induction "is" arbitrary: accepted targets)
  case Nil
  then show ?case by simp
next
  case (Cons i "is")
  show ?case
  proof (cases "\<exists>u. table_target program pc index load pointer width guards start fin i u")
    case True
    then obtain u raw where u: "table_target program pc index load pointer width guards start fin i u"
        "table_entry program index pointer width load i = Some raw" "entry_target pc index load i raw = Some u"
      by (auto simp: table_target_def)
    then have "scan_table program pc index load pointer width guards limit start fin (i # is) accepted targets =
        scan_table program pc index load pointer width guards limit start fin is True (oset_insert u targets)"
      by (auto simp: table_target_def)
    with Cons.prems have "t \<in> set (scan_table program pc index load pointer width guards limit start fin is True (oset_insert u targets))"
      by simp
    from Cons.IH [OF this] u(1) show ?thesis by auto
  next
    case False
    have "t \<in> set targets \<or> (\<exists>accepted. t \<in> set (scan_table program pc index load pointer width guards limit start fin is accepted targets))"
      using Cons.prems False
      by (auto simp: table_target_def not_less split: if_splits option.splits)
    with Cons.IH show ?thesis by auto
  qed
qed

definition jump_target :: "Program \<Rightarrow> Analysis \<Rightarrow> Value list \<Rightarrow> u64 \<Rightarrow> u64 \<Rightarrow> u64 \<Rightarrow> bool" where
  "jump_target program an pcs start fin t \<longleftrightarrow>
     (\<exists>pc n pointer bits index i. pc \<in> set pcs \<and> FindLoad 13 pc None = (True, Some (Load n pointer bits)) \<and>
        FindIndex 13 pointer None = (True, Some index) \<and> bits div 8 \<in> {1..8} \<and>
        unat i < unat (table_limit an index (Load n pointer bits)) \<and>
        table_target program pc index (Load n pointer bits) pointer (bits div 8)
          (usable_guards an index (Load n pointer bits)) start fin i t)"

lemma table_limit_le: "unat (table_limit an index load) \<le> 4096"
proof -
  have "table_limit an index load \<le> 4096" by (auto simp: table_limit_def split: option.split)
  then show ?thesis by (simp add: word_le_nat_alt)
qed

lemma jump_target_in:
  "jump_target program an pcs start fin t \<Longrightarrow> start \<le> t \<and> t < fin \<and> t AND 3 = 0"
  by (auto simp: jump_target_def table_target_def)

lemma jump_target_mono: "jump_target program an ps start fin t \<Longrightarrow> set ps \<subseteq> set qs \<Longrightarrow> jump_target program an qs start fin t"
  unfolding jump_target_def by blast

lemma scan_table_ok: "oset_ok targets \<Longrightarrow> oset_ok (scan_table program pc index load pointer width guards limit start fin is accepted targets)"
  by (induction "is" arbitrary: accepted targets) (auto split: option.splits)

lemma Resolve_ok: "oset_ok targets \<Longrightarrow> oset_ok (Resolve program an start fin pc targets)"
  by (auto simp: Resolve_def Let_def scan_table_ok split: option.split prod.split bool.split Value.split)

lemma Resolve_targets:
  assumes "t \<in> set (Resolve program an start fin pc targets)"
  shows "t \<in> set targets \<or> jump_target program an [pc] start fin t"
proof (rule disjCI)
  assume "\<not> jump_target program an [pc] start fin t"
  show "t \<in> set targets"
  proof (rule ccontr)
    assume new: "t \<notin> set targets"
    then obtain n pointer bits index where
      f: "FindLoad 13 pc None = (True, Some (Load n pointer bits))" "FindIndex 13 pointer None = (True, Some index)"
        "bits div 8 \<noteq> 0" "bits div 8 \<le> 8" and
      t: "t \<in> set (scan_table program pc index (Load n pointer bits) pointer (bits div 8)
           (usable_guards an index (Load n pointer bits)) (table_limit an index (Load n pointer bits)) start fin
           (map of_nat [0..<unat (table_limit an index (Load n pointer bits))]) False targets)"
      using assms
      by (auto simp: Resolve_def Let_def split: if_splits option.splits prod.splits bool.splits Value.splits) (metis not_le)
    from scan_table_targets [OF t] new obtain i where
      i: "i < unat (table_limit an index (Load n pointer bits))"
        "table_target program pc index (Load n pointer bits) pointer (bits div 8)
          (usable_guards an index (Load n pointer bits)) start fin (of_nat i) t" by auto
    have "unat (of_nat i :: u64) = i"
      using i(1) table_limit_le [of an index "Load n pointer bits"] by (intro unat_of_nat_u64) simp
    with i f have "jump_target program an [pc] start fin t"
      unfolding jump_target_def by (auto intro!: exI [of _ "of_nat i :: u64"] simp: Suc_le_eq)
    then show False using \<open>\<not> jump_target program an [pc] start fin t\<close> by simp
  qed
qed

lemma fold_Resolve:
  "(oset_ok targets \<longrightarrow> oset_ok (fold (Resolve program an start fin) pcs targets)) \<and>
   (\<forall>t \<in> set (fold (Resolve program an start fin) pcs targets). t \<in> set targets \<or> jump_target program an pcs start fin t)"
proof (induction pcs arbitrary: targets)
  case Nil
  then show ?case by simp
next
  case (Cons pc pcs)
  let ?r = "Resolve program an start fin pc targets"
  have "\<forall>t \<in> set ?r. t \<in> set targets \<or> jump_target program an (pc # pcs) start fin t"
    using Resolve_targets jump_target_mono [of program an "[pc]" start fin _ "pc # pcs"] by fastforce
  moreover have "\<forall>t \<in> set (fold (Resolve program an start fin) pcs ?r). t \<in> set ?r \<or> jump_target program an (pc # pcs) start fin t"
    using Cons.IH [of ?r] jump_target_mono [of program an pcs start fin _ "pc # pcs"] by fastforce
  ultimately show ?case using Cons.IH [of ?r] Resolve_ok [of targets program an start fin pc] by auto
qed

lemma fold_fold_concat: "fold (fold f) xss s = fold f (concat xss) s"
  by (induction xss arbitrary: s) simp_all

text \<open>
  C21: Every target the recovery finds for a function is word-aligned and lies between the start of the owner and the next
  function, and it was read from a table: at an index below the cap of 4096 that the guards admit, the entry's bytes are
  in an image and the program counter, evaluated with them, is the target.
\<close>

theorem Targets_from_tables:
  "list_all (\<lambda>t. start \<le> t \<and> t < NextFunction starts start \<and> t AND 3 = 0 \<and>
      jump_target program an (concat stores) start (NextFunction starts start) t)
    (Targets program starts an stores start) \<and>
   oset_ok (Targets program starts an stores start)"
  using fold_Resolve [of "[]" program an start "NextFunction starts start" "concat stores"] jump_target_in
  by (auto simp: Targets_def fold_fold_concat list_all_iff simp del: set_concat)

section \<open>The function that owns an address\<close>

lemma Owner_in:
  assumes "oset_ok starts" and "s \<in> set starts" and "s \<le> address"
  shows "Owner starts address \<in> set starts \<and> Owner starts address \<le> address \<and>
    (\<forall>t \<in> set starts. t \<le> address \<longrightarrow> t \<le> Owner starts address)"
proof -
  let ?b = "filter (\<lambda>s. s \<le> address) starts"
  have ne: "?b \<noteq> []" using assms(2,3) by (auto simp: filter_empty_conv)
  then have o: "Owner starts address = last ?b" by (auto simp: Owner_def split: list.split)
  have "sorted ?b" using assms(1) oset_ok_sorted by (auto intro: sorted_wrt_filter)
  then have "\<forall>t \<in> set ?b. t \<le> last ?b"
    using ne by (metis in_set_conv_nth last_conv_nth less_Suc_eq_le sorted_nth_mono Suc_pred' length_greater_0_conv diff_less zero_less_one)
  moreover have "last ?b \<in> set ?b" using ne by (rule last_in_set)
  ultimately show ?thesis unfolding o by auto
qed

lemma NextFunction_find:
  assumes "oset_ok starts" and "t \<in> set starts" and "s < t"
  shows "NextFunction starts s \<in> set starts \<and> s < NextFunction starts s \<and>  NextFunction starts s \<le> t"
proof -
  obtain u where u: "find (\<lambda>x. s < x) starts = Some u"
    using assms(2,3) by (cases "find (\<lambda>x. s < x) starts") (auto simp: find_None_iff)
  then obtain i where i: "i < length starts" "u = starts ! i" "s < u" "\<forall>j < i. \<not> s < starts ! j"
    by (auto simp: find_Some_iff)
  obtain j where j: "j < length starts" "t = starts ! j" using assms(2) by (auto simp: in_set_conv_nth)
  have "i \<le> j" using i(4) j(2) assms(3) by (metis not_le)
  then have "u \<le> t" using i j assms(1) oset_ok_sorted by (auto intro: sorted_nth_mono)
  with u i show ?thesis by (simp add: NextFunction_def)
qed

text \<open>
  The owner of an address is the greatest function start not above it, and the bounds of the owner enclose the
  address: when an address lies above some start, its owner is a start, no start lies between the two, and the next
  function of the owner is above the address unless no function starts there, when the bound is a fixed 1 MB window.
\<close>

theorem Owner_encloses:
  assumes "oset_ok starts" and "s \<in> set starts" and "s \<le> address"
  shows "Owner starts address \<in> set starts \<and> Owner starts address \<le> address \<and>
    (\<forall>t. t \<in> set starts \<and> t \<le> address \<longrightarrow> t \<le> Owner starts address) \<and>
    (if list_ex (\<lambda>t. address < t) starts
     then address < NextFunction starts (Owner starts address) \<and> NextFunction starts (Owner starts address) \<in> set starts
     else NextFunction starts (Owner starts address) = Owner starts address + 0x100000)"
proof -
  note o = Owner_in [OF assms]
  show ?thesis
  proof (cases "list_ex (\<lambda>t. address < t) starts")
    case True
    then obtain t where t: "t \<in> set starts" "address < t" by (auto simp: list_ex_iff)
    then have "Owner starts address < t" using o by (meson order.strict_trans1)
    from NextFunction_find [OF assms(1) t(1) this] o True show ?thesis by (metis not_le)
  next
    case False
    then have "\<forall>t \<in> set starts. t \<le> Owner starts address" using o by (auto simp: list_ex_iff not_less)
    then have "find (\<lambda>t. Owner starts address < t) starts = None" by (auto simp: find_None_iff not_less)
    with o False show ?thesis by (simp add: NextFunction_def)
  qed
qed

lemma Owner_sample: "Owner [0x1000, 0x1040, 0x1100] 0x1050 = 0x1040 \<and> NextFunction [0x1000, 0x1040, 0x1100] 0x1040 = 0x1100"
  by (simp add: Owner_def NextFunction_def)

theorem Owner_encloses_witness:
  "(0x1050 :: u64) < NextFunction [0x1000, 0x1040, 0x1100] (Owner [0x1000, 0x1040, 0x1100] 0x1050)"
  using Owner_encloses [of "[0x1000, 0x1040, 0x1100]" "0x1040" "0x1050"] by (simp add: oset_ok_def)

end
