(* ===== verification/Evaluate_Facts.thy ===== *)
theory Evaluate_Facts
  imports JumpTables_Facts
begin

text \<open>
  The evaluator of table expressions against the integers: the meaning of an expression as LLVM defines it,
  node by node, and that \<open>Evaluate\<close> computes it within its depth.
\<close>


section \<open>Expressions\<close>

text \<open>The meaning of an expression over the integers: what the index and the load stand for, and what they do.\<close>

definition known :: "Env \<Rightarrow> Value \<Rightarrow> u64 option option" where
  "known env v = (if v = env_index env then Some (Some (env_index_value env))
     else if Some v = env_load env then Some (env_loaded env) else None)"

definition defined_binary :: "BinOp \<Rightarrow> nat \<Rightarrow> int \<Rightarrow> bool" where
  "defined_binary oper bits b \<longleftrightarrow> oper \<noteq> OtherBin \<and> (List.member [Shl, LShr, AShr] oper \<longrightarrow> b < int bits)"

definition reference_stride :: "Stride \<Rightarrow> nat \<Rightarrow> int \<Rightarrow> int option" where
  "reference_stride s bits k =
     (case s of
        Fields offs \<Rightarrow> if nat k < length offs then Some (uint (offs ! nat k)) else None
      | Element alloc_size \<Rightarrow> Some (signed_value bits k * sint alloc_size))"

fun denotes :: "Env \<Rightarrow> Value \<Rightarrow> int option"
  and denotes_indices :: "Env \<Rightarrow> (Value \<times> nat \<times> Stride) list \<Rightarrow> int option" where
  "denotes env (ConstantInt b c) =
     (case known env (ConstantInt b c) of Some k \<Rightarrow> map_option uint k | None \<Rightarrow> Some (uint c))"
| "denotes env (ConstIntToPtr v) =
     (case known env (ConstIntToPtr v) of Some k \<Rightarrow> map_option uint k | None \<Rightarrow> denotes env v)"
| "denotes env (Binary i oper b x y) =
     (case known env (Binary i oper b x y) of Some k \<Rightarrow> map_option uint k
      | None \<Rightarrow>
         (case (denotes env x, denotes env y) of
            (Some p, Some q) \<Rightarrow> if defined_binary oper b q then Some (reference_binary oper b p q) else None
          | _ \<Rightarrow> None))"
| "denotes env (Cast i c from_bits to_bits x) =
     (case known env (Cast i c from_bits to_bits x) of Some k \<Rightarrow> map_option uint k
      | None \<Rightarrow> map_option (reference_cast c from_bits to_bits) (denotes env x))"
| "denotes env (GEP i inst p ixs) =
     (case known env (GEP i inst p ixs) of Some k \<Rightarrow> map_option uint k
      | None \<Rightarrow>
         (case (denotes env p, denotes_indices env ixs) of
            (Some base, Some off) \<Rightarrow> Some ((base + off) mod 2 ^ 64)
          | _ \<Rightarrow> None))"
| "denotes env (ICmp i q b x y) =
     (case known env (ICmp i q b x y) of Some k \<Rightarrow> map_option uint k
      | None \<Rightarrow>
         (case (denotes env x, denotes env y) of
            (Some p, Some r) \<Rightarrow> if q = OtherPred then None else Some (of_bool (reference_icmp q b p r))
          | _ \<Rightarrow> None))"
| "denotes env (Select i c x y) =
     (case known env (Select i c x y) of Some k \<Rightarrow> map_option uint k
      | None \<Rightarrow>
         (case denotes env c of None \<Rightarrow> None | Some cond \<Rightarrow> if cond \<noteq> 0 then denotes env x else denotes env y))"
| "denotes env v = (case known env v of Some k \<Rightarrow> map_option uint k | None \<Rightarrow> None)"
| "denotes_indices env [] = Some 0"
| "denotes_indices env ((operand, bits, s) # ixs) =
     (case denotes env operand of None \<Rightarrow> None
      | Some k \<Rightarrow>
         (case (reference_stride s bits k, denotes_indices env ixs) of
            (Some a, Some b) \<Rightarrow> Some (a + b)
          | _ \<Rightarrow> None))"

definition known_fits :: "Env \<Rightarrow> nat \<Rightarrow> Value \<Rightarrow> bool" where
  "known_fits env w v \<longleftrightarrow> (case known env v of Some (Some k) \<Rightarrow> fits_in w k | _ \<Rightarrow> True)"

fun is_const_ptr :: "Value \<Rightarrow> bool" where
  "is_const_ptr (ConstIntToPtr v) = True"
| "is_const_ptr _ = False"

text \<open>
  The widths of an expression agree, as LLVM's verifier demands, pointers have 64 bits, and a constant
  pointer has no other pointer cast in front of it (LLVM folds the two).
\<close>

fun typed :: "Env \<Rightarrow> nat \<Rightarrow> Value \<Rightarrow> bool"
  and typed_indices :: "Env \<Rightarrow> (Value \<times> nat \<times> Stride) list \<Rightarrow> bool" where
  "typed env w (ConstantInt b c) \<longleftrightarrow> b = w \<and> w \<in> {1..64} \<and> known_fits env w (ConstantInt b c) \<and> fits_in w c"
| "typed env w (ConstIntToPtr v) \<longleftrightarrow> w = 64 \<and> typed env 64 v \<and> \<not> is_const_ptr v"
| "typed env w (Binary i oper b x y) \<longleftrightarrow>
     b = w \<and> w \<in> {1..64} \<and> known_fits env w (Binary i oper b x y) \<and> typed env w x \<and> typed env w y"
| "typed env w (Cast i c from_bits to_bits x) \<longleftrightarrow>
     to_bits = w \<and> w \<in> {1..64} \<and> known_fits env w (Cast i c from_bits to_bits x) \<and> typed env from_bits x \<and>
     (c = IntToPtr \<or> c = PtrToInt \<longrightarrow> from_bits = 64 \<and> to_bits = 64 \<and> \<not> is_const_ptr x)"
| "typed env w (GEP i inst p ixs) \<longleftrightarrow> w = 64 \<and> typed env 64 p \<and> typed_indices env ixs"
| "typed env w (ICmp i q b x y) \<longleftrightarrow> w = 1 \<and> known_fits env 1 (ICmp i q b x y) \<and> typed env b x \<and> typed env b y"
| "typed env w (Select i c x y) \<longleftrightarrow>
     w \<in> {1..64} \<and> known_fits env w (Select i c x y) \<and> typed env 1 c \<and> typed env w x \<and> typed env w y"
| "typed env w v \<longleftrightarrow> w \<in> {1..64} \<and> known_fits env w v"
| "typed_indices env [] \<longleftrightarrow> True"
| "typed_indices env ((operand, bits, s) # ixs) \<longleftrightarrow> typed env bits operand \<and> typed_indices env ixs"

fun height :: "Value \<Rightarrow> nat" and height_indices :: "(Value \<times> nat \<times> Stride) list \<Rightarrow> nat" where
  "height (ConstIntToPtr v) = height v + 1"
| "height (Binary i oper b x y) = max (height x) (height y) + 1"
| "height (Cast i c from_bits to_bits x) = height x + 1"
| "height (GEP i inst p ixs) = max (height p) (height_indices ixs) + 1"
| "height (ICmp i q b x y) = max (height x) (height y) + 1"
| "height (Select i c x y) = max (height c) (max (height x) (height y)) + 1"
| "height v = 0"
| "height_indices [] = 0"
| "height_indices ((operand, bits, s) # ixs) = max (height operand) (height_indices ixs)"

text \<open>The index and the load are what the search for them ends at: no pointer cast in front.\<close>

definition env_ok :: "Env \<Rightarrow> bool" where
  "env_ok env \<longleftrightarrow> Strip (env_index env) = env_index env \<and>
     (case env_load env of None \<Rightarrow> True | Some l \<Rightarrow> Strip l = l)"

text \<open>One node of an expression, past its pointer cast.\<close>

definition node :: "nat \<Rightarrow> Env \<Rightarrow> Value \<Rightarrow> u64 option" where
  "node left env v =
     (case known env v of Some k \<Rightarrow> k | None \<Rightarrow>
        case v of
           ConstantInt b c \<Rightarrow> Some c
         | GEP i inst p ixs \<Rightarrow>
             (case Evaluate left env p of
                None \<Rightarrow> None
              | Some base \<Rightarrow> eval_gep (\<lambda>operand. Evaluate left env operand) ixs base)
         | Cast i c from_bits to_bits x \<Rightarrow> map_option (eval_cast c from_bits to_bits) (Evaluate left env x)
         | Binary i oper b x y \<Rightarrow>
             (case (Evaluate left env x, Evaluate left env y) of
                (Some p, Some q) \<Rightarrow> eval_binary oper b p q
              | _ \<Rightarrow> None)
         | ICmp i pred b x y \<Rightarrow>
             (case (Evaluate left env x, Evaluate left env y) of
                (Some p, Some q) \<Rightarrow> eval_icmp pred b p q
              | _ \<Rightarrow> None)
         | Select i c x y \<Rightarrow>
             (case Evaluate left env c of
                None \<Rightarrow> None
              | Some cond \<Rightarrow> Evaluate left env (if cond \<noteq> 0 then x else y))
         | _ \<Rightarrow> None)"

lemma Evaluate_node: "Evaluate (Suc left) env v = node left env (Strip v)"
  by (cases "Strip v = env_index env"; cases "Some (Strip v) = env_load env") (simp_all add: node_def known_def Let_def)

lemma known_cast: "env_ok env \<Longrightarrow> Strip v \<noteq> v \<Longrightarrow> known env v = None"
  by (auto simp: env_ok_def known_def split: option.splits)

definition matches :: "Env \<Rightarrow> nat \<Rightarrow> int \<Rightarrow> u64 option \<Rightarrow> bool" where
  "matches env w r res \<longleftrightarrow> (\<exists>c. res = Some c \<and> uint c = r \<and> fits_in w c)"

definition node_ok :: "Env \<Rightarrow> Value \<Rightarrow> bool" where
  "node_ok env v \<longleftrightarrow> (\<forall>left w r. \<not> is_const_ptr v \<longrightarrow> typed env w v \<longrightarrow> denotes env v = Some r \<longrightarrow> height v \<le> left \<longrightarrow> matches env w r (node left env v))"

definition value_ok :: "Env \<Rightarrow> Value \<Rightarrow> bool" where
  "value_ok env v \<longleftrightarrow> (\<forall>n w r. typed env w v \<longrightarrow> denotes env v = Some r \<longrightarrow> height v < n \<longrightarrow> matches env w r (Evaluate n env v))"

lemma fits_64 [simp]: "fits_in 64 a"
  using unsigned_less [of a, where 'a = int] by (simp add: fits_in_def)

lemma typed_width: "typed env w v \<Longrightarrow> w \<in> {1..64}"
  by (cases v) auto

lemma denotes_Strip:
  assumes "env_ok env" and "denotes env v = Some r" and "typed env w v" and "Strip v \<noteq> v \<Longrightarrow> value_ok env (Strip v)"
  shows "denotes env (Strip v) = Some r \<and> typed env w (Strip v) \<and> height (Strip v) \<le> height v \<and> \<not> is_const_ptr (Strip v)"
proof (cases "Strip v = v")
  case True
  then have "\<not> is_const_ptr v" by (cases v) (auto dest: arg_cong [of _ _ size])
  with True show ?thesis using assms by simp
next
  case False
  note k = known_cast [OF assms(1) False]
  show ?thesis
  proof (cases v)
    case (Cast i c f t x)
    with False have c: "c = IntToPtr \<or> c = PtrToInt" by (auto split: if_splits)
    then have w: "f = 64" "t = 64" "w = 64" and x: "typed env 64 x" "Strip v = x" "\<not> is_const_ptr x" using assms(3) Cast by auto
    obtain s where s: "denotes env x = Some s" "r = s mod 2 ^ 64"
      using assms(2) k Cast c w by (auto simp: reference_cast_def)
    have "matches env 64 s (Evaluate (Suc (height x)) env x)"
      using assms(4) [OF False] s x by (simp add: value_ok_def del: Evaluate.simps)
    then obtain u :: u64 where "uint u = s" by (auto simp: matches_def)
    moreover have "uint u < 2 ^ 64" using fits_64 [of u] by (simp add: fits_in_def)
    ultimately have "s mod 2 ^ 64 = s" by (intro mod_pos_pos_trivial) auto
    with s x w Cast show ?thesis by simp
  qed (use False assms k in auto)
qed

lemma value_ok_node:
  assumes "env_ok env" and "node_ok env v" and "Strip v \<noteq> v \<Longrightarrow> node_ok env (Strip v) \<and> value_ok env (Strip v)"
  shows "value_ok env v"
  unfolding value_ok_def
proof (intro allI impI)
  fix n w r
  assume a: "typed env w v" "denotes env v = Some r" "height v < n"
  then obtain left where n: "n = Suc left" "height v \<le> left" by (cases n) auto
  have "node_ok env (Strip v)" using assms(2,3) by (cases "Strip v = v") auto
  with denotes_Strip [OF assms(1) a(2,1)] assms(3) n show "matches env w r (Evaluate n env v)"
    unfolding node_ok_def n(1) Evaluate_node by (meson le_trans)
qed

lemma node_known: "known env v = Some k \<Longrightarrow> known_fits env w v \<Longrightarrow> map_option uint k = Some r \<Longrightarrow> matches env w r (node left env v)"
  by (auto simp: node_def matches_def known_fits_def)

lemma matchesD:
  assumes "value_ok env v" and "typed env w v" and "denotes env v = Some r" and "height v < n"
  obtains c where "Evaluate n env v = Some c" and "uint c = r" and "fits_in w c"
  using assms unfolding value_ok_def matches_def by blast

lemma fits_masked: "fits_in w (a AND width_mask w)"
  by (simp add: fits_in_def uint_and_mask)

declare Evaluate.simps [simp del]

lemma fits_1: "fits_in 1 (of_bool64 q)" "fits_in (Suc 0) (of_bool64 q)" "uint (of_bool64 q) = of_bool q"
  by (simp_all add: fits_in_def of_bool64_def)

lemma node_binary:
  assumes "value_ok env x" and "value_ok env y"
  shows "node_ok env (Binary i oper b x y)"
  unfolding node_ok_def
proof (intro allI impI)
  fix left w r
  assume a: "typed env w (Binary i oper b x y)" "denotes env (Binary i oper b x y) = Some r" "height (Binary i oper b x y) \<le> left"
  show "matches env w r (node left env (Binary i oper b x y))"
  proof (cases "known env (Binary i oper b x y)")
    case (Some k)
    then show ?thesis using a by (intro node_known) auto
  next
    case None
    with a(2) obtain p q where d: "denotes env x = Some p" "denotes env y = Some q" "defined_binary oper b q"
      "r = reference_binary oper b p q" by (auto split: option.splits if_splits)
    from a(1,3) have t: "typed env w x" "typed env w y" "height x < left" "height y < left" "b = w" "w \<in> {1..64}" by auto
    obtain c e where c: "Evaluate left env x = Some c" "uint c = p" "fits_in w c"
      and e: "Evaluate left env y = Some e" "uint e = q" "fits_in w e"
      using matchesD [OF assms(1) t(1) d(1) t(3)] matchesD [OF assms(2) t(2) d(2) t(4)] by metis
    obtain f where f: "eval_binary oper w c e = Some f" "fits_in w f"
    proof -
      have "\<exists>f. eval_binary oper w c e = Some f \<and> f AND width_mask w = f"
        using d(3) fits_mask [OF c(3)] fits_mask [OF e(3)]
        by (cases oper) (auto simp: defined_binary_def and.assoc and_width_mask)
      then show ?thesis using that fits_masked by metis
    qed
    have "uint f = reference_binary oper w (uint c) (uint e)"
      using eval_binary_reference [OF _ _ c(3) e(3) _ f(1)] t(6) d(3) c(2) e(2) by (auto simp: defined_binary_def t(5))
    then show ?thesis using None c e f d(4) t(5) by (simp add: node_def matches_def)
  qed
qed

lemma node_cast:
  assumes "value_ok env x"
  shows "node_ok env (Cast i c f t x)"
  unfolding node_ok_def
proof (intro allI impI)
  fix left w r
  assume a: "typed env w (Cast i c f t x)" "denotes env (Cast i c f t x) = Some r" "height (Cast i c f t x) \<le> left"
  show "matches env w r (node left env (Cast i c f t x))"
  proof (cases "known env (Cast i c f t x)")
    case (Some k)
    then show ?thesis using a by (intro node_known) auto
  next
    case None
    with a(2) obtain p where d: "denotes env x = Some p" "r = reference_cast c f t p" by auto
    from a(1,3) have t: "typed env f x" "height x < left" "t = w" "w \<in> {1..64}" by auto
    obtain u where u: "Evaluate left env x = Some u" "uint u = p" "fits_in f u"
      by (rule matchesD [OF assms t(1) d(1) t(2)])
    have "uint (eval_cast c f t u) = reference_cast c f t (uint u)"
      using typed_width [OF t(1)] t(3,4) u(3) by (intro eval_cast_reference) auto
    moreover have "fits_in w (eval_cast c f t u)" by (simp add: eval_cast_def t(3) fits_masked and.assoc [symmetric])
    ultimately show ?thesis using None u d by (simp add: node_def matches_def)
  qed
qed

lemma node_icmp:
  assumes "value_ok env x" and "value_ok env y"
  shows "node_ok env (ICmp i q b x y)"
  unfolding node_ok_def
proof (intro allI impI)
  fix left w r
  assume a: "typed env w (ICmp i q b x y)" "denotes env (ICmp i q b x y) = Some r" "height (ICmp i q b x y) \<le> left"
  show "matches env w r (node left env (ICmp i q b x y))"
  proof (cases "known env (ICmp i q b x y)")
    case (Some k)
    then show ?thesis using a by (intro node_known) auto
  next
    case None
    with a(2) obtain p s where d: "denotes env x = Some p" "denotes env y = Some s" "q \<noteq> OtherPred"
      "r = of_bool (reference_icmp q b p s)" by (auto split: option.splits if_splits)
    from a(1,3) have t: "typed env b x" "typed env b y" "height x < left" "height y < left" "w = 1" by auto
    obtain c e where c: "Evaluate left env x = Some c" "uint c = p" "fits_in b c"
      and e: "Evaluate left env y = Some e" "uint e = s" "fits_in b e"
      using matchesD [OF assms(1) t(1) d(1) t(3)] matchesD [OF assms(2) t(2) d(2) t(4)] by metis
    obtain z where z: "eval_icmp q b c e = Some (of_bool64 z)" using d(3) by (cases q) auto
    have "z = reference_icmp q b (uint c) (uint e)"
      using eval_icmp_reference [OF _ _ c(3) e(3) z] typed_width [OF t(1)] by (auto simp: of_bool64_def split: if_splits)
    then show ?thesis using None c e z d(4) t(5) by (simp add: node_def matches_def fits_1)
  qed
qed

lemma node_select:
  assumes "value_ok env c" and "value_ok env x" and "value_ok env y"
  shows "node_ok env (Select i c x y)"
  unfolding node_ok_def
proof (intro allI impI)
  fix left w r
  assume a: "typed env w (Select i c x y)" "denotes env (Select i c x y) = Some r" "height (Select i c x y) \<le> left"
  show "matches env w r (node left env (Select i c x y))"
  proof (cases "known env (Select i c x y)")
    case (Some k)
    then show ?thesis using a by (intro node_known) auto
  next
    case None
    with a(2) obtain p where d: "denotes env c = Some p" "denotes env (if p \<noteq> 0 then x else y) = Some r"
      by (auto split: option.splits if_splits)
    from a(1,3) have t: "typed env 1 c" "typed env w (if p \<noteq> 0 then x else y)" "height c < left" "height (if p \<noteq> 0 then x else y) < left" by auto
    obtain u where u: "Evaluate left env c = Some u" "uint u = p" by (rule matchesD [OF assms(1) t(1) d(1) t(3)])
    have "value_ok env (if p \<noteq> 0 then x else y)" using assms by simp
    then obtain e where e: "Evaluate left env (if p \<noteq> 0 then x else y) = Some e" "uint e = r" "fits_in w e"
      by (rule matchesD [OF _ t(2) d(2) t(4)])
    have "p \<noteq> 0 \<longleftrightarrow> u \<noteq> 0" using u(2) uint_0_iff [of u] by simp
    then show ?thesis using None u e by (simp add: node_def matches_def)
  qed
qed

definition indices_ok :: "Env \<Rightarrow> (Value \<times> nat \<times> Stride) list \<Rightarrow> bool" where
  "indices_ok env ixs \<longleftrightarrow> (\<forall>left off address. typed_indices env ixs \<longrightarrow> denotes_indices env ixs = Some off \<longrightarrow>
     height_indices ixs < left \<longrightarrow>
     (\<exists>u. eval_gep (\<lambda>operand. Evaluate left env operand) ixs address = Some u \<and> uint u = (uint address + off) mod 2 ^ 64))"

lemma uint_add_64: "uint (a + b :: u64) = (uint a + uint b) mod 2 ^ 64"
  by (simp add: uint_word_ariths)

lemma uint_mod_64 [simp]: "uint (a :: u64) mod 2 ^ 64 = uint a"
  using fits_64 [of a] by (intro mod_pos_pos_trivial) (auto simp: fits_in_def)

lemma stride_offset_reference:
  assumes "reference_stride s bits (uint k) = Some off" and "fits_in bits k" and "bits \<in> {1..64}"
  shows "uint (stride_offset s bits k) = off mod 2 ^ 64"
proof (cases s)
  case (Fields offs)
  then show ?thesis using assms(1) by (auto simp: reference_stride_def stride_offset_def nat_uint split: if_splits) (use uint_mod_64 in simp)
next
  case (Element size)
  have "uint (SignExtend64 k bits * size) = (uint (SignExtend64 k bits) * uint size) mod 2 ^ 64"
    by (simp add: uint_word_ariths)
  also have "\<dots> = (sint (SignExtend64 k bits) * sint size) mod 2 ^ 64"
    using uint_sint_mod [of 64 "SignExtend64 k bits"] uint_sint_mod [of 64 size] by (intro mod_mult_cong) simp_all
  also have "sint (SignExtend64 k bits) = signed_value bits (uint k)"
    using assms(2,3) by (intro sint_SignExtend64) auto
  finally show ?thesis using assms(1) Element by (simp add: reference_stride_def stride_offset_def)
qed

lemma indices_ok_Cons:
  assumes "value_ok env operand" and "indices_ok env ixs"
  shows "indices_ok env ((operand, bits, s) # ixs)"
  unfolding indices_ok_def
proof (intro allI impI)
  fix left off address
  assume a: "typed_indices env ((operand, bits, s) # ixs)" "denotes_indices env ((operand, bits, s) # ixs) = Some off"
    "height_indices ((operand, bits, s) # ixs) < left"
  then obtain k p q where d: "denotes env operand = Some k" "reference_stride s bits k = Some p"
      "denotes_indices env ixs = Some q" "off = p + q"
    by (auto split: option.splits)
  from a(1,3) have t: "typed env bits operand" "height operand < left" "typed_indices env ixs" "height_indices ixs < left" by auto
  obtain u where u: "Evaluate left env operand = Some u" "uint u = k" "fits_in bits u"
    by (rule matchesD [OF assms(1) t(1) d(1) t(2)])
  obtain v where v: "eval_gep (\<lambda>operand. Evaluate left env operand) ixs (address + stride_offset s bits u) = Some v"
      "uint v = (uint (address + stride_offset s bits u) + q) mod 2 ^ 64"
    using assms(2) t(3,4) d(3) unfolding indices_ok_def by blast
  have "uint (stride_offset s bits u) = p mod 2 ^ 64"
    using d(2) u(2,3) typed_width [OF t(1)] by (intro stride_offset_reference) auto
  then have "uint v = (uint address + off) mod 2 ^ 64"
    unfolding v(2) uint_add_64 d(4) by (simp add: mod_simps add.assoc)
  then show "\<exists>w. eval_gep (\<lambda>operand. Evaluate left env operand) ((operand, bits, s) # ixs) address = Some w \<and>
      uint w = (uint address + off) mod 2 ^ 64"
    using u(1) v(1) by simp
qed

lemma node_gep:
  assumes "value_ok env p" and "indices_ok env ixs"
  shows "node_ok env (GEP i inst p ixs)"
  unfolding node_ok_def
proof (intro allI impI)
  fix left w r
  assume a: "typed env w (GEP i inst p ixs)" "denotes env (GEP i inst p ixs) = Some r" "height (GEP i inst p ixs) \<le> left"
  show "matches env w r (node left env (GEP i inst p ixs))"
  proof (cases "known env (GEP i inst p ixs)")
    case (Some k)
    then show ?thesis using a by (intro node_known) (auto simp: known_fits_def)
  next
    case None
    with a(2) obtain base off where d: "denotes env p = Some base" "denotes_indices env ixs = Some off"
      "r = (base + off) mod 2 ^ 64" by (auto split: option.splits if_splits)
    from a(1,3) have t: "typed env 64 p" "typed_indices env ixs" "height p < left" "height_indices ixs < left" "w = 64" by auto
    obtain u where u: "Evaluate left env p = Some u" "uint u = base" by (rule matchesD [OF assms(1) t(1) d(1) t(3)])
    obtain v where "eval_gep (\<lambda>operand. Evaluate left env operand) ixs u = Some v" "uint v = (uint u + off) mod 2 ^ 64"
      using assms(2) t(2,4) d(2) unfolding indices_ok_def by blast
    then show ?thesis using None u d(3) t(5) by (simp add: node_def matches_def)
  qed
qed

lemma node_leaf:
  assumes "\<And>w. typed env w v \<Longrightarrow> known_fits env w v" and "\<And>r w. known env v = None \<Longrightarrow> denotes env v = Some r \<Longrightarrow> typed env w v \<Longrightarrow> matches env w r (node 0 env v)"
    and "denotes env v = (case known env v of Some k \<Rightarrow> map_option uint k | None \<Rightarrow> denotes env v)" and "\<And>left. node left env v = node 0 env v"
  shows "node_ok env v"
  unfolding node_ok_def
proof (intro allI impI)
  fix left w r
  assume a: "typed env w v" "denotes env v = Some r" "height v \<le> left"
  show "matches env w r (node left env v)"
  proof (cases "known env v")
    case None
    then show ?thesis using assms(2) [OF None a(2,1)] assms(4) [of left] by simp
  next
    case (Some k)
    then show ?thesis using a assms(1,3) by (intro node_known) auto
  qed
qed

lemma node_leaves:
  "node_ok env (ConstantInt b c)" "node_ok env (Load i p b)" "node_ok env (Instruction i)" "node_ok env (Argument i)" "node_ok env (Opaque i)"
  by (rule node_leaf; auto simp: node_def matches_def split: option.split)+

lemma value_ok_plain: "env_ok env \<Longrightarrow> Strip v = v \<Longrightarrow> node_ok env v \<Longrightarrow> value_ok env v"
  by (rule value_ok_node) auto

lemma value_ok_ConstIntToPtr:
  assumes "env_ok env" and "node_ok env v" and "value_ok env v"
  shows "value_ok env (ConstIntToPtr v)"
  by (rule value_ok_node [OF assms(1)]) (use assms in \<open>auto simp: node_ok_def\<close>)

lemma value_ok_Cast:
  assumes "env_ok env" and "node_ok env x" and "value_ok env x"
  shows "value_ok env (Cast i c f t x)"
  by (rule value_ok_node [OF assms(1)]) (use assms node_cast [OF assms(3)] in \<open>auto split: if_splits\<close>)

lemma all_ok:
  assumes env: "env_ok env"
  shows "node_ok env v \<and> value_ok env v" and "indices_ok env ixs"
proof (induction v and ixs rule: height_height_indices.induct)
  case (1 v)
  then show ?case using value_ok_ConstIntToPtr [OF env] by (auto simp: node_ok_def)
next
  case (2 i oper b x y)
  then have "node_ok env (Binary i oper b x y)" by (intro node_binary) auto
  then show ?case using value_ok_plain [OF env] by auto
next
  case (3 i c f t x)
  then show ?case using value_ok_Cast [OF env] node_cast by auto
next
  case (4 i inst p ixs)
  then have "node_ok env (GEP i inst p ixs)" by (intro node_gep) auto
  then show ?case using value_ok_plain [OF env] by auto
next
  case (5 i q b x y)
  then have "node_ok env (ICmp i q b x y)" by (intro node_icmp) auto
  then show ?case using value_ok_plain [OF env] by auto
next
  case (6 i c x y)
  then have "node_ok env (Select i c x y)" by (intro node_select) auto
  then show ?case using value_ok_plain [OF env] by auto
next
  case 8
  then show ?case using uint_mod_64 by (simp add: indices_ok_def)
next
  case (9 operand bits s ixs)
  then show ?case using indices_ok_Cons by auto
qed (use node_leaves value_ok_plain [OF env] in auto)

text \<open>
  C22: The evaluator of table expressions computes what the expression means. For an expression whose widths agree, with no
  shift past its width and no field out of range, and no higher than the depth bound, the value returned is the value of
  the expression over the integers, reduced to its width, the index and the load standing for their values.
\<close>

theorem Evaluate_denotes:
  assumes "env_ok env" and "typed env w v" and "denotes env v = Some r" and "height v \<le> 16"
  shows "\<exists>c. Evaluate 17 env v = Some c \<and> uint c = r \<and> uint c < 2 ^ w"
proof -
  have "value_ok env v" using all_ok(1) [OF assms(1)] by blast
  from matchesD [OF this assms(2,3), of 17] assms(4) show ?thesis by (auto simp: fits_in_def)
qed

definition sample_load :: Value where
  "sample_load = Load 1 (GEP 2 True (ConstantInt 64 0x2000) [(Argument 0, 64, Element 4)]) 32"

definition sample_env :: Env where
  "sample_env = \<lparr>env_index = Argument 0, env_index_value = 3, env_load = Some sample_load, env_loaded = Some 0xFFFFFFF0\<rparr>"

text \<open>The offset -16 read at index 3, scaled by 4 and added to the base 4096.\<close>

definition sample_pc :: Value where
  "sample_pc = Cast 3 IntToPtr 64 64 (Binary 4 Add 64 (ConstantInt 64 0x1000)
     (Binary 5 Shl 64 (Cast 6 SExt 32 64 sample_load) (ConstantInt 64 2)))"

theorem Evaluate_denotes_witness: "\<exists>c. Evaluate 17 sample_env sample_pc = Some c \<and> uint c = 4032 \<and> uint c < 2 ^ 64"
proof (rule Evaluate_denotes)
  show "env_ok sample_env" by (simp add: env_ok_def sample_env_def sample_load_def)
  show "typed sample_env 64 sample_pc"
    by (simp add: sample_env_def sample_load_def sample_pc_def known_fits_def known_def fits_in_def)
  show "denotes sample_env sample_pc = Some 4032"
    by (simp add: sample_env_def sample_load_def sample_pc_def known_def reference_cast_def signed_value_def defined_binary_def)
  show "height sample_pc \<le> 16"
    by (simp add: sample_pc_def sample_load_def)
qed

end
