(* ===== verification/Lifting_Facts.thy ===== *)
theory Lifting_Facts
  imports JumpTables_Facts
begin

text \<open>
  The loop of \<open>main\<close> that lifts the functions of the program and the targets of their jump tables, against
  its outcome: it ends, with every function lifted once or counted once as a failure, and no target of a jump
  table left out.
\<close>

section \<open>One function\<close>

definition new_targets :: "lifting \<Rightarrow> u64 list \<Rightarrow> u64 set \<Rightarrow> u64 \<Rightarrow> u64 set" where
  "new_targets lift starts funcs a =
     (case lift a of None \<Rightarrow> {} | Some (name, targets) \<Rightarrow> set (targets (Owner starts a)) - funcs)"

lemma discover_targets:
  defines "f \<equiv> \<lambda>target st. if target \<notin> set (lf_functions st) \<and> map_of (lf_lifted st) target = None
                          then st\<lparr>lf_discovered := oset_insert target (lf_discovered st)\<rparr> else st"
  shows "lf_functions (fold f ts st) = lf_functions st \<and> lf_lifted (fold f ts st) = lf_lifted st \<and>
    lf_failures (fold f ts st) = lf_failures st \<and>
    set (lf_discovered (fold f ts st)) = set (lf_discovered st) \<union> (set ts - set (lf_functions st) - dom (map_of (lf_lifted st))) \<and>
    (oset_ok (lf_discovered st) \<longrightarrow> oset_ok (lf_discovered (fold f ts st)))"
proof (induction ts arbitrary: st)
  case Nil
  then show ?case by simp
next
  case (Cons t ts)
  show ?case using Cons.IH [of "f t st"] by (auto simp: f_def domIff)
qed

lemma lift_one_effect:
  assumes "dom (map_of (lf_lifted st)) \<subseteq> set (lf_functions st)" and "a \<in> set (lf_functions st)"
  shows "lf_functions (lift_one lift starts a st) = lf_functions st \<and>
    map_of (lf_lifted (lift_one lift starts a st)) =
      (case lift a of None \<Rightarrow> map_of (lf_lifted st) | Some r \<Rightarrow> (map_of (lf_lifted st))(a \<mapsto> fst r)) \<and>
    lf_failures (lift_one lift starts a st) = lf_failures st + (if lift a = None then 1 else 0) \<and>
    set (lf_discovered (lift_one lift starts a st)) = set (lf_discovered st) \<union> new_targets lift starts (set (lf_functions st)) a \<and>
    (oset_ok (lf_discovered st) \<longrightarrow> oset_ok (lf_discovered (lift_one lift starts a st)))"
proof (cases "lift a")
  case None
  then show ?thesis by (simp add: lift_one_def new_targets_def)
next
  case (Some r)
  obtain name targets where r: "r = (name, targets)" by (cases r)
  show ?thesis
    using discover_targets [of "targets (Owner starts a)" "st\<lparr>lf_lifted := omap_set a name (lf_lifted st)\<rparr>"] assms Some r
    by (auto simp: lift_one_def new_targets_def Let_def)
qed

section \<open>A round\<close>

text \<open>The functions already visited are lifted or failed, and their targets are functions.\<close>

definition visited_ok :: "lifting \<Rightarrow> u64 list \<Rightarrow> u64 set \<Rightarrow> Lifting \<Rightarrow> bool" where
  "visited_ok lift starts seen st \<longleftrightarrow> seen \<subseteq> set (lf_functions st) \<and>
     map_of (lf_lifted st) = (\<lambda>a. if a \<in> seen then map_option fst (lift a) else None) \<and>
     lf_failures st = card {a \<in> seen. lift a = None}"

lemma lift_one_visited:
  assumes "visited_ok lift starts seen st" and "a \<in> set (lf_functions st)" and "a \<notin> seen"
  shows "visited_ok lift starts (insert a seen) (lift_one lift starts a st)"
proof -
  have d: "dom (map_of (lf_lifted st)) \<subseteq> set (lf_functions st)"
    using assms(1) by (auto simp: visited_ok_def dom_def split: if_splits)
  have fin: "finite {b \<in> seen. lift b = None}" by (rule finite)
  have "{b \<in> insert a seen. lift b = None} =
      (if lift a = None then insert a {b \<in> seen. lift b = None} else {b \<in> seen. lift b = None})" by auto
  then have "card {b \<in> insert a seen. lift b = None} = card {b \<in> seen. lift b = None} + (if lift a = None then 1 else 0)"
    using assms(3) fin by simp
  with lift_one_effect [OF d assms(2), of lift starts] assms show ?thesis
    by (auto simp: visited_ok_def fun_eq_iff split: option.split)
qed

lemma lift_pending:
  "visited_ok lift starts seen st \<Longrightarrow> set pending \<subseteq> set (lf_functions st) \<Longrightarrow> distinct pending \<Longrightarrow>
   set pending \<inter> seen = {} \<Longrightarrow>
   visited_ok lift starts (seen \<union> set pending) (fold (lift_one lift starts) pending st) \<and>
   lf_functions (fold (lift_one lift starts) pending st) = lf_functions st \<and>
   set (lf_discovered (fold (lift_one lift starts) pending st)) =
     set (lf_discovered st) \<union> (\<Union>a \<in> set pending. new_targets lift starts (set (lf_functions st)) a) \<and>
   (oset_ok (lf_discovered st) \<longrightarrow> oset_ok (lf_discovered (fold (lift_one lift starts) pending st)))"
proof (induction pending arbitrary: seen st)
  case Nil
  then show ?case by simp
next
  case (Cons a pending)
  have d: "dom (map_of (lf_lifted st)) \<subseteq> set (lf_functions st)"
    using Cons.prems(1) by (auto simp: visited_ok_def dom_def split: if_splits)
  have a: "a \<in> set (lf_functions st)" using Cons.prems(2) by simp
  note e = lift_one_effect [OF d a, of lift starts]
  have v: "visited_ok lift starts (insert a seen) (lift_one lift starts a st)"
    using lift_one_visited [OF Cons.prems(1) a] Cons.prems(4) by simp
  show ?case
    using Cons.IH [OF v] Cons.prems(2-4) e by (auto simp: insert_commute)
qed

text \<open>What holds in front of a round: everything but the pending functions is done, and closed.\<close>

definition round_inv :: "lifting \<Rightarrow> u64 list \<Rightarrow> u64 list \<Rightarrow> Lifting \<Rightarrow> bool" where
  "round_inv lift starts pending st \<longleftrightarrow> oset_ok (lf_functions st) \<and> oset_ok pending \<and>
     set pending \<subseteq> set (lf_functions st) \<and>
     visited_ok lift starts (set (lf_functions st) - set pending) st \<and>
     (\<forall>a \<in> set (lf_functions st) - set pending. new_targets lift starts (set (lf_functions st)) a = {})"

lemma lift_round_inv:
  assumes "round_inv lift starts pending st"
  shows "round_inv lift starts (lf_discovered (lift_round lift starts pending st)) (lift_round lift starts pending st) \<and>
    set (lf_functions (lift_round lift starts pending st)) =
      set (lf_functions st) \<union> set (lf_discovered (lift_round lift starts pending st)) \<and>
    set (lf_discovered (lift_round lift starts pending st)) \<inter> set (lf_functions st) = {}"
proof -
  let ?F = "set (lf_functions st)" and ?st = "st\<lparr>lf_discovered := []\<rparr>"
  let ?r = "fold (lift_one lift starts) pending ?st"
  have i: "oset_ok (lf_functions st)" "oset_ok pending" "set pending \<subseteq> ?F" "visited_ok lift starts (?F - set pending) ?st"
    "\<forall>a \<in> ?F - set pending. new_targets lift starts ?F a = {}"
    using assms by (auto simp: round_inv_def visited_ok_def)
  have p: "visited_ok lift starts ?F ?r" "lf_functions ?r = lf_functions st"
    "set (lf_discovered ?r) = (\<Union>a \<in> set pending. new_targets lift starts ?F a)" "oset_ok (lf_discovered ?r)"
    using lift_pending [OF i(4), of pending] i(2,3) oset_ok_sorted [OF i(2)]
    by (simp_all add: Un_absorb2 Int_Diff Diff_Int_distrib)
  have fresh: "set (lf_discovered ?r) \<inter> ?F = {}"
    unfolding p(3) by (auto simp: new_targets_def split: option.splits)
  have closed: "new_targets lift starts (?F \<union> set (lf_discovered ?r)) a = {}" if "a \<in> ?F" for a
  proof (cases "a \<in> set pending")
    case True
    then show ?thesis unfolding p(3) by (auto simp: new_targets_def split: option.split)
  next
    case False
    then have "new_targets lift starts ?F a = {}" using that i(5) by simp
    then show ?thesis by (auto simp: new_targets_def split: option.splits)
  qed
  have m: "?F \<union> set (lf_discovered ?r) - set (lf_discovered ?r) = ?F" using fresh by auto
  show ?thesis
    using p i(1) fresh closed m
    by (auto simp: lift_round_def Let_def round_inv_def visited_ok_def Un_commute)
qed

section \<open>The loop ends\<close>

lemma lift_rounds_ends:
  "round_inv lift starts pending st \<Longrightarrow>
   \<exists>st'. lift_rounds lift starts pending st = Some st' \<and> round_inv lift starts [] st' \<and> set (lf_functions st) \<subseteq> set (lf_functions st')"
proof (induction "card (- set (lf_functions st))" arbitrary: pending st rule: less_induct)
  case less
  let ?r = "lift_round lift starts pending st"
  note r = lift_round_inv [OF less.prems]
  show ?case
  proof (cases "pending = [] \<or> lf_discovered ?r = []")
    case True
    then show ?thesis
      using less.prems r by (auto simp: lift_rounds.simps [of lift starts pending] lift_rounds.simps [of lift starts "[]"])
  next
    case False
    then have "- set (lf_functions ?r) \<subset> - set (lf_functions st)"
      using r by (cases "lf_discovered ?r") auto
    then have "card (- set (lf_functions ?r)) < card (- set (lf_functions st))"
      by (intro psubset_card_mono) simp_all
    from less.hyps [OF this conjunct1 [OF r]] False r show ?thesis
      by (auto simp: lift_rounds.simps [of lift starts pending])
  qed
qed

lemma lift_all_ends:
  assumes "oset_ok (prog_functions program)"
  shows "\<exists>st. lift_all lift program = Some st"
proof -
  let ?st = "\<lparr>lf_functions = prog_functions program, lf_lifted = [], lf_failures = 0, lf_discovered = [], lf_log = []\<rparr>"
  have "round_inv lift (prog_functions program) (prog_functions program) ?st"
    using assms by (simp add: round_inv_def visited_ok_def)
  from lift_rounds_ends [OF this] show ?thesis unfolding lift_all_def by blast
qed

section \<open>Properties\<close>

text \<open>
  C20: The lifting loop of the main program ends whatever the jump tables yield, and misses nothing: at its end every
  function it started from is still there, a function is recorded exactly when it could be decoded, every target of
  a jump table of a recorded function is itself a function, and the number of failures is the number of functions that
  could not be decoded, each counted once.
\<close>

theorem lift_all_closes:
  assumes "oset_ok (prog_functions program)"
  shows "\<exists>st. lift_all lift program = Some st \<and> set (prog_functions program) \<subseteq> set (lf_functions st) \<and>
    (\<forall>a. map_of (lf_lifted st) a = (if a \<in> set (lf_functions st) then map_option fst (lift a) else None)) \<and>
    (\<forall>a name targets. a \<in> set (lf_functions st) \<and> lift a = Some (name, targets) \<longrightarrow>
       set (targets (Owner (prog_functions program) a)) \<subseteq> set (lf_functions st)) \<and>
    lf_failures st = card {a \<in> set (lf_functions st). lift a = None}"
proof -
  let ?st = "\<lparr>lf_functions = prog_functions program, lf_lifted = [], lf_failures = 0, lf_discovered = [], lf_log = []\<rparr>"
  have "round_inv lift (prog_functions program) (prog_functions program) ?st"
    using assms by (simp add: round_inv_def visited_ok_def)
  from lift_rounds_ends [OF this] obtain st where
    s: "lift_all lift program = Some st" "round_inv lift (prog_functions program) [] st"
      "set (prog_functions program) \<subseteq> set (lf_functions st)"
    unfolding lift_all_def by auto
  from s(2) have v: "visited_ok lift (prog_functions program) (set (lf_functions st)) st"
    and c: "\<forall>a \<in> set (lf_functions st). new_targets lift (prog_functions program) (set (lf_functions st)) a = {}"
    by (simp_all add: round_inv_def)
  from c have "\<forall>a name targets. a \<in> set (lf_functions st) \<and> lift a = Some (name, targets) \<longrightarrow>
      set (targets (Owner (prog_functions program) a)) \<subseteq> set (lf_functions st)"
    by (fastforce simp: new_targets_def)
  with s v show ?thesis by (auto simp: visited_ok_def)
qed

definition sample_lifting :: lifting where
  "sample_lifting a = (if a = 0x1000 then Some (''dispatch'', \<lambda>start. [start + 0x40, start + 0x80])
     else if a = 0x1040 then Some (''case0'', \<lambda>_. []) else None)"

definition sample_program :: Program where
  "sample_program = (new_program [])\<lparr>prog_functions := [0x1000]\<rparr>"

text \<open>A function with two targets, one of which cannot be decoded.\<close>

theorem lift_all_closes_witness:
  "\<exists>st. lift_all sample_lifting sample_program = Some st \<and> map_of (lf_lifted st) 0x1040 = Some ''case0'' \<and> 0 < lf_failures st"
proof -
  have ok: "oset_ok (prog_functions sample_program)" by (simp add: sample_program_def oset_ok_def)
  obtain st where st: "lift_all sample_lifting sample_program = Some st"
    "set (prog_functions sample_program) \<subseteq> set (lf_functions st)"
    "\<forall>a. map_of (lf_lifted st) a = (if a \<in> set (lf_functions st) then map_option fst (sample_lifting a) else None)"
    "\<forall>a name targets. a \<in> set (lf_functions st) \<and> sample_lifting a = Some (name, targets) \<longrightarrow>
       set (targets (Owner (prog_functions sample_program) a)) \<subseteq> set (lf_functions st)"
    "lf_failures st = card {a \<in> set (lf_functions st). sample_lifting a = None}"
    using lift_all_closes [OF ok, of sample_lifting] by blast
  have s: "0x1000 \<in> set (lf_functions st)" using st(2) by (simp add: sample_program_def)
  have "Owner (prog_functions sample_program) 0x1000 = 0x1000" by (simp add: sample_program_def Owner_def)
  with s st(4) have t: "{0x1040, 0x1080} \<subseteq> set (lf_functions st)" by (force simp: sample_lifting_def)
  then have "{0x1080} \<subseteq> {a \<in> set (lf_functions st). sample_lifting a = None}" by (simp add: sample_lifting_def)
  then have "0 < lf_failures st" unfolding st(5) by (subst card_gt_0_iff) auto
  with st(1,3) t show ?thesis by (auto simp: sample_lifting_def)
qed

end
