(* ===== verification/Int128.thy ===== *)
theory Int128
  imports Prelude "HOL-Library.Signed_Division"
begin

text \<open>
  The 128-bit division routines of the guest's runtime library, \<open>runtime/int128.c\<close>: restoring long division
  on \<open>unsigned __int128\<close>, and the signed routines on top of it, against division of integers.
\<close>

section \<open>The routines\<close>

type_synonym u128 = "128 word"

text \<open>
  One round of the loop of \<open>udivmod\<close>, the quotient and the remainder being its state. The bit shifted out of
  the remainder is kept in \<open>carry\<close>.
\<close>

definition udivmod_step :: "u128 \<Rightarrow> u128 \<Rightarrow> nat \<Rightarrow> u128 \<times> u128 \<Rightarrow> u128 \<times> u128" where
  "udivmod_step n d i = (\<lambda>(q, r).
     (let carry = drop_bit 127 r \<noteq> 0;
          r = push_bit 1 r OR (drop_bit i n AND 1)
      in if carry \<or> d \<le> r then (q OR push_bit i 1, r - d) else (q, r)))"

text \<open>A zero divisor traps: \<open>None\<close>.\<close>

definition udivmod :: "u128 \<Rightarrow> u128 \<Rightarrow> (u128 \<times> u128) option" where
  "udivmod n d = (if d = 0 then None else Some (fold (udivmod_step n d) (rev [0..<128]) (0, 0)))"

definition udivti3 :: "u128 \<Rightarrow> u128 \<Rightarrow> u128 option" where
  "udivti3 n d = map_option fst (udivmod n d)"

definition umodti3 :: "u128 \<Rightarrow> u128 \<Rightarrow> u128 option" where
  "umodti3 n d = map_option snd (udivmod n d)"

definition negative :: "u128 \<Rightarrow> bool" where
  "negative n \<longleftrightarrow> sint n < 0"

definition magnitude :: "u128 \<Rightarrow> u128" where
  "magnitude n = (if negative n then - n else n)"

definition divti3 :: "u128 \<Rightarrow> u128 \<Rightarrow> u128 option" where
  "divti3 n d = map_option (\<lambda>(q, r). if negative n \<noteq> negative d then - q else q) (udivmod (magnitude n) (magnitude d))"

definition modti3 :: "u128 \<Rightarrow> u128 \<Rightarrow> u128 option" where
  "modti3 n d = map_option (\<lambda>(q, r). if negative n then - r else r) (udivmod (magnitude n) (magnitude d))"

section \<open>Long division\<close>

text \<open>After the rounds down to bit \<open>i\<close>: the quotient and the remainder of the bits of \<open>n\<close> from \<open>i\<close> up.\<close>

definition udivmod_inv :: "u128 \<Rightarrow> u128 \<Rightarrow> nat \<Rightarrow> u128 \<times> u128 \<Rightarrow> bool" where
  "udivmod_inv n d i = (\<lambda>(q, r). unat q = (unat n div 2 ^ i div unat d) * 2 ^ i \<and> unat r = unat n div 2 ^ i mod unat d)"

lemma unat_128: "unat (w :: u128) < 2 ^ 128"
  using unsigned_less [of w, where 'a = nat] by simp

lemma len128_pow: "(2 :: nat) ^ LENGTH(128) = 2 ^ 128"
  by simp

lemma unat_shift_in:
  fixes r :: u128
  assumes "b < 2"
  shows "unat (push_bit 1 r OR of_nat b) = (2 * unat r + b) mod 2 ^ 128"
proof -
  have "push_bit 1 r OR of_nat b = push_bit 1 r + of_nat b"
  proof (rule disjunctive_add [symmetric])
    fix k
    have "bit (push_bit 1 r) k \<Longrightarrow> 1 \<le> k" by (simp only: bit_push_bit_iff)
    moreover have "bit (of_nat b :: u128) k \<Longrightarrow> k = 0" using assms by (auto simp: less_2_cases_iff bit_1_iff)
    ultimately show "\<not> bit (push_bit 1 r) k \<or> \<not> bit (of_nat b :: u128) k" by auto
  qed
  moreover have "push_bit 1 r = 2 * r" by (simp add: push_bit_eq_mult mult.commute)
  moreover have "(of_nat (2 * unat r + b) :: u128) = 2 * r + of_nat b" by simp
  ultimately have "push_bit 1 r OR of_nat b = of_nat (2 * unat r + b)" by metis
  then show ?thesis by (simp only: unat_of_nat len128_pow)
qed

lemma unat_bit: "unat (drop_bit i (n :: u128) AND 1) = unat n div 2 ^ i mod 2"
proof -
  have "unat (drop_bit i n AND 1) = unat (drop_bit i n) mod 2"
    by (simp add: and_one_eq unat_mod)
  moreover have "unat (drop_bit i n) = unat n div 2 ^ i"
  proof -
    have "take_bit 128 (unat n) = unat n" by (rule take_bit_nat_eq_self) (rule unat_128)
    then show ?thesis by (subst unsigned_drop_bit_eq) (simp add: drop_bit_eq_div)
  qed
  ultimately show ?thesis by metis
qed

lemma set_low_bit:
  fixes q :: u128
  assumes "unat q = k * 2 ^ Suc i" and "i < 128" and "unat q < 2 ^ 128 - 2 ^ i"
  shows "unat (q OR push_bit i 1) = unat q + 2 ^ i"
proof -
  have "q OR push_bit i 1 = q + push_bit i 1"
  proof (rule disjunctive_add [symmetric])
    fix j
    have "\<not> bit (unat q) i" unfolding assms(1) by (simp add: bit_iff_odd)
    then have "\<not> bit q i" by (simp add: bit_unsigned_iff)
    moreover have "bit (push_bit i 1 :: u128) j \<Longrightarrow> j = i"
      by (simp only: bit_push_bit_iff bit_1_iff) simp
    ultimately show "\<not> bit q j \<or> \<not> bit (push_bit i 1 :: u128) j" by auto
  qed
  moreover have "unat (push_bit i 1 :: u128) = 2 ^ i"
    using assms(2) by (subst unsigned_push_bit_eq) (simp add: push_bit_eq_mult take_bit_nat_eq_self)
  ultimately show ?thesis using assms(3) by (simp add: unat_word_ariths)
qed

lemma div_shift_in: "(n :: nat) div 2 ^ i = 2 * (n div 2 ^ Suc i) + n div 2 ^ i mod 2"
proof -
  have "n div 2 ^ Suc i = n div 2 ^ i div 2" by (simp only: power_Suc2 div_mult2_eq)
  then show ?thesis by simp
qed

lemma div_mod_unique: "(m :: nat) = k * d + y \<Longrightarrow> y < d \<Longrightarrow> m div d = k \<and> m mod d = y"
  by simp

lemma udivmod_step_inv:
  assumes inv: "udivmod_inv n d (Suc i) s" and i: "i < 128" and d: "d \<noteq> 0"
  shows "udivmod_inv n d i (udivmod_step n d i s)"
proof -
  obtain q r where s: "s = (q, r)" by (cases s)
  define b where "b = unat n div 2 ^ i mod 2"
  define X where "X = 2 * unat r + b"
  let ?N = "unat n div 2 ^ Suc i" and ?D = "unat d"
  have D: "0 < ?D" "?D < 2 ^ 128" using d unat_128 [of d] by (simp_all add: unat_gt_0)
  have q: "unat q = (?N div ?D * 1) * 2 ^ Suc i" and r: "unat r = ?N mod ?D"
    using inv by (simp_all add: udivmod_inv_def s)
  have N: "unat n div 2 ^ i = ?N div ?D * 2 * ?D + X"
  proof -
    have "?N = ?N div ?D * ?D + unat r" unfolding r by simp
    moreover have "?N div ?D * 2 * ?D = 2 * (?N div ?D * ?D)" by simp
    ultimately show ?thesis unfolding X_def b_def using div_shift_in [of "unat n" i] by linarith
  qed
  have X: "X < 2 * ?D"
  proof -
    have "unat r < ?D" unfolding r using D by simp
    moreover have "b < 2" by (simp add: b_def)
    ultimately show ?thesis unfolding X_def by linarith
  qed
  let ?r = "push_bit 1 r OR (drop_bit i n AND 1)"
  have r': "unat ?r = X mod 2 ^ 128"
  proof -
    have "drop_bit i n AND 1 = of_nat b" unfolding b_def unat_bit [symmetric] by simp
    then show ?thesis using unat_shift_in [of b r] by (simp add: X_def b_def)
  qed
  have carry: "drop_bit 127 r \<noteq> 0 \<longleftrightarrow> 2 ^ 127 \<le> unat r"
  proof -
    have "take_bit 128 (unat r) = unat r" by (rule take_bit_nat_eq_self) (rule unat_128)
    then have "unat (drop_bit 127 r) = unat r div 2 ^ 127" by (subst unsigned_drop_bit_eq) (simp add: drop_bit_eq_div)
    then show ?thesis by (metis div_greater_zero_iff neq0_conv unat_eq_zero zero_less_numeral zero_less_power)
  qed
  have hit: "drop_bit 127 r \<noteq> 0 \<or> d \<le> ?r \<longleftrightarrow> ?D \<le> X"
  proof (cases "2 ^ 127 \<le> unat r")
    case True
    then have "2 ^ 128 \<le> X" by (simp add: X_def)
    with True D carry show ?thesis by simp
  next
    case False
    then have "X < 2 ^ 128" using X_def b_def by simp
    with False carry r' show ?thesis by (simp add: word_le_nat_alt)
  qed
  show ?thesis
  proof (cases "?D \<le> X")
    case False
    then have "?N div ?D * 2 = unat n div 2 ^ i div ?D" "X = unat n div 2 ^ i mod ?D" unfolding N by simp_all
    moreover have "X mod 2 ^ 128 = X" using False D by simp
    moreover have "udivmod_step n d i s = (q, ?r)" using hit False by (simp add: udivmod_step_def s Let_def)
    ultimately show ?thesis using q r' by (simp add: udivmod_inv_def)
  next
    case True
    have Y: "X - ?D < ?D" using X True by simp
    have "unat n div 2 ^ i = (?N div ?D * 2 + 1) * ?D + (X - ?D)" using True unfolding N by (simp add: algebra_simps)
    then have dm: "unat n div 2 ^ i div ?D = ?N div ?D * 2 + 1" "unat n div 2 ^ i mod ?D = X - ?D"
      using div_mod_unique [OF _ Y] by blast+
    have top: "(?N div ?D * 2 + 1) * 2 ^ i \<le> unat n"
    proof -
      have "(?N div ?D * 2 + 1) \<le> unat n div 2 ^ i" unfolding dm(1) [symmetric] by (rule div_le_dividend)
      then have "(?N div ?D * 2 + 1) * 2 ^ i \<le> unat n div 2 ^ i * 2 ^ i" by (rule mult_right_mono) simp
      also have "\<dots> \<le> unat n" by simp
      finally show ?thesis .
    qed
    then have "unat q < 2 ^ 128 - 2 ^ i" using q unat_128 [of n] by (simp add: algebra_simps)
    then have "unat (q OR push_bit i 1) = (?N div ?D * 2 + 1) * 2 ^ i"
      using set_low_bit [OF q i] q by (simp add: algebra_simps)
    moreover have "unat (?r - d) = X - ?D"
    proof -
      have "?r = of_nat X" by (simp only: word_unat_eq_iff r' unat_of_nat len128_pow)
      then have "?r - d = of_nat (X - ?D)" using True by (simp add: of_nat_diff)
      then show ?thesis using Y D by (simp add: unat_of_nat)
    qed
    moreover have "udivmod_step n d i s = (q OR push_bit i 1, ?r - d)" using hit True by (simp add: udivmod_step_def s Let_def)
    ultimately show ?thesis unfolding udivmod_inv_def using dm by simp
  qed
qed

lemma udivmod_steps_inv:
  "udivmod_inv n d k s \<Longrightarrow> k \<le> 128 \<Longrightarrow> d \<noteq> 0 \<Longrightarrow> udivmod_inv n d 0 (fold (udivmod_step n d) (rev [0..<k]) s)"
proof (induction k arbitrary: s)
  case 0
  then show ?case by simp
next
  case (Suc k)
  then show ?case using udivmod_step_inv [of n d k s] by simp
qed

lemma udivmod_nat:
  assumes "d \<noteq> 0"
  obtains q r where "udivmod n d = Some (q, r)" and "unat q = unat n div unat d" and "unat r = unat n mod unat d"
proof -
  have "udivmod_inv n d 128 (0, 0)" using unat_128 [of n] by (simp add: udivmod_inv_def)
  from udivmod_steps_inv [OF this _ assms]
  have inv: "udivmod_inv n d 0 (fold (udivmod_step n d) (rev [0..<128]) (0, 0))" by simp
  obtain q r where "fold (udivmod_step n d) (rev [0..<128]) (0, 0) = (q, r)" by (cases "fold (udivmod_step n d) (rev [0..<128]) (0, 0)")
  with inv assms that show ?thesis by (simp add: udivmod_inv_def udivmod_def)
qed

section \<open>Signed division\<close>

lemma sint_range_128: "- (2 ^ 127) \<le> sint (n :: u128) \<and> sint n < 2 ^ 127"
  using sint_greater_eq [of n] sint_less [of n] by simp

lemma magnitude_abs: "int (unat (magnitude n)) = \<bar>sint n\<bar>"
proof -
  have "magnitude n = word_of_int \<bar>sint n\<bar>"
  proof (cases "negative n")
    case True
    then have "\<bar>sint n\<bar> = - sint n" by (simp add: negative_def)
    then show ?thesis using True by (simp add: magnitude_def)
  next
    case False
    then show ?thesis by (simp add: magnitude_def negative_def)
  qed
  moreover have "\<bar>sint n\<bar> mod 2 ^ 128 = \<bar>sint n\<bar>"
    using sint_range_128 [of n] by (intro mod_pos_pos_trivial) auto
  ultimately show ?thesis by (simp add: uint_word_of_int flip: uint_nat)
qed

lemma magnitude_zero: "magnitude d = 0 \<longleftrightarrow> d = 0"
  by (simp add: magnitude_def)

lemma word_of_unat: "(w :: u128) = word_of_int (int (unat w))"
  by simp

lemma divmod_magnitudes:
  assumes "d \<noteq> 0"
  obtains q r where "udivmod (magnitude n) (magnitude d) = Some (q, r)"
    and "q = word_of_int (\<bar>sint n\<bar> div \<bar>sint d\<bar>)" and "r = word_of_int (\<bar>sint n\<bar> mod \<bar>sint d\<bar>)"
proof -
  obtain q r where qr: "udivmod (magnitude n) (magnitude d) = Some (q, r)"
    "unat q = unat (magnitude n) div unat (magnitude d)" "unat r = unat (magnitude n) mod unat (magnitude d)"
    by (rule udivmod_nat [of "magnitude d" "magnitude n"]) (use assms magnitude_zero in auto)
  have "int (unat q) = \<bar>sint n\<bar> div \<bar>sint d\<bar>" "int (unat r) = \<bar>sint n\<bar> mod \<bar>sint d\<bar>"
    unfolding qr(2,3) zdiv_int zmod_int magnitude_abs by (rule refl)+
  with qr(1) that show ?thesis by (metis word_of_unat)
qed

section \<open>Properties\<close>

text \<open>
  C29: The guest's unsigned 128-bit division is division: for every divisor but zero the restoring loop ends with the
  quotient and the remainder of the numbers, the carry out of the remainder's top bit included; a zero divisor traps.
\<close>

theorem udivmod_divides:
  "udivti3 n d = (if d = 0 then None else Some (n div d)) \<and> umodti3 n d = (if d = 0 then None else Some (n mod d))"
proof (cases "d = 0")
  case True
  then show ?thesis by (simp add: udivti3_def umodti3_def udivmod_def)
next
  case False
  then obtain q r where "udivmod n d = Some (q, r)" "unat q = unat n div unat d" "unat r = unat n mod unat d"
    by (rule udivmod_nat)
  moreover from this have "q = n div d" "r = n mod d" by (simp_all add: word_unat_eq_iff unat_div unat_mod)
  ultimately show ?thesis using False by (simp add: udivti3_def umodti3_def)
qed

text \<open>
  The guest's signed 128-bit division truncates towards zero and its remainder has the sign of the dividend, as C
  asks; only the least number divided by -1 leaves the range, and then the quotient wraps to that number. A zero
  divisor traps.
\<close>

theorem divti3_truncates:
  "divti3 n d = (if d = 0 then None else Some (word_of_int (sint n sdiv sint d))) \<and>
   modti3 n d = (if d = 0 then None else Some (word_of_int (sint n smod sint d)))"
proof (cases "d = 0")
  case True
  then show ?thesis by (simp add: divti3_def modti3_def udivmod_def magnitude_zero)
next
  case False
  then obtain q r where qr: "udivmod (magnitude n) (magnitude d) = Some (q, r)"
    "q = word_of_int (\<bar>sint n\<bar> div \<bar>sint d\<bar>)" "r = word_of_int (\<bar>sint n\<bar> mod \<bar>sint d\<bar>)"
    by (rule divmod_magnitudes)
  have d: "sint d \<noteq> 0" using False signed_word_eqI [of d 0] by auto
  have "(if negative n \<noteq> negative d then - q else q) = word_of_int (sint n sdiv sint d)"
    using d by (cases "sint n = 0") (auto simp: qr(2) negative_def signed_divide_int_def sgn_if)
  moreover have "(if negative n then - r else r) = word_of_int (sint n smod sint d)"
    by (cases "sint n = 0") (auto simp: qr(3) negative_def signed_modulo_int_def sgn_if)
  ultimately show ?thesis using False qr(1) by (simp add: divti3_def modti3_def)
qed

end
