(* ===== verification/Runtime.thy ===== *)
theory Runtime
  imports GuestData TsdScan
begin

text \<open>
  The runtime of the translated program: the conversions between guest and host values (\<open>runtime/xl_bridge.h\<close>),
  the block behind the thread register (\<open>runtime/xl_tsd_guard.h\<close>), and the dispatch, the callbacks and the start
  of the program (\<open>runtime/runtime.c\<close>). A lifted function is a parameter: what it does to the machine.
\<close>

section \<open>Values across the bridge\<close>

text \<open>A narrowing that does not fit ends the program (\<open>xl_narrowing_fault\<close> does not return): \<open>None\<close>.\<close>

definition xl_narrow_signed :: "u64 \<Rightarrow> u64 \<Rightarrow> u64 \<Rightarrow> u64 \<Rightarrow> u64 \<Rightarrow> u64 option" where
  "xl_narrow_signed v host_min host_max guest_min guest_max =
     (if v = guest_max then Some host_max
      else if v = guest_min then Some host_min
      else if sint v < sint host_min \<or> sint v > sint host_max then None
      else Some v)"

definition xl_narrow_unsigned :: "u64 \<Rightarrow> u64 \<Rightarrow> u64 \<Rightarrow> u64 option" where
  "xl_narrow_unsigned v host_max guest_max =
     (if v = guest_max then Some host_max
      else if v > host_max then None
      else Some v)"

text \<open>A host pointer has 32 bits.\<close>

definition xl_narrow_pointer :: "u64 \<Rightarrow> u32 option" where
  "xl_narrow_pointer v =
     (if drop_bit 32 v \<noteq> 0
      then if v \<ge> 0xFFFFFFFFFFFFFF00 then Some (ucast v) else None
      else Some (ucast v))"

definition xl_widen_pointer :: "u32 \<Rightarrow> u64" where
  "xl_widen_pointer v = (if v \<ge> 0xFFFFFF00 then scast v else ucast v)"

definition xl_widen_signed :: "u64 \<Rightarrow> u64 \<Rightarrow> u64 \<Rightarrow> u64 \<Rightarrow> u64 \<Rightarrow> u64" where
  "xl_widen_signed v host_min host_max guest_min guest_max =
     (if v = host_max then guest_max else if v = host_min then guest_min else v)"

definition xl_widen_unsigned :: "u64 \<Rightarrow> u64 \<Rightarrow> u64 \<Rightarrow> u64" where
  "xl_widen_unsigned v host_max guest_max = (if v = host_max then guest_max else v)"

section \<open>The thread-data block\<close>

definition XL_TSD_AUDITED_OFFSET :: u32 where "XL_TSD_AUDITED_OFFSET = 0x358"

text \<open>
  Two pages from \<open>mmap\<close>, the first without access. The page size is what \<open>sysconf\<close> answers; \<open>None\<close> is the
  abort when it is negative or too small for the slot, when there is no memory, or when the guard fails.
\<close>

record Pages =
  pages_at :: u32
  page_size :: u32

definition xl_tsd_alloc :: "int \<Rightarrow> u32 option \<Rightarrow> bool \<Rightarrow> Pages option" where
  "xl_tsd_alloc pagesize mmap mprotect_ok =
     (if pagesize < 0 \<or> pagesize < uint XL_TSD_AUDITED_OFFSET + 8 then None
      else case mmap of
             None \<Rightarrow> None
           | Some pages \<Rightarrow>
               if \<not> mprotect_ok then None
               else Some \<lparr>pages_at = pages, page_size = word_of_int pagesize\<rparr>)"

definition xl_tsd_base :: "Pages \<Rightarrow> u32" where
  "xl_tsd_base p = pages_at p + page_size p - XL_TSD_AUDITED_OFFSET"

section \<open>The machine\<close>

text \<open>The registers the runtime touches, and memory in bytes.\<close>

record Machine =
  reg_x :: "nat \<Rightarrow> u64"
  reg_sp :: u64
  reg_pc :: u64
  reg_tpidrro :: u64
  memory :: "u32 \<Rightarrow> u8"

definition set_x :: "nat \<Rightarrow> u64 \<Rightarrow> Machine \<Rightarrow> Machine" where
  "set_x i v m = m\<lparr>reg_x := (reg_x m)(i := v)\<rparr>"

definition XL_GUEST_STACK_SIZE :: u32 where "XL_GUEST_STACK_SIZE = push_bit 20 16"

text \<open>
  The state of a thread: the one it has, or a new one, zeroed, then its stack and its thread register. \<open>None\<close> is
  the abort when there is no memory for the state or the stack, or \<open>xl_tsd_alloc\<close> aborts.
\<close>

definition new_state :: "u32 \<Rightarrow> Pages \<Rightarrow> (u32 \<Rightarrow> u8) \<Rightarrow> Machine" where
  "new_state stack tsd mem =
     \<lparr>reg_x = (\<lambda>i. 0), reg_sp = ucast ((stack + XL_GUEST_STACK_SIZE) AND NOT 15), reg_pc = 0,
      reg_tpidrro = ucast (xl_tsd_base tsd), memory = mem\<rparr>"

definition xl_current_state :: "Machine option \<Rightarrow> bool \<Rightarrow> u32 option \<Rightarrow> Pages option \<Rightarrow> (u32 \<Rightarrow> u8) \<Rightarrow> Machine option" where
  "xl_current_state current memalign_ok stack tsd mem =
     (case current of
        Some state \<Rightarrow> Some state
      | None \<Rightarrow>
          if \<not> memalign_ok then None
          else case stack of
                 None \<Rightarrow> None
               | Some s \<Rightarrow> (case tsd of None \<Rightarrow> None | Some pages \<Rightarrow> Some (new_state s pages mem)))"

text \<open>Running code: it may not return (\<open>None\<close>), end in \<open>xl_fault\<close> with a reason (\<open>Inl\<close>), or return.\<close>

type_synonym outcome = "(string + Machine) option"
type_synonym xl_lifted = "Machine \<Rightarrow> outcome"
type_synonym xl_table = "(u32 \<times> xl_lifted) list"

section \<open>Dispatch\<close>

text \<open>The binary search of \<open>xl_lookup\<close>: its loop, then the test of what it stops at.\<close>

function lookup_loop :: "(u32 \<times> 'f) list \<Rightarrow> u64 \<Rightarrow> u32 \<Rightarrow> u32 \<Rightarrow> u32" where
  "lookup_loop table address low high =
     (if low < high
      then let middle = low + (high - low) div 2
           in if ucast (fst (table ! unat middle)) < address
              then lookup_loop table address (middle + 1) high
              else lookup_loop table address low middle
      else low)"
  by pat_completeness auto

lemma len32_pow: "(2 :: nat) ^ LENGTH(32) = 2 ^ 32"
  by simp

lemma middle_bounds:
  assumes "(low :: u32) < high"
  shows "unat (low + (high - low) div 2) = (unat low + unat high) div 2"
    and "unat (low + (high - low) div 2 + 1) = (unat low + unat high) div 2 + 1"
    and "low \<le> low + (high - low) div 2" and "low + (high - low) div 2 < high"
proof -
  have l: "unat low < unat high" using assms by (simp add: word_less_nat_alt)
  have s: "unat ((high - low) div 2) = (unat high - unat low) div 2"
    using assms by (simp add: unat_div unat_sub word_le_nat_alt less_imp_le l)
  have "unat low + (unat high - unat low) div 2 < 2 ^ 32"
    using l unsigned_less [of high, where 'a = nat] by simp
  then show m: "unat (low + (high - low) div 2) = (unat low + unat high) div 2"
    using s l by (simp add: unat_word_ariths)
  have "unat low + unat high < 2 * 2 ^ 32" "(unat low + unat high) div 2 + 1 < 2 ^ 32"
    using l unsigned_less [of high, where 'a = nat] by simp_all
  then show "unat (low + (high - low) div 2 + 1) = (unat low + unat high) div 2 + 1"
    using m by (metis len32_pow unat_1 unat_add_lem)
  show "low \<le> low + (high - low) div 2" "low + (high - low) div 2 < high"
    unfolding word_le_nat_alt word_less_nat_alt m using l by simp_all
qed

termination lookup_loop
proof (relation "measure (\<lambda>(table, address, low, high). unat high - unat low)", goal_cases)
  case 1
  show ?case by simp
next
  case (2 table address low high middle)
  then show ?case using middle_bounds(2) [of low high] by (simp add: word_less_nat_alt del: unat_word_ariths)
next
  case (3 table address low high middle)
  then show ?case using middle_bounds(1) [of low high] by (simp add: word_less_nat_alt)
qed

declare lookup_loop.simps [simp del]

definition xl_lookup :: "(u32 \<times> 'f) list \<Rightarrow> u64 \<Rightarrow> 'f option" where
  "xl_lookup table address =
     (let count = of_nat (length table);
          low = lookup_loop table address 0 count
      in if low < count \<and> ucast (fst (table ! unat low)) = address \<and> drop_bit 32 address = 0
         then Some (snd (table ! unat low)) else None)"

definition xl_call :: "xl_table \<Rightarrow> xl_lifted" where
  "xl_call table m =
     (case xl_lookup table (reg_pc m) of
        None \<Rightarrow> Some (Inl ''call to an address without translated code (or an unsupported instruction)'')
      | Some function \<Rightarrow> function m)"

definition xl_tail :: "xl_table \<Rightarrow> xl_lifted" where
  "xl_tail table m =
     (case xl_lookup table (reg_pc m) of
        None \<Rightarrow> Some (Inl ''jump to an address that does not start a translated function (or an unsupported instruction)'')
      | Some function \<Rightarrow> function m)"

section \<open>Callbacks\<close>

definition no_code :: "u64 \<Rightarrow> string" where
  "no_code address = ''callback into address 0x'' @ hex_string (unat address) @ '' without translated code''"

text \<open>\<open>snprintf\<close> into 96 bytes cannot cut the line: 48 characters and at most 16 digits.\<close>

definition xl_invoke :: "xl_table \<Rightarrow> u64 \<Rightarrow> u64 \<Rightarrow> Machine \<Rightarrow> (string + (u64 \<times> Machine)) option" where
  "xl_invoke table address argument m =
     (case xl_lookup table address of
        None \<Rightarrow> Some (Inl (no_code address))
      | Some function \<Rightarrow>
          let saved_pc = reg_pc m; saved_lr = reg_x m 30
          in map_option (map_sum id (\<lambda>m'. (reg_x m' 0, set_x 30 saved_lr (m'\<lparr>reg_pc := saved_pc\<rparr>))))
               (function (set_x 30 0 (set_x 0 argument (m\<lparr>reg_pc := address\<rparr>)))))"

text \<open>The loops over the eight argument registers.\<close>

definition set_args :: "u64 list \<Rightarrow> nat \<Rightarrow> Machine \<Rightarrow> Machine" where
  "set_args arguments count m = fold (\<lambda>i. set_x i (arguments ! i)) [0..<min count 8] m"

definition xl_invoke_n :: "xl_table \<Rightarrow> u64 \<Rightarrow> u64 list \<Rightarrow> nat \<Rightarrow> Machine \<Rightarrow> (string + (u64 \<times> Machine)) option" where
  "xl_invoke_n table address arguments count m =
     (case xl_lookup table address of
        None \<Rightarrow> Some (Inl (no_code address))
      | Some function \<Rightarrow>
          let saved_pc = reg_pc m; saved_lr = reg_x m 30; saved_arg = map (reg_x m) [0..<8]
          in map_option (map_sum id (\<lambda>m'. (reg_x m' 0, set_args saved_arg 8 (set_x 30 saved_lr (m'\<lparr>reg_pc := saved_pc\<rparr>)))))
               (function (set_x 30 0 ((set_args arguments count m)\<lparr>reg_pc := address\<rparr>))))"

section \<open>The guest's frames\<close>

definition load64 :: "(u32 \<Rightarrow> u8) \<Rightarrow> u32 \<Rightarrow> u64" where
  "load64 mem a = le_word (map (\<lambda>i. mem (a + of_nat i)) [0..<8])"

text \<open>\<open>xl_walk_guest\<close>: the frames reported, each its frame pointer and its saved link register; the first argument is \<open>16 - depth\<close>.\<close>

fun walk_frames :: "nat \<Rightarrow> (u32 \<Rightarrow> u8) \<Rightarrow> u64 \<Rightarrow> (u64 \<times> u64) list" where
  "walk_frames 0 mem fp = []"
| "walk_frames (Suc left) mem fp =
     (if fp = 0 \<or> drop_bit 32 fp \<noteq> 0 then []
      else let saved_fp = load64 mem (ucast fp); saved_lr = load64 mem (ucast (fp + 8))
           in (fp, saved_lr) # (if saved_fp \<le> fp then [] else walk_frames left mem saved_fp))"

definition xl_walk_guest :: "Machine \<Rightarrow> (u64 \<times> u64) list" where
  "xl_walk_guest m = walk_frames 16 (memory m) (reg_x m 29)"

section \<open>The start of the program\<close>

text \<open>
  The program's \<open>main\<close> after the initializers ran. The vectors the guest gets are copies of the host's, with
  their pointers widened; where \<open>calloc\<close> puts the copies is given.
\<close>

definition xl_guest_vector :: "u32 list \<Rightarrow> u64 list" where
  "xl_guest_vector pointers = map ucast pointers @ [0]"

definition runtime_main :: "xl_table \<Rightarrow> u32 \<Rightarrow> u32 \<Rightarrow> u32 \<Rightarrow> u32 \<Rightarrow> u32 \<Rightarrow> Machine \<Rightarrow> (string + u32) option" where
  "runtime_main table entry_pc argc argv envp apple m =
     (let m = set_x 0 (scast argc) m;
          m = set_x 1 (ucast argv) m;
          m = set_x 2 (ucast envp) m;
          m = set_x 3 (ucast apple) m;
          m = set_x 30 0 m
      in case xl_lookup table (ucast entry_pc) of
           None \<Rightarrow> Some (Inl ''entry point was not translated'')
         | Some entry \<Rightarrow>
             map_option (map_sum id (\<lambda>m'. ucast (reg_x m' 0))) (entry (m\<lparr>reg_pc := ucast entry_pc\<rparr>)))"

end
