(* ===== verification/Runtime_Facts.thy ===== *)
theory Runtime_Facts
  imports Runtime GuestData_Facts
begin

text \<open>
  What the runtime guarantees: the dispatch finds exactly what the translator put in its table, values cross the
  bridge and come back, the thread register's block faults below its audited slot, a callback leaves the caller's
  registers as they were, and the walk over the guest's frames ends.
\<close>

section \<open>Dispatch\<close>

lemma unat_up: "unat (ucast (a :: u32) :: u64) = unat a"
proof -
  have "unat a < 2 ^ 64" using unsigned_less [of a, where 'a = nat] by simp
  then show ?thesis by (simp add: unsigned_ucast_eq take_bit_nat_eq_self)
qed

lemma up_inj: "(ucast (a :: u32) :: u64) = ucast b \<longleftrightarrow> a = b"
  by (metis unat_up word_unat_eq_iff)

lemma lookup_loop_bounds:
  assumes "sorted (map fst table)" and "high \<le> of_nat (length table)" and "low \<le> high" and "length table < 2 ^ 32"
    and "\<forall>i < unat low. ucast (fst (table ! i)) < address"
    and "\<forall>i < length table. unat high \<le> i \<longrightarrow> address \<le> ucast (fst (table ! i))"
  shows "lookup_loop table address low high \<le> of_nat (length table) \<and>
    (\<forall>i < unat (lookup_loop table address low high). ucast (fst (table ! i)) < address) \<and>
    (\<forall>i < length table. unat (lookup_loop table address low high) \<le> i \<longrightarrow> address \<le> ucast (fst (table ! i)))"
  using assms
proof (induction table address low high rule: lookup_loop.induct)
  case (1 table address low high)
  show ?case
  proof (cases "low < high")
    case False
    then have "high = low" using "1.prems"(3) by simp
    moreover have "lookup_loop table address low low = low" by (simp add: lookup_loop.simps [of table address low low])
    ultimately show ?thesis using "1.prems" by simp
  next
    case True
    let ?m = "low + (high - low) div 2"
    note m = middle_bounds [OF True]
    have len: "unat (of_nat (length table) :: u32) = length table" using "1.prems"(4) by (simp add: unat_of_nat)
    have mlen: "unat ?m < length table"
      using m(4) "1.prems"(2) len by (simp add: word_less_nat_alt word_le_nat_alt)
    have mono: "fst (table ! i) \<le> fst (table ! j)" if "i \<le> j" "j < length table" for i j
      using sorted_nth_mono [OF "1.prems"(1), of i j] that by simp
    have ule: "(ucast (a :: u32) :: u64) \<le> ucast b \<longleftrightarrow> a \<le> b" for a b
      by (simp add: word_le_nat_alt unat_up)
    show ?thesis
    proof (cases "ucast (fst (table ! unat ?m)) < address")
      case less: True
      have "\<forall>i < unat (?m + 1). ucast (fst (table ! i)) < address"
      proof (intro allI impI)
        fix i assume "i < unat (?m + 1)"
        then have "i \<le> unat ?m" using m(1,2) by simp
        then have "(ucast (fst (table ! i)) :: u64) \<le> ucast (fst (table ! unat ?m))" using mono mlen ule by blast
        with less show "ucast (fst (table ! i)) < address" by (rule order.strict_trans1 [rotated])
      qed
      moreover have "?m + 1 \<le> high" using m(1,2,4) by (simp add: word_le_nat_alt word_less_nat_alt)
      moreover note "1.IH"(1) [OF True refl less "1.prems"(1,2) _ "1.prems"(4) _ "1.prems"(6)]
      ultimately show ?thesis using True less by (simp add: lookup_loop.simps [of table address low high] Let_def)
    next
      case ge: False
      have "\<forall>i < length table. unat ?m \<le> i \<longrightarrow> address \<le> ucast (fst (table ! i))"
      proof (intro allI impI)
        fix i assume "i < length table" "unat ?m \<le> i"
        then have "(ucast (fst (table ! unat ?m)) :: u64) \<le> ucast (fst (table ! i))" using mono ule by blast
        moreover have "address \<le> ucast (fst (table ! unat ?m))" using ge by (simp only: not_less)
        ultimately show "address \<le> ucast (fst (table ! i))" by (rule order_trans [rotated])
      qed
      moreover have "?m \<le> of_nat (length table)" using m(4) "1.prems"(2) by simp
      moreover note "1.IH"(2) [OF True refl ge "1.prems"(1) _ m(3) "1.prems"(4,5)]
      ultimately show ?thesis using True ge by (simp add: lookup_loop.simps [of table address low high] Let_def)
    qed
  qed
qed

lemma unat_drop_bit_32: "unat (drop_bit 32 (a :: u64)) = unat a div 2 ^ 32"
proof -
  have "take_bit 64 (unat a) = unat a" using unsigned_less [of a, where 'a = nat] by (intro take_bit_nat_eq_self) simp
  then show ?thesis by (subst unsigned_drop_bit_eq) (simp add: drop_bit_eq_div)
qed

lemma high_bits_unat: "drop_bit 32 (a :: u64) = 0 \<longleftrightarrow> unat a < 2 ^ 32"
proof -
  have "drop_bit 32 a = 0 \<longleftrightarrow> unat a div 2 ^ 32 = 0" by (simp only: unat_drop_bit_32 [symmetric] unat_eq_zero)
  then show ?thesis by (simp add: div_eq_0_iff)
qed

lemma unat_low: "unat (ucast (a :: u64) :: u32) = unat a mod 2 ^ 32"
  by (simp add: unsigned_ucast_eq take_bit_eq_mod)

lemma high_bits: "drop_bit 32 (a :: u64) = 0 \<longleftrightarrow> (ucast (ucast a :: u32) :: u64) = a"
proof -
  have "(ucast (ucast a :: u32) :: u64) = a \<longleftrightarrow> unat a mod 2 ^ 32 = unat a"
    by (simp only: word_unat_eq_iff [of _ a] unat_up unat_low)
  then show ?thesis using high_bits_unat [of a] by (metis mod_less mod_less_divisor zero_less_numeral zero_less_power)
qed

lemma xl_lookup_map_of:
  assumes sorted: "sorted_wrt (<) (map fst table)" and len: "length table < 2 ^ 32"
  shows "xl_lookup table address = (if drop_bit 32 address = 0 then map_of table (ucast address) else None)"
proof -
  let ?l = "lookup_loop table address 0 (of_nat (length table))"
  have s: "sorted (map fst table)" and d: "distinct (map fst table)" using sorted by (simp_all add: strict_sorted_iff)
  have n: "unat (of_nat (length table) :: u32) = length table" using len by (simp add: unat_of_nat)
  have l: "?l \<le> of_nat (length table)" "\<forall>i < unat ?l. ucast (fst (table ! i)) < address"
    "\<forall>i < length table. unat ?l \<le> i \<longrightarrow> address \<le> ucast (fst (table ! i))"
    using lookup_loop_bounds [OF s order_refl _ len, of 0 address] n by auto
  show ?thesis
  proof (cases "drop_bit 32 address = 0")
    case False
    then show ?thesis by (simp add: xl_lookup_def Let_def)
  next
    case True
    then have a: "(ucast (ucast address :: u32) :: u64) = address" by (simp only: high_bits)
    show ?thesis
    proof (cases "?l < of_nat (length table) \<and> ucast (fst (table ! unat ?l)) = address")
      case hit: True
      then have i: "unat ?l < length table" using n by (simp add: word_less_nat_alt)
      have "fst (table ! unat ?l) = ucast address" using hit a by (metis up_inj)
      then have "map_of table (ucast address) = Some (snd (table ! unat ?l))"
        using map_of_eq_Some_iff [OF d] nth_mem [OF i] by (metis prod.collapse)
      with hit True show ?thesis by (simp add: xl_lookup_def Let_def)
    next
      case miss: False
      have "map_of table (ucast address) = None"
      proof (rule ccontr)
        assume "map_of table (ucast address) \<noteq> None"
        then obtain i where i: "i < length table" "fst (table ! i) = ucast address"
          by (auto simp: map_of_eq_None_iff in_set_conv_nth)
        then have e: "ucast (fst (table ! i)) = address" using a by simp
        then have "unat ?l \<le> i" using l(2) by (metis less_irrefl not_le)
        moreover have "\<not> unat ?l < i"
        proof
          assume "unat ?l < i"
          then have "fst (table ! unat ?l) < fst (table ! i)"
            using sorted_wrt_nth_less [OF sorted, of "unat ?l" i] i(1) by simp
          then have "(ucast (fst (table ! unat ?l)) :: u64) < ucast (fst (table ! i))" by (simp add: word_less_nat_alt unat_up)
          moreover have "address \<le> ucast (fst (table ! unat ?l))" using l(3) \<open>unat ?l < i\<close> i(1) by simp
          ultimately show False using e by simp
        qed
        ultimately have "unat ?l = i" by simp
        with miss e i(1) n show False by (simp add: word_less_nat_alt)
      qed
      with miss True show ?thesis by (simp add: xl_lookup_def Let_def)
    qed
  qed
qed

lemma map_of_rekeyed:
  "\<forall>e \<in> set t. r (fst e) = r a \<longleftrightarrow> fst e = a \<Longrightarrow> map_of (map (\<lambda>(k, v). (r k, v)) t) (r a) = map_of t a"
  by (induction t) auto

lemma dispatch_emitted:
  assumes "omap_ok lifted" and "\<forall>(a, f) \<in> set (function_table program lifted). unat a < 2 ^ 32"
    and "length (function_table program lifted) < 2 ^ 32"
  shows "sorted_wrt (<) (map fst (xl_functions (EmitTables program lifted)))"
    and "xl_lookup (xl_functions (EmitTables program lifted)) pc = map_of (function_table program lifted) pc"
proof -
  let ?t = "function_table program lifted"
  let ?x = "map (\<lambda>(address, function). (ucast address :: u32, function)) ?t"
  have small: "unat a < 2 ^ 32" if "a \<in> set (map fst ?t)" for a using assms(2) that by auto
  then have low: "unat (ucast a :: u32) = unat a" if "a \<in> set (map fst ?t)" for a
    using that by (simp only: unat_low mod_less)
  have fst: "map fst ?x = map ucast (map fst ?t)" by (simp add: case_prod_beta)
  have "sorted_wrt (<) (map fst ?t)" using function_table_ok [OF assms(1)] by (simp add: omap_ok_def)
  then have sorted: "sorted_wrt (<) (map fst ?x)"
    unfolding fst sorted_wrt_map by (rule sorted_wrt_mono_rel [rotated]) (use low in \<open>auto simp: word_less_nat_alt\<close>)
  then show "sorted_wrt (<) (map fst (xl_functions (EmitTables program lifted)))" by (simp add: EmitTables_def Let_def)
  have found: "map_of ?x (ucast pc) = map_of ?t pc" if pc: "drop_bit 32 pc = 0"
  proof -
    have "(ucast a :: u32) = ucast pc \<longleftrightarrow> a = pc" if "a \<in> set (map fst ?t)" for a
      using high_bits [of a] high_bits [of pc] pc small [OF that] high_bits_unat [of a] by metis
    then show ?thesis by (intro map_of_rekeyed) auto
  qed
  have none: "map_of ?t pc = None" if "drop_bit 32 pc \<noteq> 0"
    using that small high_bits_unat [of pc] by (auto simp: map_of_eq_None_iff)
  show "xl_lookup (xl_functions (EmitTables program lifted)) pc = map_of (function_table program lifted) pc"
    using xl_lookup_map_of [OF sorted, of pc] assms(3) found none by (simp add: EmitTables_def Let_def)
qed

text \<open>
  C25: Dispatch. On a device the search of the table the translator emits answers exactly what the translator put in its
  function table, for every one of the 64-bit values a guest may call: nothing is found beside it, nothing in it is
  missed, and an address beyond 32 bits is never taken for its low half.
\<close>

theorem dispatch_finds_function_table:
  assumes "omap_ok lifted" and "\<forall>(a, f) \<in> set (function_table program lifted). unat a < 2 ^ 32"
    and "length (function_table program lifted) < 2 ^ 32"
  shows "xl_lookup (xl_functions (EmitTables program lifted)) pc = map_of (function_table program lifted) pc"
  using assms by (rule dispatch_emitted(2))

theorem dispatch_finds_function_table_witness:
  "xl_lookup (xl_functions (EmitTables sample_table_program [(0x10, ''f'')])) 0x30 = Some ''f'' \<and>
   xl_lookup (xl_functions (EmitTables sample_table_program [(0x10, ''f'')])) 0x100000030 = None"
proof -
  have t: "function_table sample_table_program [(0x10, ''f'')] = [(0x10, ''f''), (0x20, ''_puts''), (0x30, ''f'')]"
    by (simp add: function_table_def sample_table_program_def Target_def)
  have ok: "omap_ok [(0x10 :: u64, ''f'')]" by (simp add: omap_ok_def)
  show ?thesis
    by (subst (1 2) dispatch_finds_function_table [OF ok]) (simp_all add: t)
qed

section \<open>Values across the bridge\<close>

lemma mod_shift_up: "(m :: int) \<le> a \<Longrightarrow> a < 2 * m \<Longrightarrow> a mod m = a - m"
  using mod_pos_pos_trivial [of "a - m" m] by simp

lemma len64: "LENGTH(64) = 64"
  by simp

lemma down_up: "(ucast (ucast (q :: u32) :: u64) :: u32) = q"
  using unsigned_less [of q, where 'a = nat] by (simp add: word_unat_eq_iff unat_low unat_up)

lemma sentinel_sint: "0xFFFFFF00 \<le> q \<Longrightarrow> sint (q :: u32) = uint q - 2 ^ 32"
proof -
  assume "0xFFFFFF00 \<le> q"
  then have l: "0xFFFFFF00 \<le> uint q" by (simp add: word_le_def)
  have u: "uint q < 2 ^ 32" using unsigned_less [of q, where 'a = int] by simp
  have "sint q = signed_take_bit 31 (uint q)" by (simp add: sint_uint)
  also have "\<dots> = (uint q + 2 ^ 31) mod 2 ^ 32 - 2 ^ 31" by (simp add: signed_take_bit_eq_take_bit_shift take_bit_eq_mod)
  also have "(uint q + 2 ^ 31) mod 2 ^ 32 = uint q + 2 ^ 31 - 2 ^ 32" using l u by (intro mod_shift_up) simp_all
  finally show ?thesis by simp
qed

lemma widen_sentinel: "0xFFFFFF00 \<le> q \<Longrightarrow> uint (scast (q :: u32) :: u64) = uint q + (2 ^ 64 - 2 ^ 32)"
proof -
  assume s: "0xFFFFFF00 \<le> q"
  have u: "0 \<le> uint q" "uint q < 2 ^ 32" using unsigned_less [of q, where 'a = int] by simp_all
  have "uint (scast q :: u64) = sint q mod 2 ^ 64" by (simp only: scast_eq unsigned_of_int take_bit_eq_mod len64) simp
  also have "\<dots> = (uint q - 2 ^ 32 + 2 ^ 64) mod 2 ^ 64" unfolding sentinel_sint [OF s] by (simp only: mod_add_self2)
  finally show ?thesis using u by simp
qed
lemma pointer_round_trip: "xl_narrow_pointer (xl_widen_pointer q) = Some q"
proof (cases "0xFFFFFF00 \<le> q")
  case True
  have l: "0xFFFFFF00 \<le> uint q" using True by (simp add: word_le_def)
  have "uint (ucast (scast q :: u64) :: u32) = uint (scast q :: u64) mod 2 ^ 32" 
    by (simp add: unsigned_ucast_eq take_bit_eq_mod)
  also have "\<dots> = uint q" 
  proof -
    have "uint q + (2 ^ 64 - 2 ^ 32) = uint q + (2 ^ 32 - 1) * 2 ^ 32" by simp
    then show ?thesis unfolding widen_sentinel [OF True] using unsigned_less [of q, where 'a = int] by (simp only: mod_mult_self1) simp
  qed
  finally have "ucast (scast q :: u64) = q" by (rule word_uint_eqI)
  moreover have "drop_bit 32 (scast q :: u64) \<noteq> 0"
    using l widen_sentinel [OF True] by (simp add: high_bits_unat flip: nat_uint_eq)
  moreover have "(scast q :: u64) \<ge> 0xFFFFFFFFFFFFFF00" using l by (simp add: word_le_def widen_sentinel [OF True])
  ultimately show ?thesis using True by (simp add: xl_narrow_pointer_def xl_widen_pointer_def)
next
  case False
  have "unat q < 2 ^ 32" using unsigned_less [of q, where 'a = nat] by simp
  then show ?thesis using False by (simp add: xl_narrow_pointer_def xl_widen_pointer_def high_bits_unat unat_up down_up)
qed

lemma narrow_widen_signed:
  assumes "sint guest_min < sint host_min" and "sint host_max < sint guest_max" and "sint host_min \<le> sint v" and "sint v \<le> sint host_max"
  shows "xl_narrow_signed (xl_widen_signed v host_min host_max guest_min guest_max) host_min host_max guest_min guest_max = Some v"
proof -
  have "guest_min \<noteq> guest_max" "v \<noteq> guest_max" "v \<noteq> guest_min" using assms by auto
  then show ?thesis using assms(3,4) by (simp add: xl_narrow_signed_def xl_widen_signed_def not_less)
qed

lemma narrow_widen_unsigned:
  assumes "host_max < guest_max" and "v \<le> host_max"
  shows "xl_narrow_unsigned (xl_widen_unsigned v host_max guest_max) host_max guest_max = Some v"
  using assms by (auto simp: xl_narrow_unsigned_def xl_widen_unsigned_def)

text \<open>
  Host to guest and back. Every value of the host's type that is widened for the guest narrows to itself again:
  signed and unsigned integers whose host range lies strictly inside the guest's, and every pointer, the small negative
  ones included.
\<close>

theorem bridge_round_trip:
  assumes "sint guest_min < sint host_min" and "sint host_max < sint guest_max"
    and "sint host_min \<le> sint v" and "sint v \<le> sint host_max"
    and "umax < guest_umax" and "u \<le> umax"
  shows "xl_narrow_signed (xl_widen_signed v host_min host_max guest_min guest_max) host_min host_max guest_min guest_max = Some v \<and>
    xl_narrow_unsigned (xl_widen_unsigned u umax guest_umax) umax guest_umax = Some u \<and>
    xl_narrow_pointer (xl_widen_pointer q) = Some q"
  using narrow_widen_signed [OF assms(1-4)] narrow_widen_unsigned [OF assms(5,6)] pointer_round_trip by blast

theorem bridge_round_trip_witness:
  "xl_narrow_signed (xl_widen_signed 7 (- 0x80000000) 0x7FFFFFFF 0x8000000000000000 0x7FFFFFFFFFFFFFFF)
     (- 0x80000000) 0x7FFFFFFF 0x8000000000000000 0x7FFFFFFFFFFFFFFF = Some 7"
  by (rule bridge_round_trip [where umax = 0 and guest_umax = 1 and u = 0, THEN conjunct1]) simp_all

lemma widen_narrowed_pointer:
  assumes "xl_narrow_pointer a = Some q"
  shows "xl_widen_pointer q = a \<longleftrightarrow> \<not> (0xFFFFFF00 \<le> a \<and> a < 0x100000000)"
proof (cases "drop_bit 32 a = 0")
  case True
  then have q: "ucast q = a" using assms high_bits [of a] by (simp add: xl_narrow_pointer_def)
  then have "unat a = unat q" using unat_up [of q] by simp
  then have "0xFFFFFF00 \<le> a \<longleftrightarrow> 0xFFFFFF00 \<le> q" and "a < 0x100000000"
    using high_bits_unat [of a] True by (simp_all add: word_le_nat_alt word_less_nat_alt)
  moreover have "(scast q :: u64) \<noteq> a" if "0xFFFFFF00 \<le> q"
  proof
    assume "scast q = a"
    then have "uint a = uint q + (2 ^ 64 - 2 ^ 32)" using widen_sentinel [OF that] by simp
    moreover have "uint a < 2 ^ 32" "0 \<le> uint q" using \<open>a < 0x100000000\<close> by (simp_all add: word_less_def)
    ultimately show False by simp
  qed
  ultimately show ?thesis using q by (auto simp: xl_widen_pointer_def)
next
  case False
  then have q: "q = ucast a" and l: "0xFFFFFFFFFFFFFF00 \<le> a"
    using assms by (simp_all add: xl_narrow_pointer_def split: if_splits)
  have b: "uint a < 2 ^ 64" "0xFFFFFFFFFFFFFF00 \<le> uint a"
    using unsigned_less [of a, where 'a = int] l by (simp_all add: word_le_def)
  have "uint q = (uint a - (2 ^ 64 - 2 ^ 32) + (2 ^ 32 - 1) * 2 ^ 32) mod 2 ^ 32" 
    unfolding q by (simp add: unsigned_ucast_eq take_bit_eq_mod)
  also have "\<dots> = uint a - (2 ^ 64 - 2 ^ 32)" using b by (simp only: mod_mult_self1) simp
  finally have u: "uint q = uint a - (2 ^ 64 - 2 ^ 32)" .
  then have s: "0xFFFFFF00 \<le> q" using b by (simp add: word_le_def)
  have "scast q = a" using widen_sentinel [OF s] u by (intro word_uint_eqI) simp
  moreover have "\<not> a < 0x100000000" using b by (simp add: word_less_def)
  ultimately show ?thesis using s by (simp add: xl_widen_pointer_def)
qed

text \<open>
  C26: Guest to host and back. A signed value or a pointer that narrows comes back unchanged exactly unless the host's type
  gives it a second meaning: the two ends of the host's range stand for the ends of the guest's, and the last 256
  addresses of the 32-bit space for the small negative pointers.
\<close>

theorem bridge_keeps_all_but_extremes:
  assumes "sint guest_min < sint host_min" and "sint host_min < sint host_max" and "sint host_max < sint guest_max"
    and "xl_narrow_signed v host_min host_max guest_min guest_max = Some h" and "xl_narrow_pointer a = Some q"
  shows "(xl_widen_signed h host_min host_max guest_min guest_max = v \<longleftrightarrow> v \<noteq> host_min \<and> v \<noteq> host_max) \<and>
    (xl_widen_pointer q = a \<longleftrightarrow> \<not> (0xFFFFFF00 \<le> a \<and> a < 0x100000000))"
proof (rule conjI)
  have "host_min \<noteq> host_max" "guest_min \<noteq> host_min" "guest_max \<noteq> host_max" "guest_min \<noteq> guest_max"
    "guest_max \<noteq> host_min" "guest_min \<noteq> host_max" using assms(1-3) by auto
  then show "xl_widen_signed h host_min host_max guest_min guest_max = v \<longleftrightarrow> v \<noteq> host_min \<and> v \<noteq> host_max"
    using assms(4) by (auto simp: xl_narrow_signed_def xl_widen_signed_def split: if_splits)
  show "xl_widen_pointer q = a \<longleftrightarrow> \<not> (0xFFFFFF00 \<le> a \<and> a < 0x100000000)"
    using assms(5) by (rule widen_narrowed_pointer)
qed

theorem bridge_keeps_all_but_extremes_witness:
  "xl_widen_pointer 0xFFFFFFFF \<noteq> 0xFFFFFFFF \<and>
   xl_widen_signed 0x7FFFFFFF (- 0x80000000) 0x7FFFFFFF 0x8000000000000000 0x7FFFFFFFFFFFFFFF \<noteq> 0x7FFFFFFF"
  using bridge_keeps_all_but_extremes [of "0x8000000000000000" "- 0x80000000" "0x7FFFFFFF" "0x7FFFFFFFFFFFFFFF"
      "0x7FFFFFFF" "0x7FFFFFFF" "0xFFFFFFFF" "0xFFFFFFFF"]
  by (simp add: xl_narrow_signed_def xl_narrow_pointer_def)

section \<open>The thread register's block\<close>

lemma len32_pow_int: "(2 :: int) ^ LENGTH(32) = 2 ^ 32"
  by simp

text \<open>
  C27: The guard. When the block is there, an access through the thread register at any offset below the audited slot
  faults, since the address lies in the page without access; every slot the build-time scan lets through lies whole in
  the page with access; and the slot the run time is laid out for is one the scan lets through.
\<close>

theorem guard_covers_slots_below:
  assumes "xl_tsd_alloc pagesize mmap ok = Some p" and "uint (pages_at p) + 2 * pagesize \<le> 2 ^ 32"
  shows "(\<forall>off < XL_TSD_AUDITED_OFFSET.
      uint (pages_at p) \<le> uint (xl_tsd_base p + off) \<and> uint (xl_tsd_base p + off) < uint (pages_at p) + pagesize) \<and>
    (\<forall>off \<in> set kAllowedTSDOffsets.
      uint (pages_at p) + pagesize \<le> uint (xl_tsd_base p + ucast off) \<and>
      uint (xl_tsd_base p + ucast off) + 8 \<le> uint (pages_at p) + 2 * pagesize) \<and>
    IsAllowedOffset (ucast XL_TSD_AUDITED_OFFSET)"
proof -
  have s: "0x360 \<le> pagesize" and p: "page_size p = word_of_int pagesize"
    using assms(1) by (auto simp: xl_tsd_alloc_def XL_TSD_AUDITED_OFFSET_def split: if_splits option.splits)
  have z: "0 \<le> uint (pages_at p)" by simp
  have at: "uint (xl_tsd_base p + off) = uint (pages_at p) + pagesize - 0x358 + uint off" if "uint off \<le> 0x358" for off :: u32
  proof -
    let ?i = "uint (pages_at p) + pagesize - 0x358 + uint off"
    have e: "xl_tsd_base p + off = word_of_int ?i" by (simp add: xl_tsd_base_def p XL_TSD_AUDITED_OFFSET_def)
    have "0 \<le> uint off" by simp
    then have "0 \<le> ?i" "?i < 2 ^ 32" using s z assms(2) that by linarith+
    then show ?thesis unfolding e by (simp only: uint_word_of_int len32_pow_int mod_pos_pos_trivial)
  qed
  have "uint (pages_at p) \<le> uint (xl_tsd_base p + off) \<and> uint (xl_tsd_base p + off) < uint (pages_at p) + pagesize"
    if "off < XL_TSD_AUDITED_OFFSET" for off
  proof -
    have "0 \<le> uint off" "uint off < 0x358" using that by (simp_all add: word_less_def XL_TSD_AUDITED_OFFSET_def)
    then show ?thesis using at [of off] s by linarith
  qed
  then show ?thesis
    using s z assms(2) at [of "0x358"] by (auto simp: kAllowedTSDOffsets_def IsAllowedOffset_def XL_TSD_AUDITED_OFFSET_def)
qed

definition sample_pages :: Pages where
  "sample_pages = \<lparr>pages_at = 0x40000000, page_size = 0x1000\<rparr>"

theorem guard_covers_slots_below_witness:
  "IsAllowedOffset (ucast XL_TSD_AUDITED_OFFSET)"
proof -
  have "xl_tsd_alloc 0x1000 (Some 0x40000000) True = Some sample_pages"
    by (simp add: xl_tsd_alloc_def sample_pages_def XL_TSD_AUDITED_OFFSET_def)
  then show ?thesis
    by (rule guard_covers_slots_below [THEN conjunct2, THEN conjunct2]) (simp add: sample_pages_def)
qed

section \<open>Callbacks\<close>

lemma set_args_reg: "reg_x (set_args arguments count m) i = (if i < min count 8 then arguments ! i else reg_x m i)"
proof -
  have "reg_x (fold (\<lambda>i. set_x i (arguments ! i)) is m) i = (if i \<in> set is then arguments ! i else reg_x m i)" for "is"
    by (induction "is" arbitrary: m) (auto simp: set_x_def)
  from this [of "[0..<min count 8]"] show ?thesis by (simp add: set_args_def)
qed

lemma set_args_keeps [simp]:
  "reg_pc (set_args arguments count m) = reg_pc m" "reg_sp (set_args arguments count m) = reg_sp m"
  "reg_tpidrro (set_args arguments count m) = reg_tpidrro m" "memory (set_args arguments count m) = memory m"
proof -
  have "reg_pc (fold (\<lambda>i. set_x i (arguments ! i)) is m) = reg_pc m \<and> reg_sp (fold (\<lambda>i. set_x i (arguments ! i)) is m) = reg_sp m \<and>
    reg_tpidrro (fold (\<lambda>i. set_x i (arguments ! i)) is m) = reg_tpidrro m \<and> memory (fold (\<lambda>i. set_x i (arguments ! i)) is m) = memory m"
    for "is" by (induction "is" arbitrary: m) (auto simp: set_x_def)
  from this [of "[0..<min count 8]"]
  show "reg_pc (set_args arguments count m) = reg_pc m" "reg_sp (set_args arguments count m) = reg_sp m"
    "reg_tpidrro (set_args arguments count m) = reg_tpidrro m" "memory (set_args arguments count m) = memory m"
    by (simp_all add: set_args_def)
qed


definition sample_machine :: Machine where
  "sample_machine = \<lparr>reg_x = (\<lambda>i. of_nat i), reg_sp = 0, reg_pc = 0x1000, reg_tpidrro = 0, memory = (\<lambda>a. 0)\<rparr>"

text \<open>A function that answers the sum of its two arguments and spoils every other register it can.\<close>

definition sample_lifted :: xl_lifted where
  "sample_lifted m = Some (Inr (m\<lparr>reg_x := (\<lambda>i. if i = 0 then reg_x m 0 + reg_x m 1 else 99), reg_pc := 0\<rparr>))"


section \<open>The guest's frames\<close>

text \<open>
  The walk over the guest's frames that a crash report makes reads at most sixteen frames, at strictly rising
  addresses below 4 GiB, the first being the frame pointer; so it ends whatever memory holds, a cycle of frames included.
\<close>

theorem xl_walk_guest_bounded:
  "length (xl_walk_guest m) \<le> 16 \<and> sorted_wrt (<) (map fst (xl_walk_guest m)) \<and>
   (\<forall>(fp, lr) \<in> set (xl_walk_guest m). unat fp < 2 ^ 32 \<and> fp \<noteq> 0 \<and> reg_x m 29 \<le> fp \<and> lr = load64 (memory m) (ucast (fp + 8)))"
proof -
  have "length (walk_frames n mem fp) \<le> n \<and> sorted_wrt (<) (map fst (walk_frames n mem fp)) \<and>
    (\<forall>(p, lr) \<in> set (walk_frames n mem fp). unat p < 2 ^ 32 \<and> p \<noteq> 0 \<and> fp \<le> p \<and> lr = load64 mem (ucast (p + 8)))" for n mem fp
  proof (induction n mem fp rule: walk_frames.induct)
    case (1 mem fp)
    then show ?case by simp
  next
    case (2 left mem fp)
    show ?case
    proof (cases "fp = 0 \<or> drop_bit 32 fp \<noteq> 0 \<or> load64 mem (ucast fp) \<le> fp")
      case True
      then show ?thesis by (auto simp: Let_def high_bits_unat)
    next
      case False
      note ih = "2.IH" [OF _ refl refl]
      from False have "fp < load64 mem (ucast fp)" by (simp add: not_le)
      with False ih show ?thesis by (fastforce simp: Let_def high_bits_unat)
    qed
  qed
  from this [of 16 "memory m" "reg_x m 29"] show ?thesis unfolding xl_walk_guest_def by blast
qed

theorem xl_walk_guest_bounded_witness:
  "xl_walk_guest sample_machine = [(29, 0)]"
proof -
  have e: "walk_frames (Suc 15) (\<lambda>a. 0) 29 = [(29, 0)]"
    unfolding walk_frames.simps by (simp add: load64_def le_word_def upt_rec high_bits_unat)
  have "(16 :: nat) = Suc 15" by simp
  then have "xl_walk_guest sample_machine = [(29, 0)]"
    using e by (simp add: xl_walk_guest_def sample_machine_def)
  moreover have "\<forall>(fp, lr) \<in> set (xl_walk_guest sample_machine). fp \<noteq> 0" using xl_walk_guest_bounded [of sample_machine] by auto
  ultimately show ?thesis by blast
qed

end
