(* ===== verification/Crash.thy ===== *)
theory Crash
  imports Runtime
begin

text \<open>
  How a translated program ends when it must (\<open>runtime/runtime.c\<close>): \<open>xl_fault\<close>, the crash handler with the report it writes,
  the notes on other ends, and the alternate signal stack of each thread. What the host's libraries answer (which log can
  be opened, where \<open>dladdr\<close> finds an address, what lies in memory) is an argument.
\<close>

section \<open>The process\<close>

text \<open>The two logs, which have no text when they cannot be opened, the text on \<open>stderr\<close>, and \<open>xl_crashing\<close>.\<close>

record Process =
  crash_log :: "string option"
  exit_log :: "string option"
  error_text :: string
  crashing :: bool

text \<open>A line to the crash log, and nowhere when there is none; and one through \<open>xl_crash_fd\<close>, which falls back to \<open>stderr\<close>.\<close>

definition to_crash_log :: "string \<Rightarrow> Process \<Rightarrow> Process" where
  "to_crash_log s p = p\<lparr>crash_log := map_option (\<lambda>t. t @ s) (crash_log p)\<rparr>"

definition to_error :: "string \<Rightarrow> Process \<Rightarrow> Process" where
  "to_error s p = p\<lparr>error_text := error_text p @ s\<rparr>"

definition xl_crash_fd :: "string \<Rightarrow> Process \<Rightarrow> Process" where
  "xl_crash_fd s p = (if crash_log p = None then to_error s p else to_crash_log s p)"

definition to_exit_log :: "string \<Rightarrow> Process \<Rightarrow> Process" where
  "to_exit_log s p = p\<lparr>exit_log := map_option (\<lambda>t. t @ s) (exit_log p)\<rparr>"

section \<open>What is written\<close>

definition end_line :: string where "end_line = [CHR 0x0A]"

definition hex64 :: "u64 \<Rightarrow> string" where "hex64 v = ''0x'' @ hex_string (unat v)"

definition hex32 :: "u32 \<Rightarrow> string" where "hex32 v = ''0x'' @ hex_string (unat v)"

text \<open>The registers, as \<open>xl_dump\<close> writes them and, with the word \<open>guest\<close>, \<open>xl_walk_guest\<close>.\<close>

definition register_text :: "string \<Rightarrow> Machine \<Rightarrow> string" where
  "register_text tag m =
     ''xlate: '' @ tag @ ''pc='' @ hex64 (reg_pc m) @ '' lr='' @ hex64 (reg_x m 30) @ '' sp='' @ hex64 (reg_sp m) @ end_line @
     concat (map (\<lambda>i. ''xlate: '' @ tag @ ''x'' @ dec_string i @ ''='' @ hex64 (reg_x m i) @ end_line) [0..<8])"

definition xl_dump :: "Machine \<Rightarrow> Process \<Rightarrow> Process" where
  "xl_dump m = to_error (register_text [] m)"

definition frame_text :: "nat \<times> u64 \<times> u64 \<Rightarrow> string" where
  "frame_text e =
     ''xlate: guest frame '' @ dec_string (fst e) @ '' fp='' @ hex64 (fst (snd e)) @ '' lr='' @ hex64 (snd (snd e)) @ end_line"

text \<open>All that \<open>xl_walk_guest\<close> writes.\<close>

definition guest_report :: "Machine \<Rightarrow> string" where
  "guest_report m = register_text ''guest '' m @ concat (map frame_text (List.enumerate 0 (xl_walk_guest m)))"

definition xl_report_guest_frame :: "Machine \<Rightarrow> Process \<Rightarrow> Process" where
  "xl_report_guest_frame m = to_error (guest_report m)"

definition xl_log_guest_frames :: "string \<Rightarrow> Machine \<Rightarrow> Process \<Rightarrow> Process" where
  "xl_log_guest_frames why m p = xl_crash_fd (guest_report m) (xl_crash_fd (''xlate: '' @ why @ end_line) p)"

section \<open>\<open>xl_fault\<close>\<close>

datatype Ending = ThreadEnds | Aborts

text \<open>\<open>main_thread\<close> is \<open>pthread_main_np\<close>, \<open>flagged\<close> whether the flag file is there.\<close>

definition xl_fault :: "string \<Rightarrow> bool \<Rightarrow> bool \<Rightarrow> Machine \<Rightarrow> Process \<Rightarrow> Ending \<times> Process" where
  "xl_fault reason main_thread flagged m p =
     (let line = ''xlate: '' @ reason @ end_line;
          p = xl_dump m (to_crash_log line (to_error line p))
      in if \<not> main_thread \<and> flagged
         then (ThreadEnds, to_crash_log (''xlate: worker thread ended by the fault above (xl-fault-ends-thread)'' @ end_line) p)
         else (Aborts, p))"

section \<open>The crash handler\<close>

text \<open>The host's registers at a signal, and what \<open>dladdr\<close> says of an address: the names of its symbol and of its image, if any.\<close>

record HostContext =
  hc_r :: "nat \<Rightarrow> u32"
  hc_pc :: u32
  hc_lr :: u32
  hc_sp :: u32
  hc_cpsr :: u32

type_synonym Symbols = "u32 \<Rightarrow> (string option \<times> string option) option"

definition load32 :: "(u32 \<Rightarrow> u8) \<Rightarrow> u32 \<Rightarrow> u32" where
  "load32 mem a = le_word (map (\<lambda>i. mem (a + of_nat i)) [0..<4])"

text \<open>The chain of host frames: the frame pointers followed and the addresses saved there. The first argument is \<open>24 - depth\<close>.\<close>

fun host_walk :: "nat \<Rightarrow> (u32 \<Rightarrow> u8) \<Rightarrow> u32 \<Rightarrow> (u32 \<times> u32) list" where
  "host_walk 0 mem hfp = []"
| "host_walk (Suc left) mem hfp =
     (if hfp = 0 \<or> hfp AND 3 \<noteq> 0 then []
      else let following = load32 mem hfp
           in (hfp, load32 mem (hfp + 4)) # (if following \<le> hfp then [] else host_walk left mem following))"

text \<open>What follows the last slash.\<close>

definition image_name :: "string option \<Rightarrow> string" where
  "image_name path =
     (case path of
        None \<Rightarrow> ''?''
      | Some s \<Rightarrow> if CHR ''/'' \<in> set s then rev (takeWhile (\<lambda>c. c \<noteq> CHR ''/'') (rev s)) else ''?'')"

text \<open>
  The line of a frame. When \<open>dladdr\<close> finds nothing it leaves \<open>info\<close> as it was, which is never set, and the code goes on to
  use the name of the image in it: \<open>None\<close>.
\<close>

definition host_frame_text :: "Symbols \<Rightarrow> nat \<times> u32 \<times> u32 \<Rightarrow> string option" where
  "host_frame_text symbols e =
     (case symbols (snd (snd e)) of
        None \<Rightarrow> None
      | Some (name, path) \<Rightarrow>
          Some (''xlate: host frame '' @ dec_string (fst e) @ '' lr='' @ hex32 (snd (snd e)) @ '' '' @
            (case name of None \<Rightarrow> ''?'' | Some s \<Rightarrow> s) @ '' ('' @ image_name path @ '')'' @ end_line))"

fun all_texts :: "string option list \<Rightarrow> string option" where
  "all_texts [] = Some []"
| "all_texts (x # xs) = (case (x, all_texts xs) of (Some s, Some rest) \<Rightarrow> Some (s @ rest) | _ \<Rightarrow> None)"

definition host_report :: "Symbols \<Rightarrow> (u32 \<Rightarrow> u8) \<Rightarrow> HostContext \<Rightarrow> string option" where
  "host_report symbols mem ctx =
     map_option (\<lambda>frames.
       ''xlate: host pc='' @ hex32 (hc_pc ctx) @ '' lr='' @ hex32 (hc_lr ctx) @ '' sp='' @ hex32 (hc_sp ctx) @ '' cpsr='' @
       hex32 (hc_cpsr ctx) @ end_line @
       concat (map (\<lambda>i. ''xlate: host r'' @ dec_string i @ ''='' @ hex32 (hc_r ctx i) @ end_line) [0..<13]) @
       (case symbols (hc_pc ctx) of Some (Some name, path) \<Rightarrow> ''xlate: host pc in '' @ name @ end_line | _ \<Rightarrow> []) @
       ''xlate: host frame 0 lr='' @ hex32 (hc_lr ctx) @ end_line @ frames)
     (all_texts (map (host_frame_text symbols) (List.enumerate 1 (host_walk 23 mem (hc_r ctx 7)))))"

definition signal_text :: "nat \<Rightarrow> u32 \<Rightarrow> string" where
  "signal_text number address = ''xlate: signal '' @ dec_string number @ '' at fault '' @ hex32 address @ end_line"

text \<open>
  What the handler leaves before it lets the signal end the process: nothing when a report is being written already. The
  context may be missing, and so may the address, which is then zero.
\<close>

definition xl_crash_handler :: "nat \<Rightarrow> u32 option \<Rightarrow> HostContext option \<Rightarrow> Symbols \<Rightarrow> Machine \<Rightarrow> Process \<Rightarrow> Process option" where
  "xl_crash_handler number address ctx symbols m p =
     (if crashing p then Some p
      else
        let p = xl_crash_fd (signal_text number (case address of None \<Rightarrow> 0 | Some a \<Rightarrow> a)) (p\<lparr>crashing := True\<rparr>)
        in map_option (\<lambda>host. xl_crash_fd (guest_report m) (xl_crash_fd host p))
             (case ctx of None \<Rightarrow> Some [] | Some c \<Rightarrow> host_report symbols (memory m) c))"

section \<open>Other ends\<close>

definition xl_note_exit :: "nat \<Rightarrow> Machine \<Rightarrow> Process \<Rightarrow> Process" where
  "xl_note_exit pid m = to_exit_log (''xlate: process exiting normally (pid '' @ dec_string pid @ '')'' @ end_line @ guest_report m)"

definition xl_signal_note :: "nat \<Rightarrow> nat \<Rightarrow> Machine \<Rightarrow> Process \<Rightarrow> Process" where
  "xl_signal_note number pid m =
     to_exit_log (''xlate: terminated by signal '' @ dec_string number @ '' (pid '' @ dec_string pid @ '')'' @ end_line @ guest_report m)"

text \<open>
  The signals with a handler, by Darwin's numbers: \<open>SIGPIPE SIGTERM SIGHUP SIGQUIT SIGFPE SIGALRM SIGUSR1 SIGUSR2 SIGXCPU
  SIGSYS\<close> are noted, \<open>SIGSEGV SIGBUS SIGILL SIGABRT SIGTRAP\<close> are crashes.
\<close>

definition noted_signals :: "nat list" where "noted_signals = [13, 15, 1, 3, 8, 14, 30, 31, 24, 12]"

definition crash_signals :: "nat list" where "crash_signals = [11, 10, 4, 6, 5]"

text \<open>A signal under the handlers installed, then its default action, which ends the process.\<close>

definition deliver :: "nat \<Rightarrow> nat \<Rightarrow> u32 option \<Rightarrow> HostContext option \<Rightarrow> Symbols \<Rightarrow> Machine \<Rightarrow> Process \<Rightarrow> Process option" where
  "deliver number pid address ctx symbols m p =
     (if number \<in> set crash_signals then xl_crash_handler number address ctx symbols m p
      else if number \<in> set noted_signals then Some (xl_signal_note number pid m p)
      else Some p)"

text \<open>A fault with what follows: \<open>abort\<close> raises \<open>SIGABRT\<close>.\<close>

definition SIGABRT :: nat where "SIGABRT = 6"

definition faulted :: "string \<Rightarrow> bool \<Rightarrow> bool \<Rightarrow> nat \<Rightarrow> u32 option \<Rightarrow> HostContext option \<Rightarrow> Symbols \<Rightarrow> Machine \<Rightarrow> Process \<Rightarrow>
    (Ending \<times> Process) option" where
  "faulted reason main_thread flagged pid address ctx symbols m p =
     (case xl_fault reason main_thread flagged m p of
        (ThreadEnds, p) \<Rightarrow> Some (ThreadEnds, p)
      | (Aborts, p) \<Rightarrow> map_option (Pair Aborts) (deliver SIGABRT pid address ctx symbols m p))"

section \<open>Alternate stacks\<close>

text \<open>
  What \<open>xl_thread_altstack\<close> leaves a thread: the stack its key holds and the one signals run on. There may be no memory, and
  the system may refuse the stack, which is then freed.
\<close>

record AltStack =
  key_stack :: "u32 option"
  signal_stack :: "u32 option"

definition xl_thread_altstack :: "u32 option \<Rightarrow> bool \<Rightarrow> AltStack \<Rightarrow> AltStack" where
  "xl_thread_altstack allocated accepted thread =
     (if key_stack thread \<noteq> None then thread
      else case allocated of
        None \<Rightarrow> thread
      | Some stack \<Rightarrow> if accepted then \<lparr>key_stack = Some stack, signal_stack = Some stack\<rparr> else thread)"

text \<open>At the end of a thread its stack is taken from the signals before it is freed.\<close>

definition xl_altstack_free :: "AltStack \<Rightarrow> AltStack" where
  "xl_altstack_free thread = thread\<lparr>signal_stack := None\<rparr>"

end
