(* ===== verification/Crash_Facts.thy ===== *)
theory Crash_Facts
  imports Crash
begin

text \<open>The walk over the host's frames ends and never turns back, and a fault leaves one whole report.\<close>

section \<open>The host's frames\<close>

lemma host_walk_bounded: "length (host_walk left mem hfp) \<le> left"
  by (induction left mem hfp rule: host_walk.induct) (simp_all add: Let_def)

lemma host_walk_from:
  "(fp, lr) \<in> set (host_walk left mem hfp) \<Longrightarrow> hfp \<le> fp \<and> fp \<noteq> 0 \<and> fp AND 3 = 0 \<and> lr = load32 mem (fp + 4)"
proof (induction left mem hfp rule: host_walk.induct)
  case (2 left mem hfp)
  then show ?case by (fastforce simp: Let_def split: if_splits)
qed simp

lemma host_walk_rises: "sorted_wrt (<) (map fst (host_walk left mem hfp))"
proof (induction left mem hfp rule: host_walk.induct)
  case (2 left mem hfp)
  have "hfp < fp" if "\<not> load32 mem hfp \<le> hfp" "(fp, lr) \<in> set (host_walk left mem (load32 mem hfp))" for fp lr
    using host_walk_from [OF that(2)] that(1) by (meson not_le order_less_le_trans)
  with 2 show ?case by (auto simp: Let_def)
qed simp

lemma all_texts_None: "all_texts xs = None \<longleftrightarrow> None \<in> set xs"
  by (induction xs) (auto split: option.splits)

lemma host_frame_text_None: "host_frame_text symbols e = None \<longleftrightarrow> symbols (snd (snd e)) = None"
  by (auto simp: host_frame_text_def split: option.splits)

lemma host_report_None:
  "host_report symbols mem ctx = None \<longleftrightarrow> list_ex (\<lambda>e. symbols (snd e) = None) (host_walk 23 mem (hc_r ctx 7))"
proof -
  have "None \<in> set (map (host_frame_text symbols) (List.enumerate 1 xs)) \<longleftrightarrow> (\<exists>e \<in> set (map snd (List.enumerate 1 xs)). symbols (snd e) = None)"
    for xs unfolding set_map image_iff Bex_def eq_commute [of None] host_frame_text_None by blast
  then show ?thesis unfolding host_report_def by (simp only: option.map_disc_iff all_texts_None map_snd_enumerate list_ex_iff)
qed

section \<open>A fault\<close>

text \<open>
  C7: The report of a fault. A fault on the main thread, or without the flag file, aborts, and if the crash log can be opened
  it then holds, behind what it held, the reason, the signal, the host's registers and frames and the guest's, each once;
  a signal that comes while or after the report is written adds nothing. Only a host frame whose return address
  lies in no image, for which the handler uses a name that was never set, keeps the report from being written; the
  frames followed rise, lie on word boundaries and are fewer than 24.
\<close>

theorem fault_leaves_one_report:
  assumes "crash_log p = Some written" and "\<not> crashing p" and "main_thread \<or> \<not> flagged"
  shows "let frames = host_walk 23 (memory m) (hc_r ctx 7) in
    sorted_wrt (<) (map fst frames) \<and> length frames < 24 \<and> list_all (\<lambda>e. fst e AND 3 = 0) frames \<and>
    (case faulted reason main_thread flagged pid address (Some ctx) symbols m p of
       None \<Rightarrow> list_ex (\<lambda>e. symbols (snd e) = None) frames
     | Some (ending, p') \<Rightarrow> ending = Aborts \<and> \<not> list_ex (\<lambda>e. symbols (snd e) = None) frames \<and>
         (\<exists>host. host_report symbols (memory m) ctx = Some host \<and>
            crash_log p' = Some (written @ (''xlate: '' @ reason @ end_line) @
              signal_text 6 (case address of None \<Rightarrow> 0 | Some a \<Rightarrow> a) @ host @ guest_report m)) \<and>
         map_option crash_log (deliver number pid' address' ctx' symbols' m' p') = Some (crash_log p'))"
proof -
  let ?frames = "host_walk 23 (memory m) (hc_r ctx 7)"
  define p1 where "p1 = xl_dump m (to_crash_log (''xlate: '' @ reason @ end_line) (to_error (''xlate: '' @ reason @ end_line) p))"
  define signalled where "signalled = signal_text 6 (case address of None \<Rightarrow> 0 | Some a \<Rightarrow> a)"
  have f: "xl_fault reason main_thread flagged m p = (Aborts, p1)" using assms(3) by (simp add: xl_fault_def p1_def Let_def)
  have l: "crash_log p1 = Some (written @ (''xlate: '' @ reason @ end_line))" and c: "\<not> crashing p1"
    using assms(1,2) by (simp_all add: p1_def xl_dump_def to_error_def to_crash_log_def)
  have walk: "sorted_wrt (<) (map fst ?frames)" "length ?frames < 24" "list_all (\<lambda>e. fst e AND 3 = 0) ?frames"
    using host_walk_rises host_walk_bounded [of 23 "memory m" "hc_r ctx 7"] host_walk_from by (auto simp: list_all_iff)
  have d: "faulted reason main_thread flagged pid address (Some ctx) symbols m p =
      map_option (\<lambda>host. (Aborts, xl_crash_fd (guest_report m) (xl_crash_fd host
        (xl_crash_fd signalled (p1\<lparr>crashing := True\<rparr>)))))
      (host_report symbols (memory m) ctx)"
    unfolding faulted_def f prod.case Ending.case signalled_def using c
    by (simp add: deliver_def crash_signals_def SIGABRT_def xl_crash_handler_def Let_def option.map_comp comp_def)
  have e: "xl_crash_fd s q = to_crash_log s q" "crash_log (to_crash_log s q) = Some (before @ s)" "crashing (to_crash_log s q) = crashing q"
    if "crash_log q = Some before" for s q before
    using that by (simp_all add: xl_crash_fd_def to_crash_log_def)
  have later: "map_option crash_log (deliver number pid' address' ctx' symbols' m' q) = Some (crash_log q)" if "crashing q" for q
    using that by (simp add: deliver_def xl_crash_handler_def xl_signal_note_def to_exit_log_def)
  show ?thesis
  proof (cases "host_report symbols (memory m) ctx")
    case None
    then show ?thesis using walk host_report_None [of symbols "memory m" ctx] d by (simp add: Let_def)
  next
    case (Some host)
    have n: "\<not> list_ex (\<lambda>e. symbols (snd e) = None) ?frames" using Some host_report_None [of symbols "memory m" ctx] by simp
    define q where "q = p1\<lparr>crashing := True\<rparr>"
    define r where "r = to_crash_log (guest_report m) (to_crash_log host (to_crash_log signalled q))"
    have q: "crash_log q = Some (written @ (''xlate: '' @ reason @ end_line))" "crashing q" using l by (simp_all add: q_def)
    note q1 = e(2) [OF q(1), of signalled]
    note q2 = e(2) [OF q1, of host]
    have fa: "faulted reason main_thread flagged pid address (Some ctx) symbols m p = Some (Aborts, r)"
      unfolding d Some option.map r_def q_def [symmetric] e(1) [OF q(1)] e(1) [OF q1] e(1) [OF q2] ..
    have lr: "crash_log r = Some (written @ (''xlate: '' @ reason @ end_line) @ signalled @ host @ guest_report m)"
      using e(2) [OF q2, of "guest_report m"] unfolding r_def append_assoc .
    have cr: "crashing r" using q(2) by (simp add: r_def to_crash_log_def)
    show ?thesis
      unfolding Let_def fa option.case prod.case signalled_def [symmetric]
      using walk n Some lr later [OF cr] by (intro conjI exI [of _ host]) simp_all
  qed
qed

text \<open>A fault where the host's chain is empty, and one where its only frame lies in no image.\<close>

definition faulting_machine :: Machine where
  "faulting_machine = \<lparr>reg_x = (\<lambda>_. 0), reg_sp = 0, reg_pc = 0x1000, reg_tpidrro = 0, memory = (\<lambda>_. 0)\<rparr>"

definition faulting_context :: "u32 \<Rightarrow> HostContext" where
  "faulting_context fp = \<lparr>hc_r = (\<lambda>i. if i = 7 then fp else 0), hc_pc = 0, hc_lr = 0, hc_sp = 0, hc_cpsr = 0\<rparr>"

definition quiet_process :: Process where
  "quiet_process = \<lparr>crash_log = Some [], exit_log = None, error_text = [], crashing = False\<rparr>"

theorem fault_leaves_one_report_witness:
  "faulted ''r'' True False 1 None (Some (faulting_context 0x2000)) (\<lambda>_. None) faulting_machine quiet_process = None \<and>
   (\<exists>p' rest. faulted ''r'' True False 1 None (Some (faulting_context 0)) (\<lambda>_. None) faulting_machine quiet_process = Some (Aborts, p') \<and>
      crash_log p' = Some (''xlate: r'' @ end_line @ rest))"
proof -
  have z: "load32 (\<lambda>_. 0) a = 0" for a by (simp add: load32_def upt_rec)
  have s: "(23 :: nat) = Suc 22" by simp
  have w: "host_walk 23 (memory faulting_machine) (hc_r (faulting_context 0x2000) 7) = [(0x2000, 0)]"
    "host_walk 23 (memory faulting_machine) (hc_r (faulting_context 0) 7) = []"
    unfolding s host_walk.simps by (simp_all add: faulting_machine_def faulting_context_def z)
  note report = fault_leaves_one_report [where p = quiet_process and written = "[]" and main_thread = True and flagged = False and m = faulting_machine and reason = "''r''" and pid = 1
      and address = None and symbols = "\<lambda>_. None" and number = 6 and pid' = 1 and address' = None and ctx' = None and symbols' = "\<lambda>_. None" and
      m' = faulting_machine]
  have "faulted ''r'' True False 1 None (Some (faulting_context 0x2000)) (\<lambda>_. None) faulting_machine quiet_process = None"
    using report [where ctx = "faulting_context 0x2000"] unfolding w Let_def
    by (simp add: quiet_process_def del: append_Cons append.simps One_nat_def split: option.splits prod.splits)
  moreover have "\<exists>p' rest. faulted ''r'' True False 1 None (Some (faulting_context 0)) (\<lambda>_. None) faulting_machine quiet_process = Some (Aborts, p') \<and>
      crash_log p' = Some (''xlate: r'' @ end_line @ rest)"
    using report [where ctx = "faulting_context 0"] unfolding w Let_def
    by (auto simp: quiet_process_def simp del: One_nat_def split: option.splits)
  ultimately show ?thesis by blast
qed

end
