(* ===== verification/Ctypes.thy ===== *)
theory Ctypes
  imports Prelude
begin

text \<open>
  What the bridge generator (\<open>xlgen.cpp\<close>) asks Clang about C types. The two syntax trees, for the guest's target and
  for the host's, are trees of types with their sizes; what Clang prints for a type, the declarations it finds by
  name and the layout it gives a new structure are fields of the context, and so parameters.
\<close>

section \<open>Types\<close>

text \<open>
  Canonical types. A structure that is a field is there with its declaration; behind a pointer it is a tag, which the
  context completes, so a list node that points to its like is a finite tree. Sizes, alignments and offsets are in bits.
  \<open>NullType\<close> is \<open>QualType()\<close>; a question the code must not ask of it is answered with no.
\<close>

datatype ctype =
    NullType
  | VoidType
  | FunctionType "(ctype \<times> ctype list) option"
  | IncompleteType string
  | IntegerType bool nat nat
  | FloatingType nat nat
  | ObjCPointerType "string option" bool
  | SelType
  | BlockPointerType ctype
  | PointerType bool ctype
  | ArrayType ctype nat
  | RecordType cdecl
  | TagType string
  | OtherType string nat nat
and cdecl = Record (d_id: nat) (d_name: string) (d_typedef: "string option") (d_union: bool) (d_size: nat) (d_align: nat)
    (d_fields: "cfield list")
and cfield = Field (f_name: string) (f_type: ctype) (f_offset: nat) (f_bit_field: bool)

text \<open>
  \<open>ObjCPointerType\<close> has the name of its interface, none for \<open>id\<close> and \<open>Class\<close>, and whether the target's release lacks the
  class; \<open>PointerType\<close> whether its pointee is \<open>const\<close>; \<open>IntegerType\<close> whether it is signed.
\<close>

record ASTContext =
  pointer_bits :: nat
  complete_tag :: "string \<Rightarrow> cdecl option"
  print_type :: "ctype \<Rightarrow> string \<Rightarrow> string"
  type_string :: "ctype \<Rightarrow> string"
  lookup_type :: "string \<Rightarrow> ctype option"
  make_record :: "string \<Rightarrow> (string \<times> ctype) list \<Rightarrow> cdecl"
  objc_encoding :: "ctype \<Rightarrow> string"
  builtin :: "string \<Rightarrow> ctype"

definition resolve_tag :: "ASTContext \<Rightarrow> ctype \<Rightarrow> ctype" where
  "resolve_tag ctx t = (case t of TagType n \<Rightarrow> (case complete_tag ctx n of Some d \<Rightarrow> RecordType d | None \<Rightarrow> IncompleteType n) | _ \<Rightarrow> t)"

fun pointee_type :: "ASTContext \<Rightarrow> ctype \<Rightarrow> ctype" where
  "pointee_type ctx (PointerType c t) = resolve_tag ctx t"
| "pointee_type ctx (BlockPointerType t) = t"
| "pointee_type ctx SelType = OtherType ''SEL'' (pointer_bits ctx) (pointer_bits ctx)"
| "pointee_type ctx t = NullType"

fun pointee_const :: "ctype \<Rightarrow> bool" where
  "pointee_const (PointerType c t) = c"
| "pointee_const t = False"

fun type_size :: "ASTContext \<Rightarrow> ctype \<Rightarrow> nat" where
  "type_size ctx (IntegerType s b a) = b"
| "type_size ctx (FloatingType b a) = b"
| "type_size ctx (ArrayType t n) = n * type_size ctx t"
| "type_size ctx (RecordType d) = d_size d"
| "type_size ctx (OtherType n b a) = b"
| "type_size ctx (ObjCPointerType i u) = pointer_bits ctx"
| "type_size ctx SelType = pointer_bits ctx"
| "type_size ctx (BlockPointerType t) = pointer_bits ctx"
| "type_size ctx (PointerType c t) = pointer_bits ctx"
| "type_size ctx t = 0"

fun type_align :: "ASTContext \<Rightarrow> ctype \<Rightarrow> nat" where
  "type_align ctx (IntegerType s b a) = a"
| "type_align ctx (FloatingType b a) = a"
| "type_align ctx (ArrayType t n) = type_align ctx t"
| "type_align ctx (RecordType d) = d_align d"
| "type_align ctx (OtherType n b a) = a"
| "type_align ctx (ObjCPointerType i u) = pointer_bits ctx"
| "type_align ctx SelType = pointer_bits ctx"
| "type_align ctx (BlockPointerType t) = pointer_bits ctx"
| "type_align ctx (PointerType c t) = pointer_bits ctx"
| "type_align ctx t = 0"

fun is_any_pointer :: "ctype \<Rightarrow> bool" where
  "is_any_pointer (ObjCPointerType i u) = True"
| "is_any_pointer SelType = True"
| "is_any_pointer (PointerType c t) = True"
| "is_any_pointer t = False"

fun is_pointer_type :: "ctype \<Rightarrow> bool" where
  "is_pointer_type SelType = True"
| "is_pointer_type (PointerType c t) = True"
| "is_pointer_type t = False"

fun is_void_or_function :: "ctype \<Rightarrow> bool" where
  "is_void_or_function VoidType = True"
| "is_void_or_function (FunctionType p) = True"
| "is_void_or_function t = False"

fun is_incomplete :: "ctype \<Rightarrow> bool" where
  "is_incomplete VoidType = True"
| "is_incomplete (IncompleteType n) = True"
| "is_incomplete t = False"

fun is_block_pointer :: "ctype \<Rightarrow> bool" where
  "is_block_pointer (BlockPointerType t) = True"
| "is_block_pointer t = False"

section \<open>Text\<close>

text \<open>\<open>Spell\<close>: the type as Clang prints it, with \<open>SEL *\<close> for \<open>SEL\<close> undone and the blanks at the end cut.\<close>

fun undo_sel :: "string \<Rightarrow> string" where
  "undo_sel [] = []"
| "undo_sel (c # s) =
     (if starts_with ''SEL *'' (c # s) then ''SEL '' @ undo_sel (drop 4 s) else c # undo_sel s)"

definition trim_end :: "string \<Rightarrow> string" where
  "trim_end s = rev (dropWhile (\<lambda>c. c = CHR '' '') (rev s))"

definition Spell :: "ASTContext \<Rightarrow> ctype \<Rightarrow> string \<Rightarrow> string" where
  "Spell ctx t name =
     (case t of
        ObjCPointerType (Some interface) True \<Rightarrow> (if name = [] then ''id'' else ''id '' @ name)
      | _ \<Rightarrow> trim_end (undo_sel (print_type ctx t name)))"

definition digit :: "char \<Rightarrow> bool" where
  "digit c \<longleftrightarrow> CHR ''0'' \<le> c \<and> c \<le> CHR ''9''"

definition alnum :: "char \<Rightarrow> bool" where
  "alnum c \<longleftrightarrow> digit c \<or> CHR ''A'' \<le> c \<and> c \<le> CHR ''Z'' \<or> CHR ''a'' \<le> c \<and> c \<le> CHR ''z''"

definition Sanitize :: "string \<Rightarrow> string" where
  "Sanitize text = map (\<lambda>c. if alnum c then c else CHR ''_'') text"

text \<open>\<open>NormalizeEncoding\<close>: the digits go, and so does the name of a structure or union, up to what ends it.\<close>

definition ends_name :: "char \<Rightarrow> bool" where
  "ends_name c \<longleftrightarrow> c = CHR ''='' \<or> c = CHR ''}'' \<or> c = CHR '')''"

function NormalizeEncoding :: "string \<Rightarrow> string" where
  "NormalizeEncoding [] = []"
| "NormalizeEncoding (c # s) =
     (if digit c then NormalizeEncoding s
      else if c = CHR ''{'' \<or> c = CHR ''('' then c # CHR ''?'' # NormalizeEncoding (dropWhile (\<lambda>c. \<not> ends_name c) s)
      else c # NormalizeEncoding s)"
  by pat_completeness auto

termination NormalizeEncoding
  by (relation "measure length") (auto simp: length_dropWhile_le less_Suc_eq_le)

end
