(* ===== verification/Bridge.thy ===== *)
theory Bridge
  imports Ctypes
begin

text \<open>
  How the bridge generator decides what a value needs to cross between the guest and the host (\<open>SameLayout\<close>,
  \<open>Classify\<close>, \<open>DetectArrays\<close>), and the C it emits for a scalar and for a structure (\<open>ScalarToHost\<close>, \<open>ScalarToGuest\<close>,
  \<open>Leaves\<close>, \<open>Mirror\<close>).
\<close>

section \<open>\<open>SameLayout\<close>\<close>

text \<open>The set \<open>seen\<close> of guest structures is passed through.\<close>

function SameLayout :: "ASTContext \<Rightarrow> ctype \<Rightarrow> ASTContext \<Rightarrow> ctype \<Rightarrow> nat set \<Rightarrow> bool \<times> nat set"
  and same_fields :: "ASTContext \<Rightarrow> cfield list \<Rightarrow> ASTContext \<Rightarrow> cfield list \<Rightarrow> nat set \<Rightarrow> bool \<times> nat set" where
  "SameLayout gc g hc h seen =
     (if is_void_or_function g then (is_void_or_function h, seen)
      else if is_incomplete g \<or> is_incomplete h then (True, seen)
      else if is_any_pointer g \<or> is_block_pointer g then (False, seen)
      else if type_size gc g \<noteq> type_size hc h \<or> type_align gc g \<noteq> type_align hc h then (False, seen)
      else case g of
        ArrayType ge n \<Rightarrow> (case h of ArrayType he m \<Rightarrow> SameLayout gc ge hc he seen | _ \<Rightarrow> (False, seen))
      | RecordType gr \<Rightarrow>
          (case h of
             RecordType hr \<Rightarrow>
               if d_id gr \<in> seen then (True, seen)
               else same_fields gc (d_fields gr) hc (d_fields hr) (insert (d_id gr) seen)
           | _ \<Rightarrow> (False, seen))
      | _ \<Rightarrow> (True, seen))"
| "same_fields gc (gf # gfs) hc (hf # hfs) seen =
     (if f_offset gf \<noteq> f_offset hf then (False, seen)
      else case SameLayout gc (f_type gf) hc (f_type hf) seen of
        (False, seen) \<Rightarrow> (False, seen)
      | (True, seen) \<Rightarrow> same_fields gc gfs hc hfs seen)"
| "same_fields gc [] hc hfs seen = (hfs = [], seen)"
| "same_fields gc (gf # gfs) hc [] seen = (False, seen)"
  by pat_completeness auto

lemma size_field_type: "size (f_type f) \<le> size f + n"
  by (cases f) simp

lemma size_record_fields: "size_list size (d_fields d) < size d"
  by (cases d) simp

termination SameLayout
proof (relation "measure (\<lambda>x. case x of Inl (gc, g, hc, h, seen) \<Rightarrow> size g | Inr (gc, gfs, hc, hfs, seen) \<Rightarrow> size_list size gfs)")
qed (use size_field_type size_record_fields in \<open>auto simp: less_Suc_eq_le less_imp_le\<close>)

declare SameLayout.simps [simp del]

section \<open>\<open>Classify\<close>\<close>

datatype Kind =
    KVoid | KInteger | KFloating | KPointer | KProtocol | KRecord | KRecordPointer | KOutSlot | KArray | KBlock
  | KCallback | KUnsupported

datatype Value = Value (v_kind: Kind) (v_guest: ctype) (v_host: ctype) (v_signed: bool) (v_guest_bits: nat) (v_host_bits: nat)
    (v_note: string) (v_pointee: "Value option") (v_count: int) (v_writes_back: bool) (v_object: bool)

text \<open>A value with the defaults of its members.\<close>

definition new_value :: "Kind \<Rightarrow> ctype \<Rightarrow> ctype \<Rightarrow> Value" where
  "new_value k g h = Value k g h False 0 0 [] None (- 1) False False"

definition noted_value :: "Kind \<Rightarrow> ctype \<Rightarrow> ctype \<Rightarrow> string \<Rightarrow> Value" where
  "noted_value k g h note = Value k g h False 0 0 note None (- 1) False False"

definition opaque_stream :: "ctype \<Rightarrow> bool" where
  "opaque_stream t = (case t of RecordType d \<Rightarrow> d_name d = ''__sFILE'' \<or> d_name d = ''__sFILEX'' | _ \<Rightarrow> False)"

definition opaque_handle :: "ctype \<Rightarrow> bool" where
  "opaque_handle t =
     (case t of
        RecordType d \<Rightarrow> starts_with ''_opaque_pthread_'' (d_name d) \<or> d_name d = ''__mbstate_t'' \<or>
          d_typedef d = Some ''__mbstate_t'' \<or> d_typedef d = Some ''DIR''
      | _ \<Rightarrow> False)"

fun pointer_depth :: "ctype \<Rightarrow> nat" where
  "pointer_depth (PointerType c t) = Suc (pointer_depth t)"
| "pointer_depth t = 0"

lemma pointer_depth_resolve [simp]: "pointer_depth (resolve_tag ctx t) = pointer_depth t"
  by (cases t) (auto simp: resolve_tag_def split: option.split)

function Classify :: "ASTContext \<Rightarrow> ctype \<Rightarrow> ASTContext \<Rightarrow> ctype \<Rightarrow> bool \<Rightarrow> Value" where
  "Classify gc g hc h parameter =
     (case g of
        VoidType \<Rightarrow> new_value KVoid g h
      | IntegerType s bits a \<Rightarrow> Value KInteger g h s (type_size gc g) (type_size hc h) [] None (- 1) False False
      | FloatingType bits a \<Rightarrow> Value KFloating g h False (type_size gc g) (type_size hc h) [] None (- 1) False False
      | ObjCPointerType interface unavailable \<Rightarrow>
          if interface = Some ''Protocol'' then new_value KProtocol g h
          else Value KPointer g h False 0 0 [] None (- 1) False True
      | SelType \<Rightarrow> new_value KPointer g h
      | BlockPointerType t \<Rightarrow> new_value KBlock g h
      | PointerType const t \<Rightarrow>
          (case t of
             FunctionType p \<Rightarrow> new_value KCallback g h
           | _ \<Rightarrow>
               let gp = pointee_type gc g; hp = pointee_type hc h
               in if fst (SameLayout gc gp hc hp {}) then new_value KPointer g h
                  else if opaque_stream gp then noted_value KPointer g h ''opaque stdio stream''
                  else if opaque_handle gp then noted_value KPointer g h ''opaque pthread object''
                  else let pointee = Classify gc gp hc hp False
                       in if parameter \<and> v_kind pointee = KRecord
                          then Value KRecordPointer g h False 0 0 [] (Some pointee) (- 1) (\<not> const) False
                          else if parameter \<and> \<not> const \<and> v_kind pointee \<in> {KInteger, KFloating, KPointer}
                          then Value KOutSlot g h False 0 0 [] (Some pointee) (- 1) False False
                          else noted_value KUnsupported g h (''pointer to '' @ type_string gc gp @ '', whose layout differs''))
      | RecordType d \<Rightarrow>
          if d_union d then noted_value KUnsupported g h (''union '' @ type_string gc g)
          else new_value KRecord g h
      | IncompleteType n \<Rightarrow> new_value KRecord g h
      | _ \<Rightarrow> noted_value KUnsupported g h (''type '' @ type_string gc g))"
  by pat_completeness auto

termination Classify
  by (relation "measure (\<lambda>(gc, g, hc, h, p). pointer_depth g)") auto

declare Classify.simps [simp del]

definition Supported :: "Value \<Rightarrow> bool" where
  "Supported v \<longleftrightarrow> v_kind v \<noteq> KUnsupported"

section \<open>Scalars\<close>

text \<open>Which conversion a scalar needs, apart from the text that asks for it.\<close>

datatype Conversion =
    NarrowSigned nat nat
  | NarrowUnsigned nat nat
  | PlainInteger bool
  | PlainFloating
  | ObjectHandle
  | HostPointer

definition conversion :: "Value \<Rightarrow> Conversion" where
  "conversion v =
     (if v_kind v = KInteger
      then if v_host_bits v < v_guest_bits v
           then if v_signed v then NarrowSigned (v_host_bits v) (v_guest_bits v)
                else NarrowUnsigned (v_host_bits v) (v_guest_bits v)
           else PlainInteger (v_signed v)
      else if v_kind v = KFloating then PlainFloating
      else if v_object v then ObjectHandle
      else HostPointer)"

definition Bound :: "nat \<Rightarrow> bool \<Rightarrow> bool \<Rightarrow> string" where
  "Bound bits is_signed is_max =
     (if is_signed
      then if is_max then ''(int64_t)((1ull << '' @ dec_string (bits - 1) @ '') - 1)''
           else ''(-(int64_t)((1ull << '' @ dec_string (bits - 1) @ '') - 1) - 1)''
      else if bits = 64 then ''UINT64_MAX''
      else ''(uint64_t)((1ull << '' @ dec_string bits @ '') - 1)'')"

definition ScalarToHost :: "ASTContext \<Rightarrow> Value \<Rightarrow> string \<Rightarrow> string \<Rightarrow> string" where
  "ScalarToHost hc v expr place =
     (let cast = ''('' @ Spell hc (v_host v) [] @ '')''
      in case conversion v of
        NarrowSigned hb gb \<Rightarrow>
          cast @ ''xl_narrow_signed((int64_t)'' @ expr @ '', '' @ Bound hb True False @ '', '' @ Bound hb True True @ '', '' @
          Bound gb True False @ '', '' @ Bound gb True True @ '', '' @ place @ '')''
      | NarrowUnsigned hb gb \<Rightarrow>
          cast @ ''xl_narrow_unsigned((uint64_t)'' @ expr @ '', '' @ Bound hb False True @ '', '' @ Bound gb False True @
          '', '' @ place @ '')''
      | PlainInteger s \<Rightarrow> cast @ expr
      | PlainFloating \<Rightarrow> cast @ expr
      | ObjectHandle \<Rightarrow> cast @ ''xl_object_in((uint64_t)'' @ expr @ '', '' @ place @ '')''
      | HostPointer \<Rightarrow> cast @ ''xl_narrow_pointer((uint64_t)'' @ expr @ '', '' @ place @ '')'')"

definition ScalarToGuest :: "Value \<Rightarrow> string \<Rightarrow> string" where
  "ScalarToGuest v expr =
     (case conversion v of
        NarrowSigned hb gb \<Rightarrow>
          ''(uint64_t)xl_widen_signed((int64_t)'' @ expr @ '', '' @ Bound hb True False @ '', '' @ Bound hb True True @ '', '' @
          Bound gb True False @ '', '' @ Bound gb True True @ '')''
      | NarrowUnsigned hb gb \<Rightarrow>
          ''xl_widen_unsigned((uint64_t)'' @ expr @ '', '' @ Bound hb False True @ '', '' @ Bound gb False True @ '')''
      | PlainInteger s \<Rightarrow> (if s then ''(uint64_t)(int64_t)'' else ''(uint64_t)'') @ expr
      | PlainFloating \<Rightarrow> ''(double)'' @ expr
      | ObjectHandle \<Rightarrow> ''xl_object_out((uintptr_t)'' @ expr @ '')''
      | HostPointer \<Rightarrow> ''xl_widen_pointer((uintptr_t)'' @ expr @ '')'')"

section \<open>\<open>Leaves\<close>\<close>

record Leaf =
  guest_path :: string
  host_path :: string
  leaf_offset :: nat
  leaf_value :: Value

fun field_list :: "ctype \<Rightarrow> cfield list" where
  "field_list (RecordType d) = d_fields d"
| "field_list t = []"

fun element_type :: "ctype \<Rightarrow> ctype" where
  "element_type (ArrayType t n) = t"
| "element_type t = NullType"

text \<open>What a type that is neither a structure nor an array adds.\<close>

definition scalar_leaf :: "Value \<Rightarrow> bool \<Rightarrow> Value" where
  "scalar_leaf v is_pointer =
     (if v_kind v = KCallback \<or> v_kind v = KBlock \<or> (v_kind v = KUnsupported \<and> is_pointer)
      then Value KPointer (v_guest v) (v_host v) (v_signed v) (v_guest_bits v) (v_host_bits v) (v_note v) (v_pointee v)
             (v_count v) (v_writes_back v) (v_object v)
      else v)"

definition leaf_kind :: "Kind \<Rightarrow> bool" where
  "leaf_kind k \<longleftrightarrow> k = KInteger \<or> k = KFloating \<or> k = KPointer"

function Leaves :: "ASTContext \<Rightarrow> ctype \<Rightarrow> ASTContext \<Rightarrow> ctype \<Rightarrow> string \<Rightarrow> string \<Rightarrow> nat \<Rightarrow> Leaf list \<Rightarrow> bool \<times> Leaf list"
  and leaf_fields :: "ASTContext \<Rightarrow> cfield list \<Rightarrow> ASTContext \<Rightarrow> cfield list \<Rightarrow> string \<Rightarrow> string \<Rightarrow> nat \<Rightarrow> Leaf list \<Rightarrow> bool \<times> Leaf list"
  and leaf_elements :: "nat \<Rightarrow> nat \<Rightarrow> ASTContext \<Rightarrow> ctype \<Rightarrow> ASTContext \<Rightarrow> ctype \<Rightarrow> string \<Rightarrow> string \<Rightarrow> nat \<Rightarrow> Leaf list \<Rightarrow> bool \<times> Leaf list" where
  "Leaves gc g hc h gpath hpath base out =
     (case g of
        RecordType gr \<Rightarrow>
          (case h of
             RecordType hr \<Rightarrow> leaf_fields gc (d_fields gr) hc (d_fields hr) gpath hpath base out
           | _ \<Rightarrow> (False, out))
      | ArrayType ge n \<Rightarrow> leaf_elements 0 n gc ge hc (element_type h) gpath hpath base out
      | _ \<Rightarrow>
          let v = scalar_leaf (Classify gc g hc h False) (is_pointer_type g)
          in if \<not> leaf_kind (v_kind v) then (False, out)
             else (True, out @ [\<lparr>guest_path = gpath, host_path = hpath, leaf_offset = base, leaf_value = v\<rparr>]))"
| "leaf_fields gc (gf # gfs) hc (hf # hfs) gpath hpath base out =
     (if f_bit_field gf then (False, out)
      else case Leaves gc (f_type gf) hc (f_type hf) (gpath @ ''.'' @ f_name gf) (hpath @ ''.'' @ f_name hf)
                  (base + f_offset gf div 8) out of
        (False, out) \<Rightarrow> (False, out)
      | (True, out) \<Rightarrow> leaf_fields gc gfs hc hfs gpath hpath base out)"
| "leaf_fields gc [] hc hfs gpath hpath base out = (hfs = [], out)"
| "leaf_fields gc (gf # gfs) hc [] gpath hpath base out = (False, out)"
| "leaf_elements i 0 gc ge hc he gpath hpath base out = (True, out)"
| "leaf_elements i (Suc k) gc ge hc he gpath hpath base out =
     (case Leaves gc ge hc he (gpath @ ''['' @ dec_string i @ '']'') (hpath @ ''['' @ dec_string i @ '']'')
             (base + i * (type_size gc ge div 8)) out of
        (False, out) \<Rightarrow> (False, out)
      | (True, out) \<Rightarrow> leaf_elements (i + 1) k gc ge hc he gpath hpath base out)"
  by pat_completeness auto

termination Leaves
proof (relation "measures [\<lambda>x. case x of Inl (gc, g, r) \<Rightarrow> size g | Inr (Inl (gc, gfs, r)) \<Rightarrow> size_list size gfs
      | Inr (Inr (i, k, gc, ge, r)) \<Rightarrow> size ge,
    \<lambda>x. case x of Inl y \<Rightarrow> 0 | Inr (Inl y) \<Rightarrow> 0 | Inr (Inr (i, k, r)) \<Rightarrow> Suc k]")
qed (use size_field_type size_record_fields in \<open>auto simp: less_Suc_eq_le less_imp_le\<close>)

declare Leaves.simps [simp del]

section \<open>\<open>Mirror\<close>\<close>

text \<open>
  What the generator has written so far, one text for each part of its two output files, with the mirrors already
  there. The structures made from encodings are kept for the guest (\<open>True\<close>) and for the host.
\<close>

record Generator =
  gen_mirrors :: "string list"
  gen_guest :: string
  gen_host_types :: string
  gen_host :: string
  gen_init :: string
  gen_report :: string
  gen_passthrough :: string
  gen_unsupported :: nat
  gen_counter :: nat
  gen_weak_only :: "string list"
  gen_records :: "bool \<Rightarrow> (string, ctype) omap"
  gen_record_defs :: "bool \<Rightarrow> string"
  gen_record_counter :: nat
  gen_blocks :: "(string, string) omap"
  gen_host_blocks :: "(string, string) omap"
  gen_callbacks :: "(string, string) omap"
  gen_invokers :: "(string, string) omap"
  gen_exec :: "string list"
  gen_section_helper :: bool
  gen_selector_shims :: "(string \<times> string) list"
  gen_selector_variants :: "(string \<times> string \<times> string) list"
  gen_variadic_shims :: "(string \<times> string) list"
  gen_imps :: "(string \<times> u64) list"
  gen_layouts :: string
  gen_layout_errors :: "string list"
  gen_tables :: string

definition empty_generator :: Generator where
  "empty_generator = \<lparr>gen_mirrors = [], gen_guest = [], gen_host_types = [], gen_host = [], gen_init = [], gen_report = [],
     gen_passthrough = [], gen_unsupported = 0, gen_counter = 0, gen_weak_only = [],
     gen_records = (\<lambda>g. []), gen_record_defs = (\<lambda>g. []), gen_record_counter = 0, gen_blocks = [],
     gen_host_blocks = [], gen_callbacks = [], gen_invokers = [], gen_exec = [], gen_section_helper = False,
     gen_selector_shims = [], gen_selector_variants = [], gen_variadic_shims = [], gen_imps = [], gen_layouts = [],
     gen_layout_errors = [], gen_tables = []\<rparr>"

definition nl :: string where "nl = [CHR 0x0A]"

text \<open>A member of the packed structure that has the guest's layout: bytes nobody names, or a leaf with its index.\<close>

datatype Member = PadMember nat nat | LeafMember string nat nat

fun member_size :: "Member \<Rightarrow> nat" where
  "member_size (PadMember i n) = n"
| "member_size (LeafMember type n i) = n"

definition leaf_bits :: "Leaf \<Rightarrow> nat" where
  "leaf_bits l = (if v_kind (leaf_value l) = KFloating \<or> v_kind (leaf_value l) = KInteger then v_guest_bits (leaf_value l) else 64)"

definition guest_scalar_type :: "Value \<Rightarrow> string" where
  "guest_scalar_type v =
     (if v_kind v = KFloating then (if v_guest_bits v = 32 then ''float'' else ''double'')
      else if v_kind v = KInteger then (if v_signed v then ''int'' else ''uint'') @ dec_string (v_guest_bits v) @ ''_t''
      else ''uint64_t'')"

text \<open>The loop over the leaves: the members, where they end, and the number of paddings.\<close>

fun mirror_members :: "nat \<Rightarrow> nat \<Rightarrow> nat \<Rightarrow> Leaf list \<Rightarrow> Member list \<times> nat \<times> nat" where
  "mirror_members cursor pad i [] = ([], cursor, pad)"
| "mirror_members cursor pad i (l # ls) =
     (let gap = (if leaf_offset l > cursor then [PadMember pad (leaf_offset l - cursor)] else []);
          pad = (if leaf_offset l > cursor then pad + 1 else pad);
          (members, fin, pads) = mirror_members (leaf_offset l + leaf_bits l div 8) pad (i + 1) ls
      in (gap @ LeafMember (guest_scalar_type (leaf_value l)) (leaf_bits l div 8) i # members, fin, pads))"

definition mirror_layout :: "nat \<Rightarrow> Leaf list \<Rightarrow> Member list" where
  "mirror_layout bytes ls =
     (let (members, cursor, pad) = mirror_members 0 0 0 ls
      in members @ (if bytes > cursor then [PadMember pad (bytes - cursor)] else []))"

fun member_text :: "Member \<Rightarrow> string" where
  "member_text (PadMember i n) = '' uint8_t pad'' @ dec_string i @ ''['' @ dec_string n @ ''];''"
| "member_text (LeafMember type n i) = '' '' @ type @ '' f'' @ dec_string i @ '';''"

definition mirror_name :: "ASTContext \<Rightarrow> ctype \<Rightarrow> string" where
  "mirror_name gc g = ''xl_g_'' @ Sanitize (Spell gc g [])"

definition mirror_to_host :: "ASTContext \<Rightarrow> string \<Rightarrow> ctype \<Rightarrow> Leaf list \<Rightarrow> string" where
  "mirror_to_host hc name h ls =
     ''static inline '' @ Spell hc h [] @ '' '' @ name @ ''_to_host(const struct '' @ name @ '' *g)'' @ nl @ ''{'' @ nl @ ''    '' @
     Spell hc h [] @ '' h;'' @ nl @
     concat (map (\<lambda>(i, l). ''    h'' @ host_path l @ '' = '' @
         ScalarToHost hc (leaf_value l) (''g->f'' @ dec_string i) (''\"'' @ name @ ''\", '' @ dec_string i) @ '';'' @ nl)
       (List.enumerate 0 ls)) @
     ''    return h;'' @ nl @ ''}'' @ nl"

definition mirror_to_guest :: "ASTContext \<Rightarrow> string \<Rightarrow> ctype \<Rightarrow> Leaf list \<Rightarrow> string" where
  "mirror_to_guest hc name h ls =
     ''static inline void '' @ name @ ''_to_guest(struct '' @ name @ '' *g, const '' @ Spell hc h [] @ '' *h)'' @ nl @ ''{'' @ nl @
     concat (map (\<lambda>(i, l). ''    g->f'' @ dec_string i @ '' = '' @ ScalarToGuest (leaf_value l) (''h->'' @ drop 1 (host_path l)) @ '';'' @ nl)
       (List.enumerate 0 ls)) @
     ''}'' @ nl @ nl"

text \<open>Whether \<open>Leaves\<close> could flatten the whole structure is not asked.\<close>

definition Mirror :: "ASTContext \<Rightarrow> ASTContext \<Rightarrow> ctype \<Rightarrow> ctype \<Rightarrow> Generator \<Rightarrow> string \<times> Generator" where
  "Mirror gc hc g h gen =
     (let name = mirror_name gc g
      in if name \<in> set (gen_mirrors gen) then (name, gen)
         else let ls = snd (Leaves gc g hc h [] [] 0 []);
                  text = ''struct __attribute__((packed)) '' @ name @ '' {'' @
                    concat (map member_text (mirror_layout (type_size gc g div 8) ls)) @ '' };'' @ nl @
                    mirror_to_host hc name h ls @ mirror_to_guest hc name h ls
              in (name, gen\<lparr>gen_mirrors := gen_mirrors gen @ [name], gen_host_types := gen_host_types gen @ text\<rparr>))"

section \<open>Signatures\<close>

record Parameter =
  p_value :: Value
  p_name :: string

record Signature =
  sig_params :: "Parameter list"
  sig_result :: Value
  sig_supported :: bool
  sig_note :: string

text \<open>A function or method as declared: its parameters with their names, and its result.\<close>

record Declaration =
  decl_params :: "(string \<times> ctype) list"
  decl_result :: ctype

definition param_type :: "Declaration \<Rightarrow> nat \<Rightarrow> ctype" where
  "param_type d i = (if i < length (decl_params d) then snd (decl_params d ! i) else NullType)"

definition param_name :: "Declaration \<Rightarrow> nat \<Rightarrow> string" where
  "param_name d i = (if i < length (decl_params d) then fst (decl_params d ! i) else [])"

definition lower_char :: "char \<Rightarrow> char" where
  "lower_char c = (if CHR ''A'' \<le> c \<and> c \<le> CHR ''Z'' then char_of (of_char c + (32 :: nat)) else c)"

definition count_like :: "string \<Rightarrow> bool" where
  "count_like name =
     (let lower = map lower_char name
      in lower \<in> {''count'', ''cnt'', ''len'', ''length'', ''n'', ''argc''} \<or> starts_with ''num'' lower)"

text \<open>The other parameters from the nearest out, the one after before the one before.\<close>

definition neighbours :: "nat \<Rightarrow> nat \<Rightarrow> int list" where
  "neighbours n i = concat (map (\<lambda>d. [int i + int d, int i - int d]) [1..<n])"

definition as_array :: "Value \<Rightarrow> Value \<Rightarrow> int \<Rightarrow> bool \<Rightarrow> Value" where
  "as_array v element count writes_back =
     Value KArray (v_guest v) (v_host v) (v_signed v) (v_guest_bits v) (v_host_bits v) [] (Some element) count writes_back (v_object v)"

text \<open>A parameter's type has decayed, so it is never an array.\<close>

definition array_element :: "ASTContext \<Rightarrow> ASTContext \<Rightarrow> ctype \<Rightarrow> ctype \<Rightarrow> Value option" where
  "array_element gc hc g h =
     (if \<not> is_pointer_type g then None
      else let gp = pointee_type gc g; hp = pointee_type hc h; element = Classify gc gp hc hp False
           in if fst (SameLayout gc gp hc hp {}) \<or> \<not> leaf_kind (v_kind element) then None else Some element)"

definition count_index :: "Declaration \<Rightarrow> Parameter list \<Rightarrow> nat \<Rightarrow> int option" where
  "count_index g params i =
     find (\<lambda>k. 0 \<le> k \<and> k < int (length params) \<and> v_kind (p_value (params ! nat k)) = KInteger \<and> count_like (param_name g (nat k)))
       (neighbours (length params) i)"

definition detect_array :: "ASTContext \<Rightarrow> ASTContext \<Rightarrow> Declaration \<Rightarrow> Declaration \<Rightarrow> nat \<Rightarrow> Parameter list \<Rightarrow> Parameter list" where
  "detect_array gc hc g h i params =
     (case array_element gc hc (param_type g i) (param_type h i) of
        None \<Rightarrow> params
      | Some element \<Rightarrow>
          (case count_index g params i of
             None \<Rightarrow> params
           | Some k \<Rightarrow>
               params[i := (params ! i)\<lparr>p_value := as_array (p_value (params ! i)) element k (\<not> pointee_const (param_type g i))\<rparr>]))"

definition result_note :: "Value \<Rightarrow> string" where
  "result_note v = ''result: '' @ (if v_note v = [] then ''unsupported kind'' else v_note v)"

definition support :: "bool \<Rightarrow> string \<Rightarrow> Signature \<Rightarrow> Signature" where
  "support ok note s = (if ok then s else s\<lparr>sig_supported := False, sig_note := note\<rparr>)"

definition DetectArrays :: "ASTContext \<Rightarrow> ASTContext \<Rightarrow> Declaration \<Rightarrow> Declaration \<Rightarrow> Signature \<Rightarrow> Signature" where
  "DetectArrays gc hc g h s =
     (let s = s\<lparr>sig_params := fold (detect_array gc hc g h) [0..<length (sig_params s)] (sig_params s), sig_supported := True\<rparr>;
          s = fold (\<lambda>p. support (Supported (p_value p)) (p_name p @ '': '' @ v_note (p_value p))) (sig_params s) s
      in support (Supported (sig_result s) \<and> v_kind (sig_result s) \<notin> {KOutSlot, KArray, KCallback})
           (result_note (sig_result s)) s)"

definition declared_params :: "ASTContext \<Rightarrow> ASTContext \<Rightarrow> Declaration \<Rightarrow> Declaration \<Rightarrow> Parameter list" where
  "declared_params gc hc g h =
     map (\<lambda>i. \<lparr>p_value = Classify gc (param_type g i) hc (param_type h i) True, p_name = ''a'' @ dec_string i\<rparr>)
       [0..<length (decl_params g)]"

definition declared_signature :: "ASTContext \<Rightarrow> ASTContext \<Rightarrow> Declaration \<Rightarrow> Declaration \<Rightarrow> Kind set \<Rightarrow> Signature" where
  "declared_signature gc hc g h refused =
     (let params = declared_params gc hc g h;
          result = Classify gc (decl_result g) hc (decl_result h) False;
          s = \<lparr>sig_params = params, sig_result = result, sig_supported = True, sig_note = []\<rparr>;
          s = fold (\<lambda>(i, p). support (Supported (p_value p))
                 (''parameter '' @ dec_string i @ '': '' @ v_note (p_value p))) (List.enumerate 0 params) s
      in support (Supported result \<and> v_kind result \<notin> refused) (result_note result) s)"

definition FromFunction :: "ASTContext \<Rightarrow> ASTContext \<Rightarrow> Declaration \<Rightarrow> Declaration \<Rightarrow> Signature" where
  "FromFunction gc hc g h =
     DetectArrays gc hc g h (declared_signature gc hc g h {KOutSlot, KCallback, KBlock})"

definition FromMethod :: "ASTContext \<Rightarrow> ASTContext \<Rightarrow> Declaration \<Rightarrow> Declaration \<Rightarrow> Signature" where
  "FromMethod gc hc g h =
     (let s = DetectArrays gc hc g h (declared_signature gc hc g h {KOutSlot, KCallback})
      in if v_kind (sig_result s) = KBlock then s\<lparr>sig_supported := False, sig_note := ''block result''\<rparr> else s)"

end
