(* ===== verification/Layout_Facts.thy ===== *)
theory Layout_Facts
  imports Bridge
begin

text \<open>
  What \<open>SameLayout\<close> promises: where it says yes, the guest and the host read the memory behind a pointer alike, scalar
  by scalar, and no pointer is in it.
\<close>

text \<open>The scalars of a type, each with its offset and its size in bits.\<close>

function scalars :: "ASTContext \<Rightarrow> ctype \<Rightarrow> nat \<Rightarrow> (nat \<times> nat) list"
  and field_scalars :: "ASTContext \<Rightarrow> cfield list \<Rightarrow> nat \<Rightarrow> (nat \<times> nat) list" where
  "scalars ctx t base =
     (case t of
        RecordType d \<Rightarrow> field_scalars ctx (d_fields d) base
      | ArrayType e n \<Rightarrow> concat (map (\<lambda>i. scalars ctx e (base + i * type_size ctx e)) [0..<n])
      | _ \<Rightarrow> [(base, type_size ctx t)])"
| "field_scalars ctx [] base = []"
| "field_scalars ctx (f # fs) base = scalars ctx (f_type f) (base + f_offset f) @ field_scalars ctx fs base"
  by pat_completeness auto

termination scalars
proof (relation "measure (\<lambda>x. case x of Inl (ctx, t, b) \<Rightarrow> size t | Inr (ctx, fs, b) \<Rightarrow> size_list size fs)")
qed (use size_field_type size_record_fields in \<open>auto simp: less_Suc_eq_le less_imp_le\<close>)

declare scalars.simps [simp del]

text \<open>The two types as one header gives them on two targets: the same declarations, whatever the sizes.\<close>

definition scalar_type :: "ctype \<Rightarrow> bool" where
  "scalar_type t \<longleftrightarrow> \<not> (\<exists>d. t = RecordType d) \<and> \<not> (\<exists>e n. t = ArrayType e n)"

definition data_scalar :: "ctype \<Rightarrow> bool" where
  "data_scalar t \<longleftrightarrow> scalar_type t \<and> \<not> is_void_or_function t \<and> \<not> is_incomplete t"

fun same_shape :: "ctype \<Rightarrow> ctype \<Rightarrow> bool" and same_shapes :: "cfield list \<Rightarrow> cfield list \<Rightarrow> bool"
  and same_decl :: "cdecl \<Rightarrow> cdecl \<Rightarrow> bool" and same_field :: "cfield \<Rightarrow> cfield \<Rightarrow> bool" where
  "same_shape (RecordType a) h = (case h of RecordType b \<Rightarrow> same_decl a b | _ \<Rightarrow> False)"
| "same_shape (ArrayType e n) h = (case h of ArrayType f m \<Rightarrow> n = m \<and> same_shape e f | _ \<Rightarrow> False)"
| "same_shape g h = (data_scalar g \<and> data_scalar h)"
| "same_decl (Record i n t u s a fs) b = same_shapes fs (d_fields b)"
| "same_shapes [] hfs = (hfs = [])"
| "same_shapes (f # fs) hfs = (case hfs of [] \<Rightarrow> False | h # hs \<Rightarrow> same_field f h \<and> same_shapes fs hs)"
| "same_field (Field n t off b) h = same_shape t (f_type h)"

text \<open>The pairs of structures the comparison comes to.\<close>

fun pairs :: "ctype \<Rightarrow> ctype \<Rightarrow> (cdecl \<times> cdecl) set" and list_pairs :: "cfield list \<Rightarrow> cfield list \<Rightarrow> (cdecl \<times> cdecl) set"
  and decl_pairs :: "cdecl \<Rightarrow> cdecl \<Rightarrow> (cdecl \<times> cdecl) set" and field_pairs :: "cfield \<Rightarrow> cfield \<Rightarrow> (cdecl \<times> cdecl) set" where
  "pairs (RecordType a) h = (case h of RecordType b \<Rightarrow> decl_pairs a b | _ \<Rightarrow> {})"
| "pairs (ArrayType e n) h = (case h of ArrayType f m \<Rightarrow> pairs e f | _ \<Rightarrow> {})"
| "pairs g h = {}"
| "decl_pairs (Record i n t u s a fs) b = insert (Record i n t u s a fs, b) (list_pairs fs (d_fields b))"
| "list_pairs [] hfs = {}"
| "list_pairs (f # fs) hfs = (case hfs of [] \<Rightarrow> {} | h # hs \<Rightarrow> field_pairs f h \<union> list_pairs fs hs)"
| "field_pairs (Field n t off b) h = pairs t (f_type h)"

text \<open>A structure of the guest is always the same declaration, and has always the same counterpart.\<close>

definition consistent :: "(cdecl \<times> cdecl) set \<Rightarrow> bool" where
  "consistent P \<longleftrightarrow> (\<forall>(a, b) \<in> P. \<forall>(c, d) \<in> P. d_id a = d_id c \<longrightarrow> a = c \<and> b = d)"

function pointer_free :: "ctype \<Rightarrow> bool" and fields_pointer_free :: "cfield list \<Rightarrow> bool" where
  "pointer_free t =
     (case t of
        RecordType d \<Rightarrow> fields_pointer_free (d_fields d)
      | ArrayType e n \<Rightarrow> pointer_free e
      | _ \<Rightarrow> \<not> is_any_pointer t \<and> \<not> is_block_pointer t)"
| "fields_pointer_free [] = True"
| "fields_pointer_free (f # fs) = (pointer_free (f_type f) \<and> fields_pointer_free fs)"
  by pat_completeness auto

termination pointer_free
proof (relation "measure (\<lambda>x. case x of Inl t \<Rightarrow> size t | Inr fs \<Rightarrow> size_list size fs)")
qed (use size_field_type size_record_fields in \<open>auto simp: less_Suc_eq_le less_imp_le\<close>)

declare pointer_free.simps [simp del]

lemma shape_simps [simp]:
  "same_decl a b \<longleftrightarrow> same_shapes (d_fields a) (d_fields b)" "same_field f k \<longleftrightarrow> same_shape (f_type f) (f_type k)"
  "decl_pairs a b = insert (a, b) (list_pairs (d_fields a) (d_fields b))" "field_pairs f k = pairs (f_type f) (f_type k)"
proof -
  show "same_decl a b \<longleftrightarrow> same_shapes (d_fields a) (d_fields b)" by (cases a) simp
  show "same_field f k \<longleftrightarrow> same_shape (f_type f) (f_type k)" by (cases f) simp
  show "decl_pairs a b = insert (a, b) (list_pairs (d_fields a) (d_fields b))" by (cases a) simp
  show "field_pairs f k = pairs (f_type f) (f_type k)" by (cases f) simp
qed

lemma scalars_simps [simp]:
  "scalars ctx (RecordType d) base = field_scalars ctx (d_fields d) base"
  "scalars ctx (ArrayType e n) base = concat (map (\<lambda>i. scalars ctx e (base + i * type_size ctx e)) [0..<n])"
  "scalar_type t \<Longrightarrow> scalars ctx t base = [(base, type_size ctx t)]"
  "pointer_free (RecordType d) \<longleftrightarrow> fields_pointer_free (d_fields d)" "pointer_free (ArrayType e n) \<longleftrightarrow> pointer_free e"
  "scalar_type t \<Longrightarrow> pointer_free t \<longleftrightarrow> \<not> is_any_pointer t \<and> \<not> is_block_pointer t"
  by ((subst scalars.simps, simp add: scalar_type_def split: ctype.split) |
      (subst pointer_free.simps, simp add: scalar_type_def split: ctype.split))+

lemma pairs_smaller:
  shows "(a, b) \<in> pairs g h \<Longrightarrow> size a < size g"
    and "(a, b) \<in> list_pairs fs ks \<Longrightarrow> size a < Suc (size_list size fs)"
    and "(a, b) \<in> decl_pairs d e \<Longrightarrow> size a \<le> size d" and "(a, b) \<in> field_pairs f k \<Longrightarrow> size a < size f"
proof (induction g h and fs ks and d e and f k rule: pairs_list_pairs_decl_pairs_field_pairs.induct)
qed (auto split: ctype.splits list.splits simp del: shape_simps)

definition good :: "ASTContext \<Rightarrow> ASTContext \<Rightarrow> cdecl \<Rightarrow> cdecl \<Rightarrow> bool" where
  "good gc hc a b \<longleftrightarrow> (\<forall>base. field_scalars gc (d_fields a) base = field_scalars hc (d_fields b) base) \<and> fields_pointer_free (d_fields a)"

text \<open>What is already seen is known to agree, or still open and then not met again.\<close>

definition settled :: "ASTContext \<Rightarrow> ASTContext \<Rightarrow> (cdecl \<times> cdecl) set \<Rightarrow> (cdecl \<times> cdecl) set \<Rightarrow> nat set \<Rightarrow> bool" where
  "settled gc hc P Q seen \<longleftrightarrow> (\<forall>(a, b) \<in> P. d_id a \<in> seen \<longrightarrow> good gc hc a b \<or> d_id a \<notin> (d_id \<circ> fst) ` Q)"

definition learnt :: "ASTContext \<Rightarrow> ASTContext \<Rightarrow> (cdecl \<times> cdecl) set \<Rightarrow> nat set \<Rightarrow> nat set \<Rightarrow> bool" where
  "learnt gc hc P old new \<longleftrightarrow> old \<subseteq> new \<and> (\<forall>(a, b) \<in> P. d_id a \<in> new \<longrightarrow> d_id a \<in> old \<or> good gc hc a b)"

lemma learnt_refl [simp]: "learnt gc hc P s s"
  by (auto simp: learnt_def)

lemma learnt_trans: "learnt gc hc P a b \<Longrightarrow> learnt gc hc P b c \<Longrightarrow> learnt gc hc P a c"
  by (auto simp: learnt_def)

lemma settled_learnt: "settled gc hc P Q a \<Longrightarrow> learnt gc hc P a b \<Longrightarrow> settled gc hc P Q b"
  by (fastforce simp: settled_def learnt_def)

lemma settled_mono: "settled gc hc P Q a \<Longrightarrow> R \<subseteq> Q \<Longrightarrow> settled gc hc P R a"
  by (fastforce simp: settled_def)

lemma SameLayout_data:
  assumes "data_scalar g" and "data_scalar h"
  shows "SameLayout gc g hc h seen = (\<not> is_any_pointer g \<and> \<not> is_block_pointer g \<and> type_size gc g = type_size hc h \<and> type_align gc g = type_align hc h, seen)"
  using assms by (subst SameLayout.simps) (auto simp: data_scalar_def scalar_type_def split: ctype.split)

lemma SameLayout_record:
  "fst (SameLayout gc (RecordType a) hc (RecordType b) seen) \<Longrightarrow>
    SameLayout gc (RecordType a) hc (RecordType b) seen =
      (if d_id a \<in> seen then (True, seen) else same_fields gc (d_fields a) hc (d_fields b) (insert (d_id a) seen))"
  by (subst (asm) SameLayout.simps, subst SameLayout.simps) (auto split: if_splits)

lemma SameLayout_array:
  "fst (SameLayout gc (ArrayType e n) hc (ArrayType f m) seen) \<Longrightarrow>
    SameLayout gc (ArrayType e n) hc (ArrayType f m) seen = SameLayout gc e hc f seen \<and> n * type_size gc e = m * type_size hc f"
  by (subst (asm) SameLayout.simps, subst SameLayout.simps) (auto split: if_splits)

lemma same_shape_scalar: "scalar_type g \<Longrightarrow> same_shape g h \<longleftrightarrow> data_scalar g \<and> data_scalar h"
  by (cases g) (auto simp: scalar_type_def)

lemma SameLayout_agrees:
  shows "\<lbrakk>SameLayout gc g hc h seen = (True, seen'); same_shape g h; pairs g h \<subseteq> P; consistent P; settled gc hc P (pairs g h) seen\<rbrakk> \<Longrightarrow>
      (\<forall>base. scalars gc g base = scalars hc h base) \<and> pointer_free g \<and> learnt gc hc P seen seen'"
    and "\<lbrakk>same_fields gc gfs hc hfs seen = (True, seen'); same_shapes gfs hfs; list_pairs gfs hfs \<subseteq> P; consistent P;
        settled gc hc P (list_pairs gfs hfs) seen\<rbrakk> \<Longrightarrow>
      (\<forall>base. field_scalars gc gfs base = field_scalars hc hfs base) \<and> fields_pointer_free gfs \<and> learnt gc hc P seen seen'"
proof (induction gc g hc h seen and gc gfs hc hfs seen arbitrary: seen' and seen' rule: SameLayout_same_fields.induct)
  case (1 gc g hc h seen)
  consider (rec) a where "g = RecordType a" | (array) e n where "g = ArrayType e n" | (scalar) "scalar_type g"
    by (auto simp: scalar_type_def)
  then show ?case
  proof cases
    case rec
    then obtain b where h: "h = RecordType b" using "1.prems"(2) by (auto split: ctype.splits)
    have ab: "(a, b) \<in> P" using "1.prems"(3) rec h by simp
    show ?thesis
    proof (cases "d_id a \<in> seen")
      case True
      have "good gc hc a b" using "1.prems"(5) True ab rec h by (force simp: settled_def)
      then show ?thesis using SameLayout_record [of gc a hc b seen] "1.prems"(1) True rec h by (simp add: good_def)
    next
      case False
      have s: "same_fields gc (d_fields a) hc (d_fields b) (insert (d_id a) seen) = (True, seen')"
        using SameLayout_record [of gc a hc b seen] "1.prems"(1) False rec h by simp
      have sub: "list_pairs (d_fields a) (d_fields b) \<subseteq> P" using "1.prems"(3) rec h by simp
      have "d_id a \<notin> (d_id \<circ> fst) ` list_pairs (d_fields a) (d_fields b)"
      proof
        assume "d_id a \<in> (d_id \<circ> fst) ` list_pairs (d_fields a) (d_fields b)"
        then obtain c d where cd: "(c, d) \<in> list_pairs (d_fields a) (d_fields b)" "d_id c = d_id a" by auto
        then have "c = a" using "1.prems"(4) sub ab by (fastforce simp: consistent_def)
        then show False using pairs_smaller(2) [OF cd(1)] size_record_fields [of a] by simp
      qed
      then have "settled gc hc P (list_pairs (d_fields a) (d_fields b)) (insert (d_id a) seen)"
        using settled_mono [OF "1.prems"(5), of "list_pairs (d_fields a) (d_fields b)"] "1.prems"(4) ab rec h
        by (fastforce simp: settled_def)
      moreover have "same_shapes (d_fields a) (d_fields b)" using "1.prems"(2) rec h by simp
      moreover have v: "\<not> is_void_or_function g" "\<not> (is_incomplete g \<or> is_incomplete h)" "\<not> (is_any_pointer g \<or> is_block_pointer g)"
        using rec h by simp_all
      moreover have sz: "\<not> (type_size gc g \<noteq> type_size hc h \<or> type_align gc g \<noteq> type_align hc h)"
        using "1.prems"(1) v by (subst (asm) SameLayout.simps) (auto split: if_splits)
      ultimately have *: "(\<forall>base. field_scalars gc (d_fields a) base = field_scalars hc (d_fields b) base) \<and>
          fields_pointer_free (d_fields a) \<and> learnt gc hc P (insert (d_id a) seen) seen'"
        using "1.IH"(2) [OF v sz rec h False s _ sub "1.prems"(4)] by blast
      then have "good gc hc a b" by (simp add: good_def)
      then have "learnt gc hc P seen seen'" using * "1.prems"(4) ab by (fastforce simp: learnt_def consistent_def)
      with * show ?thesis by (simp add: rec h)
    qed
  next
    case array
    then obtain f where h: "h = ArrayType f n" using "1.prems"(2) by (auto split: ctype.splits)
    note s = SameLayout_array [of gc e n hc f n seen]
    have v: "\<not> is_void_or_function g" "\<not> (is_incomplete g \<or> is_incomplete h)" "\<not> (is_any_pointer g \<or> is_block_pointer g)"
      using array h by simp_all
    have sz: "\<not> (type_size gc g \<noteq> type_size hc h \<or> type_align gc g \<noteq> type_align hc h)"
      using "1.prems"(1) v by (subst (asm) SameLayout.simps) (auto split: if_splits)
    have "SameLayout gc e hc f seen = (True, seen')" "n * type_size gc e = n * type_size hc f"
      using s "1.prems"(1) array h by simp_all
    then have "(\<forall>base. scalars gc e base = scalars hc f base) \<and> pointer_free e \<and> learnt gc hc P seen seen'"
      using "1.IH"(1) [OF v sz array h] "1.prems"(2-5) array h by simp
    with \<open>n * type_size gc e = _\<close> show ?thesis by (cases "n = 0") (simp_all add: array h)
  next
    case scalar
    then have d: "data_scalar g" "data_scalar h" using "1.prems"(2) by (simp_all add: same_shape_scalar)
    with "1.prems"(1) scalar show ?thesis by (auto simp: SameLayout_data data_scalar_def)
  qed
next
  case (2 gc gf gfs hc hf hfs seen)
  from "2.prems"(1) obtain seen1 where o: "\<not> f_offset gf \<noteq> f_offset hf"
    and s1: "SameLayout gc (f_type gf) hc (f_type hf) seen = (True, seen1)" and s2: "same_fields gc gfs hc hfs seen1 = (True, seen')"
    by (auto split: if_splits prod.splits bool.splits)
  have sub: "pairs (f_type gf) (f_type hf) \<subseteq> P" "list_pairs gfs hfs \<subseteq> P" using "2.prems"(3) by simp_all
  have a: "(\<forall>base. scalars gc (f_type gf) base = scalars hc (f_type hf) base) \<and> pointer_free (f_type gf) \<and> learnt gc hc P seen seen1"
    using "2.IH"(1) [OF o s1 _ sub(1) "2.prems"(4)] "2.prems"(2) settled_mono [OF "2.prems"(5)] by auto
  then have "settled gc hc P (list_pairs gfs hfs) seen1"
    using settled_learnt settled_mono [OF "2.prems"(5), of "list_pairs gfs hfs"] by auto
  then have "(\<forall>base. field_scalars gc gfs base = field_scalars hc hfs base) \<and> fields_pointer_free gfs \<and> learnt gc hc P seen1 seen'"
    using "2.IH"(2) [OF o s1 [symmetric] refl s2 _ sub(2) "2.prems"(4)] "2.prems"(2) by auto
  with a o show ?case using learnt_trans by auto
next
  case (3 gc hc hfs seen)
  then show ?case by simp
next
  case (4 gc gf gfs hc seen)
  then show ?case by simp
qed

lemma Classify_simps [simp]:
  "Classify gc NullType hc h p = noted_value KUnsupported NullType h (''type '' @ type_string gc NullType)"
  "Classify gc VoidType hc h p = new_value KVoid VoidType h"
  "Classify gc (FunctionType f) hc h p = noted_value KUnsupported (FunctionType f) h (''type '' @ type_string gc (FunctionType f))"
  "Classify gc (IncompleteType n) hc h p = new_value KRecord (IncompleteType n) h"
  "Classify gc (IntegerType s b a) hc h p = Value KInteger (IntegerType s b a) h s b (type_size hc h) [] None (- 1) False False"
  "Classify gc (FloatingType b a) hc h p = Value KFloating (FloatingType b a) h False b (type_size hc h) [] None (- 1) False False"
  "Classify gc (ObjCPointerType i u) hc h p =
     (if i = Some ''Protocol'' then new_value KProtocol (ObjCPointerType i u) h
      else Value KPointer (ObjCPointerType i u) h False 0 0 [] None (- 1) False True)"
  "Classify gc SelType hc h p = new_value KPointer SelType h"
  "Classify gc (BlockPointerType t) hc h p = new_value KBlock (BlockPointerType t) h"
  "Classify gc (PointerType c (FunctionType f)) hc h p = new_value KCallback (PointerType c (FunctionType f)) h"
  "Classify gc (ArrayType t k) hc h p = noted_value KUnsupported (ArrayType t k) h (''type '' @ type_string gc (ArrayType t k))"
  "Classify gc (RecordType d) hc h p =
     (if d_union d then noted_value KUnsupported (RecordType d) h (''union '' @ type_string gc (RecordType d))
      else new_value KRecord (RecordType d) h)"
  "Classify gc (TagType n) hc h p = noted_value KUnsupported (TagType n) h (''type '' @ type_string gc (TagType n))"
  "Classify gc (OtherType n b a) hc h p = noted_value KUnsupported (OtherType n b a) h (''type '' @ type_string gc (OtherType n b a))"
  by (subst Classify.simps, simp)+

lemma value_simps [simp]:
  "v_kind (new_value k g h) = k" "v_guest (new_value k g h) = g" "v_host (new_value k g h) = h" "v_note (new_value k g h) = []"
  "v_guest_bits (new_value k g h) = 0" "v_object (new_value k g h) = False"
  "v_kind (noted_value k g h n) = k" "v_guest (noted_value k g h n) = g" "v_host (noted_value k g h n) = h"
  "v_note (noted_value k g h n) = n" "v_guest_bits (noted_value k g h n) = 0" "v_object (noted_value k g h n) = False"
  by (simp_all add: new_value_def noted_value_def)

lemma Classify_pointer:
  assumes "\<not> (\<exists>f. t = FunctionType f)"
  shows "Classify gc (PointerType c t) hc h p =
      (let gp = pointee_type gc (PointerType c t); hp = pointee_type hc h
       in if fst (SameLayout gc gp hc hp {}) then new_value KPointer (PointerType c t) h
          else if opaque_stream gp then noted_value KPointer (PointerType c t) h ''opaque stdio stream''
          else if opaque_handle gp then noted_value KPointer (PointerType c t) h ''opaque pthread object''
          else let pointee = Classify gc gp hc hp False
               in if p \<and> v_kind pointee = KRecord
                  then Value KRecordPointer (PointerType c t) h False 0 0 [] (Some pointee) (- 1) (\<not> c) False
                  else if p \<and> \<not> c \<and> v_kind pointee \<in> {KInteger, KFloating, KPointer}
                  then Value KOutSlot (PointerType c t) h False 0 0 [] (Some pointee) (- 1) False False
                  else noted_value KUnsupported (PointerType c t) h (''pointer to '' @ type_string gc gp @ '', whose layout differs''))"
  using assms by (subst Classify.simps) (simp split: ctype.split)


section \<open>A sample\<close>

definition guest_context :: ASTContext where
  "guest_context = \<lparr>pointer_bits = 64, complete_tag = Map.empty, print_type = (\<lambda>t n. ''type '' @ n), type_string = (\<lambda>t. ''type''),
     lookup_type = Map.empty, make_record = (\<lambda>n fs. Record 0 n None False 0 8 []), objc_encoding = (\<lambda>t. ''i''),
     builtin = (\<lambda>n. if n = ''DoubleTy'' then FloatingType 64 64 else IntegerType True 32 32)\<rparr>"

definition host_context :: ASTContext where
  "host_context = guest_context\<lparr>pointer_bits := 32\<rparr>"

text \<open>A point inside a structure with a repeat: \<open>struct { struct point a, b; double c; }\<close>.\<close>

definition sample_point :: cdecl where
  "sample_point = Record 1 ''point'' None False 64 32 [Field ''x'' (IntegerType True 32 32) 0 False, Field ''y'' (IntegerType True 32 32) 32 False]"

definition sample_shape :: ctype where
  "sample_shape = RecordType (Record 2 ''shape'' None False 192 64 [Field ''a'' (RecordType sample_point) 0 False,
     Field ''b'' (RecordType sample_point) 64 False, Field ''c'' (FloatingType 64 64) 128 False])"

lemma SameLayout_sample: "fst (SameLayout guest_context sample_shape host_context sample_shape {})"
  unfolding sample_shape_def sample_point_def guest_context_def host_context_def
  by (simp add: SameLayout.simps)


end
