(* ===== verification/Bridge_Facts.thy ===== *)
theory Bridge_Facts
  imports Layout_Facts Runtime_Facts
begin

text \<open>
  What the bridge generator guarantees: a mirror has the guest's layout, a value that goes to the guest and back is
  itself, a pointer is passed as it is only to memory both sides read alike, and what makes a signature supported.
\<close>

section \<open>The mirror of a structure\<close>

text \<open>Where the members of a packed structure lie: each leaf's index, offset and size in bytes.\<close>

fun leaf_places :: "nat \<Rightarrow> Member list \<Rightarrow> (nat \<times> nat \<times> nat) list" where
  "leaf_places at [] = []"
| "leaf_places at (PadMember i n # ms) = leaf_places (at + n) ms"
| "leaf_places at (LeafMember type n i # ms) = (i, at, n) # leaf_places (at + n) ms"

text \<open>The leaves follow each other from one offset to another.\<close>

fun in_order :: "nat \<Rightarrow> Leaf list \<Rightarrow> nat \<Rightarrow> bool" where
  "in_order from [] to = (from \<le> to)"
| "in_order from (l # ls) to = (from \<le> leaf_offset l \<and> in_order (leaf_offset l + leaf_bits l div 8) ls to)"

lemma in_order_append: "in_order a ls b \<Longrightarrow> in_order b ms c \<Longrightarrow> in_order a (ls @ ms) c"
proof (induction ls arbitrary: a)
  case Nil
  then show ?case by (cases ms) auto
next
  case (Cons l ls)
  then show ?case by simp
qed

lemma in_order_weaken: "in_order a ls b \<Longrightarrow> a' \<le> a \<Longrightarrow> b \<le> b' \<Longrightarrow> in_order a' ls b'"
  by (induction ls arbitrary: a a') auto

lemma leaf_places_append: "leaf_places at (ms @ ns) = leaf_places at ms @ leaf_places (at + sum_list (map member_size ms)) ns"
  by (induction at ms rule: leaf_places.induct) (auto simp: add.assoc)

lemma mirror_members_places:
  assumes "in_order cursor ls to" and "mirror_members cursor pad i ls = (members, fin, pads)"
  shows "leaf_places cursor members = map (\<lambda>(i, l). (i, leaf_offset l, leaf_bits l div 8)) (List.enumerate i ls) \<and>
    cursor + sum_list (map member_size members) = fin \<and> fin \<le> to"
  using assms
proof (induction cursor pad i ls arbitrary: members fin pads rule: mirror_members.induct)
  case (1 cursor pad i)
  then show ?case by simp
next
  case (2 cursor pad i l ls)
  let ?pad = "if leaf_offset l > cursor then pad + 1 else pad"
  obtain ms f p where r: "mirror_members (leaf_offset l + leaf_bits l div 8) ?pad (i + 1) ls = (ms, f, p)"
    by (metis prod_cases3)
  have ih: "leaf_places (leaf_offset l + leaf_bits l div 8) ms = map (\<lambda>(i, l). (i, leaf_offset l, leaf_bits l div 8)) (List.enumerate (i + 1) ls)"
    "leaf_offset l + leaf_bits l div 8 + sum_list (map member_size ms) = f" "f \<le> to"
    using "2.IH" [OF refl refl _ r] "2.prems"(1) by simp_all
  have m: "members = (if leaf_offset l > cursor then [PadMember pad (leaf_offset l - cursor)] else []) @
      LeafMember (guest_scalar_type (leaf_value l)) (leaf_bits l div 8) i # ms" "fin = f"
    using "2.prems"(2) r by (simp_all add: Let_def)
  have "cursor \<le> leaf_offset l" using "2.prems"(1) by simp
  then show ?case using ih unfolding m by (cases "leaf_offset l > cursor") simp_all
qed

lemma mirror_layout_places:
  assumes "in_order 0 ls bytes"
  shows "leaf_places 0 (mirror_layout bytes ls) = map (\<lambda>(i, l). (i, leaf_offset l, leaf_bits l div 8)) (List.enumerate 0 ls) \<and>
    sum_list (map member_size (mirror_layout bytes ls)) = bytes"
proof -
  obtain ms f p where r: "mirror_members 0 0 0 ls = (ms, f, p)" by (metis prod_cases3)
  from mirror_members_places [OF assms r] r show ?thesis
    by (auto simp: mirror_layout_def leaf_places_append)
qed

text \<open>A type laid out as C lays it out: no unions, the fields at whole bytes one after the other, inside the structure.\<close>

function well_laid :: "ASTContext \<Rightarrow> ctype \<Rightarrow> bool" and fields_laid :: "ASTContext \<Rightarrow> nat \<Rightarrow> cfield list \<Rightarrow> nat \<Rightarrow> bool" where
  "well_laid ctx t =
     (8 dvd type_size ctx t \<and>
      (case t of
         RecordType d \<Rightarrow> \<not> d_union d \<and> fields_laid ctx 0 (d_fields d) (d_size d)
       | ArrayType e n \<Rightarrow> well_laid ctx e
       | _ \<Rightarrow> True))"
| "fields_laid ctx from [] to = (from \<le> to)"
| "fields_laid ctx from (f # fs) to =
     (from \<le> f_offset f \<and> 8 dvd f_offset f \<and> well_laid ctx (f_type f) \<and>
      fields_laid ctx (f_offset f + type_size ctx (f_type f)) fs to)"
  by pat_completeness auto

termination well_laid
proof (relation "measure (\<lambda>x. case x of Inl (ctx, t) \<Rightarrow> size t | Inr (ctx, n, fs, m) \<Rightarrow> size_list size fs)")
qed (use size_field_type size_record_fields in \<open>auto simp: less_Suc_eq_le less_imp_le\<close>)

declare well_laid.simps [simp del]

lemma Leaves_simps [simp]:
  "Leaves gc (RecordType gr) hc (RecordType hr) gpath hpath base out = leaf_fields gc (d_fields gr) hc (d_fields hr) gpath hpath base out"
  "Leaves gc (ArrayType e n) hc h gpath hpath base out = leaf_elements 0 n gc e hc (element_type h) gpath hpath base out"
  by (subst Leaves.simps, simp)+

lemma Leaves_record: "Leaves gc (RecordType gr) hc h gpath hpath base out = (True, out') \<Longrightarrow> \<exists>hr. h = RecordType hr"
  by (subst (asm) Leaves.simps) (auto split: ctype.splits)

lemma Leaves_scalar:
  "\<lbrakk>\<not> (\<exists>d. g = RecordType d); \<not> (\<exists>e n. g = ArrayType e n)\<rbrakk> \<Longrightarrow> Leaves gc g hc h gpath hpath base out =
      (let v = scalar_leaf (Classify gc g hc h False) (is_pointer_type g)
       in if \<not> leaf_kind (v_kind v) then (False, out)
          else (True, out @ [\<lparr>guest_path = gpath, host_path = hpath, leaf_offset = base, leaf_value = v\<rparr>]))"
  by (subst Leaves.simps) (simp split: ctype.split)

lemma well_laid_dvd: "well_laid ctx t \<Longrightarrow> 8 dvd type_size ctx t"
  by (subst (asm) well_laid.simps) simp

lemma well_laid_record [simp]:
  "well_laid ctx (RecordType d) \<longleftrightarrow> 8 dvd d_size d \<and> \<not> d_union d \<and> fields_laid ctx 0 (d_fields d) (d_size d)"
  by (subst well_laid.simps) simp

lemma well_laid_array [simp]: "well_laid ctx (ArrayType e n) \<longleftrightarrow> 8 dvd n * type_size ctx e \<and> well_laid ctx e"
  by (subst well_laid.simps) simp

lemma Classify_pointer_kind:
  "v_kind (Classify gc (PointerType c t) hc h p) \<notin> {KInteger, KFloating}"
proof (cases "\<exists>f. t = FunctionType f")
  case True
  then show ?thesis by auto
next
  case False
  from Classify_pointer [OF this, of gc c hc h p] show ?thesis by (simp add: Let_def)
qed

lemma leaf_bits_other: "v_kind v \<notin> {KInteger, KFloating} \<Longrightarrow>
    leaf_bits \<lparr>guest_path = gp, host_path = hp, leaf_offset = base, leaf_value = scalar_leaf v b\<rparr> = 64"
  by (simp add: leaf_bits_def scalar_leaf_def)

lemma scalar_leaf_size:
  assumes "pointer_bits gc = 64" and "\<not> (\<exists>d. g = RecordType d)" and "\<not> (\<exists>e n. g = ArrayType e n)"
    and "leaf_kind (v_kind (scalar_leaf (Classify gc g hc h False) (is_pointer_type g)))"
  shows "leaf_bits \<lparr>guest_path = gp, host_path = hp, leaf_offset = base,
      leaf_value = scalar_leaf (Classify gc g hc h False) (is_pointer_type g)\<rparr> = type_size gc g"
proof (cases g)
  case (PointerType c t)
  then show ?thesis using leaf_bits_other [OF Classify_pointer_kind] assms(1) by simp
qed (use assms in \<open>simp_all add: scalar_leaf_def leaf_kind_def leaf_bits_def split: if_splits\<close>)

lemma Leaves_in_order:
  shows "\<lbrakk>Leaves gc g hc h gpath hpath base out = (True, out'); well_laid gc g; pointer_bits gc = 64\<rbrakk> \<Longrightarrow>
      \<exists>ls. out' = out @ ls \<and> in_order base ls (base + type_size gc g div 8)"
    and "\<lbrakk>leaf_fields gc gfs hc hfs gpath hpath base out = (True, out'); fields_laid gc from gfs to; 8 dvd from; pointer_bits gc = 64\<rbrakk> \<Longrightarrow>
      \<exists>ls. out' = out @ ls \<and> in_order (base + from div 8) ls (base + to div 8)"
    and "\<lbrakk>leaf_elements i k gc ge hc he gpath hpath base out = (True, out'); well_laid gc ge; pointer_bits gc = 64\<rbrakk> \<Longrightarrow>
      \<exists>ls. out' = out @ ls \<and> in_order (base + i * (type_size gc ge div 8)) ls (base + (i + k) * (type_size gc ge div 8))"
proof (induction gc g hc h gpath hpath base out and gc gfs hc hfs gpath hpath base out and i k gc ge hc he gpath hpath base out
    arbitrary: out' and "from" to out' and out' rule: Leaves_leaf_fields_leaf_elements.induct)
  case (1 gc g hc h gpath hpath base out)
  consider (rec) d where "g = RecordType d" | (array) e n where "g = ArrayType e n"
    | (scalar) "\<not> (\<exists>d. g = RecordType d)" "\<not> (\<exists>e n. g = ArrayType e n)" by blast
  then show ?case
  proof cases
    case rec
    with "1.prems" obtain hr where h: "h = RecordType hr" using Leaves_record by blast
    have w: "fields_laid gc 0 (d_fields d) (d_size d)" using "1.prems"(2) rec by simp
    have "leaf_fields gc (d_fields d) hc (d_fields hr) gpath hpath base out = (True, out')" using "1.prems"(1) rec h by simp
    from "1.IH"(2) [OF rec h this w _ "1.prems"(3)] rec show ?thesis by simp
  next
    case array
    have w: "well_laid gc e" using "1.prems"(2) array by simp
    have "8 dvd type_size gc e" using w by (rule well_laid_dvd)
    then have "type_size gc g div 8 = n * (type_size gc e div 8)" by (simp add: array div_mult_swap)
    moreover have "leaf_elements 0 n gc e hc (element_type h) gpath hpath base out = (True, out')" using "1.prems"(1) array by simp
    note "1.IH"(1) [OF array this w "1.prems"(3)]
    ultimately show ?thesis by simp
  next
    case scalar
    note l = Leaves_scalar [OF scalar, of gc hc h gpath hpath base out]
    with "1.prems" scalar_leaf_size [OF "1.prems"(3) scalar] l show ?thesis by (auto simp: Let_def split: if_splits)
  qed
next
  case (2 gc gf gfs hc hf hfs gpath hpath base out)
  from "2.prems"(2) have f: "from \<le> f_offset gf" "8 dvd f_offset gf" "well_laid gc (f_type gf)"
    "fields_laid gc (f_offset gf + type_size gc (f_type gf)) gfs to" by auto
  have d: "8 dvd type_size gc (f_type gf)" using f(3) by (rule well_laid_dvd)
  from "2.prems"(1) have nb: "\<not> f_bit_field gf" by (auto split: if_splits)
  with "2.prems"(1) obtain out1 where
    l: "Leaves gc (f_type gf) hc (f_type hf) (gpath @ ''.'' @ f_name gf) (hpath @ ''.'' @ f_name hf) (base + f_offset gf div 8) out = (True, out1)"
    and r: "leaf_fields gc gfs hc hfs gpath hpath base out1 = (True, out')"
    by (auto split: prod.splits bool.splits)
  obtain ls1 where ls1: "out1 = out @ ls1"
    "in_order (base + f_offset gf div 8) ls1 (base + f_offset gf div 8 + type_size gc (f_type gf) div 8)"
    using "2.IH"(1) [OF nb l f(3) "2.prems"(4)] by auto
  have "8 dvd f_offset gf + type_size gc (f_type gf)" using f(2) d by simp
  then obtain ls2 where ls2: "out' = out1 @ ls2"
    "in_order (base + (f_offset gf + type_size gc (f_type gf)) div 8) ls2 (base + to div 8)"
    using "2.IH"(2) [OF nb l [symmetric] refl r f(4) _ "2.prems"(4)] by auto
  have "(f_offset gf + type_size gc (f_type gf)) div 8 = f_offset gf div 8 + type_size gc (f_type gf) div 8"
    using f(2) by (rule div_plus_div_distrib_dvd_left)
  then have "in_order (base + f_offset gf div 8) (ls1 @ ls2) (base + to div 8)"
    using in_order_append [OF ls1(2)] ls2(2) by (simp add: add.assoc)
  then have "in_order (base + from div 8) (ls1 @ ls2) (base + to div 8)"
    by (rule in_order_weaken) (use f(1) in \<open>simp_all add: div_le_mono\<close>)
  then show ?case using ls1(1) ls2(1) by auto
next
  case (3 gc hc hfs gpath hpath base out)
  then show ?case by (auto simp: div_le_mono)
next
  case (4 gc gf gfs hc gpath hpath base out)
  then show ?case by simp
next
  case (5 i gc ge hc he gpath hpath base out)
  then show ?case by simp
next
  case (6 i k gc ge hc he gpath hpath base out)
  let ?e = "type_size gc ge div 8"
  from "6.prems"(1) obtain out1 where
    l: "Leaves gc ge hc he (gpath @ ''['' @ dec_string i @ '']'') (hpath @ ''['' @ dec_string i @ '']'') (base + i * ?e) out = (True, out1)"
    and r: "leaf_elements (i + 1) k gc ge hc he gpath hpath base out1 = (True, out')"
    by (auto split: prod.splits bool.splits)
  obtain ls1 where ls1: "out1 = out @ ls1" "in_order (base + i * ?e) ls1 (base + i * ?e + ?e)"
    using "6.IH"(1) [OF l "6.prems"(2,3)] by auto
  obtain ls2 where ls2: "out' = out1 @ ls2" "in_order (base + (i + 1) * ?e) ls2 (base + (i + 1 + k) * ?e)"
    using "6.IH"(2) [OF l [symmetric] refl r "6.prems"(2,3)] by auto
  have "in_order (base + i * ?e) (ls1 @ ls2) (base + (i + Suc k) * ?e)"
    using in_order_append [OF ls1(2)] ls2(2) by (simp add: algebra_simps)
  then show ?case using ls1(1) ls2(1) by auto
qed


section \<open>A scalar to the guest and back\<close>

text \<open>What the emitted conversions compute: the C of \<open>Bound\<close>, and the calls of the runtime's functions.\<close>

definition bound_value :: "nat \<Rightarrow> bool \<Rightarrow> bool \<Rightarrow> u64" where
  "bound_value bits is_signed is_max =
     (if is_signed then if is_max then word_of_int (2 ^ (bits - 1) - 1) else word_of_int (- (2 ^ (bits - 1) - 1) - 1)
      else word_of_int (2 ^ bits - 1))"

definition to_guest_value :: "Conversion \<Rightarrow> u64 \<Rightarrow> u64" where
  "to_guest_value c x =
     (case c of
        NarrowSigned hb gb \<Rightarrow> xl_widen_signed x (bound_value hb True False) (bound_value hb True True)
          (bound_value gb True False) (bound_value gb True True)
      | NarrowUnsigned hb gb \<Rightarrow> xl_widen_unsigned x (bound_value hb False True) (bound_value gb False True)
      | HostPointer \<Rightarrow> xl_widen_pointer (ucast x)
      | _ \<Rightarrow> x)"

definition to_host_value :: "Conversion \<Rightarrow> u64 \<Rightarrow> u64 option" where
  "to_host_value c x =
     (case c of
        NarrowSigned hb gb \<Rightarrow> xl_narrow_signed x (bound_value hb True False) (bound_value hb True True)
          (bound_value gb True False) (bound_value gb True True)
      | NarrowUnsigned hb gb \<Rightarrow> xl_narrow_unsigned x (bound_value hb False True) (bound_value gb False True)
      | HostPointer \<Rightarrow> map_option ucast (xl_narrow_pointer x)
      | _ \<Rightarrow> Some x)"

text \<open>The values of the host's type, held in 64 bits as C holds them.\<close>

definition host_holds :: "Value \<Rightarrow> u64 \<Rightarrow> bool" where
  "host_holds v x =
     (if v_kind v = KInteger
      then if v_signed v then - (2 ^ (v_host_bits v - 1)) \<le> sint x \<and> sint x < 2 ^ (v_host_bits v - 1)
           else uint x < 2 ^ v_host_bits v
      else uint x < 2 ^ 32)"

lemma sint_of_int: "- (2 ^ 63) \<le> i \<Longrightarrow> i < 2 ^ 63 \<Longrightarrow> sint (word_of_int i :: u64) = i"
  by (simp add: signed_of_int signed_take_bit_int_eq_self)

lemma uint_of_int: "0 \<le> i \<Longrightarrow> i < 2 ^ 64 \<Longrightarrow> uint (word_of_int i :: u64) = i"
  by (simp add: uint_word_of_int)

lemma sint_bound:
  assumes "0 < bits" and "bits \<le> 64"
  shows "sint (bound_value bits True True) = 2 ^ (bits - 1) - 1" and "sint (bound_value bits True False) = - (2 ^ (bits - 1))"
proof -
  have p: "(2 :: int) ^ (bits - 1) \<le> 2 ^ 63" using assms by (intro power_increasing) auto
  have z: "(0 :: int) < 2 ^ (bits - 1)" by simp
  show "sint (bound_value bits True True) = 2 ^ (bits - 1) - 1"
    unfolding bound_value_def if_True by (rule sint_of_int) (use p z in linarith)+
  have "sint (bound_value bits True False) = - (2 ^ (bits - 1) - 1) - 1"
    unfolding bound_value_def if_True if_False by (rule sint_of_int) (use p z in linarith)+
  then show "sint (bound_value bits True False) = - (2 ^ (bits - 1))" by linarith
qed

lemma uint_bound:
  assumes "bits \<le> 64"
  shows "uint (bound_value bits False True) = 2 ^ bits - 1"
proof -
  have p: "(2 :: int) ^ bits \<le> 2 ^ 64" using assms by (intro power_increasing) auto
  have z: "(0 :: int) < 2 ^ bits" by simp
  show ?thesis unfolding bound_value_def if_False by (rule uint_of_int) (use p z in linarith)+
qed



section \<open>What a mirror does not check\<close>

text \<open>\<open>struct { union { int a; float b; } u; int c; }\<close> and \<open>struct { int a; unsigned b : 3; int c; }\<close>.\<close>

definition union_struct :: ctype where
  "union_struct = RecordType (Record 4 ''tagged'' None False 64 32
     [Field ''u'' (RecordType (Record 3 ''u'' None True 32 32
        [Field ''a'' (IntegerType True 32 32) 0 False, Field ''b'' (FloatingType 32 32) 0 False])) 0 False,
      Field ''c'' (IntegerType True 32 32) 32 False])"

definition bit_struct :: ctype where
  "bit_struct = RecordType (Record 5 ''bits'' None False 96 32
     [Field ''a'' (IntegerType True 32 32) 0 False, Field ''b'' (IntegerType False 32 32) 32 True,
      Field ''c'' (IntegerType True 32 32) 64 False])"

definition void_function_of :: "ctype \<Rightarrow> Declaration" where
  "void_function_of t = \<lparr>decl_params = [(''x'', t)], decl_result = VoidType\<rparr>"


section \<open>Signatures\<close>

lemma support_params [simp]: "sig_params (support ok note s) = sig_params s" "sig_result (support ok note s) = sig_result s"
  "sig_supported (support ok note s) \<longleftrightarrow> ok \<and> sig_supported s"
  by (simp_all add: support_def)

lemma support_fold [simp]:
  "sig_params (fold (\<lambda>p. support (f p) (n p)) ps s) = sig_params s" "sig_result (fold (\<lambda>p. support (f p) (n p)) ps s) = sig_result s"
  "sig_supported (fold (\<lambda>p. support (f p) (n p)) ps s) \<longleftrightarrow> sig_supported s \<and> (\<forall>p \<in> set ps. f p)"
  by (induction ps arbitrary: s) auto

lemma support_enumerate [simp]:
  "sig_params (fold (\<lambda>(i, p). support (f p) (n i p)) ps s) = sig_params s"
  "sig_result (fold (\<lambda>(i, p). support (f p) (n i p)) ps s) = sig_result s"
  by (induction ps arbitrary: s) auto

lemma declared_signature_parts [simp]:
  "sig_params (declared_signature gc hc g h r) = declared_params gc hc g h"
  "sig_result (declared_signature gc hc g h r) = Classify gc (decl_result g) hc (decl_result h) False"
  by (simp_all add: declared_signature_def Let_def)

text \<open>What the loop does to one parameter, given the parameters as declared.\<close>

definition detected :: "ASTContext \<Rightarrow> ASTContext \<Rightarrow> Declaration \<Rightarrow> Declaration \<Rightarrow> Parameter list \<Rightarrow> nat \<Rightarrow> Parameter" where
  "detected gc hc g h params i = detect_array gc hc g h i params ! i"

lemma count_index_kinds:
  "\<lbrakk>length ps = length qs; \<forall>k < length ps. v_kind (p_value (ps ! k)) = KInteger \<longleftrightarrow> v_kind (p_value (qs ! k)) = KInteger\<rbrakk> \<Longrightarrow>
    count_index g ps i = count_index g qs i"
  unfolding count_index_def by (rule find_cong) auto

lemma array_element_pointer: "array_element gc hc g h = Some e \<Longrightarrow> v_kind (Classify gc g hc h p) \<noteq> KInteger"
  using Classify_pointer_kind [of gc _ _ hc h p]
  by (cases g) (auto simp: array_element_def)

lemma detect_array_length [simp]: "length (detect_array gc hc g h i ps) = length ps"
  by (simp add: detect_array_def split: option.split)

lemma declared_params_nth [simp]:
  "i < length (decl_params g) \<Longrightarrow> declared_params gc hc g h ! i =
     \<lparr>p_value = Classify gc (param_type g i) hc (param_type h i) True, p_name = ''a'' @ dec_string i\<rparr>"
  "length (declared_params gc hc g h) = length (decl_params g)"
  by (simp_all add: declared_params_def)

lemma detected_kind:
  assumes "i < length (decl_params g)"
  shows "v_kind (p_value (detected gc hc g h (declared_params gc hc g h) i)) = KInteger \<longleftrightarrow>
    v_kind (p_value (declared_params gc hc g h ! i)) = KInteger"
  using assms array_element_pointer [of gc hc "param_type g i" "param_type h i" _ True]
  by (auto simp: detected_def detect_array_def as_array_def split: option.split)

lemma detect_array_other: "k \<noteq> i \<Longrightarrow> detect_array gc hc g h i ps ! k = ps ! k"
  by (simp add: detect_array_def split: option.split)

lemma fold_detect:
  assumes P: "P = declared_params gc hc g h" and "m \<le> length P"
  shows "length (fold (detect_array gc hc g h) [0..<m] P) = length P \<and>
    (\<forall>k < length P. fold (detect_array gc hc g h) [0..<m] P ! k = (if k < m then detected gc hc g h P k else P ! k))"
  using assms(2)
proof (induction m)
  case 0
  then show ?case by simp
next
  case (Suc m)
  let ?ps = "fold (detect_array gc hc g h) [0..<m] P"
  from Suc have len: "length ?ps = length P" and at: "\<forall>k < length P. ?ps ! k = (if k < m then detected gc hc g h P k else P ! k)"
    and m: "m < length P" by simp_all
  have kinds: "v_kind (p_value (detected gc hc g h P k)) = KInteger \<longleftrightarrow> v_kind (p_value (P ! k)) = KInteger" if "k < length P" for k
    unfolding P by (rule detected_kind) (use that P in simp)
  have "count_index g ?ps m = count_index g P m"
  proof (rule count_index_kinds [OF len], intro allI impI)
    fix k assume "k < length ?ps"
    then show "v_kind (p_value (?ps ! k)) = KInteger \<longleftrightarrow> v_kind (p_value (P ! k)) = KInteger" using at kinds len by simp
  qed
  then have "detect_array gc hc g h m ?ps ! m = detected gc hc g h P m"
    using at m len by (simp add: detected_def detect_array_def split: option.split)
  then show ?case using at len by (auto simp: detect_array_other less_Suc_eq)
qed

lemma DetectArrays_parts:
  assumes "sig_params s = declared_params gc hc g h"
  shows "sig_params (DetectArrays gc hc g h s) = map (detected gc hc g h (sig_params s)) [0..<length (sig_params s)]"
    and "sig_result (DetectArrays gc hc g h s) = sig_result s"
    and "sig_supported (DetectArrays gc hc g h s) \<longleftrightarrow>
      list_all (\<lambda>p. Supported (p_value p)) (sig_params (DetectArrays gc hc g h s)) \<and>
      v_kind (sig_result s) \<notin> {KUnsupported, KOutSlot, KArray, KCallback}"
proof -
  have "fold (detect_array gc hc g h) [0..<length (sig_params s)] (sig_params s) = map (detected gc hc g h (sig_params s)) [0..<length (sig_params s)]"
    using fold_detect [OF assms order_refl] by (intro nth_equalityI) simp_all
  then show "sig_params (DetectArrays gc hc g h s) = map (detected gc hc g h (sig_params s)) [0..<length (sig_params s)]"
    by (simp add: DetectArrays_def Let_def)
  show "sig_result (DetectArrays gc hc g h s) = sig_result s" by (simp add: DetectArrays_def Let_def)
  show "sig_supported (DetectArrays gc hc g h s) \<longleftrightarrow>
      list_all (\<lambda>p. Supported (p_value p)) (sig_params (DetectArrays gc hc g h s)) \<and>
      v_kind (sig_result s) \<notin> {KUnsupported, KOutSlot, KArray, KCallback}"
    by (auto simp: DetectArrays_def Let_def list_all_iff Supported_def)
qed

text \<open>
  Which parameter becomes an array. The loop decides every parameter as if it were the only one: a pointer to a scalar
  whose two layouts differ becomes an array counted by the nearest integer parameter with a count's name, and every
  other parameter is as it was classified.
\<close>

theorem FromFunction_params:
  "sig_params (FromFunction gc hc g h) =
     map (\<lambda>i. let p = \<lparr>p_value = Classify gc (param_type g i) hc (param_type h i) True, p_name = ''a'' @ dec_string i\<rparr> in
         case array_element gc hc (param_type g i) (param_type h i) of
           None \<Rightarrow> p
         | Some element \<Rightarrow>
             (case count_index g (declared_params gc hc g h) i of
                None \<Rightarrow> p
              | Some k \<Rightarrow> p\<lparr>p_value := as_array (p_value p) element k (\<not> pointee_const (param_type g i))\<rparr>))
       [0..<length (decl_params g)]"
  unfolding FromFunction_def by (subst DetectArrays_parts(1)) (auto simp: detected_def detect_array_def Let_def split: option.split)

text \<open>
  C33: A block as a result. A method whose result is a block is refused, as a block cannot cross that way without a wrapper;
  a function whose result is a block is accepted whenever its parameters are, although \<open>FromFunction\<close> refuses it
  before it looks for arrays: \<open>DetectArrays\<close> forgets the refusal.
\<close>

theorem block_results:
  assumes "decl_result g = BlockPointerType t"
  shows "sig_supported (FromFunction gc hc g h) = list_all (\<lambda>p. Supported (p_value p)) (sig_params (FromFunction gc hc g h)) \<and>
    sig_supported (FromMethod gc hc g h) = False \<and>
    sig_supported (declared_signature gc hc g h {KOutSlot, KCallback, KBlock}) = False"
  using DetectArrays_parts(2,3) [of "declared_signature gc hc g h {KOutSlot, KCallback, KBlock}" gc hc g h]
    DetectArrays_parts(2) [of "declared_signature gc hc g h {KOutSlot, KCallback}" gc hc g h] assms
  by (simp add: FromFunction_def FromMethod_def Let_def) (simp add: declared_signature_def Let_def)

definition block_getter :: Declaration where
  "block_getter = \<lparr>decl_params = [], decl_result = BlockPointerType (FunctionType None)\<rparr>"

theorem block_results_witness:
  "sig_supported (FromFunction guest_context host_context block_getter block_getter)"
proof -
  have "decl_result block_getter = BlockPointerType (FunctionType None)" by (simp add: block_getter_def)
  from block_results [OF this, of guest_context host_context block_getter] DetectArrays_parts(1) [of "declared_signature guest_context host_context block_getter block_getter {KOutSlot, KCallback, KBlock}"]
  show ?thesis by (simp add: FromFunction_def) (simp add: block_getter_def)
qed

definition pair_decl :: cdecl where
  "pair_decl = Record 6 ''pair'' None False 128 64 [Field ''n'' (IntegerType True 32 32) 0 False, Field ''p'' SelType 64 False]"


section \<open>Type encodings\<close>

lemma NormalizeEncoding_after_name:
  "NormalizeEncoding (dropWhile (\<lambda>c. \<not> ends_name c) s) = [] \<or>
   ends_name (hd (NormalizeEncoding (dropWhile (\<lambda>c. \<not> ends_name c) s)))"
proof (cases "dropWhile (\<lambda>c. \<not> ends_name c) s")
  case (Cons c r)
  then have "ends_name c" by (metis hd_dropWhile list.distinct(1) list.sel(1))
  then have "\<not> digit c" "c \<noteq> CHR ''{''" "c \<noteq> CHR ''(''" by (auto simp: ends_name_def digit_def less_eq_char_def)
  with Cons \<open>ends_name c\<close> show ?thesis by simp
next
  case Nil
  show ?thesis unfolding Nil by simp
qed

text \<open>
  Encodings as keys. What \<open>NormalizeEncoding\<close> leaves has no digit and is left as it is by a second pass, so that the
  encoding of the device's runtime and that of the SDK can be compared by equality once both are normalised.
\<close>

theorem NormalizeEncoding_normal:
  "NormalizeEncoding (NormalizeEncoding s) = NormalizeEncoding s \<and> list_all (\<lambda>c. \<not> digit c) (NormalizeEncoding s)"
proof (induction s rule: NormalizeEncoding.induct)
  case 1
  then show ?case by simp
next
  case (2 c s)
  let ?n = "NormalizeEncoding (dropWhile (\<lambda>c. \<not> ends_name c) s)"
  have q: "\<not> ends_name (CHR ''?'')" "\<not> digit (CHR ''?'')" by (simp_all add: ends_name_def digit_def less_eq_char_def)
  have d: "dropWhile (\<lambda>c. \<not> ends_name c) ?n = ?n"
    using NormalizeEncoding_after_name [of s] by (cases ?n) auto
  show ?case
  proof (cases "digit c \<or> \<not> (c = CHR ''{'' \<or> c = CHR ''('')")
    case True
    then show ?thesis using 2 by auto
  next
    case False
    then show ?thesis using 2(2) q d by simp
  qed
qed

end
