(* ===== verification/Encoding.thy ===== *)
theory Encoding
  imports Bridge
begin

text \<open>
  Signatures from Objective-C type encodings: the types an encoding names on either target (\<open>EncodedType\<close>,
  \<open>SynthesizeRecord\<close>), the signature of a method (\<open>FromEncoding\<close>) and the encoding the host is given (\<open>HostEncoding\<close>).
\<close>

definition qualifier :: "char \<Rightarrow> bool" where
  "qualifier c \<longleftrightarrow> c \<in> set ''rnNoORV'' \<or> c = CHR 0x00"

definition scalar_encoding :: "ASTContext \<Rightarrow> char \<Rightarrow> ctype option" where
  "scalar_encoding ctx =
     Map.empty(CHR ''c'' \<mapsto> builtin ctx ''SignedCharTy'', CHR ''C'' \<mapsto> builtin ctx ''UnsignedCharTy'',
       CHR ''s'' \<mapsto> builtin ctx ''ShortTy'', CHR ''S'' \<mapsto> builtin ctx ''UnsignedShortTy'',
       CHR ''i'' \<mapsto> builtin ctx ''IntTy'', CHR ''I'' \<mapsto> builtin ctx ''UnsignedIntTy'',
       CHR ''l'' \<mapsto> builtin ctx ''IntTy'', CHR ''L'' \<mapsto> builtin ctx ''UnsignedIntTy'',
       CHR ''q'' \<mapsto> builtin ctx ''LongLongTy'', CHR ''Q'' \<mapsto> builtin ctx ''UnsignedLongLongTy'',
       CHR ''f'' \<mapsto> builtin ctx ''FloatTy'', CHR ''d'' \<mapsto> builtin ctx ''DoubleTy'', CHR ''B'' \<mapsto> builtin ctx ''BoolTy'',
       CHR ''v'' \<mapsto> VoidType, CHR ''*'' \<mapsto> PointerType False (builtin ctx ''CharTy''),
       CHR ''#'' \<mapsto> ObjCPointerType None False, CHR '':'' \<mapsto> SelType)"

text \<open>
  What is left after a quoted name. Without a closing quote the code drops a character of an empty text, which LLVM does not
  define.
\<close>

definition after_quote :: "string \<Rightarrow> string" where
  "after_quote text = drop 1 (dropWhile (\<lambda>c. c \<noteq> CHR 0x22) (drop 1 text))"

text \<open>The characters up to the brace that closes a structure, whose opening brace is before the text.\<close>

fun brace_end :: "nat \<Rightarrow> string \<Rightarrow> nat" where
  "brace_end 0 text = 0"
| "brace_end (Suc depth) [] = 0"
| "brace_end (Suc depth) (c # text) =
     Suc (if c = CHR ''{'' then brace_end (Suc (Suc depth)) text
          else if c = CHR ''}'' then brace_end depth text
          else brace_end (Suc depth) text)"

text \<open>The text between the first \<open>=\<close> and the last character, if there is an \<open>=\<close>.\<close>

definition structure_body :: "string \<Rightarrow> string option" where
  "structure_body whole =
     (if CHR ''='' \<in> set whole
      then Some (drop (length (takeWhile (\<lambda>c. c \<noteq> CHR ''='') whole) + 1) (take (length whole - 1) whole))
      else None)"

definition record_definition :: "ASTContext \<Rightarrow> cdecl \<Rightarrow> string" where
  "record_definition ctx d =
     ''struct '' @ d_name d @ '' {'' @
     concat (map (\<lambda>(i, f). '' '' @ Spell ctx (f_type f) (''f'' @ dec_string i) @ '';'') (List.enumerate 0 (d_fields d))) @ '' };'' @ nl"

text \<open>The new structure: its declaration is remembered for its encoding, and its definition written.\<close>

definition add_record :: "ASTContext \<Rightarrow> bool \<Rightarrow> string \<Rightarrow> string \<Rightarrow> ctype list \<Rightarrow> Generator \<Rightarrow> ctype \<times> Generator" where
  "add_record ctx guest key name types gen =
     (let d = make_record ctx name (map (\<lambda>(i, t). (''f'' @ dec_string i, t)) (List.enumerate 0 types))
      in (RecordType d,
          gen\<lparr>gen_records := (gen_records gen)(guest := omap_set key (RecordType d) (gen_records gen guest)),
              gen_record_defs := (gen_record_defs gen)(guest := gen_record_defs gen guest @ record_definition ctx d)\<rparr>))"

text \<open>
  \<open>EncodedType\<close> leaves the text after the type, and the error if the type is null; \<open>member_types\<close> is the loop of
  \<open>SynthesizeRecord\<close>.
\<close>

function EncodedType :: "ASTContext \<Rightarrow> bool \<Rightarrow> string \<Rightarrow> string \<Rightarrow> Generator \<Rightarrow> ctype \<times> string \<times> string \<times> Generator"
  and SynthesizeRecord :: "ASTContext \<Rightarrow> bool \<Rightarrow> string \<Rightarrow> string \<Rightarrow> Generator \<Rightarrow> ctype \<times> string \<times> Generator"
  and member_types :: "ASTContext \<Rightarrow> bool \<Rightarrow> string \<Rightarrow> string \<Rightarrow> Generator \<Rightarrow> ctype list option \<times> string \<times> Generator" where
  "EncodedType ctx guest text error gen =
     (case dropWhile qualifier text of
        [] \<Rightarrow> (NullType, [], ''truncated encoding'', gen)
      | c # text \<Rightarrow>
          (case scalar_encoding ctx c of
             Some t \<Rightarrow> (t, text, error, gen)
           | None \<Rightarrow>
               if c = CHR ''@''
               then if starts_with ''?'' text
                    then (NullType, drop 1 text, ''block parameter of a method the SDK does not declare'', gen)
                    else (ObjCPointerType None False, if starts_with [CHR 0x22] text then after_quote text else text, error, gen)
               else if c = CHR ''^''
               then (case EncodedType ctx guest text error gen of
                       (t, rest, error, gen) \<Rightarrow> (if t = NullType then NullType else PointerType False t, rest, error, gen))
               else if c = CHR ''{''
               then let name = takeWhile (\<lambda>c. c \<noteq> CHR ''='' \<and> c \<noteq> CHR ''}'') text;
                        whole = take (brace_end 1 text) text;
                        rest = drop (brace_end 1 text) text
                    in (case if name \<noteq> [] \<and> name \<noteq> ''?'' then lookup_type ctx name else None of
                          Some t \<Rightarrow> (t, rest, error, gen)
                        | None \<Rightarrow>
                            (case structure_body whole of
                               None \<Rightarrow> (NullType, rest, ''structure '' @ name @ '' is not declared by the SDK'', gen)
                             | Some body \<Rightarrow>
                                 (case SynthesizeRecord ctx guest body error gen of
                                    (t, error, gen) \<Rightarrow> (t, rest, error, gen))))
               else (NullType, text, ''unsupported encoding character '' @ [c], gen)))"
| "SynthesizeRecord ctx guest key error gen =
     (case map_of (gen_records gen guest) key of
        Some t \<Rightarrow> (t, error, gen)
      | None \<Rightarrow>
          (case member_types ctx guest key error (gen\<lparr>gen_record_counter := gen_record_counter gen + 1\<rparr>) of
             (None, error, gen') \<Rightarrow> (NullType, error, gen')
           | (Some types, error, gen') \<Rightarrow>
               (case add_record ctx guest key (''xl_anon_'' @ dec_string (gen_record_counter gen)) types gen' of
                  (t, gen'') \<Rightarrow> (t, error, gen''))))"
| "member_types ctx guest text error gen =
     (if text = [] then (Some [], error, gen)
      else if starts_with [CHR 0x22] text then member_types ctx guest (after_quote text) error gen
      else case EncodedType ctx guest text error gen of
        (t, rest, error, gen) \<Rightarrow>
          if t = NullType then (None, error, gen)
          else (case member_types ctx guest rest error gen of
                  (None, error, gen) \<Rightarrow> (None, error, gen)
                | (Some types, error, gen) \<Rightarrow> (Some (t # types), error, gen)))"
  by pat_completeness auto

lemma length_dropWhile_Cons: "dropWhile P xs = c # ys \<Longrightarrow> length ys < length xs"
  using length_dropWhile_le [of P xs] by simp

lemma length_after_quote: "starts_with [CHR 0x22] text \<Longrightarrow> length (after_quote text) < length text"
  using length_dropWhile_le [of "\<lambda>c. c \<noteq> CHR 0x22" "drop 1 text"] by (cases "text") (auto simp: after_quote_def starts_with_def)

lemma length_structure_body: "structure_body whole = Some body \<Longrightarrow> length body \<le> length whole - 1"
  by (auto simp: structure_body_def split: if_splits)

lemma EncodedType_consumes_dom:
  shows "EncodedType_SynthesizeRecord_member_types_dom (Inl (ctx, guest, text, error, gen)) \<Longrightarrow>
      fst (EncodedType ctx guest text error gen) \<noteq> NullType \<longrightarrow>
      length (fst (snd (EncodedType ctx guest text error gen))) < length text"
    and "EncodedType_SynthesizeRecord_member_types_dom (Inr (Inl (ctx, guest, key, error, gen))) \<Longrightarrow> True"
    and "EncodedType_SynthesizeRecord_member_types_dom (Inr (Inr (ctx, guest, text, error, gen))) \<Longrightarrow> True"
proof (induction ctx guest "text" error gen and ctx guest key error gen and ctx guest "text" error gen
    rule: EncodedType_SynthesizeRecord_member_types.pinduct)
  case (1 ctx guest cs error gen)
  show ?case
  proof (cases "dropWhile qualifier cs")
    case Nil
    show ?thesis unfolding EncodedType.psimps [OF 1(1)] Nil by simp
  next
    case (Cons c r)
    then have less: "length r < length cs" by (rule length_dropWhile_Cons)
    have q: "length (if starts_with [CHR 0x22] r then after_quote r else r) \<le> length r"
      using length_after_quote [of r] by (simp add: less_imp_le)
    note e = EncodedType.psimps [OF 1(1), unfolded Cons, simplified]
    show ?thesis
    proof (cases "scalar_encoding ctx c")
      case (Some t)
      then show ?thesis unfolding e using less by simp
    next
      case None
      consider "c = CHR ''@''" | "c = CHR ''^''" | "c = CHR ''{''" | "c \<noteq> CHR ''@''" "c \<noteq> CHR ''^''" "c \<noteq> CHR ''{''" by blast
      then show ?thesis
      proof cases
        case 1
        then show ?thesis unfolding e None using less q by simp
      next
        case 2
        then show ?thesis unfolding e None using "1.IH"(1) [OF Cons None] less
          by (cases "EncodedType ctx guest r error gen") auto
      next
        case 3
        have "length (drop n r) < length cs" for n using less by simp
        with 3 show ?thesis unfolding e None by (simp add: Let_def split: option.split prod.split)
      next
        case 4
        then show ?thesis unfolding e None by simp
      qed
    qed
  qed
qed simp_all

lemma EncodedType_total: "All EncodedType_SynthesizeRecord_member_types_dom"
proof (relation "measure (\<lambda>x. case x of Inl (ctx, guest, cs, error, gen) \<Rightarrow> 3 * length cs
      | Inr (Inl (ctx, guest, key, error, gen)) \<Rightarrow> 3 * length key + 2
      | Inr (Inr (ctx, guest, cs, error, gen)) \<Rightarrow> 3 * length cs + 1)", goal_cases)
  case 1
  show ?case by simp
next
  case (2 ctx guest cs error gen c r)
  then show ?case using length_dropWhile_Cons [of qualifier cs c r] by simp
next
  case (3 ctx guest cs error gen c r name whole rest body)
  then show ?case
    using length_dropWhile_Cons [of qualifier cs c r] length_structure_body [of whole body] by simp
next
  case 4
  then show ?case by simp
next
  case (5 ctx guest cs error gen)
  then show ?case using length_after_quote [of cs] by simp
next
  case 6
  then show ?case by simp
next
  case (7 ctx guest cs error gen x y xa ya xb yb)
  have "EncodedType ctx guest cs error gen = (x, xa, xb, yb)" using 7(3-5) by simp
  then show ?case using EncodedType_consumes_dom(1) [OF 7(7)] 7(6) by simp
qed

termination EncodedType
  by (rule EncodedType_total)

declare EncodedType.simps [simp del] SynthesizeRecord.simps [simp del] member_types.simps [simp del]

lemma EncodedType_consumes:
  assumes "EncodedType ctx guest cs error gen = (t, rest, error', gen')" and "t \<noteq> NullType"
  shows "length rest < length cs"
  using EncodedType_consumes_dom(1) [OF EncodedType_total [THEN spec], of ctx guest cs error gen] assms by simp

section \<open>\<open>FromEncoding\<close>\<close>

definition skip_offset :: "string \<Rightarrow> string" where
  "skip_offset = dropWhile (\<lambda>c. digit c \<or> c = CHR ''-'')"

lemma length_skip_offset: "length (skip_offset cs) \<le> length cs"
  by (simp add: skip_offset_def length_dropWhile_le)

text \<open>The loop over the parameters; the first two are the receiver and the selector.\<close>

function encoded_params :: "ASTContext \<Rightarrow> ASTContext \<Rightarrow> nat \<Rightarrow> string \<Rightarrow> string \<Rightarrow> Signature \<Rightarrow> Generator \<Rightarrow> Signature \<times> Generator" where
  "encoded_params gc hc index cs error s gen =
     (if cs = [] then (s, gen)
      else case EncodedType gc True cs error gen of
        (g, rest, error, gen) \<Rightarrow>
          (case EncodedType hc False cs error gen of
             (h, _, error, gen) \<Rightarrow>
               if g = NullType \<or> h = NullType then (s\<lparr>sig_supported := False, sig_note := error\<rparr>, gen)
               else if index < 2 then encoded_params gc hc (index + 1) (skip_offset rest) error s gen
               else let v = Classify gc g hc h True;
                        s = support (Supported v) (v_note v) s
                    in encoded_params gc hc (index + 1) (skip_offset rest) error
                         (s\<lparr>sig_params := sig_params s @ [\<lparr>p_value = v, p_name = ''a'' @ dec_string (index - 2)\<rparr>]\<rparr>) gen))"
  by pat_completeness auto

lemma encoded_step: "(g, y) = EncodedType ctx guest cs error gen \<Longrightarrow> (rest, z) = y \<Longrightarrow> g \<noteq> NullType \<Longrightarrow>
    length (skip_offset rest) < length cs"
  using EncodedType_consumes [of ctx guest cs error gen g rest "fst z" "snd z"] length_skip_offset [of rest]
  by (metis le_less_trans prod.collapse)

termination encoded_params
  by (relation "measure (\<lambda>(gc, hc, i, cs, r). length cs)") (auto dest: encoded_step)

declare encoded_params.simps [simp del]

text \<open>The members of a default \<open>Value\<close>, of a signature that is given up before its result is known.\<close>

definition no_value :: Value where "no_value = new_value KUnsupported NullType NullType"

definition FromEncoding :: "ASTContext \<Rightarrow> ASTContext \<Rightarrow> string \<Rightarrow> Generator \<Rightarrow> Signature \<times> Generator" where
  "FromEncoding gc hc encoding gen =
     (case EncodedType gc True encoding [] gen of
        (g, rest, error, gen) \<Rightarrow>
          (case EncodedType hc False encoding error gen of
             (h, _, error, gen) \<Rightarrow>
               if g = NullType \<or> h = NullType
               then (\<lparr>sig_params = [], sig_result = no_value, sig_supported = False, sig_note = error\<rparr>, gen)
               else encoded_params gc hc 0 (skip_offset rest) error
                      \<lparr>sig_params = [], sig_result = Classify gc g hc h False, sig_supported = True, sig_note = []\<rparr> gen))"

section \<open>\<open>HostEncoding\<close>\<close>

text \<open>Each parameter with its offset in the frame, which starts after the receiver and the selector; then where the frame ends.\<close>

definition slot_size :: "ASTContext \<Rightarrow> ctype \<Rightarrow> nat" where
  "slot_size hc t = max 4 ((type_size hc t div 8 + 3) div 4 * 4)"

fun param_offsets :: "ASTContext \<Rightarrow> nat \<Rightarrow> Parameter list \<Rightarrow> nat list \<times> nat" where
  "param_offsets hc offset [] = ([], offset)"
| "param_offsets hc offset (p # ps) =
     (case param_offsets hc (offset + slot_size hc (v_host (p_value p))) ps of (os, fin) \<Rightarrow> (offset # os, fin))"

definition HostEncoding :: "ASTContext \<Rightarrow> Signature \<Rightarrow> string" where
  "HostEncoding hc s =
     (case param_offsets hc 8 (sig_params s) of
        (os, fin) \<Rightarrow>
          objc_encoding hc (v_host (sig_result s)) @ dec_string fin @ ''@0:4'' @
          concat (map (\<lambda>(p, offset). objc_encoding hc (v_host (p_value p)) @ dec_string offset) (zip (sig_params s) os)))"

end
