(* ===== verification/Encoding_Facts.thy ===== *)
theory Encoding_Facts
  imports Encoding Layout_Facts
begin

text \<open>
  What holds of signatures read from encodings: the two targets are read in step, the encoding the host is given lays the
  arguments out one after the other, and what is not checked.
\<close>

lemma scalar_encoding_None: "scalar_encoding ctx c = None \<longleftrightarrow> scalar_encoding ctx' c = None"
  by (simp add: scalar_encoding_def)

lemma EncodedType_rest:
  "EncodedType gc b cs e gen = (g, r, e1, gen1) \<Longrightarrow> EncodedType hc b' cs e' gen' = (h, r', e2, gen2) \<Longrightarrow>
    g \<noteq> NullType \<Longrightarrow> h \<noteq> NullType \<Longrightarrow> r = r'"
proof (induction "length cs" arbitrary: cs e e' gen gen' g h r r' e1 e2 gen1 gen2 rule: less_induct)
  case less
  obtain c t where ct: "dropWhile qualifier cs = c # t"
    using less.prems(1,3) by (cases "dropWhile qualifier cs") (auto simp: EncodedType.simps [of gc b cs])
  note u = EncodedType.simps [of gc b cs e gen, unfolded ct, simplified]
    and v = EncodedType.simps [of hc b' cs e' gen', unfolded ct, simplified]
  have l: "length t < length cs" using ct by (rule length_dropWhile_Cons)
  show ?case
  proof (cases "scalar_encoding gc c")
    case (Some x)
    then obtain y where "scalar_encoding hc c = Some y" using scalar_encoding_None [of gc c hc] by (cases "scalar_encoding hc c") auto
    then show ?thesis using less.prems(1,2) unfolding u v Some by simp
  next
    case None
    then have n: "scalar_encoding hc c = None" using scalar_encoding_None by blast
    consider "c = CHR ''@''" | "c = CHR ''^''" | "c = CHR ''{''" | "c \<noteq> CHR ''@''" "c \<noteq> CHR ''^''" "c \<noteq> CHR ''{''" by blast
    then show ?thesis
    proof cases
      case 1
      then show ?thesis using less.prems unfolding u v None n by (auto split: if_splits)
    next
      case 2
      obtain x r1 a1 s1 where p: "EncodedType gc b t e gen = (x, r1, a1, s1)" by (metis prod_cases4)
      obtain y r2 a2 s2 where q: "EncodedType hc b' t e' gen' = (y, r2, a2, s2)" by (metis prod_cases4)
      have "x \<noteq> NullType" "y \<noteq> NullType" "r = r1" "r' = r2"
        using 2 less.prems p q unfolding u v None n by (auto split: if_splits)
      then show ?thesis using less.hyps [OF l p q] by simp
    next
      case 3
      then have "r = drop (brace_end 1 t) t" "r' = drop (brace_end 1 t) t"
        using less.prems unfolding u v None n by (auto simp: Let_def split: option.splits prod.splits)
      then show ?thesis by simp
    next
      case 4
      then show ?thesis using less.prems unfolding u v None n by auto
    qed
  qed
qed

text \<open>
  Two readings in step. Where an encoding names a type on both targets, the two readings end at the same character;
  so \<open>FromEncoding\<close>, which goes on from where the guest's reading ended, reads each parameter of both at its own place.
\<close>

theorem EncodedType_in_step:
  assumes "EncodedType gc True cs e gen = (g, rest, e1, gen1)" and "EncodedType hc False cs e1 gen1 = (h, rest', e2, gen2)"
    and "g \<noteq> NullType" and "h \<noteq> NullType"
  shows "rest = rest' \<and> length rest < length cs"
  using EncodedType_rest [OF assms] EncodedType_consumes [OF assms(1,3)] by simp

section \<open>The host's encoding\<close>

lemma param_offsets_spec:
  "4 dvd offset \<Longrightarrow> param_offsets hc offset ps = (os, fin) \<Longrightarrow>
    length os = length ps \<and> list_all (\<lambda>o'. 4 dvd o') os \<and> 4 dvd fin \<and> list_all (\<lambda>o'. offset \<le> o') os \<and> offset \<le> fin \<and>
    (\<forall>i < length ps. os ! i + max 4 (type_size hc (v_host (p_value (ps ! i))) div 8) \<le> (os @ [fin]) ! Suc i)"
proof (induction hc offset ps arbitrary: os fin rule: param_offsets.induct)
  case (1 hc offset)
  then show ?case by simp
next
  case (2 hc offset p ps)
  let ?s = "slot_size hc (v_host (p_value p))"
  obtain os' f where r: "param_offsets hc (offset + ?s) ps = (os', f)" by (metis prod.collapse)
  have os: "os = offset # os'" "fin = f" using 2(3) r by simp_all
  have s: "4 dvd ?s" "max 4 (type_size hc (v_host (p_value p)) div 8) \<le> ?s"
  proof -
    have "x \<le> (x + 3) div 4 * 4" for x :: nat by linarith
    then have "type_size hc (v_host (p_value p)) div 8 \<le> ?s" unfolding slot_size_def by (rule max.coboundedI2)
    then show "max 4 (type_size hc (v_host (p_value p)) div 8) \<le> ?s" unfolding slot_size_def by (simp only: max.bounded_iff) simp
    show "4 dvd ?s" by (simp add: slot_size_def max_def)
  qed
  have ih: "length os' = length ps" "list_all (\<lambda>o'. 4 dvd o') os'" "4 dvd f" "list_all (\<lambda>o'. offset + ?s \<le> o') os'" "offset + ?s \<le> f"
    "\<forall>i < length ps. os' ! i + max 4 (type_size hc (v_host (p_value (ps ! i))) div 8) \<le> (os' @ [f]) ! Suc i"
    using "2.IH" [OF _ r] 2(2) s(1) by simp_all
  have first: "offset + ?s \<le> (os' @ [f]) ! 0" using ih(4,5) by (cases os') auto
  show ?case
  proof (intro conjI)
    show "\<forall>i < length (p # ps). os ! i + max 4 (type_size hc (v_host (p_value ((p # ps) ! i))) div 8) \<le> (os @ [fin]) ! Suc i"
      using ih(6) first s(2) by (auto simp: os nth_Cons split: nat.split)
    show "list_all (\<lambda>o'. offset \<le> o') os" using ih(4) by (auto simp: os list_all_iff)
  qed (use ih 2(2) in \<open>auto simp: os\<close>)
qed

text \<open>
  The frame of a host method. In the encoding the host is given, the arguments start after the receiver and the
  selector, each at a multiple of four, with at least its size and at least four bytes up to the next; and the size of the
  frame is where the last ends.
\<close>

theorem HostEncoding_frame:
  assumes "param_offsets hc 8 (sig_params s) = (os, fin)"
  shows "HostEncoding hc s = objc_encoding hc (v_host (sig_result s)) @ dec_string fin @ ''@0:4'' @
      concat (map (\<lambda>(p, offset). objc_encoding hc (v_host (p_value p)) @ dec_string offset) (zip (sig_params s) os)) \<and>
    length os = length (sig_params s) \<and> list_all (\<lambda>o'. 8 \<le> o' \<and> 4 dvd o') os \<and> 4 dvd fin \<and>
    (\<forall>i < length os. os ! i + max 4 (type_size hc (v_host (p_value (sig_params s ! i))) div 8) \<le> (os @ [fin]) ! Suc i)"
  using param_offsets_spec [OF _ assms] assms by (simp add: HostEncoding_def list_all_iff)

text \<open>A structure \<open>node\<close> that is a pointer, declared by both SDKs.\<close>

definition node_context :: "nat \<Rightarrow> ASTContext" where
  "node_context bits = guest_context\<lparr>pointer_bits := bits,
     lookup_type := [''node'' \<mapsto> RecordType (Record 7 ''node'' None False bits bits [Field ''next'' (PointerType False (TagType ''node'')) 0 False])]\<rparr>"

definition node_type :: "nat \<Rightarrow> ctype" where
  "node_type bits = RecordType (Record 7 ''node'' None False bits bits [Field ''next'' (PointerType False (TagType ''node'')) 0 False])"

lemma EncodedType_node:
  "EncodedType (node_context bits) guest ''^{node}16@0:8'' e gen = (PointerType False (node_type bits), ''16@0:8'', e, gen)"
  by (simp add: EncodedType.simps [of _ _ "CHR ''^'' # _"] EncodedType.simps [of _ _ "CHR ''{'' # _"] qualifier_def scalar_encoding_def
      node_context_def node_type_def Let_def numeral_eq_Suc)

lemma EncodedType_receiver:
  "EncodedType (node_context bits) guest ''@0:8'' e gen = (ObjCPointerType None False, ''0:8'', e, gen)"
  "EncodedType (node_context bits) guest '':8'' e gen = (SelType, ''8'', e, gen)"
  by (simp_all add: EncodedType.simps qualifier_def scalar_encoding_def starts_with_def)

theorem EncodedType_in_step_witness:
  "EncodedType (node_context 64) True ''^{node}16@0:8'' [] empty_generator = (PointerType False (node_type 64), ''16@0:8'', [], empty_generator) \<and>
   length ''16@0:8'' < length ''^{node}16@0:8''"
  using EncodedType_in_step [OF EncodedType_node [of 64 True "[]" empty_generator] EncodedType_node [of 32 False]] EncodedType_node by simp

text \<open>
  A result that is not checked. A method whose result is a pointer to a structure the two sides lay out differently is a
  signature the classification refuses, and \<open>FromMethod\<close> with it; read from the encoding it is supported, as
  \<open>FromEncoding\<close> asks only the parameters.
\<close>

theorem FromEncoding_unchecked_result:
  "(case FromEncoding (node_context 64) (node_context 32) ''^{node}16@0:8'' empty_generator of
      (s, gen) \<Rightarrow> sig_supported s \<and> Supported (sig_result s) = False) \<and>
   sig_supported (FromMethod (node_context 64) (node_context 32)
     \<lparr>decl_params = [], decl_result = PointerType False (node_type 64)\<rparr>
     \<lparr>decl_params = [], decl_result = PointerType False (node_type 32)\<rparr>) = False"
proof -
  have s: "fst (SameLayout (node_context 64) (node_type 64) (node_context 32) (node_type 32) {}) = False"
    by (simp add: node_type_def SameLayout.simps)
  have f: "\<not> (\<exists>f. node_type 64 = FunctionType f)" by (simp add: node_type_def)
  have c: "v_kind (Classify (node_context 64) (PointerType False (node_type 64)) (node_context 32) (PointerType False (node_type 32)) False) = KUnsupported"
    using s by (simp add: Classify_pointer [OF f] Let_def)
      (simp add: node_type_def resolve_tag_def opaque_stream_def opaque_handle_def starts_with_def)
  have d: "skip_offset ''16@0:8'' = ''@0:8''" "skip_offset ''0:8'' = '':8''" "skip_offset ''8'' = []"
    by (simp_all add: skip_offset_def digit_def less_eq_char_def)
  have p: "encoded_params (node_context 64) (node_context 32) 0 ''@0:8'' [] sig gen = (sig, gen)" for sig gen
    by (subst encoded_params.simps, simp add: EncodedType_receiver d, subst encoded_params.simps, simp add: EncodedType_receiver d,
        subst encoded_params.simps, simp)
  show ?thesis
    using c by (simp add: FromEncoding_def EncodedType_node d p Supported_def FromMethod_def DetectArrays_def Let_def
        declared_signature_def declared_params_def support_def)
qed

definition frame_signature :: Signature where
  "frame_signature = \<lparr>sig_params = [\<lparr>p_value = new_value KRecord sample_shape sample_shape, p_name = ''a0''\<rparr>,
     \<lparr>p_value = new_value KPointer SelType SelType, p_name = ''a1''\<rparr>], sig_result = new_value KVoid VoidType VoidType,
     sig_supported = True, sig_note = []\<rparr>"

theorem HostEncoding_frame_witness:
  "HostEncoding host_context frame_signature = ''i36@0:4i8i32''"
proof -
  have "param_offsets host_context 8 (sig_params frame_signature) = ([8, 32], 36)"
    by (simp add: frame_signature_def slot_size_def sample_shape_def host_context_def)
  note e = HostEncoding_frame [OF this, THEN conjunct1]
  have d: "dec_string 36 = ''36''" "dec_string 8 = ''8''" "dec_string 32 = ''32''" by code_simp+
  show ?thesis unfolding e by (simp add: frame_signature_def host_context_def guest_context_def d)
qed

end
