(* ===== verification/Availability.thy ===== *)
theory Availability
  imports Prelude
begin

text \<open>
  The answer to \<open>@available\<close> (\<open>runtime/availability.c\<close>): the release of the device is read once from the system's version
  record, and compared with the release a program asks for.
\<close>

definition PLATFORM_IOS :: u32 where "PLATFORM_IOS = 2"

text \<open>\<open>strstr\<close>: the text from the first place where the pattern is.\<close>

fun strstr :: "string \<Rightarrow> string \<Rightarrow> string option" where
  "strstr s p = (if starts_with p s then Some s else case s of [] \<Rightarrow> None | c # cs \<Rightarrow> strstr cs p)"

declare strstr.simps [simp del]

definition is_decimal :: "char \<Rightarrow> bool" where
  "is_decimal c \<longleftrightarrow> CHR ''0'' \<le> c \<and> c \<le> CHR ''9''"

text \<open>The loop over the characters of the version, up to the byte that ends the text.\<close>

fun version_parts :: "nat \<Rightarrow> u32 list \<Rightarrow> string \<Rightarrow> u32 list" where
  "version_parts part parts [] = parts"
| "version_parts part parts (c # cs) =
     (if 3 \<le> part then parts
      else if is_decimal c
      then version_parts part (parts[part := parts ! part * 10 + (of_nat (of_char c) - of_nat (of_char (CHR ''0'')))]) cs
      else if c = CHR ''.'' then version_parts (part + 1) parts cs
      else parts)"

text \<open>\<open>read_device_version\<close>, given what the file holds, or that it does not open.\<close>

definition read_device_version :: "string option \<Rightarrow> u32" where
  "read_device_version file =
     (case file of
        None \<Rightarrow> 0
      | Some content \<Rightarrow>
          (case strstr (takeWhile (\<lambda>c. c \<noteq> CHR 0x00) (take 4095 content)) ''<key>ProductVersion</key>'' of
             None \<Rightarrow> 0
           | Some key \<Rightarrow>
               (case strstr key ''<string>'' of
                  None \<Rightarrow> 0
                | Some val \<Rightarrow>
                    (case version_parts 0 [0, 0, 0] (drop (length ''<string>'') val) of
                       parts \<Rightarrow> push_bit 16 (parts ! 0) OR push_bit 8 (parts ! 1) OR parts ! 2))))"

record Available =
  device_version :: u32
  device_version_read :: bool
  availability_log :: "string list"

fun first_ios :: "u32 \<Rightarrow> (u32 \<times> u32) list \<Rightarrow> bool" where
  "first_ios device [] = True"
| "first_ios device ((platform, version) # vs) = (if platform = PLATFORM_IOS then version \<le> device else first_ios device vs)"

definition availability_version_check :: "string option \<Rightarrow> (u32 \<times> u32) list \<Rightarrow> Available \<Rightarrow> bool \<times> Available" where
  "availability_version_check file versions st =
     (let st' =
            (if device_version_read st then st
             else let v = read_device_version file
                  in st\<lparr>device_version := v, device_version_read := True,
                        availability_log := availability_log st @
                          (if v = 0 then [''xlate: cannot read ProductVersion from SystemVersion.plist; every @available check answers no''] else [])\<rparr>)
      in (first_ios (device_version st') versions, st'))"

section \<open>What it answers\<close>

lemma strstr_first:
  "\<lbrakk>\<forall>i < length a. \<not> starts_with p (drop i (a @ p @ b))\<rbrakk> \<Longrightarrow> strstr (a @ p @ b) p = Some (p @ b)"
proof (induction a)
  case Nil
  then show ?case by (subst strstr.simps) simp
next
  case (Cons c a)
  have "\<not> starts_with p ((c # a) @ p @ b)" using Cons.prems by fastforce
  moreover have "\<forall>i < length a. \<not> starts_with p (drop i (a @ p @ b))" using Cons.prems by (metis Suc_less_eq append_Cons drop_Suc_Cons length_Cons)
  ultimately show ?case using Cons.IH by (subst strstr.simps) simp
qed

lemma decimal_value:
  assumes "d < 10"
  shows "is_decimal (hex_char d)" and "(of_nat (of_char (hex_char d)) - of_nat (of_char (CHR ''0'')) :: u32) = of_nat d"
proof -
  have "d \<in> {0, 1, 2, 3, 4, 5, 6, 7, 8, 9}" using assms by auto
  then show "is_decimal (hex_char d)" "(of_nat (of_char (hex_char d)) - of_nat (of_char (CHR ''0'')) :: u32) = of_nat d"
    by (auto simp: is_decimal_def hex_char_def less_eq_char_def)
qed

lemma version_parts_digits:
  "\<lbrakk>\<forall>d \<in> set ds. d < 10; part < 3; part < length parts\<rbrakk> \<Longrightarrow>
    version_parts part parts (map hex_char ds @ cs) =
    version_parts part (parts[part := foldl (\<lambda>acc d. acc * 10 + of_nat d) (parts ! part) ds]) cs"
  using decimal_value(2) by (induction ds arbitrary: parts) (simp_all add: decimal_value(1))

lemma foldl_undigits: "foldl (\<lambda>acc d. acc * 10 + of_nat d) (of_nat a :: u32) ds = of_nat (foldl (\<lambda>acc d. acc * 10 + d) a ds)"
  by (induction ds arbitrary: a) (simp_all flip: of_nat_mult of_nat_add, metis (no_types) of_nat_add of_nat_mult of_nat_numeral)

lemma version_parts_number:
  assumes "part < 3" and "part < length parts" and "parts ! part = 0"
  shows "version_parts part parts (dec_string n @ cs) = version_parts part (parts[part := of_nat n]) cs"
proof -
  have "foldl (\<lambda>acc d. acc * 10 + of_nat d) (0 :: u32) (digits_in 10 n) = of_nat n"
    using foldl_undigits [of 0 "digits_in 10 n"] undigits_digits [of 10 n] by (simp add: undigits_def)
  then show ?thesis
    unfolding dec_string_def using assms digits_less [of 10 n] by (subst version_parts_digits) simp_all
qed

text \<open>A release as its number.\<close>

definition release :: "nat \<Rightarrow> nat \<Rightarrow> nat \<Rightarrow> u32" where
  "release major minor patch = push_bit 16 (of_nat major) OR push_bit 8 (of_nat minor) OR of_nat patch"

lemma unat_release:
  assumes "major < 65536" and "minor < 256" and "patch < 256"
  shows "unat (release major minor patch) = major * 65536 + minor * 256 + patch"
proof -
  have small: "(of_nat n :: u32) = take_bit 8 (of_nat n)" if "n < 256" for n
    using that by (simp add: take_bit_of_nat take_bit_nat_eq_self)
  have "push_bit 8 (of_nat minor :: u32) AND of_nat patch = 0"
    by (subst small [OF assms(3)]) (auto simp: bit_eq_iff bit_simps)
  then have a: "push_bit 8 (of_nat minor :: u32) OR of_nat patch = push_bit 8 (of_nat minor) + of_nat patch"
    by (simp add: disjunctive_add_eq_or)
  have "push_bit 16 (of_nat major :: u32) AND (push_bit 8 (of_nat minor) OR of_nat patch) = 0"
    by (subst small [OF assms(2)], subst small [OF assms(3)]) (auto simp: bit_eq_iff bit_simps)
  then have "release major minor patch = push_bit 16 (of_nat major) + (push_bit 8 (of_nat minor) + of_nat patch)"
    unfolding release_def or.assoc by (simp add: disjunctive_add_eq_or a)
  also have "\<dots> = of_nat (major * 65536 + minor * 256 + patch)" by (simp add: push_bit_eq_mult)
  finally show ?thesis using assms by (simp add: unat_of_nat del: of_nat_add of_nat_mult)
qed

definition key_tag :: string where "key_tag = ''<key>ProductVersion</key>''"
definition value_tag :: string where "value_tag = ''<string>''"

text \<open>The text of a version record: the key, then the first string after it, which starts with three numbers.\<close>

definition version_record :: "string \<Rightarrow> string \<Rightarrow> nat \<Rightarrow> nat \<Rightarrow> nat \<Rightarrow> string \<Rightarrow> string" where
  "version_record before between major minor patch after =
     before @ key_tag @ between @ value_tag @ dec_string major @ ''.'' @ dec_string minor @ ''.'' @ dec_string patch @ ''<'' @ after"

definition readable :: "string \<Rightarrow> string \<Rightarrow> nat \<Rightarrow> nat \<Rightarrow> nat \<Rightarrow> string \<Rightarrow> bool" where
  "readable before between major minor patch after \<longleftrightarrow>
     (let s = version_record before between major minor patch after in
      length s \<le> 4095 \<and> CHR 0x00 \<notin> set s \<and>
      list_all (\<lambda>i. \<not> starts_with key_tag (drop i s)) [0..<length before] \<and>
      list_all (\<lambda>i. \<not> starts_with value_tag (drop (length before + i) s)) [0..<length key_tag + length between])"

lemma read_version_record:
  assumes "readable before between major minor patch after"
  shows "read_device_version (Some (version_record before between major minor patch after)) = release major minor patch"
proof -
  let ?n = "dec_string major @ ''.'' @ dec_string minor @ ''.'' @ dec_string patch @ ''<'' @ after"
  let ?s = "version_record before between major minor patch after"
  let ?k = "key_tag @ between @ value_tag @ ?n"
  have s: "?s = before @ ?k" by (simp add: version_record_def)
  note r = assms [unfolded readable_def Let_def]
  have "takeWhile (\<lambda>c. c \<noteq> CHR 0x00) (take 4095 ?s) = ?s" using r by (auto simp: takeWhile_eq_all_conv)
  moreover have "strstr ?s key_tag = Some ?k"
    using strstr_first [of before key_tag "between @ value_tag @ ?n"] r s by (simp add: list_all_iff)
  moreover have "strstr ?k value_tag = Some (value_tag @ ?n)"
  proof -
    have "\<forall>i < length (key_tag @ between). \<not> starts_with value_tag (drop i ((key_tag @ between) @ value_tag @ ?n))"
      using r unfolding s by (simp add: list_all_iff)
    from strstr_first [OF this] show ?thesis by simp
  qed
  moreover have "drop (length value_tag) (value_tag @ ?n) = ?n" by simp
  moreover have "version_parts 0 [0, 0, 0] ?n = [of_nat major, of_nat minor, of_nat patch]"
    by (simp add: version_parts_number is_decimal_def less_eq_char_def)
  ultimately show ?thesis
    by (simp add: read_device_version_def release_def flip: key_tag_def value_tag_def)
qed

text \<open>
  C38: \<open>@available\<close>. On a device whose record gives its release in three numbers, the first question is answered yes exactly
  when the release asked for is not later than the device's, compared number by number; and every later question is
  answered from the same release, whatever the file holds then.
\<close>

theorem availability_of_release:
  assumes "readable before between major minor patch after"
    and "major < 65536" and "minor < 256" and "patch < 256" and "major' < 65536" and "minor' < 256" and "patch' < 256"
    and "device_version_read st = False"
  shows "\<exists>st'. availability_version_check (Some (version_record before between major minor patch after))
        ((PLATFORM_IOS, release major' minor' patch') # versions) st =
      (major' < major \<or> major' = major \<and> (minor' < minor \<or> minor' = minor \<and> patch' \<le> patch), st') \<and>
    availability_version_check file versions' st' = (first_ios (release major minor patch) versions', st')"
proof -
  have "release major' minor' patch' \<le> release major minor patch \<longleftrightarrow>
      major' < major \<or> major' = major \<and> (minor' < minor \<or> minor' = minor \<and> patch' \<le> patch)"
    using assms(2-7) by (auto simp: word_le_nat_alt unat_release)
  then show ?thesis
    using assms(8) by (auto simp: availability_version_check_def read_version_record [OF assms(1)] Let_def)
qed

theorem availability_of_release_witness:
  "fst (availability_version_check (Some (version_record [] [] 6 1 3 [])) [(PLATFORM_IOS, release 7 0 0)]
     \<lparr>device_version = 0, device_version_read = False, availability_log = []\<rparr>) = False"
proof -
  let ?st = "\<lparr>device_version = 0, device_version_read = False, availability_log = []\<rparr>"
  have r: "readable [] [] 6 1 3 []" by code_simp
  obtain st' where "availability_version_check (Some (version_record [] [] 6 1 3 [])) [(PLATFORM_IOS, release 7 0 0)] ?st
      = ((7::nat) < 6 \<or> (7::nat) = 6 \<and> ((0::nat) < 1 \<or> (0::nat) = 1 \<and> (0::nat) \<le> 3), st')"
    using availability_of_release [OF r, of 7 0 0 ?st "[]" None "[]"] by auto
  then show ?thesis by simp
qed

end
