(* ===== verification/Driver.thy ===== *)
theory Driver
  imports JumpTables GuestData TsdScan
begin

text \<open>
  The command \<open>xlate\<close>, the last part of \<open>xlate/src/xlate.cpp\<close>: the lifting of one function, the direct calls put in
  the place of dispatched ones (\<open>Lifter::Devirtualize\<close>), the coverage listing and \<open>main\<close>. Rellume and LLVM are
  arguments, gathered with the options and the file system in the record \<open>World\<close>.
\<close>

section \<open>Lifted code\<close>

text \<open>
  The instructions the driver tells apart. A value is its number in its function, the first argument (the state of
  the guest's processor) being 0; a call names its callee and its one argument.
\<close>

datatype Operand = ConstOperand u64 | ValueOperand nat
datatype IRInst = StoreInst nat Operand | CallInst string nat | OtherInst nat

text \<open>What rellume makes of a function: its blocks, and what \<open>JumpTables\<close> reads of it.\<close>

record Lifted =
  lift_blocks :: "IRInst list list"
  lift_stores :: "Value list list"
  lift_analysis :: Analysis

type_synonym code_reader = "u64 \<Rightarrow> u64 \<Rightarrow> u8 list option"

record Rellume =
  ll_func_decode_cfg :: "code_reader \<Rightarrow> u64 \<Rightarrow> nat"
  ll_func_lift :: "code_reader \<Rightarrow> u64 \<Rightarrow> Lifted option"
  ll_func_decode_instr :: "code_reader \<Rightarrow> u64 \<Rightarrow> nat"
  ll_instr_lift :: "code_reader \<Rightarrow> u64 \<Rightarrow> IRInst list list option"

section \<open>\<open>Lifter\<close>\<close>

definition Lift :: "Rellume \<Rightarrow> Program \<Rightarrow> u64 \<Rightarrow> (string \<times> Lifted) option" where
  "Lift ll program address =
     (if ll_func_decode_cfg ll (ReadCode program) address \<noteq> 0 then None
      else case ll_func_lift ll (ReadCode program) address of
             None \<Rightarrow> None
           | Some lifted \<Rightarrow> Some (''sub_'' @ Hex8 address, lifted))"

text \<open>The lifting loop is given the name and the targets of the jump tables.\<close>

definition lift_with :: "Rellume \<Rightarrow> Program \<Rightarrow> lifting" where
  "lift_with ll program address =
     map_option (\<lambda>(name, l). (name, \<lambda>start. Targets program (prog_functions program) (lift_analysis l) (lift_stores l) start))
       (Lift ll program address)"

text \<open>The walk back from a call: the instructions from it to the start of its block; the last store to the state decides.\<close>

fun stored_pc :: "nat \<Rightarrow> IRInst list \<Rightarrow> u64 option" where
  "stored_pc sptr [] = None"
| "stored_pc sptr (StoreInst pointer v # before) =
     (if pointer \<noteq> sptr then stored_pc sptr before
      else case v of ConstOperand c \<Rightarrow> Some c | ValueOperand n \<Rightarrow> None)"
| "stored_pc sptr (inst # before) = stored_pc sptr before"

text \<open>
  The calls of a dispatcher, as a block and a position in it. LLVM lists the users in another order, which does not
  matter, since each is rewritten on its own.
\<close>

definition is_call_of :: "string \<Rightarrow> IRInst \<Rightarrow> bool" where
  "is_call_of f inst = (case inst of CallInst callee a \<Rightarrow> callee = f | _ \<Rightarrow> False)"

definition dispatcher_calls :: "IRInst list list \<Rightarrow> string \<Rightarrow> (nat \<times> nat) list" where
  "dispatcher_calls blocks dispatcher =
     [(b, i). b \<leftarrow> [0..<length blocks], i \<leftarrow> filter (\<lambda>i. is_call_of dispatcher (blocks ! b ! i)) [0..<length (blocks ! b)]]"

definition devirtualize_call :: "Program \<Rightarrow> (u64, string) omap \<Rightarrow> nat \<times> nat \<Rightarrow> IRInst list list \<times> nat \<Rightarrow> IRInst list list \<times> nat" where
  "devirtualize_call program lifted = (\<lambda>(b, i) (blocks, count).
     (case blocks ! b ! i of
        CallInst callee sptr \<Rightarrow>
          (case stored_pc sptr (rev (take (Suc i) (blocks ! b))) of
             None \<Rightarrow> (blocks, count)
           | Some pc \<Rightarrow>
               (case Target program lifted pc of
                  None \<Rightarrow> (blocks, count)
                | Some target \<Rightarrow> (blocks[b := (blocks ! b)[i := CallInst target sptr]], count + 1)))
      | _ \<Rightarrow> (blocks, count)))"

definition Devirtualize :: "Program \<Rightarrow> (u64, string) omap \<Rightarrow> IRInst list list \<Rightarrow> IRInst list list \<times> nat" where
  "Devirtualize program lifted blocks =
     fold (devirtualize_call program lifted)
       (dispatcher_calls blocks ''xl_call'' @ dispatcher_calls blocks ''xl_tail'') (blocks, 0)"

section \<open>\<open>Coverage\<close>\<close>

record Covered =
  cov_total :: u64
  cov_failed :: u64
  cov_lines :: "string list"

text \<open>An instruction rellume leaves to the runtime: it stores the instruction's own address as the next one.\<close>

definition unhandled :: "u64 \<Rightarrow> IRInst list list option \<Rightarrow> bool" where
  "unhandled address lifted =
     (case lifted of
        None \<Rightarrow> True
      | Some blocks \<Rightarrow> list_ex (list_ex (\<lambda>inst. inst = StoreInst 0 (ConstOperand address))) blocks)"

text \<open>\<open>format_hex_no_prefix(word, 8)\<close> of 32 bits. The buffer a failed read leaves as it was is the argument \<open>buffer\<close>.\<close>

definition cover_instruction :: "Rellume \<Rightarrow> (u64 \<Rightarrow> u8 list) \<Rightarrow> Program \<Rightarrow> Image \<Rightarrow> Section \<Rightarrow> u64 \<Rightarrow> Covered \<Rightarrow> Covered" where
  "cover_instruction ll buffer program img sec offset cov =
     (let address = host img (sect_addr sec + offset);
          bytes = (case ReadBytes img address 4 of Some bs \<Rightarrow> bs | None \<Rightarrow> buffer address);
          lifted = (if ll_func_decode_instr ll (ReadCode program) address = 0
                    then ll_instr_lift ll (ReadCode program) address else None);
          cov = cov\<lparr>cov_total := cov_total cov + 1\<rparr>
      in if unhandled address lifted
         then cov\<lparr>cov_failed := cov_failed cov + 1,
                  cov_lines := cov_lines cov @ [Hex8 (sect_addr sec + offset) @ '' '' @ Hex8 (le_word bytes)]\<rparr>
         else cov)"

text \<open>The loop over a section's words; it would not end on a section that reaches the end of the 64-bit numbers.\<close>

partial_function (option) cover_offsets :: "(u64 \<Rightarrow> Covered \<Rightarrow> Covered) \<Rightarrow> u64 \<Rightarrow> u64 \<Rightarrow> Covered \<Rightarrow> Covered option" where
  "cover_offsets step bound offset cov =
     (if offset + 4 \<le> bound then cover_offsets step bound (offset + 4) (step offset cov) else Some cov)"

declare cover_offsets.simps [code]

definition covered_section :: "Section \<Rightarrow> bool" where
  "covered_section sec \<longleftrightarrow> sect_flags sec AND S_ATTR_PURE_INSTRUCTIONS \<noteq> 0 \<and> sectname sec = ''__text''"

fun cover_sections :: "Rellume \<Rightarrow> (u64 \<Rightarrow> u8 list) \<Rightarrow> Program \<Rightarrow> (Image \<times> Section) list \<Rightarrow> Covered \<Rightarrow> Covered option" where
  "cover_sections ll buffer program [] cov = Some cov"
| "cover_sections ll buffer program ((img, sec) # rest) cov =
     (if \<not> covered_section sec then cover_sections ll buffer program rest cov
      else case cover_offsets (cover_instruction ll buffer program img sec) (sect_size sec) 0 cov of
             None \<Rightarrow> None
           | Some cov \<Rightarrow> cover_sections ll buffer program rest cov)"

definition Coverage :: "Rellume \<Rightarrow> (u64 \<Rightarrow> u8 list) \<Rightarrow> Program \<Rightarrow> Covered option" where
  "Coverage ll buffer program =
     cover_sections ll buffer program (concat (map (\<lambda>img. map (\<lambda>sec. (img, sec)) (im_sections img)) (images program)))
       \<lparr>cov_total = 0, cov_failed = 0, cov_lines = []\<rparr>"

definition coverage_summary :: "Covered \<Rightarrow> string" where
  "coverage_summary cov = ''coverage: '' @ dec_string (unat (cov_failed cov)) @ '' of '' @
     dec_string (unat (cov_total cov)) @ '' instructions not lifted''"

section \<open>\<open>main\<close>\<close>

text \<open>What is written to the bitcode file: the rewritten blocks, the module's data and the tables.\<close>

record Bitcode =
  bc_blocks :: "IRInst list list"
  bc_module :: Module
  bc_tables :: Tables

text \<open>
  The command line, the libraries and the file system. A path that was not given is empty; \<open>open_error\<close> is the message
  of a file that cannot be opened for writing; \<open>pipeline\<close> is LLVM's O2.
\<close>

record World =
  inputs :: "string list"
  options :: Options
  resolved_path :: string
  output_path :: string
  layout_path :: string
  header_path :: string
  passthrough_path :: string
  manifest_path :: string
  coverage_path :: string
  optimize :: bool
  createBinary :: "string \<Rightarrow> string + llvm_binary"
  decodeULEB128 :: uleb
  decoder :: farmdec
  library_orders :: unspecified
  rellume :: Rellume
  cpu_registers :: "(string \<times> u64 \<times> u64) list"
  passthrough_file :: "string list option"
  open_error :: "string \<Rightarrow> string option"
  module_broken :: "Bitcode \<Rightarrow> bool"
  pipeline :: "Bitcode \<Rightarrow> Bitcode"
  stale_buffer :: "u64 \<Rightarrow> u8 list"

text \<open>
  The end of a run: its code, the lines on the standard error stream but for those of the registry (which keeps its own,
  \<open>ge_log\<close>), and the files written.
\<close>

record Outcome =
  exit_code :: nat
  stderr_lines :: "string list"
  resolved_file :: "string list option"
  manifest_file :: "json option"
  coverage_file :: "(string list \<times> string) option"
  bitcode_file :: "Bitcode option"
  layout_file :: "string list option"
  header_file :: "string list option"

definition fails :: "string list \<Rightarrow> Outcome" where
  "fails lines = \<lparr>exit_code = 1, stderr_lines = lines, resolved_file = None, manifest_file = None, coverage_file = None,
     bitcode_file = None, layout_file = None, header_file = None\<rparr>"

definition cannot_open :: "string \<Rightarrow> string \<Rightarrow> string" where
  "cannot_open path message = ''xlate: '' @ path @ '': '' @ message"

text \<open>\<open>None\<close> is a loader that does not return; \<open>Inl\<close> the early return.\<close>

fun load_inputs :: "World \<Rightarrow> string list \<Rightarrow> Image list \<Rightarrow> string list \<Rightarrow> (string list + Image list \<times> string list) option" where
  "load_inputs w [] imgs lines = Some (Inr (imgs, lines))"
| "load_inputs w (path # paths) imgs lines =
     (case Macho.Load (decodeULEB128 w) (createBinary w) path of
        None \<Rightarrow> None
      | Some (Inl error) \<Rightarrow> Some (Inl (lines @ [''xlate: '' @ error]))
      | Some (Inr img) \<Rightarrow> load_inputs w paths (imgs @ [img]) (lines @ map ((@) ''xlate: warning: '') (im_warnings img)))"

fun scan_inputs :: "World \<Rightarrow> Image list \<Rightarrow> string list \<Rightarrow> string list option" where
  "scan_inputs w [] violations = Some violations"
| "scan_inputs w (img # imgs) violations =
     (case ScanTSDOffsets (library_orders w) (decoder w) img violations of
        None \<Rightarrow> None
      | Some (clean, violations) \<Rightarrow> scan_inputs w imgs violations)"

definition violation_lines :: "string list \<Rightarrow> string list" where
  "violation_lines violations =
     [''xlate: TPIDRRO_EL0 accessed at an offset the fake TSD block does not model:''] @ map ((@) ''  '') violations @
     [''xlate: add the offset to xlate/src/tsd_scan.h's kAllowedTSDOffsets, citing the real Darwin TSD slot it is, '' @
      ''and back it with real content in runtime/runtime.c -- or fix the guest code path if this access was not meant '' @
      ''to happen'']"

text \<open>\<open>--coverage\<close>. That the listing cannot be opened is not tested by the code.\<close>

definition main_coverage :: "World \<Rightarrow> Program \<Rightarrow> Outcome option" where
  "main_coverage w program =
     (case LayoutAndResolve (options w) False program of
        Inl error \<Rightarrow> Some (fails (log program @ [error]))
      | Inr (program, ok) \<Rightarrow>
          if \<not> ok then Some (fails (log program))
          else map_option (\<lambda>cov. (fails (log program))\<lparr>exit_code := 0, coverage_file := Some (cov_lines cov, coverage_summary cov)\<rparr>)
                 (Coverage (rellume w) (stale_buffer w) program))"

text \<open>\<open>--objc-manifest\<close>.\<close>

definition main_manifest :: "World \<Rightarrow> Program \<Rightarrow> Outcome" where
  "main_manifest w program =
     (case LayoutAndResolve (options w) False program of
        Inl error \<Rightarrow> fails (log program @ [error])
      | Inr (program, ok) \<Rightarrow>
          if \<not> ok then fails (log program)
          else case run_state (ResolveGuestImports (map AnalyzeObjC (images program))) (exports program) of
            (objc, registry) \<Rightarrow>
              let program = program\<lparr>exports := registry\<rparr>
              in case SplitGuestLayoutClasses objc of
                   Inl error \<Rightarrow> fails (log program @ [''xlate: '' @ error])
                 | Inr objc \<Rightarrow>
                     (case if resolved_path w = [] then None else open_error w (resolved_path w) of
                        Some message \<Rightarrow> fails (log program @ [cannot_open (resolved_path w) message])
                      | None \<Rightarrow>
                          let resolved = (if resolved_path w = [] then None else Some (WriteResolved program))
                          in case open_error w (manifest_path w) of
                               Some message \<Rightarrow> (fails (log program @ [cannot_open (manifest_path w) message]))
                                 \<lparr>resolved_file := resolved\<rparr>
                             | None \<Rightarrow> (fails (log program))\<lparr>exit_code := 0, resolved_file := resolved,
                                 manifest_file := Some (WriteManifest (images program) objc)\<rparr>))"

text \<open>The first half of a translation: the program laid out and its classes split, or the lines of the failure.\<close>

definition prepare :: "World \<Rightarrow> Program \<Rightarrow> string list + Program \<times> ObjCImage list" where
  "prepare w program =
     (case if passthrough_path w = [] then Some program else LoadPassthrough (passthrough_file w) program of
        None \<Rightarrow> Inl (log program @ [''xlate: cannot read '' @ passthrough_path w])
      | Some program \<Rightarrow>
          (case LayoutAndResolve (options w) True program of
             Inl error \<Rightarrow> Inl (log program @ [error])
           | Inr (program, ok) \<Rightarrow>
               if \<not> ok then Inl (log program)
               else
                 let found = map (\<lambda>img. (img, AnalyzeObjC img)) (images program);
                     program = fold err (concat (map (\<lambda>(img, oi).
                       map (\<lambda>error. ''xlate: '' @ im_path img @ '': '' @ error) (errors oi)) found)) program
                 in case run_state (ResolveGuestImports (map snd found)) (exports program) of
                      (objc, registry) \<Rightarrow>
                        (case SplitGuestLayoutClasses objc of
                           Inl error \<Rightarrow> Inl (log program @ [''xlate: '' @ error])
                         | Inr objc \<Rightarrow> Inr (program\<lparr>exports := registry\<rparr>, objc))))"

text \<open>The lifted functions' blocks, in the order of their addresses, and the names the module has of them.\<close>

definition lifted_blocks :: "Rellume \<Rightarrow> Program \<Rightarrow> (u64, string) omap \<Rightarrow> IRInst list list" where
  "lifted_blocks ll program lifted =
     concat (map (\<lambda>(address, name). case Lift ll program address of Some (n, l) \<Rightarrow> lift_blocks l | None \<Rightarrow> []) lifted)"

definition callees :: "IRInst list list \<Rightarrow> string list" where
  "callees blocks = concat (map (List.map_filter (\<lambda>inst. case inst of CallInst callee a \<Rightarrow> Some callee | _ \<Rightarrow> None)) blocks)"

definition start_module :: "(u64, string) omap \<Rightarrow> IRInst list list \<Rightarrow> Module" where
  "start_module lifted blocks =
     \<lparr>other_values = [''xl_call'', ''xl_tail''] @ map snd lifted @ callees blocks, globals = [], emitted = []\<rparr>"

definition lift_summary :: "Lifting \<Rightarrow> nat \<Rightarrow> nat \<Rightarrow> string" where
  "lift_summary st direct found =
     ''xlate: lifted '' @ dec_string (length (lf_lifted st)) @ '' functions, '' @ dec_string direct @
     '' direct calls, '' @ dec_string found @ '' jump table targets, '' @ dec_string (lf_failures st) @ '' failures''"

definition write_file :: "World \<Rightarrow> string \<Rightarrow> string list \<Rightarrow> string + string list option" where
  "write_file w path lines =
     (if path = [] then Inr None
      else case open_error w path of Some message \<Rightarrow> Inl (cannot_open path message) | None \<Rightarrow> Inr (Some lines))"

text \<open>The end of a translation, once the bitcode is written: \<open>WriteLayout(segments) && WriteStateHeader(program)\<close>.\<close>

definition finish :: "World \<Rightarrow> Program \<Rightarrow> GuestSegment list \<Rightarrow> Bitcode \<Rightarrow> Outcome" where
  "finish w program segments bitcode =
     (case write_file w (layout_path w) (WriteLayout segments) of
        Inl line \<Rightarrow> (fails (log program @ [line]))\<lparr>bitcode_file := Some bitcode\<rparr>
      | Inr layout \<Rightarrow>
          (case write_file w (header_path w) (WriteStateHeader (cpu_registers w) program) of
             Inl line \<Rightarrow> (fails (log program @ [line]))\<lparr>bitcode_file := Some bitcode, layout_file := layout\<rparr>
           | Inr header \<Rightarrow> (fails (log program))\<lparr>exit_code := 0, bitcode_file := Some bitcode, layout_file := layout,
               header_file := header\<rparr>))"

text \<open>The second half: the data, the tables and the checks of the module. \<open>None\<close> is the exception of \<open>EmitGuestData\<close>.\<close>

definition emit_program :: "World \<Rightarrow> Program \<Rightarrow> ObjCImage list \<Rightarrow> (u64, string) omap \<Rightarrow> IRInst list list \<Rightarrow> Outcome option" where
  "emit_program w program objc lifted blocks =
     (case run_state (do { overrides \<leftarrow> ObjCOverrides objc; EmitGuestData program overrides }) (start_module lifted blocks) of
        (None, module) \<Rightarrow> None
      | (Some (program, ok, segments), module) \<Rightarrow> Some (
          if \<not> ok then fails (log program)
          else let bitcode = \<lparr>bc_blocks = blocks, bc_module = module, bc_tables = EmitTables program lifted\<rparr>
            in if module_broken w bitcode then fails (log program @ [''xlate: invalid module before optimization''])
               else case open_error w (output_path w) of
                      Some message \<Rightarrow> fails (log program @ [cannot_open (output_path w) message])
                    | None \<Rightarrow> finish w program segments (if optimize w then pipeline w bitcode else bitcode)))"

definition main_build :: "World \<Rightarrow> Program \<Rightarrow> Outcome option" where
  "main_build w program =
     (if output_path w = [] then Some (fails (log program))
      else case prepare w program of
        Inl lines \<Rightarrow> Some (fails lines)
      | Inr (program, objc) \<Rightarrow>
          (case lift_all (lift_with (rellume w) program) program of
             None \<Rightarrow> None
           | Some st \<Rightarrow>
               (case Devirtualize program (lf_lifted st) (lifted_blocks (rellume w) program (lf_lifted st)) of
                  (blocks, direct) \<Rightarrow>
                    let found = length (lf_functions st) - length (prog_functions program);
                        program = fold err (lf_log st @ [lift_summary st direct found])
                          (program\<lparr>prog_functions := lf_functions st\<rparr>)
                    in emit_program w program objc (lf_lifted st) blocks)))"

definition main :: "World \<Rightarrow> Outcome option" where
  "main w =
     (case load_inputs w (inputs w) [] [] of
        None \<Rightarrow> None
      | Some (Inl lines) \<Rightarrow> Some (fails lines)
      | Some (Inr (imgs, lines)) \<Rightarrow>
          (case scan_inputs w imgs [] of
             None \<Rightarrow> None
           | Some violations \<Rightarrow>
               let program = (new_program imgs)\<lparr>log := lines\<rparr>
               in if violations \<noteq> [] then Some (fails (lines @ violation_lines violations))
                  else if resolved_path w \<noteq> [] \<and> manifest_path w = []
                  then Some (fails (lines @ [''xlate: --resolved-out is written with --objc-manifest'']))
                  else if coverage_path w \<noteq> [] then main_coverage w program
                  else if manifest_path w \<noteq> [] then Some (main_manifest w program)
                  else main_build w program))"

end
