(* ===== verification/Driver_Facts.thy ===== *)
theory Driver_Facts
  imports Driver Macho_Facts Runtime_Facts Lifting_Facts Program_Facts TsdScan_Facts
begin

text \<open>
  What the driver does: a direct call runs what the dispatcher would have run, the coverage listing lists what it says,
  and a translation is written only when every check before it passed.
\<close>

section \<open>Direct calls\<close>

text \<open>The rewriting of one instruction, given those before it in its block (the nearest first).\<close>

definition devirtualized :: "Program \<Rightarrow> (u64, string) omap \<Rightarrow> IRInst list \<Rightarrow> IRInst \<Rightarrow> IRInst" where
  "devirtualized program lifted before inst =
     (case inst of
        CallInst callee sptr \<Rightarrow>
          if callee \<in> {''xl_call'', ''xl_tail''}
          then (case Option.bind (stored_pc sptr before) (Target program lifted) of
                  Some target \<Rightarrow> CallInst target sptr | None \<Rightarrow> inst)
          else inst
      | _ \<Rightarrow> inst)"

fun devirtualized_block :: "Program \<Rightarrow> (u64, string) omap \<Rightarrow> IRInst list \<Rightarrow> IRInst list \<Rightarrow> IRInst list" where
  "devirtualized_block program lifted before [] = []"
| "devirtualized_block program lifted before (inst # rest) =
     devirtualized program lifted before inst # devirtualized_block program lifted (inst # before) rest"

lemma devirtualized_block_length [simp]: "length (devirtualized_block program lifted before block) = length block"
  by (induction block arbitrary: before) auto

lemma devirtualized_block_nth:
  "i < length block \<Longrightarrow> devirtualized_block program lifted before block ! i =
     devirtualized program lifted (rev (take i block) @ before) (block ! i)"
proof (induction block arbitrary: before i)
  case (Cons inst rest)
  then show ?case by (cases i) auto
qed simp

text \<open>A walk back sees the stores only, so it is the same after some calls were rewritten.\<close>

definition same_stores :: "IRInst \<Rightarrow> IRInst \<Rightarrow> bool" where
  "same_stores a b \<longleftrightarrow> a = b \<or> (\<exists>f g s. a = CallInst f s \<and> b = CallInst g s)"

lemma stored_pc_same: "list_all2 same_stores xs ys \<Longrightarrow> stored_pc s xs = stored_pc s ys"
proof (induction xs ys rule: list_all2_induct)
  case (Cons x xs y ys)
  then show ?case by (cases x) (auto simp: same_stores_def)
qed simp

lemma stored_pc_call [simp]: "is_call_of f inst \<Longrightarrow> stored_pc s (inst # before) = stored_pc s before"
  by (auto simp: is_call_of_def split: IRInst.splits)

abbreviation at :: "IRInst list list \<Rightarrow> nat \<times> nat \<Rightarrow> IRInst" where
  "at blocks p \<equiv> blocks ! fst p ! snd p"

definition positions :: "IRInst list list \<Rightarrow> (nat \<times> nat) set" where
  "positions blocks = {(b, i). b < length blocks \<and> i < length (blocks ! b)}"

definition rewritten :: "Program \<Rightarrow> (u64, string) omap \<Rightarrow> IRInst list list \<Rightarrow> nat \<times> nat \<Rightarrow> IRInst" where
  "rewritten program lifted blocks p = devirtualized program lifted (rev (take (snd p) (blocks ! fst p))) (at blocks p)"

definition is_dispatch :: "IRInst \<Rightarrow> bool" where
  "is_dispatch inst \<longleftrightarrow> is_call_of ''xl_call'' inst \<or> is_call_of ''xl_tail'' inst"

text \<open>After the calls at the positions of a set were rewritten, what is left to do.\<close>

definition half_done :: "Program \<Rightarrow> (u64, string) omap \<Rightarrow> IRInst list list \<Rightarrow> (nat \<times> nat) set \<Rightarrow> IRInst list list \<Rightarrow> bool" where
  "half_done program lifted blocks P now \<longleftrightarrow>
     map length now = map length blocks \<and>
     (\<forall>p \<in> positions blocks. at now p = (if p \<in> P then rewritten program lifted blocks p else at blocks p))"

lemma rewritten_same_stores: "same_stores (rewritten program lifted blocks p) (at blocks p)"
  by (auto simp: rewritten_def devirtualized_def same_stores_def split: IRInst.splits option.splits)

lemma half_done_lengths:
  assumes "half_done program lifted blocks P now"
  shows "length now = length blocks" and "b < length blocks \<Longrightarrow> length (now ! b) = length (blocks ! b)"
proof -
  have l: "map length now = map length blocks" using assms by (simp add: half_done_def)
  then show n: "length now = length blocks" by (rule map_eq_imp_length_eq)
  show "length (now ! b) = length (blocks ! b)" if "b < length blocks" using l n that by (metis nth_map)
qed

lemma half_done_same_stores:
  assumes "half_done program lifted blocks P now" and "b < length blocks"
  shows "list_all2 same_stores (rev (take n (now ! b))) (rev (take n (blocks ! b)))"
proof -
  have "same_stores (now ! b ! i) (blocks ! b ! i)" if "i < length (blocks ! b)" for i
    using assms that rewritten_same_stores [of program lifted blocks "(b, i)"]
    by (auto simp: half_done_def positions_def same_stores_def)
  then have "list_all2 same_stores (take n (now ! b)) (take n (blocks ! b))"
    using half_done_lengths [OF assms(1)] assms(2) by (simp add: list_all2_conv_all_nth)
  then show ?thesis by (simp add: list_all2_rev)
qed

text \<open>The target of a call, when its program counter is known and leads somewhere.\<close>

definition call_target :: "Program \<Rightarrow> (u64, string) omap \<Rightarrow> IRInst list list \<Rightarrow> nat \<times> nat \<Rightarrow> string option" where
  "call_target program lifted blocks p =
     (case at blocks p of
        CallInst f s \<Rightarrow> Option.bind (stored_pc s (rev (take (snd p) (blocks ! fst p)))) (Target program lifted)
      | _ \<Rightarrow> None)"

lemma rewritten_call:
  "at blocks p = CallInst f s \<Longrightarrow> f = ''xl_call'' \<or> f = ''xl_tail'' \<Longrightarrow>
   rewritten program lifted blocks p = (case call_target program lifted blocks p of Some t \<Rightarrow> CallInst t s | None \<Rightarrow> CallInst f s)"
  by (auto simp: rewritten_def devirtualized_def call_target_def)

lemma half_done_update:
  assumes h: "half_done program lifted blocks P now" and p: "p \<in> positions blocks"
  shows "half_done program lifted blocks (insert p P)
    (now[fst p := (now ! fst p)[snd p := rewritten program lifted blocks p]])"
proof -
  note l = half_done_lengths [OF h]
  have "map length (now[fst p := (now ! fst p)[snd p := rewritten program lifted blocks p]]) = map length now"
    using p l(1) by (simp add: map_update list_update_same_conv positions_def split: prod.splits)
  moreover have "at (now[fst p := (now ! fst p)[snd p := rewritten program lifted blocks p]]) q =
      (if q = p then rewritten program lifted blocks p else at now q)" if "q \<in> positions blocks" for q
    using p that l by (cases p; cases q) (auto simp: positions_def nth_list_update)
  ultimately show ?thesis using h by (simp add: half_done_def)
qed

lemma half_done_skip:
  assumes "half_done program lifted blocks P now" and "rewritten program lifted blocks p = at blocks p"
  shows "half_done program lifted blocks (insert p P) now"
  using assms by (auto simp: half_done_def)

lemma devirtualize_call_step:
  assumes h: "half_done program lifted blocks P now" and p: "p \<in> positions blocks" "p \<notin> P" and d: "is_dispatch (at blocks p)"
  obtains now' where "devirtualize_call program lifted p (now, count) =
      (now', count + (if call_target program lifted blocks p = None then 0 else 1))"
    and "half_done program lifted blocks (insert p P) now'"
proof -
  from d obtain f s where f: "at blocks p = CallInst f s" "f = ''xl_call'' \<or> f = ''xl_tail''"
    by (cases "at blocks p") (auto simp: is_dispatch_def is_call_of_def)
  have n: "at now p = CallInst f s" using h p f(1) by (simp add: half_done_def)
  have b: "fst p < length blocks" "snd p < length (blocks ! fst p)" using p(1) by (auto simp: positions_def)
  note l = half_done_lengths [OF h]
  have "rev (take (Suc (snd p)) (now ! fst p)) = CallInst f s # rev (take (snd p) (now ! fst p))"
    using n b l by (simp add: take_Suc_conv_app_nth)
  then have "stored_pc s (rev (take (Suc (snd p)) (now ! fst p))) = stored_pc s (rev (take (snd p) (now ! fst p)))"
    by simp
  also have "\<dots> = stored_pc s (rev (take (snd p) (blocks ! fst p)))"
    by (rule stored_pc_same [OF half_done_same_stores [OF h b(1)]])
  finally have t: "Option.bind (stored_pc s (rev (take (Suc (snd p)) (now ! fst p)))) (Target program lifted) =
      call_target program lifted blocks p" using f(1) by (simp add: call_target_def)
  show ?thesis
  proof (cases "call_target program lifted blocks p")
    case None
    then have "devirtualize_call program lifted p (now, count) = (now, count)"
      using n t by (auto simp: devirtualize_call_def split: prod.split option.splits)
    with None that [of now] half_done_skip [OF h] rewritten_call [OF f, of program lifted] f(1) show ?thesis by simp
  next
    case (Some target)
    then have "devirtualize_call program lifted p (now, count) =
        (now[fst p := (now ! fst p)[snd p := CallInst target s]], count + 1)"
      using n t by (auto simp: devirtualize_call_def bind_eq_Some_conv split: prod.split)
    with Some that half_done_update [OF h p(1)] rewritten_call [OF f, of program lifted] show ?thesis by simp
  qed
qed

lemma devirtualize_calls:
  assumes "half_done program lifted blocks P now" and "set ps \<subseteq> positions blocks" and "distinct ps" and "set ps \<inter> P = {}"
    and "\<forall>p \<in> set ps. is_dispatch (at blocks p)"
  shows "\<exists>now'. fold (devirtualize_call program lifted) ps (now, count) =
      (now', count + length (filter (\<lambda>p. call_target program lifted blocks p \<noteq> None) ps)) \<and>
    half_done program lifted blocks (P \<union> set ps) now'"
  using assms
proof (induction ps arbitrary: P now count)
  case (Cons p ps)
  obtain now' where s: "devirtualize_call program lifted p (now, count) =
      (now', count + (if call_target program lifted blocks p = None then 0 else 1))"
    "half_done program lifted blocks (insert p P) now'"
    using devirtualize_call_step [OF Cons.prems(1), of p count] Cons.prems by auto
  show ?case using Cons.IH [OF s(2), of "count + (if call_target program lifted blocks p = None then 0 else 1)"] Cons.prems s(1)
    by auto
qed simp

lemma dispatcher_calls_set:
  "set (dispatcher_calls blocks f) = {p \<in> positions blocks. is_call_of f (at blocks p)}"
  by (auto simp: dispatcher_calls_def positions_def)

lemma distinct_rows: "distinct bs \<Longrightarrow> (\<forall>b. distinct (g b)) \<Longrightarrow> distinct (concat (map (\<lambda>b. map (Pair b) (g b)) bs))"
  by (induction bs) (auto simp: distinct_map inj_on_def)

lemma dispatcher_calls_distinct: "distinct (dispatcher_calls blocks f)"
  unfolding dispatcher_calls_def by (rule distinct_rows) simp_all

lemma one_callee: "is_call_of f inst \<Longrightarrow> is_call_of g inst \<Longrightarrow> f = g"
  by (auto simp: is_call_of_def split: IRInst.splits)

lemma length_filter_card: "distinct xs \<Longrightarrow> length (filter P xs) = card {x \<in> set xs. P x}"
  using distinct_card [of "filter P xs"] by simp

lemma half_done_all:
  assumes "half_done program lifted blocks P now" and "\<forall>p \<in> positions blocks. p \<notin> P \<longrightarrow> \<not> is_dispatch (at blocks p)"
  shows "now = map (devirtualized_block program lifted []) blocks"
proof (rule nth_equalityI)
  note l = half_done_lengths [OF assms(1)]
  show "length now = length (map (devirtualized_block program lifted []) blocks)" using l(1) by simp
  show "now ! b = map (devirtualized_block program lifted []) blocks ! b" if "b < length now" for b
  proof (rule nth_equalityI)
    have b: "b < length blocks" using that l by simp
    show "length (now ! b) = length (map (devirtualized_block program lifted []) blocks ! b)" using l(2) [OF b] b by simp
    fix i assume "i < length (now ! b)"
    then have i: "i < length (blocks ! b)" using l(2) [OF b] by simp
    have "rewritten program lifted blocks (b, i) = blocks ! b ! i" if "\<not> is_dispatch (blocks ! b ! i)"
      using that by (auto simp: rewritten_def devirtualized_def is_dispatch_def is_call_of_def split: IRInst.splits)
    then have "now ! b ! i = rewritten program lifted blocks (b, i)"
      using assms b i by (auto simp: half_done_def positions_def)
    then show "now ! b ! i = map (devirtualized_block program lifted []) blocks ! b ! i"
      using b i by (simp add: rewritten_def devirtualized_block_nth)
  qed
qed

text \<open>
  The rewriting of the whole module: the result is every block with each of its dispatched calls sent straight to what its
  program counter leads to, where the last store to the state in front of it stores a constant that leads somewhere,
  nothing else changed, and the count is the number of those calls, whatever the order they are taken in.
\<close>

lemma Devirtualize_blocks:
  "Devirtualize program lifted blocks =
     (map (devirtualized_block program lifted []) blocks,
      card {p \<in> positions blocks. is_dispatch (at blocks p) \<and> call_target program lifted blocks p \<noteq> None})"
proof -
  let ?ps = "dispatcher_calls blocks ''xl_call'' @ dispatcher_calls blocks ''xl_tail''"
  have "set (dispatcher_calls blocks ''xl_call'') \<inter> set (dispatcher_calls blocks ''xl_tail'') = {}"
    unfolding dispatcher_calls_set using one_callee [of "''xl_call''" _ "''xl_tail''"] by auto
  then have d: "distinct ?ps" by (simp add: dispatcher_calls_distinct)
  have s: "set ?ps = {p \<in> positions blocks. is_dispatch (at blocks p)}"
    by (auto simp: dispatcher_calls_set is_dispatch_def)
  have h: "half_done program lifted blocks {} blocks" by (simp add: half_done_def)
  obtain now where n: "fold (devirtualize_call program lifted) ?ps (blocks, 0) =
      (now, length (filter (\<lambda>p. call_target program lifted blocks p \<noteq> None) ?ps))"
    "half_done program lifted blocks (set ?ps) now"
    using devirtualize_calls [OF h _ d, of 0] s by auto
  have "now = map (devirtualized_block program lifted []) blocks" using half_done_all [OF n(2)] s by auto
  moreover have "length (filter (\<lambda>p. call_target program lifted blocks p \<noteq> None) ?ps) =
      card {p \<in> positions blocks. is_dispatch (at blocks p) \<and> call_target program lifted blocks p \<noteq> None}"
    unfolding length_filter_card [OF d] s by (rule arg_cong [where f = card]) auto
  ultimately show ?thesis using n(1) by (simp add: Devirtualize_def)
qed

section \<open>What a direct call runs\<close>

text \<open>
  The meaning of a block, over what the rest of the module does: the code of a function, the value a number stands for,
  and the effect of stores elsewhere and of other instructions on the machine.
\<close>

record Meaning =
  code :: "string \<Rightarrow> xl_lifted"
  value_of :: "nat \<Rightarrow> Machine \<Rightarrow> u64"
  store_effect :: "nat \<Rightarrow> Operand \<Rightarrow> Machine \<Rightarrow> Machine"
  other_effect :: "nat \<Rightarrow> Machine \<Rightarrow> Machine"

definition keeps_pc :: "Meaning \<Rightarrow> bool" where
  "keeps_pc M \<longleftrightarrow> (\<forall>p v m. reg_pc (store_effect M p v m) = reg_pc m) \<and> (\<forall>n m. reg_pc (other_effect M n m) = reg_pc m)"

text \<open>The table of the runtime: the emitted one, its functions being code.\<close>

definition runtime_table :: "Meaning \<Rightarrow> Tables \<Rightarrow> xl_table" where
  "runtime_table M tables = map (\<lambda>(a, name). (a, code M name)) (xl_functions tables)"

definition call_function :: "Meaning \<Rightarrow> xl_table \<Rightarrow> string \<Rightarrow> xl_lifted" where
  "call_function M table f =
     (if f = ''xl_call'' then xl_call table else if f = ''xl_tail'' then xl_tail table else code M f)"

fun run_inst :: "Meaning \<Rightarrow> xl_table \<Rightarrow> nat \<Rightarrow> IRInst \<Rightarrow> xl_lifted" where
  "run_inst M table sptr (StoreInst p v) m = Some (Inr (
     if p = sptr then m\<lparr>reg_pc := (case v of ConstOperand c \<Rightarrow> c | ValueOperand n \<Rightarrow> value_of M n m)\<rparr>
     else store_effect M p v m))"
| "run_inst M table sptr (CallInst f a) m = call_function M table f m"
| "run_inst M table sptr (OtherInst n) m = Some (Inr (other_effect M n m))"

fun run_block :: "Meaning \<Rightarrow> xl_table \<Rightarrow> nat \<Rightarrow> IRInst list \<Rightarrow> xl_lifted" where
  "run_block M table sptr [] m = Some (Inr m)"
| "run_block M table sptr (inst # rest) m =
     (case run_inst M table sptr inst m of
        Some (Inr m') \<Rightarrow> run_block M table sptr rest m'
      | stopped \<Rightarrow> stopped)"

text \<open>
  A block as rellume writes it: each dispatched call is given the state, and no call stands between the last store of
  the program counter in front of it and the call. The flag says that a call came after the last store.
\<close>

fun settled :: "nat \<Rightarrow> bool \<Rightarrow> IRInst list \<Rightarrow> bool" where
  "settled sptr called [] = True"
| "settled sptr called (StoreInst p v # rest) = settled sptr (called \<and> p \<noteq> sptr) rest"
| "settled sptr called (CallInst f a # rest) =
     ((f = ''xl_call'' \<or> f = ''xl_tail'' \<longrightarrow> a = sptr \<and> \<not> called) \<and> settled sptr True rest)"
| "settled sptr called (OtherInst n # rest) = settled sptr called rest"

text \<open>The table has under a program counter what \<open>Target\<close> answers for it.\<close>

definition table_has_targets :: "Meaning \<Rightarrow> xl_table \<Rightarrow> Program \<Rightarrow> (u64, string) omap \<Rightarrow> bool" where
  "table_has_targets M table program lifted \<longleftrightarrow>
     (\<forall>pc f. Target program lifted pc = Some f \<longrightarrow> xl_lookup table pc = Some (code M f) \<and> f \<noteq> ''xl_call'' \<and> f \<noteq> ''xl_tail'')"

lemma run_devirtualized_inst:
  assumes "table_has_targets M table program lifted"
    and "\<not> called \<Longrightarrow> \<forall>pc. stored_pc sptr before = Some pc \<longrightarrow> reg_pc m = pc"
    and "settled sptr called (inst # rest)"
  shows "run_inst M table sptr (devirtualized program lifted before inst) m = run_inst M table sptr inst m"
proof (cases inst)
  case (CallInst f a)
  show ?thesis
  proof (cases "f = ''xl_call'' \<or> f = ''xl_tail''")
    case True
    then have a: "a = sptr" "\<not> called" using assms(3) CallInst by auto
    show ?thesis
    proof (cases "Option.bind (stored_pc sptr before) (Target program lifted)")
      case None
      with CallInst a show ?thesis by (simp add: devirtualized_def)
    next
      case (Some target)
      then obtain pc where pc: "stored_pc sptr before = Some pc" "Target program lifted pc = Some target"
        by (auto simp: bind_eq_Some_conv)
      then have "xl_lookup table (reg_pc m) = Some (code M target)" "target \<noteq> ''xl_call''" "target \<noteq> ''xl_tail''"
        using assms(1) assms(2) [OF a(2)] by (auto simp: table_has_targets_def)
      with True Some CallInst a show ?thesis
        by (auto simp: devirtualized_def call_function_def xl_call_def xl_tail_def)
    qed
  qed (simp add: devirtualized_def CallInst)
qed (simp_all add: devirtualized_def)

lemma run_devirtualized_block:
  assumes "table_has_targets M table program lifted" and "keeps_pc M"
  shows "settled sptr called block \<Longrightarrow> (\<not> called \<Longrightarrow> \<forall>pc. stored_pc sptr before = Some pc \<longrightarrow> reg_pc m = pc) \<Longrightarrow>
    run_block M table sptr (devirtualized_block program lifted before block) m = run_block M table sptr block m"
proof (induction block arbitrary: before m called)
  case (Cons inst rest)
  have i: "run_inst M table sptr (devirtualized program lifted before inst) m = run_inst M table sptr inst m"
    using run_devirtualized_inst [OF assms(1) Cons.prems(2,1)] .
  show ?case
  proof (cases "run_inst M table sptr inst m")
    case (Some r)
    show ?thesis
    proof (cases r)
      case (Inr m')
      have "run_block M table sptr (devirtualized_block program lifted (inst # before) rest) m' = run_block M table sptr rest m'"
      proof (cases inst)
        case (StoreInst p v)
        then show ?thesis
          using Cons.prems Some Inr assms(2)
          by (intro Cons.IH [of "called \<and> p \<noteq> sptr"]) (auto simp: keeps_pc_def split: Operand.splits if_splits)
      next
        case (CallInst f a)
        then show ?thesis using Cons.prems by (intro Cons.IH [of True]) auto
      next
        case (OtherInst n)
        then show ?thesis using Cons.prems Some Inr assms(2) by (intro Cons.IH [of called]) (auto simp: keeps_pc_def)
      qed
      with i Some Inr show ?thesis by simp
    qed (use i Some in simp)
  qed (use i in simp)
qed simp

lemma xl_lookup_mapped:
  assumes "sorted_wrt (<) (map fst t)" and "length t < 2 ^ 32"
  shows "xl_lookup (map (\<lambda>(a, name). (a, c name)) t) pc = map_option c (xl_lookup t pc)"
proof -
  let ?u = "map (\<lambda>(a, name). (a, c name)) t"
  have "map fst ?u = map fst t" by (simp add: case_prod_beta)
  then have u: "sorted_wrt (<) (map fst ?u)" using assms(1) by (simp only:)
  have l: "length ?u < 2 ^ 32" using assms(2) by simp
  show ?thesis using xl_lookup_map_of [OF assms, of pc] xl_lookup_map_of [OF u l, of pc] by (simp add: map_of_map del: map_map)
qed

text \<open>Names and stubs the way the translator makes them: no lifted function or host stub is called like a dispatcher.\<close>

definition proper_names :: "Program \<Rightarrow> (u64, string) omap \<Rightarrow> bool" where
  "proper_names program lifted \<longleftrightarrow>
     list_all (\<lambda>(a, name). name \<noteq> ''xl_call'' \<and> name \<noteq> ''xl_tail'') (lifted @ stub_to_host program)"

definition stubs_apart :: "Program \<Rightarrow> bool" where
  "stubs_apart program \<longleftrightarrow> list_all (\<lambda>(a, target). map_of (stub_to_host program) a = None) (stub_to_guest program)"

lemma Target_in_table:
  assumes "omap_ok lifted" and "omap_ok (stub_to_host program)" and "stubs_apart program"
    and "Target program lifted pc = Some f"
  shows "map_of (function_table program lifted) pc = Some f"
proof (cases "map_of (stub_to_guest program) pc")
  case None
  then show ?thesis
    using assms(4) function_table_map_of [OF assms(1,2), of pc] by (auto simp: Target_def split: option.splits)
next
  case (Some guest)
  then have "map_of (stub_to_host program) pc = None"
    using assms(3) by (auto simp: stubs_apart_def list_all_iff dest: map_of_SomeD)
  with Some show ?thesis using assms(4) function_table_map_of [OF assms(1,2), of pc] by simp
qed

lemma Target_name:
  assumes "proper_names program lifted" and "Target program lifted pc = Some f"
  shows "f \<noteq> ''xl_call'' \<and> f \<noteq> ''xl_tail''"
  using assms by (auto simp: proper_names_def list_all_iff Target_def Let_def dest!: map_of_SomeD split: option.splits)

lemma emitted_table_has_targets:
  assumes "omap_ok lifted" and "omap_ok (stub_to_host program)" and "stubs_apart program" and "proper_names program lifted"
    and "\<forall>(a, f) \<in> set (function_table program lifted). unat a < 2 ^ 32" and "length (function_table program lifted) < 2 ^ 32"
  shows "table_has_targets M (runtime_table M (EmitTables program lifted)) program lifted"
proof -
  have "length (xl_functions (EmitTables program lifted)) < 2 ^ 32" using assms(6) by (simp add: EmitTables_def Let_def)
  from xl_lookup_mapped [OF dispatch_emitted(1) [OF assms(1,5,6)] this]
  have l: "xl_lookup (runtime_table M (EmitTables program lifted)) pc =
      map_option (code M) (map_of (function_table program lifted) pc)" for pc
    by (simp add: runtime_table_def dispatch_emitted(2) [OF assms(1,5,6)])
  show ?thesis
    using Target_in_table [OF assms(1-3)] Target_name [OF assms(4)] by (auto simp: table_has_targets_def l)
qed


definition sample_meaning :: Meaning where
  "sample_meaning = \<lparr>code = (\<lambda>f m. if f = ''f'' then Some (Inr (set_x 0 7 m)) else Some (Inl f)), value_of = (\<lambda>n m. 0),
     store_effect = (\<lambda>p v m. set_x p 1 m), other_effect = (\<lambda>n m. m)\<rparr>"

definition sample_blocks :: "IRInst list list" where
  "sample_blocks = [[StoreInst 0 (ConstOperand 0x30), StoreInst 9 (ValueOperand 4), CallInst ''xl_call'' 0]]"

definition no_machine :: Machine where
  "no_machine = \<lparr>reg_x = (\<lambda>i. 0), reg_sp = 0, reg_pc = 0, reg_tpidrro = 0, memory = (\<lambda>a. 0)\<rparr>"


section \<open>Coverage\<close>

text \<open>The loop over the words of a section ends when none reaches the end of the 64-bit numbers.\<close>

lemma unat_next_word: "4 * k + 4 < 2 ^ 64 \<Longrightarrow> unat (4 * of_nat k + 4 :: u64) = 4 * k + 4"
proof -
  assume "4 * k + 4 < 2 ^ 64"
  moreover have "(4 * of_nat k + 4 :: u64) = of_nat (4 * k + 4)" by simp
  ultimately show ?thesis by (simp only: unat_of_nat) simp
qed

lemma cover_offsets_from:
  assumes "unat bound < 2 ^ 64 - 4"
  shows "k \<le> unat bound div 4 \<Longrightarrow> cover_offsets step bound (of_nat (4 * k)) cov =
    Some (fold (\<lambda>i. step (of_nat (4 * i))) [k..<unat bound div 4] cov)"
proof (induction "unat bound div 4 - k" arbitrary: k cov)
  case (0 k cov)
  then have "4 * k + 4 < 2 ^ 64" "\<not> 4 * k + 4 \<le> unat bound" using assms by auto
  then have "\<not> of_nat (4 * k) + 4 \<le> bound"
    by (simp add: word_le_nat_alt unat_next_word)
  with 0 show ?case by (simp add: cover_offsets.simps [of step bound "4 * of_nat k"])
next
  case (Suc n k cov)
  then have k: "4 * k + 4 < 2 ^ 64" "4 * k + 4 \<le> unat bound" "k < unat bound div 4" using assms by auto
  then have "of_nat (4 * k) + 4 \<le> bound" by (simp add: word_le_nat_alt unat_next_word)
  then have "cover_offsets step bound (of_nat (4 * k)) cov =
      cover_offsets step bound (of_nat (4 * Suc k)) (step (of_nat (4 * k)) cov)"
    by (subst cover_offsets.simps) (simp add: add.commute)
  also have "\<dots> = Some (fold (\<lambda>i. step (of_nat (4 * i))) [Suc k..<unat bound div 4] (step (of_nat (4 * k)) cov))"
    using Suc k(3) by (intro Suc.hyps(1)) auto
  finally show ?case using k(3) by (simp add: upt_conv_Cons)
qed

lemma cover_offsets_words:
  "unat bound < 2 ^ 64 - 4 \<Longrightarrow> cover_offsets step bound 0 cov = Some (fold (\<lambda>i. step (of_nat (4 * i))) [0..<unat bound div 4] cov)"
  using cover_offsets_from [of bound 0] by simp

text \<open>The instructions of the sections the listing covers, in order, and those among them rellume leaves to the runtime.\<close>

definition covered_words :: "Program \<Rightarrow> (Image \<times> Section \<times> u64) list" where
  "covered_words program =
     [(img, sec, of_nat (4 * i)). img \<leftarrow> images program, sec \<leftarrow> filter covered_section (im_sections img), i \<leftarrow> [0..<unat (sect_size sec) div 4]]"

definition left_to_runtime :: "Rellume \<Rightarrow> Program \<Rightarrow> Image \<times> Section \<times> u64 \<Rightarrow> bool" where
  "left_to_runtime ll program = (\<lambda>(img, sec, offset).
     (let address = host img (sect_addr sec + offset)
      in ll_func_decode_instr ll (ReadCode program) address \<noteq> 0 \<or> unhandled address (ll_instr_lift ll (ReadCode program) address)))"

definition covered_line :: "(u64 \<Rightarrow> u8 list) \<Rightarrow> Image \<times> Section \<times> u64 \<Rightarrow> string" where
  "covered_line buffer = (\<lambda>(img, sec, offset).
     (let address = host img (sect_addr sec + offset)
      in Hex8 (sect_addr sec + offset) @ '' '' @
         Hex8 (le_word (case ReadBytes img address 4 of Some bs \<Rightarrow> bs | None \<Rightarrow> buffer address))))"

definition counted :: "Rellume \<Rightarrow> (u64 \<Rightarrow> u8 list) \<Rightarrow> Program \<Rightarrow> (Image \<times> Section \<times> u64) list \<Rightarrow> Covered \<Rightarrow> Covered" where
  "counted ll buffer program ws cov =
     \<lparr>cov_total = cov_total cov + of_nat (length ws),
      cov_failed = cov_failed cov + of_nat (length (filter (left_to_runtime ll program) ws)),
      cov_lines = cov_lines cov @ map (covered_line buffer) (filter (left_to_runtime ll program) ws)\<rparr>"

lemma counted_append: "counted ll buffer program (xs @ ys) cov = counted ll buffer program ys (counted ll buffer program xs cov)"
  by (simp add: counted_def)

lemma counted_Nil [simp]: "counted ll buffer program [] cov = cov"
  by (simp add: counted_def)

lemma cover_instruction_counted:
  "cover_instruction ll buffer program img sec offset cov = counted ll buffer program [(img, sec, offset)] cov"
  by (auto simp: cover_instruction_def counted_def left_to_runtime_def covered_line_def Let_def unhandled_def)

lemma fold_cover_instruction:
  "fold (\<lambda>i. cover_instruction ll buffer program img sec (f i)) is cov = counted ll buffer program (map (\<lambda>i. (img, sec, f i)) is) cov"
proof (induction "is" arbitrary: cov)
  case (Cons i "is")
  then show ?case
    using counted_append [of ll buffer program "[(img, sec, f i)]" "map (\<lambda>i. (img, sec, f i)) is" cov]
    by (simp add: cover_instruction_counted)
qed simp

lemma cover_sections_counted:
  assumes "\<forall>(img, sec) \<in> set secs. unat (sect_size sec) < 2 ^ 64 - 4"
  shows "cover_sections ll buffer program secs cov = Some (counted ll buffer program
    (concat (map (\<lambda>(img, sec). map (\<lambda>i. (img, sec, of_nat (4 * i))) [0..<unat (sect_size sec) div 4])
      (filter (\<lambda>(img, sec). covered_section sec) secs))) cov)"
  using assms
proof (induction secs arbitrary: cov)
  case (Cons p secs)
  obtain img sec where p: "p = (img, sec)" by (cases p)
  from Cons.prems p have "unat (sect_size sec) < 2 ^ 64 - 4" by simp
  note w = cover_offsets_words [OF this]
  show ?case
    using Cons by (simp add: p w fold_cover_instruction counted_append del: of_nat_mult)
qed simp

text \<open>
  The coverage listing. On an image whose code sections end before the end of the 64-bit numbers the listing ends,
  and it is, in the order of the images, of their sections and of the words: one line for each instruction of a
  \<open>__text\<close> section that rellume does not decode, does not lift, or lifts to a store of its own address; the counts are
  those of the lines and of all the instructions.
\<close>

theorem Coverage_lists:
  assumes "\<forall>img \<in> set (images program). \<forall>sec \<in> set (im_sections img). unat (sect_size sec) < 2 ^ 64 - 4"
  shows "Coverage ll buffer program = Some
    \<lparr>cov_total = of_nat (length (covered_words program)),
     cov_failed = of_nat (length (filter (left_to_runtime ll program) (covered_words program))),
     cov_lines = map (covered_line buffer) (filter (left_to_runtime ll program) (covered_words program))\<rparr>"
proof -
  let ?secs = "concat (map (\<lambda>img. map (\<lambda>sec. (img, sec)) (im_sections img)) (images program))"
  have r: "concat (map g (filter (\<lambda>(img, sec). covered_section sec) (map (Pair img) secs))) =
      concat (map (\<lambda>sec. g (img, sec)) (filter covered_section secs))" for g :: "Image \<times> Section \<Rightarrow> 'b list" and img secs
    by (induction secs) auto
  have w: "concat (map g (filter (\<lambda>(img, sec). covered_section sec)
      (concat (map (\<lambda>img. map (Pair img) (im_sections img)) imgs)))) =
    concat (map (\<lambda>img. concat (map (\<lambda>sec. g (img, sec)) (filter covered_section (im_sections img)))) imgs)"
    for g :: "Image \<times> Section \<Rightarrow> 'b list" and imgs
    by (induction imgs) (auto simp: r)
  have s: "\<forall>(img, sec) \<in> set ?secs. unat (sect_size sec) < 2 ^ 64 - 4" using assms by auto
  show ?thesis
    unfolding Coverage_def cover_sections_counted [OF s] w covered_words_def by (simp add: counted_def del: of_nat_mult)
qed

definition cover_image :: Image where
  "cover_image = sample_image\<lparr>im_sections := [\<lparr>segname = ''__TEXT'', sectname = ''__text'', sect_addr = 0x1000, sect_size = 8,
     sect_offset = 0, sect_flags = 0x80000000, reserved1 = 0, reserved2 = 0\<rparr>]\<rparr>"

definition cover_rellume :: Rellume where
  "cover_rellume = \<lparr>ll_func_decode_cfg = (\<lambda>r a. 1), ll_func_lift = (\<lambda>r a. None), ll_func_decode_instr = (\<lambda>r a. 0),
     ll_instr_lift = (\<lambda>r a. Some [[StoreInst 0 (ConstOperand 0x1004)]])\<rparr>"

text \<open>Two instructions, the second of which is left to the runtime.\<close>

theorem Coverage_lists_witness:
  "Coverage cover_rellume (\<lambda>a. []) (new_program [cover_image]) =
     Some \<lparr>cov_total = 2, cov_failed = 1, cov_lines = [''00001004 07060504'']\<rparr>"
proof -
  have h: "\<forall>img \<in> set (images (new_program [cover_image])). \<forall>sec \<in> set (im_sections img). unat (sect_size sec) < 2 ^ 64 - 4"
    by (simp add: new_program_def cover_image_def)
  have i: "host cover_image 0x1000 = 0x1000" "host cover_image 0x1004 = 0x1004"
    by (simp_all add: host_def cover_image_def sample_defs new_image_def)
  have w: "covered_words (new_program [cover_image]) = [(cover_image, hd (im_sections cover_image), 0), (cover_image, hd (im_sections cover_image), 4)]"
    by (simp add: covered_words_def new_program_def cover_image_def covered_section_def S_ATTR_PURE_INSTRUCTIONS_def upt_rec)
  have a: "sect_addr (hd (im_sections cover_image)) = 0x1000" by (simp add: cover_image_def)
  have l: "left_to_runtime cover_rellume (new_program [cover_image]) (cover_image, hd (im_sections cover_image), 0) = False"
    "left_to_runtime cover_rellume (new_program [cover_image]) (cover_image, hd (im_sections cover_image), 4) = True"
    by (simp_all add: left_to_runtime_def cover_rellume_def unhandled_def a i)
  have r: "ReadBytes cover_image 0x1004 4 = Some [4, 5, 6, 7]" by code_simp
  have c: "covered_line (\<lambda>a. []) (cover_image, hd (im_sections cover_image), 4) = ''00001004 07060504''"
  proof -
    have "digits_in 16 0x07060504 = [7, 0, 6, 0, 5, 0, 4]" by (simp add: digits_in.simps)
    moreover have "unat (0x07060504 :: u64) = 0x07060504" by simp
    ultimately have "Hex8 0x07060504 = ''07060504''"
      unfolding Hex8_def hex_string_def Let_def by (simp only:) (simp add: hex_char_def)
    moreover have "Hex8 0x1004 = ''00001004''" by code_simp
    moreover have "(le_word [4, 5, 6, 7] :: u64) = 0x07060504" by (simp add: le_word_def)
    ultimately show ?thesis by (simp add: covered_line_def a i r)
  qed
  show ?thesis unfolding Coverage_lists [OF h] w by (simp add: l c)
qed

section \<open>\<open>main\<close>\<close>

lemma scan_inputs_clean:
  "scan_inputs w imgs violations = Some [] \<Longrightarrow>
   violations = [] \<and> (\<forall>img \<in> set imgs. ScanTSDOffsets (library_orders w) (decoder w) img [] = Some (True, []))"
proof (induction imgs arbitrary: violations)
  case (Cons img imgs)
  obtain ok vs where s: "ScanTSDOffsets (library_orders w) (decoder w) img violations = Some (ok, vs)" "ok = (vs = [])"
    "set violations \<subseteq> set vs"
    using scan_answers by blast
  with Cons.prems have "scan_inputs w imgs vs = Some []" by simp
  from Cons.IH [OF this] s show ?case by auto
qed simp

lemma scan_inputs_answers: "\<exists>vs. scan_inputs w imgs violations = Some vs"
proof (induction imgs arbitrary: violations)
  case (Cons img imgs)
  obtain ok vs where "ScanTSDOffsets (library_orders w) (decoder w) img violations = Some (ok, vs)"
    using scan_answers by blast
  with Cons.IH [of vs] show ?case by simp
qed simp

text \<open>A run that got past the checks all images share.\<close>

definition writes_file :: "Outcome \<Rightarrow> bool" where
  "writes_file oc \<longleftrightarrow> resolved_file oc \<noteq> None \<or> manifest_file oc \<noteq> None \<or> coverage_file oc \<noteq> None \<or>
     bitcode_file oc \<noteq> None \<or> layout_file oc \<noteq> None \<or> header_file oc \<noteq> None"

lemma fails_simps [simp]: "exit_code (fails lines) = 1" "stderr_lines (fails lines) = lines" "\<not> writes_file (fails lines)"
    "resolved_file (fails lines) = None" "manifest_file (fails lines) = None" "coverage_file (fails lines) = None"
    "bitcode_file (fails lines) = None" "layout_file (fails lines) = None" "header_file (fails lines) = None"
  by (simp_all add: fails_def writes_file_def)

lemma main_passed:
  assumes "main w = Some oc" and "exit_code oc = 0 \<or> writes_file oc"
  obtains imgs lines where "load_inputs w (inputs w) [] [] = Some (Inr (imgs, lines))" "scan_inputs w imgs [] = Some []"
    "resolved_path w \<noteq> [] \<longrightarrow> manifest_path w \<noteq> []"
    "Some oc = (let program = (new_program imgs)\<lparr>log := lines\<rparr>
       in if coverage_path w \<noteq> [] then main_coverage w program
          else if manifest_path w \<noteq> [] then Some (main_manifest w program) else main_build w program)"
  using assms unfolding main_def
  by (auto simp: Let_def split: option.splits sum.splits if_splits)

text \<open>
  C4: No output without a clean scan. When the command ends well, or writes any file at all, every input image was loaded
  and the scan of its accesses to the thread-data block, run on it alone, found nothing: not the translation only, the
  manifest and the coverage listing too.
\<close>

theorem main_scans_everything:
  assumes "main w = Some oc" and "exit_code oc = 0 \<or> writes_file oc"
  shows "\<exists>imgs lines. load_inputs w (inputs w) [] [] = Some (Inr (imgs, lines)) \<and>
    (\<forall>img \<in> set imgs. ScanTSDOffsets (library_orders w) (decoder w) img [] = Some (True, []))"
  using main_passed [OF assms] scan_inputs_clean by metis

lemma write_file_Inr: "write_file w path lines = Inr file \<longleftrightarrow>
    (if path = [] then file = None else open_error w path = None \<and> file = Some lines)"
  by (auto simp: write_file_def split: option.splits)

text \<open>The bitcode goes out last but for the files made from the same data.\<close>

lemma emit_program_writes:
  assumes "emit_program w program objc lifted blocks = Some oc" and "bitcode_file oc = Some bc"
  obtains program' segments module where
    "run_state (do { overrides \<leftarrow> ObjCOverrides objc; EmitGuestData program overrides }) (start_module lifted blocks) =
       (Some (program', True, segments), module)"
    "\<not> module_broken w \<lparr>bc_blocks = blocks, bc_module = module, bc_tables = EmitTables program' lifted\<rparr>"
    "open_error w (output_path w) = None"
    "bc = (if optimize w then pipeline w else id) \<lparr>bc_blocks = blocks, bc_module = module, bc_tables = EmitTables program' lifted\<rparr>"
    "oc = finish w program' segments bc"
proof -
  obtain st module where r: "run_state (do { overrides \<leftarrow> ObjCOverrides objc; EmitGuestData program overrides })
      (start_module lifted blocks) = (st, module)" by fastforce
  with assms obtain program' ok segments where st: "st = Some (program', ok, segments)"
    by (cases st) (auto simp: emit_program_def)
  let ?bc = "\<lparr>bc_blocks = blocks, bc_module = module, bc_tables = EmitTables program' lifted\<rparr>"
  have oc: "oc = (if \<not> ok then fails (log program')
      else if module_broken w ?bc then fails (log program' @ [''xlate: invalid module before optimization''])
      else case open_error w (output_path w) of
             Some message \<Rightarrow> fails (log program' @ [cannot_open (output_path w) message])
           | None \<Rightarrow> finish w program' segments (if optimize w then pipeline w ?bc else ?bc))"
    using assms(1) r st unfolding emit_program_def Let_def by (simp split del: if_split)
  have f: "bitcode_file (finish w p s b) = Some b" for p s b
    by (simp add: finish_def split: sum.splits)
  show ?thesis
    using oc assms(2) r st by (intro that) (auto simp: f split: if_splits option.splits)
qed

lemma write_file_Inl: "write_file w path lines = Inl line \<longleftrightarrow>
    path \<noteq> [] \<and> (\<exists>message. open_error w path = Some message \<and> line = cannot_open path message)"
  by (auto simp: write_file_def split: option.splits)

lemma finish_outcome:
  "finish w program segments bc =
     (if layout_path w \<noteq> [] \<and> open_error w (layout_path w) \<noteq> None
      then (fails (log program @ [cannot_open (layout_path w) (the (open_error w (layout_path w)))]))\<lparr>bitcode_file := Some bc\<rparr>
      else let layout = (if layout_path w = [] then None else Some (WriteLayout segments)) in
        if header_path w \<noteq> [] \<and> open_error w (header_path w) \<noteq> None
        then (fails (log program @ [cannot_open (header_path w) (the (open_error w (header_path w)))]))
          \<lparr>bitcode_file := Some bc, layout_file := layout\<rparr>
        else (fails (log program))\<lparr>exit_code := 0, bitcode_file := Some bc, layout_file := layout,
          header_file := (if header_path w = [] then None else Some (WriteStateHeader (cpu_registers w) program))\<rparr>)"
  unfolding finish_def write_file_def
  by (cases "open_error w (layout_path w)"; cases "open_error w (header_path w)") simp_all

lemma finish_ends_well:
  "exit_code (finish w program segments bc) = 0 \<longleftrightarrow>
     (layout_path w = [] \<or> open_error w (layout_path w) = None) \<and> (header_path w = [] \<or> open_error w (header_path w) = None)"
  unfolding finish_outcome Let_def by auto

lemma finish_files:
  assumes "exit_code (finish w program segments bc) = 0"
  shows "layout_file (finish w program segments bc) = (if layout_path w = [] then None else Some (WriteLayout segments)) \<and>
    header_file (finish w program segments bc) =
      (if header_path w = [] then None else Some (WriteStateHeader (cpu_registers w) program))"
  using assms unfolding finish_ends_well unfolding finish_outcome Let_def by auto

lemma err_fields [simp]: "images (err line program) = images program" "stub_to_guest (err line program) = stub_to_guest program"
    "stub_to_host (err line program) = stub_to_host program" "prog_functions (err line program) = prog_functions program"
    "exports (err line program) = exports program"
  by (simp_all add: err_def)

lemma fold_err [simp]: "images (fold err lines program) = images program" "stub_to_guest (fold err lines program) = stub_to_guest program"
    "stub_to_host (fold err lines program) = stub_to_host program" "prog_functions (fold err lines program) = prog_functions program"
    "exports (fold err lines program) = exports program"
  by (induction lines arbitrary: program) simp_all

text \<open>What the first half leaves: a strict layout that resolved every stub it must, and classes that were split.\<close>

definition prepared :: "World \<Rightarrow> Image list \<Rightarrow> Program \<Rightarrow> ObjCImage list \<Rightarrow> bool" where
  "prepared w imgs program objc \<longleftrightarrow>
     (\<exists>p q registry found. images p = imgs \<and> prog_functions p = [] \<and> LayoutAndResolve (options w) True p = Inr (q, True) \<and>
        images program = images q \<and> stub_to_guest program = stub_to_guest q \<and> stub_to_host program = stub_to_host q \<and>
        prog_functions program = prog_functions q \<and>
        run_state (ResolveGuestImports (map AnalyzeObjC (images q))) (exports q) = (found, registry) \<and>
        exports program = registry \<and> SplitGuestLayoutClasses found = Inr objc)"

lemma LoadPassthrough_images:
  "LoadPassthrough file p = Some q \<Longrightarrow> images q = images p \<and> prog_functions q = prog_functions p"
  by (auto simp: LoadPassthrough_def split: option.splits)

lemma prepare_prepared:
  assumes "prepare w program = Inr (program', objc)" and "images program = imgs" and "prog_functions program = []"
  shows "prepared w imgs program' objc"
proof -
  obtain p where p: "images p = imgs" "prog_functions p = []"
    "(case LayoutAndResolve (options w) True p of
           Inl error \<Rightarrow> Inl (log p @ [error])
         | Inr (program, ok) \<Rightarrow>
             if \<not> ok then Inl (log program)
             else
               let found = map (\<lambda>img. (img, AnalyzeObjC img)) (images program);
                   program = fold err (concat (map (\<lambda>(img, oi).
                     map (\<lambda>error. ''xlate: '' @ im_path img @ '': '' @ error) (errors oi)) found)) program
               in case run_state (ResolveGuestImports (map snd found)) (exports program) of
                    (objc, registry) \<Rightarrow>
                      (case SplitGuestLayoutClasses objc of
                         Inl error \<Rightarrow> Inl (log program @ [''xlate: '' @ error])
                       | Inr objc \<Rightarrow> Inr (program\<lparr>exports := registry\<rparr>, objc))) = Inr (program', objc)"
    using assms LoadPassthrough_images [of "passthrough_file w" program] unfolding prepare_def
    by (cases "if passthrough_path w = [] then Some program else LoadPassthrough (passthrough_file w) program")
      (auto split: if_splits)
  then obtain q where q: "LayoutAndResolve (options w) True p = Inr (q, True)"
    by (auto split: sum.splits if_splits)
  obtain found registry where f: "run_state (ResolveGuestImports (map AnalyzeObjC (images q))) (exports q) = (found, registry)"
    by fastforce
  from p(3) q f show ?thesis
    unfolding prepared_def using p(1,2)
    by (intro exI [of _ p] exI [of _ q] exI [of _ registry] exI [of _ found])
      (auto simp: comp_def Let_def split: sum.splits)
qed

text \<open>
  C5: What a translation is made of. When the bitcode is written, every stub was resolved by a strict layout and the
  classes were split; the code is that of the lifting loop over that program with its direct calls, and the data and
  tables those of the same program, in a module LLVM did not refuse; and the command ends well exactly when the linker's
  arguments and the header could be written where they were asked for, and then they hold what belongs to this data.
\<close>

theorem main_translation:
  assumes "main w = Some oc" and "bitcode_file oc = Some bc"
  shows "\<exists>imgs lines program objc st prog program' segments module.
    load_inputs w (inputs w) [] [] = Some (Inr (imgs, lines)) \<and> prepared w imgs program objc \<and>
    lift_all (lift_with (rellume w) program) program = Some st \<and>
    images prog = images program \<and> exports prog = exports program \<and> stub_to_host prog = stub_to_host program \<and>
    run_state (do { overrides \<leftarrow> ObjCOverrides objc; EmitGuestData prog overrides }) (start_module (lf_lifted st)
      (fst (Devirtualize program (lf_lifted st) (lifted_blocks (rellume w) program (lf_lifted st))))) =
        (Some (program', True, segments), module) \<and>
    \<not> module_broken w \<lparr>bc_blocks = fst (Devirtualize program (lf_lifted st) (lifted_blocks (rellume w) program (lf_lifted st))),
        bc_module = module, bc_tables = EmitTables program' (lf_lifted st)\<rparr> \<and>
    bc = (if optimize w then pipeline w else id)
      \<lparr>bc_blocks = fst (Devirtualize program (lf_lifted st) (lifted_blocks (rellume w) program (lf_lifted st))),
        bc_module = module, bc_tables = EmitTables program' (lf_lifted st)\<rparr> \<and>
    (exit_code oc = 0) = ((layout_path w = [] \<or> open_error w (layout_path w) = None) \<and>
      (header_path w = [] \<or> open_error w (header_path w) = None)) \<and>
    (exit_code oc = 0 \<longrightarrow> layout_file oc = (if layout_path w = [] then None else Some (WriteLayout segments)) \<and>
      header_file oc = (if header_path w = [] then None else Some (WriteStateHeader (cpu_registers w) program')))"
proof -
  have "writes_file oc" using assms(2) by (simp add: writes_file_def)
  with assms(1) obtain imgs lines where m: "load_inputs w (inputs w) [] [] = Some (Inr (imgs, lines))"
    "Some oc = (let program = (new_program imgs)\<lparr>log := lines\<rparr>
       in if coverage_path w \<noteq> [] then main_coverage w program
          else if manifest_path w \<noteq> [] then Some (main_manifest w program) else main_build w program)"
    using main_passed by metis
  have "bitcode_file oc = None" if "main_coverage w p = Some oc" for p
    using that by (auto simp: main_coverage_def split: sum.splits if_splits)
  moreover have "bitcode_file (main_manifest w p) = None" for p
    by (auto simp: main_manifest_def Let_def split: sum.splits option.splits prod.splits)
  ultimately have b: "main_build w ((new_program imgs)\<lparr>log := lines\<rparr>) = Some oc"
    using m(2) assms(2) by (auto simp: Let_def split: if_splits)
  then obtain program objc where p: "prepare w ((new_program imgs)\<lparr>log := lines\<rparr>) = Inr (program, objc)"
    using assms(2) by (auto simp: main_build_def split: if_splits sum.splits)
  from b p assms(2) obtain st where l: "lift_all (lift_with (rellume w) program) program = Some st"
    by (auto simp: main_build_def split: if_splits option.splits)
  let ?bs = "fst (Devirtualize program (lf_lifted st) (lifted_blocks (rellume w) program (lf_lifted st)))"
  from b p l assms(2) obtain prog where e: "emit_program w prog objc (lf_lifted st) ?bs = Some oc"
    and g: "images prog = images program" "exports prog = exports program" "stub_to_host prog = stub_to_host program"
    by (auto simp: main_build_def Let_def split: if_splits prod.splits)
  from e assms(2) obtain program' segments module where
    "run_state (do { overrides \<leftarrow> ObjCOverrides objc; EmitGuestData prog overrides }) (start_module (lf_lifted st) ?bs) =
        (Some (program', True, segments), module)"
    "\<not> module_broken w \<lparr>bc_blocks = ?bs, bc_module = module, bc_tables = EmitTables program' (lf_lifted st)\<rparr>"
    "bc = (if optimize w then pipeline w else id) \<lparr>bc_blocks = ?bs, bc_module = module, bc_tables = EmitTables program' (lf_lifted st)\<rparr>"
    "oc = finish w program' segments bc"
    by (rule emit_program_writes) auto
  moreover have "prepared w imgs program objc"
    using prepare_prepared [OF p] by (simp add: new_program_def)
  ultimately show ?thesis
    using m(1) l g finish_ends_well [of w program' segments bc] finish_files [of w program' segments bc]
    by (intro exI [of _ imgs] exI [of _ lines] exI [of _ program] exI [of _ objc] exI [of _ st] exI [of _ prog]
        exI [of _ program'] exI [of _ segments] exI [of _ module]) simp
qed

section \<open>\<open>main\<close> returns\<close>

lemma load_inputs_returns:
  assumes "uleb_progress (decodeULEB128 w)"
  shows "\<exists>r. load_inputs w paths imgs lines = Some r"
proof (induction paths arbitrary: imgs lines)
  case (Cons path paths)
  have "\<exists>r. Macho.Load (decodeULEB128 w) (createBinary w) path = Some r"
    using Parse_some [OF assms] by (simp add: Macho.Load_def split: sum.splits llvm_binary.splits)
  then show ?case using Cons.IH by (auto split: sum.splits)
qed simp

definition named_segments :: "Image \<Rightarrow> bool" where
  "named_segments img \<longleftrightarrow> list_all (\<lambda>seg. not_emitted seg \<or> 2 \<le> length (seg_name seg)) (im_segments img)"

lemma load_inputs_images:
  assumes "\<forall>path img. Macho.Load (decodeULEB128 w) (createBinary w) path = Some (Inr img) \<longrightarrow> named_segments img"
  shows "load_inputs w paths imgs lines = Some (Inr (imgs', lines')) \<Longrightarrow> list_all named_segments imgs \<Longrightarrow> list_all named_segments imgs'"
proof (induction paths arbitrary: imgs lines)
  case (Cons path paths)
  then show ?case using assms by (auto split: option.splits sum.splits)
qed simp

lemma place_images_segments: "list_all named_segments imgs \<Longrightarrow> list_all named_segments (place_images cursor imgs)"
  by (induction imgs arbitrary: cursor) (auto simp: named_segments_def Let_def)

lemma resolve_stub_functions:
  "resolve_stub strict img e (program, ok) = (program', ok') \<Longrightarrow> prog_functions program' = prog_functions program"
  by (cases e) (auto simp: resolve_stub_def lookup_symbol_def err_def split: prod.splits option.splits if_splits)

lemma resolve_stubs_functions:
  "fold (\<lambda>(img, e). resolve_stub strict img e) ss (program, ok) = (program', ok') \<Longrightarrow> prog_functions program' = prog_functions program"
proof (induction ss arbitrary: program ok)
  case (Cons e ss)
  obtain img s where "e = (img, s)" by (cases e)
  with Cons show ?case
    by (cases "resolve_stub strict img s (program, ok)") (auto dest: resolve_stub_functions)
qed simp

lemma LayoutAndResolve_functions:
  assumes "LayoutAndResolve opts strict program = Inr (program', ok)" and "oset_ok (prog_functions program)"
  shows "oset_ok (prog_functions program')"
proof -
  let ?start = "program\<lparr>images := place_images (Base opts) (images program)\<rparr>"
  let ?I = "\<lambda>q. oset_ok (prog_functions q)"
  obtain p1 p where f: "sum_fold (add_image opts) ?start (images ?start) = Inr p1"
    "sum_fold (apply_replace opts) p1 (Replaces opts) = Inr p" "resolve_stubs strict p = (program', ok)"
    using assms by (auto simp: LayoutAndResolve_def Let_def sum_bind_Inr)
  have fold_ok: "oset_ok s \<Longrightarrow> oset_ok (fold (\<lambda>v. oset_insert (g v)) vs s)" for s :: "u64 list" and g :: "u64 \<Rightarrow> u64" and vs
    by (induction vs arbitrary: s) simp_all
  have "?I p1" by (rule sum_fold_inv [where I = ?I, OF f(1)])
    (use assms(2) in simp, auto simp: add_image_def fold_ok split: sum.splits)
  then have "?I p" by (rule sum_fold_inv [where I = ?I, OF f(2)])
    (auto simp: apply_replace_def split: sum.splits option.splits)
  with f(3) show ?thesis unfolding resolve_stubs_def resolve_stubs_flat using resolve_stubs_functions by metis
qed

lemma build_fold_keeps:
  assumes "\<And>x s m. x \<in> set xs \<Longrightarrow> I s \<Longrightarrow> I (fst (run_state (f x s) m))" and "I s"
  shows "I (fst (run_state (build_fold f xs s) m))"
  using assms
proof (induction xs arbitrary: s m)
  case (Cons x xs)
  have "I (fst (run_state (f x s) m))" using Cons.prems by simp
  then have "I (fst (run_state (build_fold f xs (fst (run_state (f x s) m))) (snd (run_state (f x s) m))))"
    using Cons.prems by (intro Cons.IH) auto
  then show ?case by (simp add: case_prod_beta)
qed simp

lemma EmitGuestData_returns:
  assumes "list_all named_segments (images program)"
  shows "fst (run_state (EmitGuestData program overrides) m) \<noteq> None"
proof -
  have seg: "fst (run_state (emit_segment overrides k img seg st) m) \<noteq> None"
    if "not_emitted seg \<or> 2 \<le> length (seg_name seg)" and "st \<noteq> None" for k img seg st m
  proof (cases st)
    case (Some t)
    obtain program ok out where t: "t = (program, ok, out)" by (cases t)
    show ?thesis using that by (auto simp: emit_segment_def Some t host_name_def Let_def case_prod_beta)
  qed (use that in simp)
  have "fst (run_state (emit_image overrides (k, img) st) m) \<noteq> None" if "named_segments img" "st \<noteq> None" for k img st m
    unfolding emit_image_def prod.case using that
    by (intro build_fold_keeps [where I = "\<lambda>s. s \<noteq> None"] seg) (auto simp: named_segments_def list_all_iff)
  then show ?thesis
    unfolding EmitGuestData_def using assms
    by (intro build_fold_keeps [where I = "\<lambda>s. s \<noteq> None"]) (auto simp: list_all_iff in_set_enumerate_eq)
qed

lemma main_build_returns:
  assumes "list_all named_segments (images program)" and "prog_functions program = []"
  shows "\<exists>oc. main_build w program = Some oc"
proof (cases "output_path w = [] \<or> (\<exists>lines. prepare w program = Inl lines)")
  case False
  then obtain program' objc where p: "prepare w program = Inr (program', objc)" "output_path w \<noteq> []"
    by (cases "prepare w program") auto
  obtain q r where q: "images q = images program" "prog_functions q = []"
    "LayoutAndResolve (options w) True q = Inr (r, True)" "images program' = images r" "prog_functions program' = prog_functions r"
    using prepare_prepared [OF p(1) refl assms(2)] by (auto simp: prepared_def)
  have "oset_ok (prog_functions program')" using LayoutAndResolve_functions [OF q(3)] q(2,5) by simp
  then obtain st where st: "lift_all (lift_with (rellume w) program') program' = Some st" using lift_all_ends by blast
  obtain s where "images r = place_images (Base (options w)) (images q)"
    using LayoutAndResolve_parts [OF q(3)] by metis
  then have n: "list_all named_segments (images program')" using assms(1) place_images_segments q(1,4) by simp
  have "\<exists>oc. emit_program w prog objc lifted blocks = Some oc" if "images prog = images program'" for prog lifted blocks
  proof -
    obtain st module where r: "run_state (do { overrides \<leftarrow> ObjCOverrides objc; EmitGuestData prog overrides })
        (start_module lifted blocks) = (st, module)" by fastforce
    moreover have "st \<noteq> None"
      using EmitGuestData_returns [of prog] n that r by (auto simp: case_prod_beta) (metis fst_conv option.distinct(1))
    ultimately show ?thesis by (auto simp: emit_program_def)
  qed
  then show ?thesis using p st by (simp add: main_build_def Let_def split: prod.split)
qed (auto simp: main_build_def)


text \<open>A world with one image, without code, and a recompiler that decodes nothing.\<close>

definition bare_object :: macho_object where
  "bare_object = sample_object\<lparr>load_commands := [], rebase_table := ([], None), bind_table := ([], None),
     weak_bind_table := ([], None)\<rparr>"

definition bare_world :: World where
  "bare_world = \<lparr>inputs = [''a''], options = \<lparr>Base = 0x10000000, Bridges = [], Replaces = [], equivalent = (\<lambda>a b. None)\<rparr>,
     resolved_path = [], output_path = ''out.bc'', layout_path = ''layout'', header_path = [], passthrough_path = [],
     manifest_path = [], coverage_path = [], optimize = False, createBinary = (\<lambda>path. Inr (MachOFile bare_object)),
     decodeULEB128 = sample_uleb, decoder = demo_decoder, library_orders = demo_order, rellume = cover_rellume, cpu_registers = [],
     passthrough_file = None, open_error = (\<lambda>path. None), module_broken = (\<lambda>bc. False), pipeline = id,
     stale_buffer = (\<lambda>a. [])\<rparr>"

lemma bare_load: "Macho.Load sample_uleb (\<lambda>path. Inr (MachOFile bare_object)) path = Some (Inr (new_image path bare_object))"
  by (simp add: Macho.Load_def Parse_def new_image_def bare_object_def sample_object_def parse_functions_def text_base_def
      ParseStubs_def ParseFixups_def ParseExports_def add_binds_def table_error_def Let_def)

lemma bare_load_inputs: "load_inputs bare_world (inputs bare_world) [] [] = Some (Inr ([new_image ''a'' bare_object], []))"
  by (simp add: bare_world_def bare_load) (simp add: new_image_def)

lemma bare_scan: "scan_inputs bare_world [new_image ''a'' bare_object] [] = Some []"
proof -
  have "scan_ranges demo_order (scan_code demo_decoder (new_image ''a'' bare_object)) [] = []" by code_simp
  then have "ScanTSDOffsets demo_order demo_decoder (new_image ''a'' bare_object) [] = Some (True, [])"
    by (simp add: ScanTSDOffsets_def Let_def scan_rounds.simps) (simp add: new_image_def scan_rounds.simps)
  then show ?thesis by (simp add: bare_world_def)
qed

lemma emit_no_segments:
  assumes "\<forall>img \<in> set (images program). im_segments img = []"
  shows "run_state (EmitGuestData program overrides) m = (Some (program, True, []), m)"
proof -
  have "run_state (build_fold (emit_image overrides) es st) m = (st, m)" if "\<forall>(k, img) \<in> set es. im_segments img = []" for es st
    using that by (induction es) (auto simp: emit_image_def)
  moreover have "\<forall>(k, img) \<in> set (List.enumerate 0 (images program)). im_segments img = []"
    using assms by (auto simp: in_set_enumerate_eq)
  ultimately show ?thesis unfolding EmitGuestData_def by blast
qed

lemma bare_prepare: "case prepare bare_world ((new_program [new_image ''a'' bare_object])\<lparr>log := []\<rparr>) of
    Inr (p, objc) \<Rightarrow> prog_functions p = [] \<and> list_all (\<lambda>img. im_segments img = []) (images p) | Inl lines \<Rightarrow> False"
  by code_simp

lemma bare_build: "\<exists>oc bc. main_build bare_world ((new_program [new_image ''a'' bare_object])\<lparr>log := []\<rparr>) = Some oc \<and>
    bitcode_file oc = Some bc \<and> exit_code oc = 0"
proof -
  obtain p objc where p: "prepare bare_world ((new_program [new_image ''a'' bare_object])\<lparr>log := []\<rparr>) = Inr (p, objc)"
    "prog_functions p = []" "\<forall>img \<in> set (images p). im_segments img = []"
    using bare_prepare by (auto simp: list_all_iff split: sum.splits)
  have w: "output_path bare_world = ''out.bc''" "module_broken bare_world = (\<lambda>bc. False)" "open_error bare_world = (\<lambda>path. None)"
    by (simp_all add: bare_world_def)
  have l: "lift_all (lift_with (rellume bare_world) p) p =
      Some \<lparr>lf_functions = [], lf_lifted = [], lf_failures = 0, lf_discovered = [], lf_log = []\<rparr>"
    by (simp add: lift_all_def p(2) lift_rounds.simps)
  have "\<exists>oc bc. emit_program bare_world prog objc lifted blocks = Some oc \<and> bitcode_file oc = Some bc \<and> exit_code oc = 0"
    if "images prog = images p" for prog lifted blocks
    using emit_no_segments [of prog] that p(3)
    by (simp add: emit_program_def w Let_def case_prod_beta finish_outcome)
  then show ?thesis by (simp add: main_build_def w p l Let_def split: prod.split)
qed

lemma bare_main: "\<exists>oc bc. main bare_world = Some oc \<and> bitcode_file oc = Some bc \<and> exit_code oc = 0"
proof -
  obtain oc bc where "main_build bare_world ((new_program [new_image ''a'' bare_object])\<lparr>log := []\<rparr>) = Some oc"
    "bitcode_file oc = Some bc" "exit_code oc = 0"
    using bare_build by blast
  then show ?thesis
    unfolding main_def bare_load_inputs option.case sum.case prod.case bare_scan Let_def by (simp add: bare_world_def)
qed


theorem main_scans_everything_witness:
  "load_inputs bare_world (inputs bare_world) [] [] = Some (Inr ([new_image ''a'' bare_object], [])) \<and>
   ScanTSDOffsets demo_order demo_decoder (new_image ''a'' bare_object) [] = Some (True, [])"
proof -
  obtain oc bc where m: "main bare_world = Some oc" and e: "exit_code oc = 0" using bare_main by blast
  have "library_orders bare_world = demo_order" "decoder bare_world = demo_decoder" by (simp_all add: bare_world_def)
  with main_scans_everything [OF m disjI1 [OF e]] bare_load_inputs show ?thesis by auto
qed

theorem main_translation_witness:
  "\<exists>imgs lines program objc st. load_inputs bare_world (inputs bare_world) [] [] = Some (Inr (imgs, lines)) \<and>
     prepared bare_world imgs program objc \<and> lift_all (lift_with (rellume bare_world) program) program = Some st"
proof -
  obtain oc bc where m: "main bare_world = Some oc" and b: "bitcode_file oc = Some bc" using bare_main by blast
  from main_translation [OF m b] show ?thesis by blast
qed

end
