(* ===== verification/Emit.thy ===== *)
theory Emit
  imports Layout_Facts "HOL-Library.Monad_Syntax"
begin

text \<open>
  The C that carries calls between the two sides, the middle part of \<open>xlate/src/xlgen.cpp\<close>: how a value is packed
  (\<open>PackField\<close>, \<open>GuestStore\<close>, \<open>GuestLoad\<close>), how the host takes it and gives it back (\<open>HostLoad\<close>, \<open>HostStore\<close>), and the
  bridges of blocks and of function pointers (\<open>BlockBridge\<close>, \<open>HostBlockBridge\<close>, \<open>CallbackBridge\<close>). The text is what the
  source writes, character by character. \<open>None\<close> is a run that ends in the use of a null pointer.
\<close>

declare Option.bind_cong [fundef_cong]

section \<open>Pieces of text\<close>

fun commas :: "string list \<Rightarrow> string" where
  "commas [] = []"
| "commas [x] = x"
| "commas (x # y # rest) = x @ '', '' @ commas (y # rest)"

definition quoted :: "string \<Rightarrow> string" where
  "quoted s = [CHR 0x22] @ s @ [CHR 0x22]"

definition backslash :: string where "backslash = [CHR 0x5C]"

text \<open>The two characters that stand for a new line in the text of an assembler string.\<close>

definition asm_nl :: string where "asm_nl = backslash @ ''n''"

text \<open>\<open>symbol.substr(1)\<close>; a symbol is never empty.\<close>

definition c_name :: "string \<Rightarrow> string" where "c_name symbol = drop 1 symbol"

text \<open>The place a narrowing reports: the bridge and the number of the parameter.\<close>

definition place_of :: "string \<Rightarrow> nat \<Rightarrow> string" where
  "place_of name i = quoted name @ '', '' @ dec_string i"

definition add_guest :: "string \<Rightarrow> Generator \<Rightarrow> Generator" where
  "add_guest s gen = gen\<lparr>gen_guest := gen_guest gen @ s\<rparr>"

definition add_host :: "string \<Rightarrow> Generator \<Rightarrow> Generator" where
  "add_host s gen = gen\<lparr>gen_host := gen_host gen @ s\<rparr>"

section \<open>One value in a pack\<close>

definition PackField :: "ASTContext \<Rightarrow> ASTContext \<Rightarrow> Value \<Rightarrow> bool \<Rightarrow> Generator \<Rightarrow> string \<times> Generator" where
  "PackField gc hc v guest gen =
     (case v_kind v of
        KFloating \<Rightarrow> (''double'', gen)
      | KRecord \<Rightarrow>
          if guest then (Spell gc (v_guest v) [], gen)
          else (case Mirror gc hc (v_guest v) (v_host v) gen of (name, gen) \<Rightarrow> (''struct '' @ name, gen))
      | _ \<Rightarrow> (''uint64_t'', gen))"

definition GuestStore :: "Value \<Rightarrow> string \<Rightarrow> string" where
  "GuestStore v expr =
     (case v_kind v of
        KInteger \<Rightarrow> (if v_signed v then ''(uint64_t)(int64_t)'' else ''(uint64_t)'') @ expr
      | KFloating \<Rightarrow> ''(double)'' @ expr
      | KRecord \<Rightarrow> expr
      | _ \<Rightarrow> ''(uint64_t)(uintptr_t)'' @ expr)"

definition GuestLoad :: "ASTContext \<Rightarrow> Value \<Rightarrow> string \<Rightarrow> string" where
  "GuestLoad gc v expr =
     ''('' @ Spell gc (v_guest v) [] @ '')'' @
     (if v_kind v \<in> {KInteger, KFloating, KRecord} then expr else ''(uintptr_t)'' @ expr)"

text \<open>The members of a pack, one side's: a type and a name each.\<close>

fun pack_fields :: "ASTContext \<Rightarrow> ASTContext \<Rightarrow> bool \<Rightarrow> Parameter list \<Rightarrow> Generator \<Rightarrow> string \<times> Generator" where
  "pack_fields gc hc guest [] gen = ([], gen)"
| "pack_fields gc hc guest (p # ps) gen =
     (let (field_type, gen) = PackField gc hc (p_value p) guest gen;
          (rest, gen) = pack_fields gc hc guest ps gen
      in ('' '' @ field_type @ '' '' @ p_name p @ '';'' @ rest, gen))"

text \<open>The member \<open>r\<close> of the result, when there is one.\<close>

definition has_result :: "Value \<Rightarrow> bool" where
  "has_result result \<longleftrightarrow> v_kind result \<noteq> KVoid"

definition result_field :: "ASTContext \<Rightarrow> ASTContext \<Rightarrow> bool \<Rightarrow> Value \<Rightarrow> Generator \<Rightarrow> string \<times> Generator" where
  "result_field gc hc guest result gen =
     (if has_result result then pack_fields gc hc guest [\<lparr>p_value = result, p_name = ''r''\<rparr>] gen else ([], gen))"

definition pack_struct :: "string \<Rightarrow> string \<Rightarrow> string" where
  "pack_struct name members = ''struct __attribute__((packed)) '' @ name @ '' {'' @ members @ '' };'' @ nl"

section \<open>The signature behind a pointer\<close>

definition function_proto :: "ctype \<Rightarrow> (ctype \<times> ctype list) option" where
  "function_proto t =
     (case t of
        BlockPointerType (FunctionType p) \<Rightarrow> p
      | PointerType c (FunctionType p) \<Rightarrow> p
      | _ \<Rightarrow> None)"

text \<open>A host declaration has the parameters of the guest's, both being the same header's; a missing one would be a null type.\<close>

definition host_param :: "ctype \<Rightarrow> nat \<Rightarrow> ctype" where
  "host_param h i = (case function_proto h of Some (r, ps) \<Rightarrow> if i < length ps then ps ! i else NullType | None \<Rightarrow> NullType)"

definition host_result :: "ctype \<Rightarrow> ctype" where
  "host_result h = (case function_proto h of Some (r, ps) \<Rightarrow> r | None \<Rightarrow> NullType)"

definition proto_params :: "ASTContext \<Rightarrow> ASTContext \<Rightarrow> string \<Rightarrow> ctype \<Rightarrow> ctype \<Rightarrow> Parameter list" where
  "proto_params gc hc letter g h =
     (case function_proto g of
        None \<Rightarrow> []
      | Some (r, ps) \<Rightarrow>
          map (\<lambda>(i, t). \<lparr>p_value = Classify gc t hc (host_param h i) True, p_name = letter @ dec_string i\<rparr>) (List.enumerate 0 ps))"

definition proto_result :: "ASTContext \<Rightarrow> ASTContext \<Rightarrow> ctype \<Rightarrow> ctype \<Rightarrow> Value" where
  "proto_result gc hc g h =
     (case function_proto g of
        None \<Rightarrow> new_value KUnsupported NullType NullType
      | Some (r, ps) \<Rightarrow> Classify gc r hc (host_result h) False)"

section \<open>\<open>CallbackBridge\<close>\<close>

definition enter_call :: "string \<Rightarrow> bool \<Rightarrow> string \<Rightarrow> string \<Rightarrow> nat \<Rightarrow> string" where
  "enter_call name result args names slot =
     nl @ ''{'' @ nl @ ''    '' @ (if result then ''return '' else []) @ name @ ''_enter('' @ dec_string slot @
     (if names = [] then [] else '', '' @ names) @ '');'' @ nl @ ''}'' @ nl @ nl"

definition guest_entry :: "string \<Rightarrow> string \<Rightarrow> Value \<Rightarrow> string" where
  "guest_entry name call result =
     ''void '' @ name @ ''_guest(struct '' @ name @ ''_pack *p)'' @ nl @ ''{'' @ nl @ ''    '' @
     (if has_result result then ''p->r = '' @ GuestStore result call else call) @ '';'' @ nl @ ''}'' @ nl @ nl"

definition guest_args :: "ASTContext \<Rightarrow> Parameter list \<Rightarrow> string" where
  "guest_args gc params = commas (map (\<lambda>p. GuestLoad gc (p_value p) (''p->'' @ p_name p)) params)"

text \<open>The parameters as the host declares them.\<close>

definition host_args :: "ASTContext \<Rightarrow> ctype \<Rightarrow> Parameter list \<Rightarrow> string" where
  "host_args hc h params = commas (map (\<lambda>(i, p). Spell hc (host_param h i) (p_name p)) (List.enumerate 0 params))"

text \<open>The 32 trampolines of a function pointer type.\<close>

definition callback_slots :: "nat list" where "callback_slots = [0..<32]"

definition CallbackBridge :: "ASTContext \<Rightarrow> ASTContext \<Rightarrow> ctype \<Rightarrow> ctype \<Rightarrow> Generator \<Rightarrow> (string \<times> Generator) option" where
  "CallbackBridge gc hc g h gen =
     (let key = Spell hc h [] in
      case map_of (gen_callbacks gen) key of
        Some name \<Rightarrow> Some (name, gen)
      | None \<Rightarrow>
          if function_proto g = None then None
          else
            let id = dec_string (length (gen_callbacks gen));
                name = ''xl_callback_'' @ id;
                gen = gen\<lparr>gen_callbacks := omap_set key (name @ ''_host'') (gen_callbacks gen)\<rparr>;
                params = proto_params gc hc ''c'' g h;
                result = proto_result gc hc g h;
                (gfields, gen) = pack_fields gc hc True params gen;
                (hfields, gen) = pack_fields gc hc False params gen;
                (gresult, gen) = result_field gc hc True result gen;
                (hresult, gen) = result_field gc hc False result gen;
                call = ''(('' @ Spell gc g [] @ '')(uintptr_t)p->function)('' @ guest_args gc params @ '')'';
                gs = pack_struct (name @ ''_pack'') ('' uint64_t function;'' @ gfields @ gresult) @ guest_entry name call result;
                args = host_args hc h params;
                names = commas (map p_name params);
                hs = pack_struct (name @ ''_pack'') ('' uint64_t function;'' @ hfields @ hresult) @
                  ''static '' @ Spell hc (host_result h) (name @ ''_enter(unsigned slot'' @ (if args = [] then [] else '', '' @ args) @ '')'') @
                  nl @ ''{'' @ nl @ ''    struct '' @ name @ ''_pack p;'' @ nl @
                  ''    p.function = xl_callback_targets['' @ id @ ''][slot];'' @ nl @
                  concat (map (\<lambda>p. ''    p.'' @ p_name p @ '' = '' @ ScalarToGuest (p_value p) (p_name p) @ '';'' @ nl) params) @
                  ''    xl_invoke(XL_GUEST_'' @ name @ ''_guest, (uintptr_t)&p);'' @ nl @
                  (if has_result result then ''    return '' @ ScalarToHost hc result ''p.r'' (place_of name 99) @ '';'' @ nl else []) @
                  ''}'' @ nl @ nl @
                  concat (map (\<lambda>slot. ''static '' @ Spell hc (host_result h)
                      (name @ ''_'' @ dec_string slot @ ''('' @ (if args = [] then ''void'' else args) @ '')'') @
                    enter_call name (has_result result) args names slot) callback_slots) @
                  ''static '' @ Spell hc h (name @ ''_host(uint64_t target)'') @ nl @ ''{'' @ nl @ ''    static '' @
                  Spell hc h ''const slots[32]'' @ '' = {'' @ commas (map (\<lambda>slot. name @ ''_'' @ dec_string slot) callback_slots) @
                  ''};'' @ nl @ ''    if (target >= 0xFFFFFFFFFFFFFF00ull)'' @ nl @ ''        return ('' @ Spell hc h [] @
                  '')(uintptr_t)(uint32_t)target;'' @ nl @
                  ''    return target ? slots[xl_callback_slot('' @ id @ '', target)] : 0;'' @ nl @ ''}'' @ nl @ nl
            in Some (name @ ''_host'', add_host hs (add_guest gs gen)))"

section \<open>\<open>HostLoad\<close> and \<open>HostStore\<close>\<close>

text \<open>A host call under construction: what comes before it, what after it.\<close>

record Around =
  prep :: string
  post :: string

definition add_prep :: "string \<Rightarrow> Around \<Rightarrow> Around" where
  "add_prep s around = around\<lparr>prep := prep around @ s\<rparr>"

definition add_post :: "string \<Rightarrow> Around \<Rightarrow> Around" where
  "add_post s around = around\<lparr>post := post around @ s\<rparr>"

text \<open>A pointer to a scalar of another width: a slot of the host's width, filled before the call and copied back after it.\<close>

definition out_slot :: "ASTContext \<Rightarrow> Value \<Rightarrow> string \<Rightarrow> string \<Rightarrow> string \<Rightarrow> Around \<Rightarrow> string \<times> Around" where
  "out_slot hc pointee temp expr location around =
     (let guest_type = guest_scalar_type pointee
      in (temp @ ''_guest ? &'' @ temp @ '' : 0'',
          add_post (''    if ('' @ temp @ ''_guest)'' @ nl @ ''        *'' @ temp @ ''_guest = ('' @ guest_type @ '')'' @
            ScalarToGuest pointee temp @ '';'' @ nl)
          (add_prep (''    '' @ Spell hc (v_host pointee) temp @ '';'' @ nl @
            ''    '' @ guest_type @ '' *'' @ temp @ ''_guest = ('' @ guest_type @ '' *)(uintptr_t)'' @ expr @ '';'' @ nl @
            ''    if ('' @ temp @ ''_guest)'' @ nl @ ''        '' @ temp @ '' = '' @
            ScalarToHost hc pointee (''*'' @ temp @ ''_guest'') location @ '';'' @ nl) around)))"

text \<open>A pointer to a structure: copied in when it is \<open>const\<close>, zeroed and copied out when it is not.\<close>

definition record_slot :: "ASTContext \<Rightarrow> Value \<Rightarrow> bool \<Rightarrow> string \<Rightarrow> string \<Rightarrow> string \<Rightarrow> Around \<Rightarrow> string \<times> Around" where
  "record_slot hc pointee writes_back mirror temp expr around =
     (let around = add_prep (''    '' @ Spell hc (v_host pointee) temp @ '';'' @ nl @
            ''    struct '' @ mirror @ '' *'' @ temp @ ''_guest = (struct '' @ mirror @ '' *)(uintptr_t)'' @ expr @ '';'' @ nl) around
      in (temp @ ''_guest ? &'' @ temp @ '' : 0'',
          if writes_back
          then add_post (''    if ('' @ temp @ ''_guest)'' @ nl @ ''        '' @ mirror @ ''_to_guest('' @ temp @ ''_guest, &'' @
                 temp @ '');'' @ nl)
               (add_prep (''    __builtin_memset(&'' @ temp @ '', 0, sizeof '' @ temp @ '');'' @ nl) around)
          else add_prep (''    if ('' @ temp @ ''_guest)'' @ nl @ ''        '' @ temp @ '' = '' @ mirror @ ''_to_host('' @ temp @
                 ''_guest);'' @ nl) around))"

text \<open>\<open>std::to_string\<close> of an \<open>int\<close>.\<close>

definition signed_string :: "int \<Rightarrow> string" where
  "signed_string i = (if i < 0 then CHR ''-'' # dec_string (nat (- i)) else dec_string (nat i))"

text \<open>A counted array: a copy with one element more, zeroed, and the elements copied back when the array is not \<open>const\<close>.\<close>

definition array_slot :: "ASTContext \<Rightarrow> Value \<Rightarrow> int \<Rightarrow> bool \<Rightarrow> string \<Rightarrow> string \<Rightarrow> string \<Rightarrow> Around \<Rightarrow> string \<times> Around" where
  "array_slot hc element counter writes_back temp expr location around =
     (let guest_type = guest_scalar_type element;
          count = ''p->a'' @ signed_string counter;
          loop = ''    for (uint64_t i = 0; '' @ temp @ ''_guest && i < '' @ count @ ''; i++)'' @ nl @ ''        '';
          around = add_prep (
            ''    '' @ guest_type @ '' *'' @ temp @ ''_guest = ('' @ guest_type @ '' *)(uintptr_t)'' @ expr @ '';'' @ nl @
            ''    '' @ Spell hc (PointerType False (v_host element)) temp @ '' = '' @ temp @ ''_guest ? malloc(sizeof(*'' @ temp @
            '') * ((size_t)'' @ count @ '' + 1)) : 0;'' @ nl @
            loop @ temp @ ''[i] = '' @ ScalarToHost hc element (temp @ ''_guest[i]'') location @ '';'' @ nl @
            ''    if ('' @ temp @ '')'' @ nl @ ''        '' @ temp @ ''['' @ count @ ''] = 0;'' @ nl) around
      in (''(void *)'' @ temp,
          add_post ((if writes_back
              then loop @ temp @ ''_guest[i] = ('' @ guest_type @ '')'' @ ScalarToGuest element (temp @ ''[i]'') @ '';'' @ nl
              else []) @ ''    free('' @ temp @ '');'' @ nl) around))"

text \<open>\<open>*value.pointee\<close>: what has no pointee is a null pointer.\<close>

definition HostStore :: "ASTContext \<Rightarrow> ASTContext \<Rightarrow> Value \<Rightarrow> string \<Rightarrow> string \<Rightarrow> Generator \<Rightarrow> string \<times> Generator" where
  "HostStore gc hc v expr target gen =
     (if v_kind v = KRecord
      then (case Mirror gc hc (v_guest v) (v_host v) gen of
              (mirror, gen) \<Rightarrow> (''    { '' @ Spell hc (v_host v) [] @ '' result = '' @ expr @ ''; '' @ mirror @ ''_to_guest(&'' @ target @
                 '', &result); }'' @ nl, gen))
      else (''    '' @ target @ '' = '' @ ScalarToGuest v expr @ '';'' @ nl, gen))"

section \<open>\<open>BlockBridge\<close> and \<open>HostBlockBridge\<close>\<close>

definition return_to_host :: "ASTContext \<Rightarrow> ASTContext \<Rightarrow> string \<Rightarrow> Value \<Rightarrow> string \<Rightarrow> Generator \<Rightarrow> string \<times> Generator" where
  "return_to_host gc hc indent result name gen =
     (if \<not> has_result result then ([], gen)
      else if v_kind result = KRecord
      then (case Mirror gc hc (v_guest result) (v_host result) gen of
              (mirror, gen) \<Rightarrow> (indent @ ''return '' @ mirror @ ''_to_host(&p.r);'' @ nl, gen))
      else (indent @ ''return '' @ ScalarToHost hc result ''p.r'' (place_of name 99) @ '';'' @ nl, gen))"

definition release_blocks :: "string \<Rightarrow> Parameter list \<Rightarrow> string" where
  "release_blocks indent params = concat (map (\<lambda>p. if v_kind (p_value p) = KBlock
     then indent @ ''xl_invoke(XL_GUEST__Block_release, p.'' @ p_name p @ '');'' @ nl else []) params)"

text \<open>The host's side of a guest block: its literal, around the conversions of its parameters.\<close>

definition block_text :: "ASTContext \<Rightarrow> ctype \<Rightarrow> string \<Rightarrow> Parameter list \<Rightarrow> string \<Rightarrow> string \<Rightarrow> string" where
  "block_text hc h name params conversions returned =
     (let args = host_args hc h params
      in ''static '' @ Spell hc h (name @ ''_host(uint64_t guest)'') @ nl @ ''{'' @ nl @
         ''    if (!guest)'' @ nl @ ''        return 0;'' @ nl @
         ''    XLGuestBlock *holder = [XLGuestBlock holderWithGuestBlock:guest];'' @ nl @
         ''    return [[^'' @ Spell hc (host_result h) [] @ ''('' @ (if args = [] then ''void'' else args) @ '') {'' @ nl @
         ''        struct '' @ name @ ''_pack p;'' @ nl @ ''        p.block = holder.guestBlock;'' @ nl @ conversions @
         ''        xl_invoke(XL_GUEST_'' @ name @ ''_guest, (uintptr_t)&p);'' @ nl @ release_blocks ''        '' params @ returned @
         ''    } copy] autorelease];'' @ nl @ ''}'' @ nl @ nl)"

text \<open>The guest's side of a host block, and the host's function behind it.\<close>

definition invoke_text :: "ASTContext \<Rightarrow> string \<Rightarrow> Parameter list \<Rightarrow> Value \<Rightarrow> string" where
  "invoke_text gc name params result =
     ''extern void xl_trap_'' @ name @ ''(struct '' @ name @ ''_pack *);'' @ nl @
     Spell gc (if has_result result then v_guest result else VoidType)
       (name @ ''_invoke('' @ ''struct xl_host_block *self'' @
        concat (map (\<lambda>p. '', '' @ Spell gc (v_guest (p_value p)) (p_name p)) params) @ '')'') @ nl @ ''{'' @ nl @
     ''    struct '' @ name @ ''_pack p;'' @ nl @ ''    p.host = self->host;'' @ nl @
     concat (map (\<lambda>p. ''    p.'' @ p_name p @ '' = '' @ GuestStore (p_value p) (p_name p) @ '';'' @ nl) params) @
     ''    xl_trap_'' @ name @ ''(&p);'' @ nl @
     (if has_result result then ''    return '' @ GuestLoad gc result ''p.r'' @ '';'' @ nl else []) @ ''}'' @ nl @ nl @
     ''const struct xl_host_block_descriptor '' @ name @
     ''_descriptor = {0, sizeof(struct xl_host_block), 0, xl_host_block_dispose};'' @ nl @ nl"

definition host_block_text :: "string \<Rightarrow> Around \<Rightarrow> string \<Rightarrow> string" where
  "host_block_text name around stored =
     ''void xl_h_'' @ name @ ''(State *state)'' @ nl @ ''{'' @ nl @ ''    struct '' @ name @ ''_pack *p = xl_argument(state);'' @ nl @
     prep around @ stored @ post around @ ''    xl_return(state);'' @ nl @ ''}'' @ nl @ nl @
     ''static uint64_t '' @ name @ ''_wrap(id block)'' @ nl @ ''{'' @ nl @ ''    return xl_host_block_wrap(block, XL_GUEST_'' @ name @
     ''_invoke, XL_GUEST_'' @ name @ ''_descriptor);'' @ nl @ ''}'' @ nl @ nl"

text \<open>
  The two bridges call each other for the blocks among the parameters: what the host hands to a guest block is wrapped for
  the guest, what the guest hands to a host block is wrapped for the host. A pointer of the value's own is not followed,
  so the types get smaller.
\<close>

function BlockBridge :: "ASTContext \<Rightarrow> ASTContext \<Rightarrow> ctype \<Rightarrow> ctype \<Rightarrow> Generator \<Rightarrow> (string \<times> Generator) option"
  and HostBlockBridge :: "ASTContext \<Rightarrow> ASTContext \<Rightarrow> ctype \<Rightarrow> ctype \<Rightarrow> Generator \<Rightarrow> (string \<times> Generator) option"
  and block_conversions :: "ASTContext \<Rightarrow> ASTContext \<Rightarrow> Parameter list \<Rightarrow> Generator \<Rightarrow> (string \<times> Generator) option"
  and HostLoad :: "ASTContext \<Rightarrow> ASTContext \<Rightarrow> Value \<Rightarrow> string \<Rightarrow> string \<Rightarrow> nat \<Rightarrow> Around \<Rightarrow> Generator \<Rightarrow>
    (string \<times> Around \<times> Generator) option"
  and host_loads :: "ASTContext \<Rightarrow> ASTContext \<Rightarrow> string \<Rightarrow> nat \<Rightarrow> Parameter list \<Rightarrow> Around \<Rightarrow> Generator \<Rightarrow>
    (string list \<times> Around \<times> Generator) option" where
  "BlockBridge gc hc g h gen =
     (case map_of (gen_blocks gen) (Spell hc h []) of
        Some name \<Rightarrow> Some (name, gen)
      | None \<Rightarrow>
          if function_proto g = None then None
          else
            let name = ''xl_block_'' @ dec_string (length (gen_blocks gen));
                gen = gen\<lparr>gen_blocks := omap_set (Spell hc h []) (name @ ''_host'') (gen_blocks gen)\<rparr>;
                params = proto_params gc hc ''b'' g h;
                result = proto_result gc hc g h;
                (gfields, gen) = pack_fields gc hc True params gen;
                (hfields, gen) = pack_fields gc hc False params gen;
                (gresult, gen) = result_field gc hc True result gen;
                call = ''(('' @ Spell gc g [] @ '')(void *)(uintptr_t)p->block)('' @ guest_args gc params @ '')'';
                gs = pack_struct (name @ ''_pack'') ('' uint64_t block;'' @ gfields @ gresult) @ guest_entry name call result;
                (hresult, gen) = result_field gc hc False result gen
            in do {
              (conversions, gen) \<leftarrow> block_conversions gc hc params gen;
              let (returned, gen) = return_to_host gc hc ''        '' result name gen;
              let hs = pack_struct (name @ ''_pack'') ('' uint64_t block;'' @ hfields @ hresult) @
                block_text hc h name params conversions returned;
              Some (name @ ''_host'', add_host hs (add_guest gs gen))
            })"
| "HostBlockBridge gc hc g h gen =
     (case map_of (gen_host_blocks gen) (Spell hc h []) of
        Some name \<Rightarrow> Some (name, gen)
      | None \<Rightarrow>
          let name = ''xl_hblock_'' @ dec_string (length (gen_host_blocks gen));
              gen = gen\<lparr>gen_host_blocks := omap_set (Spell hc h []) (name @ ''_wrap'') (gen_host_blocks gen)\<rparr>;
              params = proto_params gc hc ''b'' g h;
              result = (if function_proto g = None then new_value KVoid NullType NullType else proto_result gc hc g h);
              (gfields, gen) = pack_fields gc hc True params gen;
              (hfields, gen) = pack_fields gc hc False params gen;
              (gresult, gen) = result_field gc hc True result gen;
              (hresult, gen) = result_field gc hc False result gen;
              gs = pack_struct (name @ ''_pack'') ('' uint64_t host;'' @ gfields @ gresult) @ invoke_text gc name params result
          in do {
            (call_args, around, gen) \<leftarrow> host_loads gc hc name 0 params \<lparr>prep = [], post = []\<rparr> gen;
            let call = ''(('' @ Spell hc h [] @ '')(id)(uintptr_t)p->host)('' @ commas call_args @ '')'';
            let (stored, gen) = (if has_result result then HostStore gc hc result call ''p->r'' gen
                                 else (''    '' @ call @ '';'' @ nl, gen));
            let hs = pack_struct (name @ ''_pack'') ('' uint64_t host;'' @ hfields @ hresult) @ host_block_text name around stored;
            Some (name @ ''_wrap'', add_host hs (add_guest gs gen))
          })"
| "block_conversions gc hc [] gen = Some ([], gen)"
| "block_conversions gc hc (p # ps) gen = do {
     (conversion, gen) \<leftarrow>
       (if v_kind (p_value p) = KRecord
        then (case Mirror gc hc (v_guest (p_value p)) (v_host (p_value p)) gen of
                (mirror, gen) \<Rightarrow> Some (''        '' @ mirror @ ''_to_guest(&p.'' @ p_name p @ '', &'' @ p_name p @ '');'' @ nl, gen))
        else if v_kind (p_value p) = KBlock
        then (case HostBlockBridge gc hc (v_guest (p_value p)) (v_host (p_value p)) gen of
                None \<Rightarrow> None
              | Some (wrap, gen) \<Rightarrow> Some (''        p.'' @ p_name p @ '' = '' @ wrap @ ''('' @ p_name p @ '');'' @ nl, gen))
        else Some (''        p.'' @ p_name p @ '' = '' @ ScalarToGuest (p_value p) (p_name p) @ '';'' @ nl, gen));
     (rest, gen) \<leftarrow> block_conversions gc hc ps gen;
     Some (conversion @ rest, gen)
   }"
| "HostLoad gc hc v expr location index around gen =
     (case v_kind v of
        KProtocol \<Rightarrow> Some (''(Protocol *)xl_protocol('' @ expr @ '')'', around, gen)
      | KRecord \<Rightarrow> (case Mirror gc hc (v_guest v) (v_host v) gen of
          (mirror, gen) \<Rightarrow> Some (mirror @ ''_to_host(&'' @ expr @ '')'', around, gen))
      | KBlock \<Rightarrow> map_option (\<lambda>(bridge, gen). (bridge @ ''('' @ expr @ '')'', around, gen)) (BlockBridge gc hc (v_guest v) (v_host v) gen)
      | KCallback \<Rightarrow> map_option (\<lambda>(bridge, gen). (bridge @ ''('' @ expr @ '')'', around, gen)) (CallbackBridge gc hc (v_guest v) (v_host v) gen)
      | KOutSlot \<Rightarrow> map_option (\<lambda>pointee.
          (case out_slot hc pointee (''slot'' @ dec_string index) expr location around of (arg, around) \<Rightarrow> (arg, around, gen)))
          (v_pointee v)
      | KRecordPointer \<Rightarrow> map_option (\<lambda>pointee.
          (case Mirror gc hc (v_guest pointee) (v_host pointee) gen of
             (mirror, gen) \<Rightarrow>
               (case record_slot hc pointee (v_writes_back v) mirror (''record'' @ dec_string index) expr around of
                  (arg, around) \<Rightarrow> (arg, around, gen)))) (v_pointee v)
      | KArray \<Rightarrow> map_option (\<lambda>element.
          (case array_slot hc element (v_count v) (v_writes_back v) (''array'' @ dec_string index) expr location around of
             (arg, around) \<Rightarrow> (arg, around, gen))) (v_pointee v)
      | _ \<Rightarrow> Some (ScalarToHost hc v expr location, around, gen))"
| "host_loads gc hc name i [] around gen = Some ([], around, gen)"
| "host_loads gc hc name i (p # ps) around gen = do {
     (arg, around, gen) \<leftarrow> HostLoad gc hc (p_value p) (''p->'' @ p_name p) (place_of name i) i around gen;
     (rest, around, gen) \<leftarrow> host_loads gc hc name (i + 1) ps around gen;
     Some (arg # rest, around, gen)
   }"
  by pat_completeness auto

lemma Classify_keeps_types [simp]:
  "v_guest (Classify gc g hc h parameter) = g" "v_host (Classify gc g hc h parameter) = h"
proof -
  have "v_guest (Classify gc g hc h parameter) = g \<and> v_host (Classify gc g hc h parameter) = h"
  proof (cases g)
    case (PointerType c t)
    then show ?thesis by (cases "\<exists>f. t = FunctionType f") (auto simp: Classify_pointer Let_def)
  qed simp_all
  then show "v_guest (Classify gc g hc h parameter) = g" "v_host (Classify gc g hc h parameter) = h" by simp_all
qed

definition params_size :: "Parameter list \<Rightarrow> nat" where
  "params_size ps = size_list (\<lambda>p. size (v_guest (p_value p))) ps"

lemma params_size_simps [simp]: "params_size [] = 0" "params_size (p # ps) = Suc (size (v_guest (p_value p)) + params_size ps)"
  by (simp_all add: params_size_def)

lemma proto_params_size:
  assumes "function_proto g \<noteq> None"
  shows "params_size (proto_params gc hc letter g h) < size g"
proof -
  obtain r ps where p: "function_proto g = Some (r, ps)" using assms by auto
  have "params_size (map (\<lambda>(i, t). \<lparr>p_value = Classify gc t hc (host_param h i) True, p_name = letter @ dec_string i\<rparr>)
      (List.enumerate n ps)) = size_list size ps" for n
    by (induction ps arbitrary: n) simp_all
  moreover have "size_list size ps < size g"
    using p by (auto simp: function_proto_def split: ctype.splits)
  ultimately show ?thesis by (simp add: proto_params_def p)
qed

lemma proto_params_empty: "function_proto g = None \<Longrightarrow> proto_params gc hc letter g h = []"
  by (simp add: proto_params_def)

lemma proto_params_bound: "params_size (proto_params gc hc letter g h) \<le> size g"
  using proto_params_size [of g gc hc letter h] proto_params_empty [of g] by (cases "function_proto g") auto

termination BlockBridge
proof (relation "measure (\<lambda>x. case x of
      Inl (Inl (gc, hc, g, r)) \<Rightarrow> 3 * size g + 2
    | Inl (Inr (gc, hc, g, r)) \<Rightarrow> 3 * size g + 2
    | Inr (Inl (gc, hc, ps, r)) \<Rightarrow> 3 * params_size ps + 1
    | Inr (Inr (Inl (gc, hc, v, r))) \<Rightarrow> 3 * size (v_guest v) + 3
    | Inr (Inr (Inr (gc, hc, name, i, ps, r))) \<Rightarrow> 3 * params_size ps + 1)")
qed (use proto_params_bound in \<open>simp_all add: less_Suc_eq_le\<close>)

declare BlockBridge.simps [simp del] HostBlockBridge.simps [simp del] HostLoad.simps [simp del]

end
