(* ===== verification/Functions.thy ===== *)
theory Functions
  imports Emit
begin

text \<open>
  The bridges of C functions and variables, the next part of \<open>xlgen.cpp\<close>: \<open>EmitBridge\<close>, which both functions and
  messages use, \<open>EmitFunction\<close> with its special cases, \<open>EmitVariable\<close>, the hand-written bridges and \<open>Fault\<close>. The
  members \<open>variadic_words_\<close> and \<open>variant_alias_\<close>, which are set around one call, are arguments.
\<close>

definition unlines :: "string list \<Rightarrow> string" where
  "unlines ls = concat (map (\<lambda>l. l @ nl) ls)"

definition add_report :: "string \<Rightarrow> Generator \<Rightarrow> Generator" where
  "add_report line gen = gen\<lparr>gen_report := gen_report gen @ line @ nl\<rparr>"

definition passthrough_symbol :: "string \<Rightarrow> Generator \<Rightarrow> Generator" where
  "passthrough_symbol symbol gen = gen\<lparr>gen_passthrough := gen_passthrough gen @ symbol @ nl\<rparr>"

definition add_init :: "string \<Rightarrow> Generator \<Rightarrow> Generator" where
  "add_init s gen = gen\<lparr>gen_init := gen_init gen @ s\<rparr>"

definition count_unsupported :: "Generator \<Rightarrow> Generator" where
  "count_unsupported gen = gen\<lparr>gen_unsupported := gen_unsupported gen + 1\<rparr>"

text \<open>Loops whose steps write to the generator and may fail: one that gathers text, and one that does not.\<close>

primrec gather :: "('a \<Rightarrow> 's \<Rightarrow> (string \<times> 's) option) \<Rightarrow> 'a list \<Rightarrow> 's \<Rightarrow> (string \<times> 's) option" where
  "gather f [] s = Some ([], s)"
| "gather f (x # xs) s =
     (case f x s of
        None \<Rightarrow> None
      | Some (t, s) \<Rightarrow> (case gather f xs s of None \<Rightarrow> None | Some (rest, s) \<Rightarrow> Some (t @ rest, s)))"

primrec each :: "('a \<Rightarrow> 's \<Rightarrow> 's option) \<Rightarrow> 'a list \<Rightarrow> 's \<Rightarrow> 's option" where
  "each f [] s = Some s"
| "each f (x # xs) s = (case f x s of None \<Rightarrow> None | Some s \<Rightarrow> each f xs s)"

section \<open>\<open>Fault\<close>\<close>

definition Fault :: "string \<Rightarrow> string \<Rightarrow> Generator \<Rightarrow> Generator" where
  \<open>Fault symbol reason gen =
     (let weak = symbol \<in> set (gen_weak_only gen);
          gen = count_unsupported (add_report (symbol @ '': UNSUPPORTED: '' @ reason @
            (if weak then '' (weak import, left unbound)'' else [])) gen)
      in if weak then gen
         else let label = ''xl_message_'' @ dec_string (gen_counter gen);
                  message = c_name symbol @ '': '' @ reason
              in add_guest (
                   ''__attribute__((used)) static const char '' @ label @ ''[] __asm("_'' @ label @ ''") = "'' @ message @ ''";'' @ nl @
                   ''__asm__(".globl '' @ symbol @ asm_nl @ ''.p2align 2'' @ asm_nl @ symbol @ '':'' @ asm_nl @ ''    adrp x0, _'' @
                   label @ ''@PAGE'' @ asm_nl @ ''    add x0, x0, _'' @ label @ ''@PAGEOFF'' @ asm_nl @
                   ''    b _xl_trap_xl_unsupported'' @ asm_nl @ ''");'' @ nl @ nl)
                 (gen\<lparr>gen_counter := gen_counter gen + 1\<rparr>))\<close>

section \<open>\<open>EmitBridge\<close>\<close>

datatype CallKind = CallFunction | CallMessage

record FormatInfo =
  fmt_present :: bool
  fmt_object :: bool
  fmt_index :: nat
  fmt_va_variant :: string
  fmt_va_param :: "nat option"

definition no_format :: FormatInfo where
  "no_format = \<lparr>fmt_present = False, fmt_object = False, fmt_index = 0, fmt_va_variant = [], fmt_va_param = None\<rparr>"

text \<open>The arguments of a format go with a \<open>...\<close>, not with a \<open>va_list\<close> parameter.\<close>

definition fmt_dots :: "FormatInfo \<Rightarrow> bool" where
  "fmt_dots fmt \<longleftrightarrow> fmt_present fmt \<and> fmt_va_param fmt = None"

text \<open>Whether the indices the code uses are in range; it does not test them, and its callers keep them so.\<close>

definition indices_in_range :: "Parameter list \<Rightarrow> FormatInfo \<Rightarrow> nat \<Rightarrow> bool" where
  "indices_in_range params fmt words \<longleftrightarrow>
     (fmt_present fmt \<longrightarrow> fmt_index fmt < length params \<and>
       (case fmt_va_param fmt of None \<Rightarrow> True | Some i \<Rightarrow> i < length params)) \<and>
     (words \<noteq> 0 \<longrightarrow> words < length params)"

text \<open>What the guest's wrapper passes on: the named parameters, then the words of a variadic call.\<close>

definition wrapper_text :: "ASTContext \<Rightarrow> string \<Rightarrow> Signature \<Rightarrow> bool \<Rightarrow> FormatInfo \<Rightarrow> nat \<Rightarrow> string \<Rightarrow> string" where
  \<open>wrapper_text gc ident s message fmt words defined =
     (let params = sig_params s;
          named_params = take (length params - min words (length params)) params;
          args = (if message then [''id self, SEL _cmd''] else []) @
            map (\<lambda>p. Spell gc (v_guest (p_value p)) (p_name p)) named_params;
          args = commas args @ (if fmt_dots fmt \<or> words \<noteq> 0 then '', ...'' else []);
          args = (if args = [] then ''void'' else args)
      in Spell gc (if has_result (sig_result s) then v_guest (sig_result s) else VoidType) (defined @ ''('' @ args @ '')'') @ nl @
         ''{'' @ nl @ ''    struct xl_pack_'' @ ident @ '' p;'' @ nl @
         (if message then ''    p.self = (uint64_t)(uintptr_t)self;'' @ nl @ ''    p.sel = (uint64_t)(uintptr_t)_cmd;'' @ nl else []) @
         concat (map (\<lambda>p. ''    p.'' @ p_name p @ '' = '' @ GuestStore (p_value p) (p_name p) @ '';'' @ nl) named_params) @
         (if words = 0 then []
          else ''    va_list vap;'' @ nl @ ''    va_start(vap, '' @ p_name (last named_params) @ '');'' @ nl @
            concat (map (\<lambda>p. ''    p.'' @ p_name p @ '' = (uint64_t)va_arg(vap, unsigned long);'' @ nl)
              (drop (length named_params) params)) @ ''    va_end(vap);'' @ nl) @
         (if fmt_dots fmt
          then ''    va_list ap;'' @ nl @ ''    va_start(ap, '' @ p_name (last params) @ '');'' @ nl @ ''    p.va = (uint64_t)(uintptr_t)ap;'' @ nl
          else []) @
         ''    xl_trap_'' @ ident @ ''(&p);'' @ nl @
         (if fmt_dots fmt then ''    va_end(ap);'' @ nl else []) @
         (if has_result (sig_result s) then ''    return '' @ GuestLoad gc (sig_result s) ''p.r'' @ '';'' @ nl else []) @ ''}'' @ nl)\<close>

text \<open>The arguments of the host call; the format and a \<open>va_list\<close> parameter are replaced by what was marshalled.\<close>

primrec bridge_args :: "ASTContext \<Rightarrow> ASTContext \<Rightarrow> string \<Rightarrow> FormatInfo \<Rightarrow> nat \<Rightarrow> Parameter list \<Rightarrow> Around \<Rightarrow> Generator \<Rightarrow>
    (string list \<times> Around \<times> Generator) option" where
  \<open>bridge_args gc hc ident fmt i [] around gen = Some ([], around, gen)\<close>
| \<open>bridge_args gc hc ident fmt i (p # ps) around gen = do {
     (arg, around, gen) \<leftarrow>
       (if fmt_present fmt \<and> i = fmt_index fmt
        then Some (if fmt_object fmt then ''(id)format.object'' else ''format.text'', around, gen)
        else if fmt_present fmt \<and> fmt_va_param fmt = Some i then Some (''(va_list)format.arguments'', around, gen)
        else HostLoad gc hc (p_value p) (''p->'' @ p_name p) (place_of ident i) i around gen);
     (rest, around, gen) \<leftarrow> bridge_args gc hc ident fmt (i + 1) ps around gen;
     Some (arg # rest, around, gen)
   }\<close>

definition marshal_text :: "string \<Rightarrow> FormatInfo \<Rightarrow> Parameter list \<Rightarrow> string" where
  \<open>marshal_text ident fmt params =
     (let name = p_name (params ! fmt_index fmt);
          arguments = (case fmt_va_param fmt of None \<Rightarrow> ''p->va'' | Some i \<Rightarrow> ''p->'' @ p_name (params ! i))
      in ''    struct xl_format format;'' @ nl @ ''    xl_format_marshal(&format, '' @
         (if fmt_object fmt then ''0, (id)xl_narrow_pointer(p->'' @ name @ '', "'' @ ident @ ''", 0)''
          else ''(const char *)xl_narrow_pointer(p->'' @ name @ '', "'' @ ident @ ''", 0), 0'') @
         '', (const uint64_t *)(uintptr_t)'' @ arguments @ '', "'' @ ident @ ''");'' @ nl)\<close>

text \<open>The host call of a message: to the receiver's own method, or to the superclass's when the guest asked for that.\<close>

definition message_call :: "ASTContext \<Rightarrow> Signature \<Rightarrow> FormatInfo \<Rightarrow> string \<Rightarrow> string list \<Rightarrow> string" where
  \<open>message_call hc s fmt callee args =
     (let result = Spell hc (if has_result (sig_result s) then v_host (sig_result s) else VoidType) [] @ '' (*)('';
          types = concat (map (\<lambda>p. '', '' @ Spell hc (v_host (p_value p)) []) (sig_params s)) @
            (if fmt_present fmt then '', va_list'' else []) @ '')'';
          stret = has_result (sig_result s) \<and> v_kind (sig_result s) = KRecord \<and> 32 < type_size hc (v_host (sig_result s));
          call_args = '', (SEL)(uintptr_t)p->sel'' @ concat (map (\<lambda>a. '', '' @ a) args) @ '')'';
          plain = ''(('' @ result @ ''id, SEL'' @ types @ '')'' @ (if stret then ''objc_msgSend_stret'' else ''objc_msgSend'') @
            '')((id)xl_class_in(p->self)'' @ call_args;
          super = ''(('' @ result @ ''struct objc_super *, SEL'' @ types @ '')'' @
            (if stret then ''objc_msgSendSuper2_stret'' else ''objc_msgSendSuper2'') @ '')(&super_receiver'' @ call_args;
          direct = callee @ ''((id)xl_class_in(p->self)'' @ call_args
      in ''(super_class ? '' @ (if fmt_present fmt then direct else super) @ '' : '' @
         (if fmt_present fmt then direct else plain) @ '')'')\<close>

definition super_text :: string where
  \<open>super_text = ''    Class super_class = xl_take_super_class(state);'' @ nl @
     ''    struct objc_super super_receiver = {(id)xl_class_in(p->self), super_class};'' @ nl\<close>

text \<open>A libc call that answers -1 is logged at run time, with its first two arguments.\<close>

definition errno_trace :: "string \<Rightarrow> Signature \<Rightarrow> string" where
  \<open>errno_trace ident s =
     (if v_kind (sig_result s) = KInteger \<and> v_signed (sig_result s) \<and> sig_params s \<noteq> []
      then ''    xl_errno_trace("'' @ ident @ ''", (int64_t)p->r, (uint64_t)p->'' @ p_name (hd (sig_params s)) @ '', '' @
        (if 1 < length (sig_params s) then ''(uint64_t)p->'' @ p_name (sig_params s ! 1) else ''0'') @ '');'' @ nl
      else [])\<close>

definition pack_members :: "ASTContext \<Rightarrow> ASTContext \<Rightarrow> bool \<Rightarrow> bool \<Rightarrow> FormatInfo \<Rightarrow> Signature \<Rightarrow> Generator \<Rightarrow> string \<times> Generator" where
  \<open>pack_members gc hc guest message fmt s gen =
     (let (members, gen) = pack_fields gc hc guest (sig_params s) gen;
          (r, gen) = result_field gc hc guest (sig_result s) gen
      in ((if message then '' uint64_t self; uint64_t sel;'' else []) @ members @
          (if fmt_dots fmt then '' uint64_t va;'' else []) @ r, gen))\<close>

text \<open>The body of the host's function: the call, between what its arguments need before it and after it.\<close>

definition bridge_call :: "ASTContext \<Rightarrow> ASTContext \<Rightarrow> string \<Rightarrow> Signature \<Rightarrow> bool \<Rightarrow> string \<Rightarrow> FormatInfo \<Rightarrow> Generator \<Rightarrow>
    (string \<times> Generator) option" where
  \<open>bridge_call gc hc ident s message callee fmt gen = do {
     (args, around, gen) \<leftarrow> bridge_args gc hc ident fmt 0 (sig_params s) \<lparr>prep = [], post = []\<rparr> gen;
     let around = (if fmt_present fmt
       then add_post (''    xl_format_release(&format);'' @ nl) (add_prep (marshal_text ident fmt (sig_params s)) around) else around);
     let args = args @ (if fmt_dots fmt then [''(va_list)format.arguments''] else []);
     let around = (if message then add_prep super_text around else around);
     let call = (if message then message_call hc s fmt callee args else callee @ ''('' @ commas args @ '')'');
     let (stored, gen) = (if has_result (sig_result s)
       then (case HostStore gc hc (sig_result s) call ''p->r'' gen of
               (store, gen) \<Rightarrow> (store @ (if message then [] else errno_trace ident s), gen))
       else (''    '' @ call @ '';'' @ nl, gen));
     Some (prep around @ stored @ post around, gen)
   }\<close>

definition bridge_guest_text :: "ASTContext \<Rightarrow> string \<Rightarrow> Signature \<Rightarrow> bool \<Rightarrow> FormatInfo \<Rightarrow> nat \<Rightarrow> string \<Rightarrow> string \<Rightarrow> string" where
  \<open>bridge_guest_text gc ident s message fmt words guest_name members =
     (let name = (if message then ''xl_'' @ ident else guest_name);
          defined = (if message then name else ''xl_fn_'' @ ident)
      in pack_struct (''xl_pack_'' @ ident) members @ ''extern void xl_trap_'' @ ident @ ''(struct xl_pack_'' @ ident @ '' *);'' @ nl @
         wrapper_text gc ident s message fmt words defined @
         (if message then []
          else ''__asm__(".globl _'' @ name @ asm_nl @ ''.set _'' @ name @ '', _'' @ defined @ asm_nl @ ''");'' @ nl) @ nl)\<close>

definition bridge_host_text :: "string \<Rightarrow> string \<Rightarrow> string \<Rightarrow> string" where
  \<open>bridge_host_text ident members body =
     pack_struct (''xl_pack_'' @ ident) members @ ''void xl_h_'' @ ident @ ''(State *state)'' @ nl @ ''{'' @ nl @
     ''    struct xl_pack_'' @ ident @ '' *p = xl_argument(state);'' @ nl @ body @ ''    xl_return(state);'' @ nl @ ''}'' @ nl @ nl\<close>

definition EmitBridge :: "ASTContext \<Rightarrow> ASTContext \<Rightarrow> nat \<Rightarrow> string \<Rightarrow> Signature \<Rightarrow> CallKind \<Rightarrow> string \<Rightarrow> string \<Rightarrow> FormatInfo \<Rightarrow>
    string \<Rightarrow> Generator \<Rightarrow> (string \<times> Generator) option" where
  \<open>EmitBridge gc hc words ident s call_kind guest_name callee fmt manual gen =
     (if \<not> indices_in_range (sig_params s) fmt words then None
      else
        let message = (call_kind = CallMessage);
            name = (if message then ''xl_'' @ ident else guest_name);
            (gmembers, gen) = pack_members gc hc True message fmt s gen;
            (hmembers, gen) = pack_members gc hc False message fmt s gen;
            gs = bridge_guest_text gc ident s message fmt words guest_name gmembers
        in map_option (\<lambda>(body, gen). (name, add_host (bridge_host_text ident hmembers body) (add_guest gs gen)))
             (if manual \<noteq> [] then Some (''    '' @ manual @ ''(p);'' @ nl, gen)
              else bridge_call gc hc ident s message callee fmt gen))\<close>

section \<open>The bridges written by hand\<close>

definition EmitEmptyCollectionSingleton :: "string \<Rightarrow> string \<Rightarrow> Generator \<Rightarrow> Generator" where
  \<open>EmitEmptyCollectionSingleton symbol host_class gen =
     (let name = c_name symbol
      in add_report (symbol @ '': guest-owned empty '' @ host_class @ '' singleton, created at startup'')
           (add_init (''    *(uint64_t *)(uintptr_t)XL_GUEST_'' @ name @ '' = xl_object_out((uintptr_t)[['' @ host_class @ '' alloc] init]);'' @ nl)
             (add_guest (''id xl_data_'' @ name @ '' __asm__("'' @ symbol @ ''");'' @ nl @ nl) gen)))\<close>

definition pointer_value :: "ASTContext \<Rightarrow> ASTContext \<Rightarrow> Value" where
  \<open>pointer_value gc hc = new_value KPointer (PointerType False VoidType) (PointerType False VoidType)\<close>

definition EmitTlvBootstrap :: "ASTContext \<Rightarrow> ASTContext \<Rightarrow> Generator \<Rightarrow> Generator option" where
  \<open>EmitTlvBootstrap gc hc gen =
     map_option (\<lambda>(name, gen). add_report ''__tlv_bootstrap: thread-local storage bootstrap -> xl_manual__tlv_bootstrap'' gen)
       (EmitBridge gc hc 0 ''tlv_bootstrap''
         \<lparr>sig_params = [\<lparr>p_value = pointer_value gc hc, p_name = ''a0''\<rparr>], sig_result = pointer_value gc hc, sig_supported = True, sig_note = []\<rparr>
         CallFunction ''_tlv_bootstrap'' [] no_format ''xl_manual__tlv_bootstrap'' gen)\<close>

definition EmitTrampoline :: "string \<Rightarrow> string \<Rightarrow> Generator \<Rightarrow> Generator" where
  \<open>EmitTrampoline symbol trap gen =
     (let name = c_name symbol
      in add_report (symbol @ '': register-preserving trampoline to '' @ trap)
           (add_guest (''extern void xl_trap_'' @ trap @ ''(void);'' @ nl @ ''__asm__(".globl _'' @ name @ asm_nl @ ''.p2align 2'' @ asm_nl @
              ''_'' @ name @ '':'' @ asm_nl @ ''    b _xl_trap_'' @ trap @ asm_nl @ ''");'' @ nl @ nl) gen))\<close>

text \<open>\<open>functions\<close> is the lookup of a name in the guest's translation unit: the first function declared with it.\<close>

definition EmitManualFunction :: "ASTContext \<Rightarrow> (string \<Rightarrow> Declaration option) \<Rightarrow> string \<Rightarrow> nat \<Rightarrow> string \<Rightarrow> Generator \<Rightarrow> Generator" where
  \<open>EmitManualFunction gc functions symbol arguments handler gen =
     (let name = c_name symbol in
      case functions name of
        None \<Rightarrow> Fault symbol ''manual bridge has no matching declaration'' gen
      | Some d \<Rightarrow>
          if length (decl_params d) \<noteq> arguments then Fault symbol ''manual bridge has no matching declaration'' gen
          else
            let slots = map (\<lambda>i. ''a'' @ dec_string i) [0..<arguments];
                gs = ''struct __attribute__((packed)) xl_pack_'' @ name @ '' {'' @ concat (map (\<lambda>a. '' uint64_t '' @ a @ '';'') slots) @
                  '' uint64_t r; };'' @ nl @ ''extern void xl_trap_'' @ name @ ''(struct xl_pack_'' @ name @ '' *);'' @ nl @
                  Spell gc (decl_result d) (name @ ''('' @ commas (map (\<lambda>(a, n, t). Spell gc t a) (zip slots (decl_params d))) @ '')'') @ nl @
                  ''{'' @ nl @ ''    struct xl_pack_'' @ name @ '' p;'' @ nl @
                  concat (map (\<lambda>a. ''    p.'' @ a @ '' = (uint64_t)(uintptr_t)'' @ a @ '';'' @ nl) slots) @
                  ''    xl_trap_'' @ name @ ''(&p);'' @ nl @
                  (if decl_result d = VoidType then [] else ''    return ('' @ Spell gc (decl_result d) [] @ '')(uintptr_t)p.r;'' @ nl) @
                  ''}'' @ nl @ nl;
                hs = ''void '' @ handler @ ''(void *pack);'' @ nl @ ''void xl_h_'' @ name @ ''(State *state)'' @ nl @ ''{'' @ nl @ ''    '' @
                  handler @ ''(xl_argument(state));'' @ nl @ ''    xl_return(state);'' @ nl @ ''}'' @ nl @ nl
            in add_report (symbol @ '': manual bridge '' @ handler @ '' (the runtime keeps the address of the guest slot)'')
                 (add_host hs (add_guest gs gen)))\<close>

definition lazy_namer_guest :: string where
  \<open>lazy_namer_guest = unlines [
     ''extern void xl_trap_objc_setHook_lazyClassNamer(void *);'',
     ''static const char *xl_no_lazy_class_name(Class cls) { return 0; }'',
     ''void objc_setHook_lazyClassNamer(objc_hook_lazyClassNamer newValue, objc_hook_lazyClassNamer *oldOutValue)'',
     ''{'',
     ''    struct __attribute__((packed)) { uint64_t new_hook, old_out, none; } p;'',
     ''    p.new_hook = (uint64_t)(uintptr_t)newValue;'',
     ''    p.old_out = (uint64_t)(uintptr_t)oldOutValue;'',
     ''    p.none = (uint64_t)(uintptr_t)xl_no_lazy_class_name;'',
     ''    xl_trap_objc_setHook_lazyClassNamer(&p);'',
     ''}'',
     []]\<close>

definition lazy_namer_host :: string where
  \<open>lazy_namer_host = unlines [
     ''void xl_manual_objc_setHook_lazyClassNamer(void *pack);'',
     ''void xl_h_objc_setHook_lazyClassNamer(State *state)'',
     ''{'',
     ''    xl_manual_objc_setHook_lazyClassNamer(xl_argument(state));'',
     ''    xl_return(state);'',
     ''}'',
     []]\<close>

definition EmitLazyClassNamer :: "string \<Rightarrow> Generator \<Rightarrow> Generator" where
  \<open>EmitLazyClassNamer symbol gen =
     add_report (symbol @ '': manual bridge xl_manual_objc_setHook_lazyClassNamer (the runtime keeps the hook and asks it)'')
       (add_host lazy_namer_host (add_guest lazy_namer_guest gen))\<close>

definition image_name_guest :: string where
  \<open>image_name_guest = unlines [
     ''extern void xl_trap_objc_setHook_getImageName(void *);'',
     ''extern void xl_trap_xl_default_class_getImageName(void *);'',
     ''static BOOL xl_default_image_name(Class cls, const char **outImageName)'',
     ''{'',
     ''    struct __attribute__((packed)) { uint64_t cls, r; } p;'',
     ''    p.cls = (uint64_t)(uintptr_t)cls;'',
     ''    xl_trap_xl_default_class_getImageName(&p);'',
     ''    *outImageName = (const char *)(uintptr_t)p.r;'',
     ''    return p.r != 0;'',
     ''}'',
     [],
     ''void objc_setHook_getImageName(objc_hook_getImageName newValue, objc_hook_getImageName *outOldValue)'',
     ''{'',
     ''    struct __attribute__((packed)) { uint64_t new_hook, old_out, default_hook; } p;'',
     ''    p.new_hook = (uint64_t)(uintptr_t)newValue;'',
     ''    p.old_out = (uint64_t)(uintptr_t)outOldValue;'',
     ''    p.default_hook = (uint64_t)(uintptr_t)xl_default_image_name;'',
     ''    xl_trap_objc_setHook_getImageName(&p);'',
     ''}'',
     []]\<close>

definition image_name_host :: string where
  \<open>image_name_host = unlines [
     ''void xl_manual_objc_setHook_getImageName(void *pack);'',
     ''void xl_h_objc_setHook_getImageName(State *state)'',
     ''{'',
     ''    xl_manual_objc_setHook_getImageName(xl_argument(state));'',
     ''    xl_return(state);'',
     ''}'',
     [],
     ''void xl_manual_default_class_getImageName(void *pack);'',
     ''void xl_h_xl_default_class_getImageName(State *state)'',
     ''{'',
     ''    xl_manual_default_class_getImageName(xl_argument(state));'',
     ''    xl_return(state);'',
     ''}'',
     []]\<close>

definition EmitImageNameHook :: "string \<Rightarrow> Generator \<Rightarrow> Generator" where
  \<open>EmitImageNameHook symbol gen =
     add_report (symbol @ '': manual bridge xl_manual_objc_setHook_getImageName (class_getImageName asks the hook first)'')
       (add_host image_name_host (add_guest image_name_guest gen))\<close>

section \<open>\<open>EmitExec\<close>\<close>

definition exec_vectors :: "(string \<times> nat) list" where
  "exec_vectors = [(''_execv'', 2), (''_execve'', 3), (''_execvp'', 2), (''_execvP'', 3)]"

definition exec_lists :: "(string \<times> string) list" where
  "exec_lists = [(''_execl'', ''_execv''), (''_execle'', ''_execve''), (''_execlp'', ''_execvp'')]"

definition exec_list_text :: "string \<Rightarrow> string \<Rightarrow> string" where
  \<open>exec_list_text name vector =
     ''int '' @ name @ ''(const char *path, const char *arg0, ...)'' @ nl @ unlines [
       ''{'',
       ''    __builtin_va_list ap, count;'',
       ''    unsigned long n = 0;'',
       ''    __builtin_va_start(ap, arg0);'',
       ''    if (arg0) {'',
       ''        __builtin_va_copy(count, ap);'',
       ''        for (n = 1; __builtin_va_arg(count, const char *); n++)'',
       ''            ;'',
       ''        __builtin_va_end(count);'',
       ''    }'',
       ''    const char *argv[n + 1];'',
       ''    argv[0] = arg0;'',
       ''    for (unsigned long i = 1; i < n; i++)'',
       ''        argv[i] = __builtin_va_arg(ap, const char *);'',
       ''    argv[n] = 0;''] @
     (if name = ''execle''
      then unlines [
       ''    if (n)'',
       ''        (void)__builtin_va_arg(ap, const char *);'',
       ''    char *const *envp = __builtin_va_arg(ap, char *const *);'',
       ''    __builtin_va_end(ap);''] @
        ''    return '' @ c_name vector @ ''(path, (char *const *)argv, envp);'' @ nl
      else unlines [''    __builtin_va_end(ap);''] @ ''    return '' @ c_name vector @ ''(path, (char *const *)argv);'' @ nl) @
     ''}'' @ nl @ nl\<close>

text \<open>\<open>vectors.at\<close> throws for a name that is not there, which is not asked for.\<close>

definition EmitExec :: "ASTContext \<Rightarrow> (string \<Rightarrow> Declaration option) \<Rightarrow> string \<Rightarrow> Generator \<Rightarrow> Generator option" where
  \<open>EmitExec gc functions symbol gen =
     (let vector = (case map_of exec_lists symbol of None \<Rightarrow> symbol | Some v \<Rightarrow> v) in
      case (if vector \<in> set (gen_exec gen) then Some gen
            else map_option (\<lambda>arguments. EmitManualFunction gc functions vector arguments (''xl_manual_'' @ c_name vector)
                   (gen\<lparr>gen_exec := oset_insert vector (gen_exec gen)\<rparr>)) (map_of exec_vectors vector)) of
        None \<Rightarrow> None
      | Some gen \<Rightarrow> Some (
          if map_of exec_lists symbol = None \<or> symbol \<in> set (gen_exec gen) then gen
          else add_report (symbol @ '': guest-side argument collection, then '' @ vector)
                 (add_guest (exec_list_text (c_name symbol) vector) (gen\<lparr>gen_exec := oset_insert symbol (gen_exec gen)\<rparr>))))\<close>

section \<open>\<open>EmitFunction\<close>\<close>

text \<open>A function as declared: \<open>fn_format\<close> is its format attribute, the kind of format and the number of its parameter from one.\<close>

record FunctionDecl =
  fn_name :: string
  fn_decl :: Declaration
  fn_variadic :: bool
  fn_format :: "(string \<times> nat) option"

definition section_helper_text :: string where
  \<open>section_helper_text = unlines [
     ''static const struct section_64 *xl_find_section_64(const struct mach_header_64 *mhp, const char *segname, const char *sectname)'',
     ''{'',
     ''    const struct load_command *lc = (const struct load_command *)(mhp + 1);'',
     ''    for (uint32_t i = 0; i < mhp->ncmds; i++, lc = (const struct load_command *)((const char *)lc + lc->cmdsize)) {'',
     ''        if (lc->cmd != LC_SEGMENT_64)'',
     ''            continue;'',
     ''        const struct segment_command_64 *seg = (const struct segment_command_64 *)lc;'',
     ''        const struct section_64 *sect = (const struct section_64 *)(seg + 1);'',
     ''        for (uint32_t j = 0; j < seg->nsects; j++, sect++)'',
     ''            if (!strncmp(sect->sectname, sectname, 16) && !strncmp(sect->segname, segname, 16))'',
     ''                return sect;'',
     ''    }'',
     ''    return 0;'',
     ''}'',
     []]\<close>

definition emit_section_helper :: "Generator \<Rightarrow> Generator" where
  "emit_section_helper gen =
     (if gen_section_helper gen then gen else add_guest section_helper_text (gen\<lparr>gen_section_helper := True\<rparr>))"

definition getsect_text :: string where
  \<open>getsect_text = unlines [
     ''const struct section_64 *getsectbynamefromheader_64(const struct mach_header_64 *mhp, const char *segname, const char *sectname)'',
     ''{'',
     ''    return (mhp && mhp->magic == MH_MAGIC_64) ? xl_find_section_64(mhp, segname, sectname) : 0;'',
     ''}'',
     []]\<close>

definition dlsym_text :: string where
  \<open>dlsym_text = unlines [
     ''int _availability_version_check(uint32_t count, const void *versions);'',
     ''void *dlsym(void *handle, const char *symbol)'',
     ''{'',
     ''    if (symbol && !strcmp(symbol, "_availability_version_check"))'',
     ''        return (void *)_availability_version_check;'',
     ''    return xl_fn_dlsym(handle, symbol);'',
     ''}'',
     []]\<close>

definition getsectiondata_text :: string where
  \<open>getsectiondata_text = unlines [
     ''uint8_t *getsectiondata(const struct mach_header_64 *mhp, const char *segname, const char *sectname, unsigned long *size)'',
     ''{'',
     ''    if (!mhp || mhp->magic != MH_MAGIC_64)'',
     ''        return xl_fn_getsectiondata(mhp, segname, sectname, size);'',
     ''    const struct load_command *lc = (const struct load_command *)(mhp + 1);'',
     ''    intptr_t slide = 0;'',
     ''    for (uint32_t i = 0; i < mhp->ncmds; i++, lc = (const struct load_command *)((const char *)lc + lc->cmdsize)) {'',
     ''        if (lc->cmd == LC_SEGMENT_64 && !strcmp(((const struct segment_command_64 *)lc)->segname, "__TEXT")) {'',
     ''            slide = (intptr_t)mhp - (intptr_t)((const struct segment_command_64 *)lc)->vmaddr;'',
     ''            break;'',
     ''        }'',
     ''    }'',
     ''    const struct section_64 *sect = xl_find_section_64(mhp, segname, sectname);'',
     ''    if (!sect) {'',
     ''        if (xl_entitlements_size && !strcmp(segname, "__TEXT") && !strcmp(sectname, "__entitlements")) {'',
     ''            if (size)'',
     ''                *size = xl_entitlements_size;'',
     ''            return (uint8_t *)xl_entitlements;'',
     ''        }'',
     ''        return 0;'',
     ''    }'',
     ''    if (size)'',
     ''        *size = (unsigned long)sect->size;'',
     ''    return (uint8_t *)(sect->addr + slide);'',
     ''}'',
     []]\<close>

text \<open>The entitlements, when a file with some was given, as the bytes of an array.\<close>

definition entitlements_text :: "nat list option \<Rightarrow> string" where
  \<open>entitlements_text entitlements =
     (case entitlements of
        Some (b # bs) \<Rightarrow>
          ''static const unsigned char xl_entitlements[] = {'' @ concat (map (\<lambda>c. dec_string c @ '','') (b # bs)) @ ''};'' @ nl @
          ''static const unsigned long xl_entitlements_size = sizeof xl_entitlements;'' @ nl
      | _ \<Rightarrow> ''static const unsigned char xl_entitlements[] = {0};'' @ nl @
          ''static const unsigned long xl_entitlements_size = 0;'' @ nl)\<close>

definition unattributed_printf :: "(string \<times> string \<times> nat) list" where
  "unattributed_printf = [(''sqlite3_mprintf'', ''sqlite3_vmprintf'', 0), (''sqlite3_snprintf'', ''sqlite3_vsnprintf'', 2)]"

definition format_functions :: "(string \<times> string) list" where
  "format_functions =
     [(''printf'', ''vprintf''), (''fprintf'', ''vfprintf''), (''sprintf'', ''vsprintf''), (''snprintf'', ''vsnprintf''),
      (''asprintf'', ''vasprintf''), (''dprintf'', ''vdprintf''), (''syslog'', ''vsyslog''), (''NSLog'', ''NSLogv''),
      (''asl_log'', ''asl_vlog'')]"

definition valist_readers :: "string list" where
  "valist_readers =
     [''vprintf'', ''vfprintf'', ''vsprintf'', ''vsnprintf'', ''vasprintf'', ''vdprintf'', ''vsyslog'', ''asl_vlog'', ''NSLogv'']"

definition fixed_variadic :: "(string \<times> nat) list" where
  "fixed_variadic = [(''open'', 1), (''fcntl'', 1), (''ioctl'', 1), (''openat'', 1)]"

definition variadic_shims :: "(string \<times> string) list" where
  "variadic_shims = [(''openat'', ''xl_shim_openat'')]"

definition shimmed :: "string list" where
  "shimmed =
     [''malloc_type_malloc'', ''malloc_type_calloc'', ''malloc_type_realloc'', ''malloc_type_aligned_alloc'', ''mkdirat'',
      ''unlinkat'', ''fstatat'', ''readlinkat'', ''fchmodat'', ''fchownat'', ''faccessat'', ''renameat'', ''linkat'', ''symlinkat'',
      ''fdopendir'', ''sqlite3_bind_blob64'', ''sqlite3_bind_text64'', ''sqlite3_malloc64'', ''sqlite3_realloc64'',
      ''CCRandomGenerateBytes'', ''clock_gettime'', ''clock_getres'', ''sqlite3_prepare_v3'', ''CGImageGetUTType'',
      ''CGImageSourceRemoveCacheAtIndex'']"

text \<open>What the host calls for a function its release lacks: a shim, which has the function's name but for one.\<close>

definition shim_callee :: "string \<Rightarrow> string" where
  "shim_callee name =
     (if name \<in> set shimmed then ''xl_shim_'' @ name else if name = ''__exp10'' then ''xl_shim_exp10'' else name)"

text \<open>The format of a function; \<open>Inl ()\<close> is one the generator has no bridge for.\<close>

definition function_format :: "FunctionDecl \<Rightarrow> unit + FormatInfo" where
  "function_format g =
     (case fn_format g of
        None \<Rightarrow>
          (case (if fn_variadic g then map_of unattributed_printf (fn_name g) else None) of
             None \<Rightarrow> Inr no_format
           | Some (variant, i) \<Rightarrow> Inr (no_format\<lparr>fmt_present := True, fmt_index := i, fmt_va_variant := variant\<rparr>))
      | Some (kind, idx) \<Rightarrow>
          let fmt = \<lparr>fmt_present = True, fmt_object = (kind = ''NSString''), fmt_index = idx - 1, fmt_va_variant = [], fmt_va_param = None\<rparr>
          in case (if fn_variadic g then map_of format_functions (fn_name g) else None) of
               Some variant \<Rightarrow> Inr (fmt\<lparr>fmt_va_variant := variant\<rparr>)
             | None \<Rightarrow>
                 if \<not> fn_variadic g \<and> fn_name g \<in> set valist_readers \<and> 1 \<le> length (decl_params (fn_decl g))
                 then Inr (fmt\<lparr>fmt_va_variant := fn_name g, fmt_va_param := Some (length (decl_params (fn_decl g)) - 1)\<rparr>)
                 else Inl ())"

definition raw_word :: "ASTContext \<Rightarrow> ASTContext \<Rightarrow> Value" where
  "raw_word gc hc = new_value KPointer (builtin gc ''UIntPtrTy'') (builtin hc ''UIntPtrTy'')"

definition raw_words :: "ASTContext \<Rightarrow> ASTContext \<Rightarrow> string \<Rightarrow> nat \<Rightarrow> Parameter list" where
  "raw_words gc hc letter n = map (\<lambda>i. \<lparr>p_value = raw_word gc hc, p_name = letter @ dec_string i\<rparr>) [0..<n]"

definition bridged :: "(string \<times> Generator) option \<Rightarrow> Generator option" where
  "bridged = map_option snd"

text \<open>The words a variadic function may take go after its parameters.\<close>

definition EmitFixedVariadic :: "ASTContext \<Rightarrow> ASTContext \<Rightarrow> string \<Rightarrow> FunctionDecl \<Rightarrow> FunctionDecl \<Rightarrow> Generator \<Rightarrow> Generator option" where
  "EmitFixedVariadic gc hc symbol g h gen =
     (case map_of fixed_variadic (fn_name g) of
        None \<Rightarrow> Some (Fault symbol ''variadic function without a format attribute'' gen)
      | Some words \<Rightarrow>
          let s = FromFunction gc hc (fn_decl g) (fn_decl h)
          in if \<not> sig_supported s then Some (Fault symbol (sig_note s) gen)
             else bridged (EmitBridge gc hc words (fn_name g)
                    (s\<lparr>sig_params := sig_params s @ raw_words gc hc ''v'' words\<rparr>) CallFunction (fn_name g)
                    (case map_of variadic_shims (fn_name g) of Some shim \<Rightarrow> shim | None \<Rightarrow> fn_name g) no_format [] gen))"

definition variant_id :: "string \<Rightarrow> string" where
  "variant_id alias_name = map (\<lambda>c. if c = CHR ''$'' then CHR ''_'' else c) alias_name"

text \<open>The head of an image is passed as the pointer it is; a function without parameters would be the code's to refuse.\<close>

definition EmitSectionData :: "ASTContext \<Rightarrow> ASTContext \<Rightarrow> nat list option \<Rightarrow> Signature \<Rightarrow> string \<Rightarrow> FormatInfo \<Rightarrow> string \<Rightarrow> Generator \<Rightarrow>
    Generator option" where
  "EmitSectionData gc hc entitlements s callee fmt name gen =
     (if sig_params s = [] then None
      else map_option (\<lambda>gen. add_guest getsectiondata_text (add_guest (entitlements_text entitlements) (emit_section_helper gen)))
        (bridged (EmitBridge gc hc 0 name
           (s\<lparr>sig_params := (sig_params s)[0 := (hd (sig_params s))\<lparr>p_value := pointer_value gc hc\<rparr>]\<rparr>)
           CallFunction ''xl_unused_getsectiondata_alias'' callee fmt [] gen)))"

definition EmitFunction :: "ASTContext \<Rightarrow> ASTContext \<Rightarrow> nat list option \<Rightarrow> string \<Rightarrow> string \<Rightarrow> FunctionDecl \<Rightarrow> FunctionDecl \<Rightarrow>
    Generator \<Rightarrow> Generator option" where
  "EmitFunction gc hc entitlements alias_name symbol g h gen =
     (let name = fn_name g in
      if name = ''getsectbynamefromheader_64''
      then Some (add_report (symbol @ '': guest-side Mach-O section lookup (64-bit guest header)'')
             (add_guest getsect_text (emit_section_helper gen)))
      else case function_format g of
        Inl _ \<Rightarrow> Some (Fault symbol ''formatted function without a known va_list variant'' gen)
      | Inr fmt \<Rightarrow>
          if fn_variadic g \<and> \<not> fmt_present fmt then EmitFixedVariadic gc hc symbol g h gen
          else
            let s = FromFunction gc hc (fn_decl g) (fn_decl h);
                callee = (if fmt_present fmt then fmt_va_variant fmt else shim_callee name)
            in if \<not> sig_supported s then Some (Fault symbol (sig_note s) gen)
               else if name = ''dlsym''
               then map_option (add_guest dlsym_text)
                      (bridged (EmitBridge gc hc 0 name s CallFunction ''xl_unused_dlsym_alias'' callee fmt [] gen))
               else if name = ''getsectiondata'' then EmitSectionData gc hc entitlements s callee fmt name gen
               else if alias_name \<noteq> []
               then bridged (EmitBridge gc hc 0 (variant_id alias_name) s CallFunction alias_name callee fmt [] gen)
               else bridged (EmitBridge gc hc 0 name s CallFunction name callee fmt [] gen))"

section \<open>\<open>EmitVariable\<close>\<close>

definition guest_data :: "ASTContext \<Rightarrow> string \<Rightarrow> string \<Rightarrow> ctype \<Rightarrow> string" where
  \<open>guest_data gc symbol name t = Spell gc t (''xl_data_'' @ name) @ '' __asm__("'' @ symbol @ ''");'' @ nl @ nl\<close>

definition unsupported_data :: "string \<Rightarrow> Generator \<Rightarrow> Generator" where
  "unsupported_data line gen = count_unsupported (add_report line gen)"

text \<open>A pointer is copied as a pointer, whatever it points to.\<close>

definition variable_value :: "ASTContext \<Rightarrow> ASTContext \<Rightarrow> ctype \<Rightarrow> ctype \<Rightarrow> Value" where
  "variable_value gc hc g h =
     (case Classify gc g hc h False of
        Value k vg vh sgd gb hb note pointee n wb obj \<Rightarrow>
          Value (if is_any_pointer g \<or> is_block_pointer g then KPointer else k) vg vh sgd gb hb note pointee n wb obj)"

definition EmitVariable :: "ASTContext \<Rightarrow> ASTContext \<Rightarrow> string \<Rightarrow> string \<Rightarrow> ctype \<Rightarrow> ctype \<Rightarrow> Generator \<Rightarrow> Generator" where
  "EmitVariable gc hc symbol name g h gen =
     (let v = variable_value gc hc g h in
      if fst (SameLayout gc g hc h {}) then add_report (symbol @ '': host data with an identical layout'') (passthrough_symbol symbol gen)
      else if v_kind v = KRecord
      then if \<not> fst (Leaves gc g hc h [] [] 0 [])
           then unsupported_data (symbol @ '': UNSUPPORTED: data struct with an unconvertible field'') gen
           else (case Mirror gc hc g h gen of
                   (mirror, gen) \<Rightarrow>
                     add_report (symbol @ '': guest copy of host data struct, filled at startup'')
                       (add_init (''    if (&'' @ name @ '')'' @ nl @ ''        '' @ mirror @ ''_to_guest((struct '' @ mirror @
                          '' *)(uintptr_t)XL_GUEST_'' @ name @ '', &'' @ name @ '');'' @ nl)
                         (add_guest (guest_data gc symbol name g) gen)))
      else if v_kind v = KFloating
      then let ty = (if v_guest_bits v = 32 then ''float'' else ''double'')
           in add_report (symbol @ '': guest copy of host floating data, filled at startup'')
                (add_init (''    if (&'' @ name @ '')'' @ nl @ ''        *('' @ ty @ '' *)(uintptr_t)XL_GUEST_'' @ name @ '' = ('' @ ty @ '')'' @
                   name @ '';'' @ nl)
                  (add_guest (guest_data gc symbol name g) gen))
      else if v_kind v \<noteq> KInteger \<and> v_kind v \<noteq> KPointer
      then unsupported_data (symbol @ '': UNSUPPORTED: data of a different layout'') gen
      else add_report (symbol @ '': guest copy of host data, filled at startup'')
             (add_init (''    if (&'' @ name @ '')'' @ nl @ ''        *(uint64_t *)(uintptr_t)XL_GUEST_'' @ name @ '' = '' @
                ScalarToGuest v name @ '';'' @ nl)
               (add_guest (guest_data gc symbol name g) gen)))"

end
