(* ===== verification/Emit_Facts.thy ===== *)
theory Emit_Facts
  imports Emit Bridge_Facts
begin

text \<open>
  What every part of the generator keeps: nothing written is lost, the tables of bridges only grow, the wrappers of
  methods get names no wrapper had (\<open>grows_by\<close>); and which types the bridges of blocks and function pointers can be
  written for (\<open>carried\<close>).
\<close>

section \<open>Growth\<close>

definition imp_names :: "nat \<Rightarrow> nat \<Rightarrow> (string \<times> u64) list \<Rightarrow> bool" where
  "imp_names a b imps \<longleftrightarrow>
     (\<exists>ks. map fst imps = map (\<lambda>k. ''xl_imp_'' @ dec_string k) ks \<and> sorted_wrt (<) ks \<and> (\<forall>k \<in> set ks. a \<le> k \<and> k < b))"

lemma dec_string_inj: "dec_string m = dec_string n \<Longrightarrow> m = n"
proof -
  assume e: "dec_string m = dec_string n"
  have "set (digits_in 10 k) \<subseteq> {..<16}" for k using digits_less [of 10 k] by force
  then have "inj_on hex_char (set (digits_in 10 m) \<union> set (digits_in 10 n))"
    using inj_on_subset [OF inj_on_hex_char] by blast
  then have "digits_in 10 m = digits_in 10 n" using e unfolding dec_string_def by (metis map_inj_on)
  then show "m = n" by (metis undigits_digits)
qed

text \<open>What is made from encodings is a structure.\<close>

definition records_grow :: "(bool \<Rightarrow> (string, ctype) omap) \<Rightarrow> (bool \<Rightarrow> (string, ctype) omap) \<Rightarrow> bool" where
  "records_grow a b \<longleftrightarrow> (\<forall>guest k t. map_of (b guest) k = Some t \<longrightarrow> map_of (a guest) k = Some t \<or> (\<exists>d. t = RecordType d))"

lemma records_grow_refl [simp]: "records_grow a a"
  by (simp add: records_grow_def)

lemma records_grow_trans: "records_grow a b \<Longrightarrow> records_grow b c \<Longrightarrow> records_grow a c"
  unfolding records_grow_def by blast

text \<open>A table of bridges: the \<open>k\<close>th entry made has the number \<open>k\<close> in its name.\<close>

definition numbered :: "string \<Rightarrow> string \<Rightarrow> (string, string) omap \<Rightarrow> bool" where
  "numbered pfx sfx t \<longleftrightarrow> snd ` set t = (\<lambda>k. pfx @ dec_string k @ sfx) ` {..<length t}"

definition tables_numbered :: "(string, string) omap \<Rightarrow> (string, string) omap \<Rightarrow> (string, string) omap \<Rightarrow> (string, string) omap \<Rightarrow> bool" where
  "tables_numbered blocks host_blocks callbacks invokers \<longleftrightarrow>
     numbered ''xl_block_'' ''_host'' blocks \<and> numbered ''xl_hblock_'' ''_wrap'' host_blocks \<and>
     numbered ''xl_callback_'' ''_host'' callbacks \<and> numbered ''xl_invoke_'' [] invokers"

lemma omap_set_fresh:
  "map_of t k = None \<Longrightarrow> set (omap_set k v t) = insert (k, v) (set t) \<and> length (omap_set k v t) = Suc (length t)"
  by (induction t) (auto split: if_splits)

lemma numbered_step:
  "numbered pfx sfx t \<Longrightarrow> map_of t k = None \<Longrightarrow> numbered pfx sfx (omap_set k (pfx @ dec_string (length t) @ sfx) t)"
  using omap_set_fresh [of t k "pfx @ dec_string (length t) @ sfx"] by (simp add: numbered_def lessThan_Suc)

lemma numbered_distinct:
  assumes "numbered pfx sfx t"
  shows "distinct (map snd t)"
proof -
  have "inj (\<lambda>k. pfx @ dec_string k @ sfx)" by (auto intro!: injI dest: dec_string_inj)
  then have "card (snd ` set t) = length t" using assms by (simp add: numbered_def card_image inj_on_subset)
  then show ?thesis by (intro card_distinct) simp
qed

text \<open>Every mirror the generator knows is a structure of the host's file.\<close>

definition mirror_head :: "string \<Rightarrow> string" where
  "mirror_head name = ''struct __attribute__((packed)) '' @ name @ '' {''"

definition mirrors_defined :: "string list \<Rightarrow> string \<Rightarrow> bool" where
  "mirrors_defined mirrors written \<longleftrightarrow> (\<forall>name \<in> set mirrors. sublist (mirror_head name) written)"

text \<open>
  What defines a symbol in the guest's file: an assembler label or name, a function of C, or one behind the declaration of its
  trap, spelt by Clang.
\<close>

definition defined_in :: "string \<Rightarrow> string \<Rightarrow> bool" where
  \<open>defined_in symbol written \<longleftrightarrow>
     sublist (''.globl '' @ symbol @ asm_nl) written \<or> sublist ('' __asm__("'' @ symbol @ ''")'') written \<or>
     (\<exists>c args. c \<in> {CHR '' '', CHR ''*''} \<and> CHR 0x0A \<notin> set args \<and>
        sublist (c # c_name symbol @ ''('' @ args @ '')'' @ nl @ ''{'') written) \<or>
     (\<exists>declared. sublist (''extern void xl_trap_'' @ c_name symbol @ ''(struct xl_pack_'' @ c_name symbol @ '' *);'' @ nl @ declared @
        nl @ ''{'' @ nl @ ''    struct xl_pack_'' @ c_name symbol @ '' p;'') written)\<close>

lemma defined_in_prefix:
  assumes "defined_in symbol a" and "prefix a b"
  shows "defined_in symbol b"
proof -
  have m: "sublist s a \<Longrightarrow> sublist s b" for s
    using prefix_imp_sublist [OF assms(2)] sublist_order.order_trans by blast
  show ?thesis using assms(1) unfolding defined_in_def by (elim disj_forward ex_forward conj_forward m)
qed

lemma sublist_between: "sublist s (a @ s @ b)"
  by (auto simp: sublist_def)

lemma defined_function:
  assumes "c \<in> {CHR '' '', CHR ''*''}" and "CHR 0x0A \<notin> set args"
    and "written = a @ [c] @ c_name symbol @ ''('' @ args @ '')'' @ nl @ ''{'' @ b"
  shows "defined_in symbol written"
proof -
  have "sublist (c # c_name symbol @ ''('' @ args @ '')'' @ nl @ ''{'') (a @ (c # c_name symbol @ ''('' @ args @ '')'' @ nl @ ''{'') @ b)"
    by (rule sublist_between)
  then have s: "sublist (c # c_name symbol @ ''('' @ args @ '')'' @ nl @ ''{'') written"
    by (simp only: assms(3) append_assoc append_Cons append_Nil)
  have "\<exists>c args. c \<in> {CHR '' '', CHR ''*''} \<and> CHR 0x0A \<notin> set args \<and> sublist (c # c_name symbol @ ''('' @ args @ '')'' @ nl @ ''{'') written"
    by (rule exI [of _ c], rule exI [of _ args]) (intro conjI assms(1,2) s)
  then show ?thesis unfolding defined_in_def by (rule disjI2 [OF disjI2 [OF disjI1]])
qed

text \<open>A text of whole lines, and one in which a line starts in a given way.\<close>

definition lined :: "string \<Rightarrow> bool" where
  "lined t \<longleftrightarrow> t = [] \<or> last t = CHR 0x0A"

definition line_starts :: "string \<Rightarrow> string \<Rightarrow> bool" where
  "line_starts s t \<longleftrightarrow> (\<exists>a b. t = a @ s @ b \<and> lined a)"

lemma lined_simps [simp]: "lined []" "lined (a @ nl)" "lined (a @ b @ nl)" "lined (a @ b @ c @ nl)"
  by (simp_all add: lined_def nl_def)

lemma line_starts_between: "lined a \<Longrightarrow> line_starts s (a @ s @ b)"
  unfolding line_starts_def by blast

lemma line_starts_prefix: "line_starts s t \<Longrightarrow> prefix t u \<Longrightarrow> line_starts s u"
  unfolding line_starts_def prefix_def by (metis append_assoc)

text \<open>A symbol that is defined, or reported.\<close>

definition settled_symbol :: "string \<Rightarrow> string \<Rightarrow> string \<Rightarrow> bool" where
  "settled_symbol symbol written reported \<longleftrightarrow>
     defined_in symbol written \<or> line_starts (symbol @ '': UNSUPPORTED: '') reported"

lemma settled_symbol_prefix:
  "settled_symbol symbol a r \<Longrightarrow> prefix a b \<Longrightarrow> prefix r s \<Longrightarrow> settled_symbol symbol b s"
  unfolding settled_symbol_def using defined_in_prefix line_starts_prefix by blast

definition execs_settled :: "string list \<Rightarrow> string list \<Rightarrow> string \<Rightarrow> string \<Rightarrow> bool" where
  "execs_settled earlier later written reported \<longleftrightarrow> (\<forall>s \<in> set later. s \<in> set earlier \<or> settled_symbol s written reported)"

lemma execs_settled_refl [simp]: "execs_settled x x written reported"
  by (simp add: execs_settled_def)

lemma execs_settled_trans:
  "execs_settled x y a r \<Longrightarrow> execs_settled y z b s \<Longrightarrow> prefix a b \<Longrightarrow> prefix r s \<Longrightarrow> execs_settled x z b s"
  unfolding execs_settled_def using settled_symbol_prefix by blast

text \<open>The wrappers and the layout errors that were added, and what else may change.\<close>

definition grows_by :: "(string \<times> u64) list \<Rightarrow> string list \<Rightarrow> Generator \<Rightarrow> Generator \<Rightarrow> bool" where
  "grows_by imps errs a b \<longleftrightarrow>
     gen_imps b = gen_imps a @ imps \<and> imp_names (gen_counter a) (gen_counter b) imps \<and>
     gen_layout_errors b = gen_layout_errors a @ errs \<and>
     gen_counter a \<le> gen_counter b \<and> gen_unsupported a \<le> gen_unsupported b \<and>
     prefix (gen_guest a) (gen_guest b) \<and> prefix (gen_host a) (gen_host b) \<and> prefix (gen_host_types a) (gen_host_types b) \<and>
     prefix (gen_init a) (gen_init b) \<and> prefix (gen_report a) (gen_report b) \<and>
     prefix (gen_passthrough a) (gen_passthrough b) \<and>
     (lined (gen_report a) \<and> lined (gen_passthrough a) \<longrightarrow> lined (gen_report b) \<and> lined (gen_passthrough b) \<and>
      execs_settled (gen_exec a) (gen_exec b) (gen_guest b) (gen_report b)) \<and>
     prefix (gen_mirrors a) (gen_mirrors b) \<and>
     (mirrors_defined (gen_mirrors a) (gen_host_types a) \<longrightarrow> mirrors_defined (gen_mirrors b) (gen_host_types b)) \<and>
     map_of (gen_blocks a) \<subseteq>\<^sub>m map_of (gen_blocks b) \<and> map_of (gen_host_blocks a) \<subseteq>\<^sub>m map_of (gen_host_blocks b) \<and>
     map_of (gen_callbacks a) \<subseteq>\<^sub>m map_of (gen_callbacks b) \<and> map_of (gen_invokers a) \<subseteq>\<^sub>m map_of (gen_invokers b) \<and>
     records_grow (gen_records a) (gen_records b) \<and> 
     (tables_numbered (gen_blocks a) (gen_host_blocks a) (gen_callbacks a) (gen_invokers a) \<longrightarrow>
      tables_numbered (gen_blocks b) (gen_host_blocks b) (gen_callbacks b) (gen_invokers b))"

abbreviation grows :: "Generator \<Rightarrow> Generator \<Rightarrow> bool" where "grows \<equiv> grows_by [] []"

lemma imp_names_Nil [simp]: "imp_names a b []"
  by (simp add: imp_names_def)

lemma imp_names_distinct:
  assumes "imp_names a b imps"
  shows "distinct (map fst imps)"
proof -
  obtain ks where k: "map fst imps = map (\<lambda>k. ''xl_imp_'' @ dec_string k) ks" "sorted_wrt (<) ks"
    using assms unfolding imp_names_def by blast
  have "inj (\<lambda>k. ''xl_imp_'' @ dec_string k)" by (auto intro!: injI dest: dec_string_inj)
  then show ?thesis unfolding k(1) using k(2) by (simp only: distinct_map strict_sorted_iff) (auto intro: inj_on_subset)
qed

lemma imp_names_append:
  assumes "imp_names a b xs" and "imp_names b c ys" and "a \<le> b" and "b \<le> c"
  shows "imp_names a c (xs @ ys)"
proof -
  obtain ks where k: "map fst xs = map (\<lambda>k. ''xl_imp_'' @ dec_string k) ks" "sorted_wrt (<) ks" "\<forall>k \<in> set ks. a \<le> k \<and> k < b"
    using assms(1) unfolding imp_names_def by blast
  obtain ls where l: "map fst ys = map (\<lambda>k. ''xl_imp_'' @ dec_string k) ls" "sorted_wrt (<) ls" "\<forall>k \<in> set ls. b \<le> k \<and> k < c"
    using assms(2) unfolding imp_names_def by blast
  have "sorted_wrt (<) (ks @ ls)" using k l by (fastforce simp: sorted_wrt_append)
  with k l assms(3-) show ?thesis unfolding imp_names_def by (intro exI [of _ "ks @ ls"]) auto
qed

lemma grows_refl [simp]: "grows a a"
  by (simp add: grows_by_def)

lemma grows_by_trans:
  assumes "grows_by i e a b" and "grows_by i' e' b c"
  shows "grows_by (i @ i') (e @ e') a c"
proof -
  have g: "prefix (gen_guest b) (gen_guest c)" "prefix (gen_report b) (gen_report c)" using assms(2) unfolding grows_by_def by blast+
  have e: "lined (gen_report a) \<and> lined (gen_passthrough a) \<longrightarrow> lined (gen_report c) \<and> lined (gen_passthrough c) \<and>
      execs_settled (gen_exec a) (gen_exec c) (gen_guest c) (gen_report c)"
  proof
    assume "lined (gen_report a) \<and> lined (gen_passthrough a)"
    then have b: "lined (gen_report b) \<and> lined (gen_passthrough b) \<and> execs_settled (gen_exec a) (gen_exec b) (gen_guest b) (gen_report b)"
      using assms(1) unfolding grows_by_def by blast
    then have c: "lined (gen_report c) \<and> lined (gen_passthrough c) \<and> execs_settled (gen_exec b) (gen_exec c) (gen_guest c) (gen_report c)"
      using assms(2) unfolding grows_by_def by blast
    show "lined (gen_report c) \<and> lined (gen_passthrough c) \<and> execs_settled (gen_exec a) (gen_exec c) (gen_guest c) (gen_report c)"
      using b c execs_settled_trans [OF _ _ g] by blast
  qed
  have "imp_names (gen_counter a) (gen_counter c) (i @ i')"
    using assms imp_names_append unfolding grows_by_def by blast
  then show ?thesis
    unfolding grows_by_def
    by (intro conjI e; use assms in \<open>unfold grows_by_def, elim conjE\<close>)
      (auto intro: prefix_order.trans map_le_trans records_grow_trans)
qed

lemma grows_trans: "grows a b \<Longrightarrow> grows_by i e b c \<Longrightarrow> grows_by i e a c"
  using grows_by_trans [of "[]" "[]" a b i e c] by simp

lemma grows_trans': "grows_by i e a b \<Longrightarrow> grows b c \<Longrightarrow> grows_by i e a c"
  using grows_by_trans [of i e a b "[]" "[]" c] by simp

lemma map_le_update: "m k = None \<Longrightarrow> m \<subseteq>\<^sub>m m(k \<mapsto> v)"
  by (auto simp: map_le_def)

named_theorems grow \<open>which steps of the generator only add\<close>

lemma add_grows [grow]: "grows gen (add_guest s gen)" "grows gen (add_host s gen)"
  by (simp_all add: grows_by_def add_guest_def add_host_def)

lemma mirrors_defined_snoc: "mirrors_defined ms s \<Longrightarrow> mirrors_defined (ms @ [name]) (s @ mirror_head name @ rest)"
proof -
  have "sublist s (s @ mirror_head name @ rest)" and "sublist (mirror_head name) (s @ mirror_head name @ rest)"
    by (auto simp: sublist_def)
  then show "mirrors_defined ms s \<Longrightarrow> mirrors_defined (ms @ [name]) (s @ mirror_head name @ rest)"
    by (auto simp: mirrors_defined_def dest: sublist_order.order_trans)
qed

lemma Mirror_grows [grow]: "Mirror gc hc g h gen = (name, gen') \<Longrightarrow> grows gen gen'"
  using mirrors_defined_snoc [of "gen_mirrors gen" "gen_host_types gen" "mirror_name gc g"]
  by (auto simp: Mirror_def Let_def grows_by_def mirror_head_def split: if_splits)

lemma PackField_grows [grow]: "PackField gc hc v guest gen = (t, gen') \<Longrightarrow> grows gen gen'"
  by (cases "v_kind v") (auto simp: PackField_def dest: Mirror_grows split: if_splits prod.splits)

lemma pack_fields_grows [grow]: "pack_fields gc hc guest ps gen = (t, gen') \<Longrightarrow> grows gen gen'"
proof (induction ps arbitrary: gen t)
  case (Cons p ps)
  then show ?case by (auto dest!: PackField_grows intro: grows_trans split: prod.splits)
qed simp

lemma result_field_grows [grow]: "result_field gc hc guest v gen = (t, gen') \<Longrightarrow> grows gen gen'"
  by (auto simp: result_field_def intro: pack_fields_grows split: if_splits simp del: pack_fields.simps)

lemma return_to_host_grows [grow]: "return_to_host gc hc indent v name gen = (t, gen') \<Longrightarrow> grows gen gen'"
  by (auto simp: return_to_host_def dest: Mirror_grows split: if_splits prod.splits)

lemma HostStore_grows [grow]: "HostStore gc hc v expr target gen = (t, gen') \<Longrightarrow> grows gen gen'"
  by (auto simp: HostStore_def dest: Mirror_grows split: if_splits prod.splits)

section \<open>Which types have bridges\<close>

text \<open>A block type all whose parameters have bridges too; a function pointer needs a prototype only.\<close>

fun carried :: "ctype \<Rightarrow> bool" where
  "carried (BlockPointerType (FunctionType (Some (r, ps)))) = list_all carried ps"
| "carried (BlockPointerType t) = False"
| "carried (PointerType c (FunctionType None)) = False"
| "carried t = True"

text \<open>The parameters of a block or function pointer type.\<close>

definition inner_types :: "ctype \<Rightarrow> ctype list" where
  "inner_types g = (case function_proto g of None \<Rightarrow> [] | Some (r, ps) \<Rightarrow> ps)"

text \<open>A value whose conversion can be written.\<close>

definition convertible :: "Value \<Rightarrow> bool" where
  "convertible v \<longleftrightarrow>
     (v_kind v \<in> {KOutSlot, KRecordPointer, KArray} \<longrightarrow> v_pointee v \<noteq> None) \<and>
     (v_kind v = KBlock \<longrightarrow> (\<exists>t. v_guest v = BlockPointerType t) \<and> carried (v_guest v)) \<and>
     (v_kind v = KCallback \<longrightarrow> (\<exists>c t. v_guest v = PointerType c (FunctionType t)) \<and> carried (v_guest v))"

lemma carried_block: "carried (BlockPointerType t) \<longleftrightarrow> (\<exists>r ps. t = FunctionType (Some (r, ps)) \<and> list_all carried ps)"
  by (cases "BlockPointerType t" rule: carried.cases) auto

lemma carried_callback: "carried (PointerType c (FunctionType t)) \<longleftrightarrow> t \<noteq> None"
  by (cases t) auto

lemma Classify_convertible:
  assumes "carried g"
  shows "convertible (Classify gc g hc h parameter)"
proof (cases g)
  case (PointerType c t)
  then show ?thesis
  proof (cases "\<exists>f. t = FunctionType f")
    case True
    with PointerType assms show ?thesis by (auto simp: convertible_def new_value_def)
  next
    case False
    with PointerType show ?thesis
      by (auto simp: convertible_def Classify_pointer Let_def new_value_def noted_value_def)
  qed
qed (use assms in \<open>auto simp: convertible_def new_value_def noted_value_def\<close>)

section \<open>The bridges\<close>

text \<open>What is known of a step that may fail: when it does not, and that it only adds.\<close>

definition adds :: "bool \<Rightarrow> Generator \<Rightarrow> ('a \<times> Generator) option \<Rightarrow> bool" where
  "adds ok gen r \<longleftrightarrow> (ok \<longrightarrow> r \<noteq> None) \<and> (\<forall>x gen'. r = Some (x, gen') \<longrightarrow> grows gen gen')"

definition adds2 :: "bool \<Rightarrow> Generator \<Rightarrow> ('a \<times> 'b \<times> Generator) option \<Rightarrow> bool" where
  "adds2 ok gen r \<longleftrightarrow> (ok \<longrightarrow> r \<noteq> None) \<and> (\<forall>x y gen'. r = Some (x, y, gen') \<longrightarrow> grows gen gen')"

lemma addsD: "adds ok gen (Some (x, gen')) \<Longrightarrow> grows gen gen'"
  by (simp add: adds_def)

lemma add_table_grows:
  "map_of (gen_blocks gen) k = None \<Longrightarrow>
    grows gen (gen\<lparr>gen_blocks := omap_set k ((''xl_block_'' @ dec_string (length (gen_blocks gen))) @ ''_host'') (gen_blocks gen)\<rparr>)"
  "map_of (gen_host_blocks gen) k = None \<Longrightarrow>
    grows gen (gen\<lparr>gen_host_blocks := omap_set k ((''xl_hblock_'' @ dec_string (length (gen_host_blocks gen))) @ ''_wrap'') (gen_host_blocks gen)\<rparr>)"
  "map_of (gen_callbacks gen) k = None \<Longrightarrow>
    grows gen (gen\<lparr>gen_callbacks := omap_set k ((''xl_callback_'' @ dec_string (length (gen_callbacks gen))) @ ''_host'') (gen_callbacks gen)\<rparr>)"
  "map_of (gen_invokers gen) k = None \<Longrightarrow>
    grows gen (gen\<lparr>gen_invokers := omap_set k (''xl_invoke_'' @ dec_string (length (gen_invokers gen))) (gen_invokers gen)\<rparr>)"
  using numbered_step [of "''xl_block_''" "''_host''" "gen_blocks gen" k] numbered_step [of "''xl_hblock_''" "''_wrap''" "gen_host_blocks gen" k]
    numbered_step [of "''xl_callback_''" "''_host''" "gen_callbacks gen" k] numbered_step [of "''xl_invoke_''" "[]" "gen_invokers gen" k]
  by (simp_all add: grows_by_def map_le_update tables_numbered_def)

text \<open>The members of a pack on both sides.\<close>

definition both_packs :: "ASTContext \<Rightarrow> ASTContext \<Rightarrow> Parameter list \<Rightarrow> Value \<Rightarrow> Generator \<Rightarrow>
    (string \<times> string \<times> string \<times> string) \<times> Generator" where
  "both_packs gc hc params result gen =
     (let (gfields, gen) = pack_fields gc hc True params gen;
          (hfields, gen) = pack_fields gc hc False params gen;
          (gresult, gen) = result_field gc hc True result gen;
          (hresult, gen) = result_field gc hc False result gen
      in ((gfields, hfields, gresult, hresult), gen))"

lemma both_packs_grows: "both_packs gc hc params result gen = (x, gen') \<Longrightarrow> grows gen gen'"
  unfolding both_packs_def
  by (auto dest!: pack_fields_grows result_field_grows intro: grows_trans split: prod.splits)

lemma CallbackBridge_sound: "adds (function_proto g \<noteq> None) gen (CallbackBridge gc hc g h gen)"
proof (cases "map_of (gen_callbacks gen) (Spell hc h [])")
  case (Some a)
  then show ?thesis by (simp add: CallbackBridge_def adds_def)
next
  case None
  let ?gen = "gen\<lparr>gen_callbacks := omap_set (Spell hc h [])
      ((''xl_callback_'' @ dec_string (length (gen_callbacks gen))) @ ''_host'') (gen_callbacks gen)\<rparr>"
  obtain gf hf gr hr gen1 where b: "both_packs gc hc (proto_params gc hc ''c'' g h) (proto_result gc hc g h) ?gen = ((gf, hf, gr, hr), gen1)"
    by (metis prod.collapse)
  have "grows gen gen1" using both_packs_grows [OF b] add_table_grows(3) [OF None] grows_trans by blast
  then have "grows gen (add_host y (add_guest x gen1))" for x y using add_grows grows_trans by blast
  with b None show ?thesis
    by (auto simp: CallbackBridge_def adds_def both_packs_def Let_def split: prod.splits)
qed


lemma inner_types_block: "carried (BlockPointerType t) \<Longrightarrow> list_all carried (inner_types (BlockPointerType t))"
  by (auto simp: carried_block inner_types_def function_proto_def)

lemma carried_function_proto: "carried (BlockPointerType t) \<Longrightarrow> function_proto (BlockPointerType t) \<noteq> None"
  by (auto simp: carried_block function_proto_def)

lemma proto_params_value:
  "p \<in> set (proto_params gc hc letter g h) \<Longrightarrow> \<exists>t \<in> set (inner_types g). \<exists>h'. p_value p = Classify gc t hc h' True"
  by (cases "function_proto g") (auto simp: proto_params_def inner_types_def in_set_enumerate_eq, blast intro: nth_mem)

definition blocks_ok :: "Parameter list \<Rightarrow> bool" where
  "blocks_ok ps \<longleftrightarrow> (\<forall>p \<in> set ps. v_kind (p_value p) = KBlock \<longrightarrow> list_all carried (inner_types (v_guest (p_value p))))"

definition params_ok :: "Parameter list \<Rightarrow> bool" where
  "params_ok ps \<longleftrightarrow> (\<forall>p \<in> set ps. convertible (p_value p))"

lemma params_ok_blocks: "params_ok ps \<Longrightarrow> blocks_ok ps"
  using inner_types_block by (fastforce simp: params_ok_def blocks_ok_def convertible_def)

lemma params_ok_proto:
  assumes "list_all carried (inner_types g)"
  shows "params_ok (proto_params gc hc letter g h)"
  using assms Classify_convertible by (fastforce simp: params_ok_def list_all_iff dest: proto_params_value)

lemma BlockBridge_step:
  assumes "\<And>gen. adds (blocks_ok (proto_params gc hc ''b'' g h)) gen (block_conversions gc hc (proto_params gc hc ''b'' g h) gen)"
  shows "adds (function_proto g \<noteq> None \<and> list_all carried (inner_types g)) gen (BlockBridge gc hc g h gen)"
proof (cases "map_of (gen_blocks gen) (Spell hc h [])")
  case (Some a)
  then show ?thesis by (subst BlockBridge.simps) (simp add: adds_def)
next
  case None
  show ?thesis
  proof (cases "function_proto g")
    case None
    then show ?thesis by (subst BlockBridge.simps) (simp add: adds_def split: option.split)
  next
    case (Some proto)
    define name where "name = ''xl_block_'' @ dec_string (length (gen_blocks gen))"
    let ?gen = "gen\<lparr>gen_blocks := omap_set (Spell hc h []) (name @ ''_host'') (gen_blocks gen)\<rparr>"
    let ?params = "proto_params gc hc ''b'' g h"
    let ?result = "proto_result gc hc g h"
    obtain gf gen1 where p1: "pack_fields gc hc True ?params ?gen = (gf, gen1)" by (metis prod.collapse)
    obtain hf gen2 where p2: "pack_fields gc hc False ?params gen1 = (hf, gen2)" by (metis prod.collapse)
    obtain gr gen3 where p3: "result_field gc hc True ?result gen2 = (gr, gen3)" by (metis prod.collapse)
    obtain hr gen4 where p4: "result_field gc hc False ?result gen3 = (hr, gen4)" by (metis prod.collapse)
    have g4: "grows gen gen4"
      using grows_trans [OF add_table_grows(1) [OF None, folded name_def] grows_trans [OF pack_fields_grows [OF p1]
        grows_trans [OF pack_fields_grows [OF p2] grows_trans [OF result_field_grows [OF p3] result_field_grows [OF p4]]]]] .
    note eq = BlockBridge.simps [of gc hc g h gen, unfolded None Some option.case Let_def, folded name_def,
        unfolded p1 p2 p3 p4 prod.case]
    show ?thesis
    proof (cases "block_conversions gc hc ?params gen4")
      case None
      with assms [of gen4] have "\<not> blocks_ok ?params" by (simp add: adds_def)
      then have "\<not> list_all carried (inner_types g)" using params_ok_blocks params_ok_proto by blast
      then show ?thesis by (simp add: eq adds_def None)
    next
      case (Some c)
      obtain conversions gen5 where c: "c = (conversions, gen5)" by (cases c)
      have g5: "grows gen4 gen5" using assms [of gen4] Some c by (simp add: adds_def)
      obtain returned gen6 where r: "return_to_host gc hc ''        '' ?result name gen5 = (returned, gen6)" by (metis prod.collapse)
      have "grows gen gen6" using grows_trans [OF g4 grows_trans [OF g5 return_to_host_grows [OF r]]] .
      then have "grows gen (add_host y (add_guest x gen6))" for x y using add_grows grows_trans by blast
      then show ?thesis by (simp add: eq adds_def Some c r)
    qed
  qed
qed

lemma HostBlockBridge_step:
  assumes "\<And>gen name. adds2 (params_ok (proto_params gc hc ''b'' g h)) gen
    (host_loads gc hc name 0 (proto_params gc hc ''b'' g h) \<lparr>prep = [], post = []\<rparr> gen)"
  shows "adds (list_all carried (inner_types g)) gen (HostBlockBridge gc hc g h gen)"
proof (cases "map_of (gen_host_blocks gen) (Spell hc h [])")
  case (Some a)
  then show ?thesis by (subst HostBlockBridge.simps) (simp add: adds_def)
next
  case None
  define name where "name = ''xl_hblock_'' @ dec_string (length (gen_host_blocks gen))"
  let ?gen = "gen\<lparr>gen_host_blocks := omap_set (Spell hc h []) (name @ ''_wrap'') (gen_host_blocks gen)\<rparr>"
  let ?params = "proto_params gc hc ''b'' g h"
  define result where "result = (if function_proto g = None then new_value KVoid NullType NullType else proto_result gc hc g h)"
  obtain gf gen1 where p1: "pack_fields gc hc True ?params ?gen = (gf, gen1)" by (metis prod.collapse)
  obtain hf gen2 where p2: "pack_fields gc hc False ?params gen1 = (hf, gen2)" by (metis prod.collapse)
  obtain gr gen3 where p3: "result_field gc hc True result gen2 = (gr, gen3)" by (metis prod.collapse)
  obtain hr gen4 where p4: "result_field gc hc False result gen3 = (hr, gen4)" by (metis prod.collapse)
  have g4: "grows gen gen4"
    using grows_trans [OF add_table_grows(2) [OF None, folded name_def] grows_trans [OF pack_fields_grows [OF p1]
      grows_trans [OF pack_fields_grows [OF p2] grows_trans [OF result_field_grows [OF p3] result_field_grows [OF p4]]]]] .
  note eq = HostBlockBridge.simps [of gc hc g h gen, unfolded None option.case Let_def, folded name_def result_def,
      unfolded p1 p2 p3 p4 prod.case]
  show ?thesis
  proof (cases "host_loads gc hc name 0 ?params \<lparr>prep = [], post = []\<rparr> gen4")
    case None
    with assms [of gen4 name] have "\<not> params_ok ?params" by (simp add: adds2_def)
    then have "\<not> list_all carried (inner_types g)" using params_ok_proto by blast
    then show ?thesis by (simp add: eq adds_def None)
  next
    case (Some c)
    obtain args around gen5 where c: "c = (args, around, gen5)" by (cases c)
    have g5: "grows gen4 gen5" using assms [of gen4 name] Some c by (simp add: adds2_def)
    let ?call = "''(('' @ Spell hc h [] @ '')(id)(uintptr_t)p->host)('' @ commas args @ '')''"
    obtain stored gen6 where r: "(if has_result result then HostStore gc hc result ?call ''p->r'' gen5
        else (''    '' @ ?call @ '';'' @ nl, gen5)) = (stored, gen6)" by (metis prod.collapse)
    have "grows gen5 gen6" using r by (auto dest: HostStore_grows split: if_splits)
    then have "grows gen gen6" using grows_trans [OF g4 grows_trans [OF g5]] by blast
    then have "grows gen (add_host y (add_guest x gen6))" for x y using add_grows grows_trans by blast
    then show ?thesis by (simp add: eq adds_def Some c r [simplified])
  qed
qed

lemma block_conversions_step:
  assumes "\<And>gen. v_kind (p_value p) = KBlock \<Longrightarrow> adds (list_all carried (inner_types (v_guest (p_value p)))) gen
      (HostBlockBridge gc hc (v_guest (p_value p)) (v_host (p_value p)) gen)"
    and "\<And>gen. adds (blocks_ok ps) gen (block_conversions gc hc ps gen)"
  shows "adds (blocks_ok (p # ps)) gen (block_conversions gc hc (p # ps) gen)"
proof -
  define first where "first = (if v_kind (p_value p) = KRecord
        then (case Mirror gc hc (v_guest (p_value p)) (v_host (p_value p)) gen of
                (mirror, gen) \<Rightarrow> Some (''        '' @ mirror @ ''_to_guest(&p.'' @ p_name p @ '', &'' @ p_name p @ '');'' @ nl, gen))
        else if v_kind (p_value p) = KBlock
        then (case HostBlockBridge gc hc (v_guest (p_value p)) (v_host (p_value p)) gen of
                None \<Rightarrow> None
              | Some (wrap, gen) \<Rightarrow> Some (''        p.'' @ p_name p @ '' = '' @ wrap @ ''('' @ p_name p @ '');'' @ nl, gen))
        else Some (''        p.'' @ p_name p @ '' = '' @ ScalarToGuest (p_value p) (p_name p) @ '';'' @ nl, gen))"
  have f: "adds (blocks_ok (p # ps)) gen first"
    using assms(1) [of gen] unfolding first_def adds_def blocks_ok_def
    by (auto dest: Mirror_grows split: option.splits prod.splits)
  note eq = block_conversions.simps(2) [of gc hc p ps gen, folded first_def]
  show ?thesis
  proof (cases first)
    case None
    with f eq show ?thesis by (simp add: adds_def)
  next
    case (Some x)
    obtain c gen1 where x: "x = (c, gen1)" by (cases x)
    have g1: "grows gen gen1" using f Some x by (simp add: adds_def)
    have "adds (blocks_ok ps) gen1 (block_conversions gc hc ps gen1)" by (rule assms(2))
    with eq Some x g1 show ?thesis
      by (cases "block_conversions gc hc ps gen1") (auto simp: adds_def blocks_ok_def intro: grows_trans)
  qed
qed

lemma HostLoad_step:
  assumes "\<And>gen. v_kind v = KBlock \<Longrightarrow> adds (function_proto (v_guest v) \<noteq> None \<and> list_all carried (inner_types (v_guest v))) gen
      (BlockBridge gc hc (v_guest v) (v_host v) gen)"
  shows "adds2 (convertible v) gen (HostLoad gc hc v expr location index around gen)"
proof (cases "v_kind v")
  case KBlock
  have "convertible v \<Longrightarrow> function_proto (v_guest v) \<noteq> None \<and> list_all carried (inner_types (v_guest v))"
    using KBlock carried_function_proto inner_types_block by (auto simp: convertible_def)
  with KBlock show ?thesis
    using assms [of gen] by (subst HostLoad.simps) (auto simp: adds_def adds2_def)
next
  case KCallback
  have "convertible v \<Longrightarrow> function_proto (v_guest v) \<noteq> None"
    using KCallback by (auto simp: convertible_def carried_callback function_proto_def)
  with KCallback show ?thesis
    using CallbackBridge_sound [of "v_guest v" gen gc hc "v_host v"]
    by (subst HostLoad.simps) (auto simp: adds_def adds2_def)
next
  case KRecord
  then show ?thesis by (subst HostLoad.simps) (auto simp: adds2_def dest: Mirror_grows split: prod.splits)
next
  case KRecordPointer
  have "grows gen (snd (Mirror gc hc g h gen))" for g h by (rule Mirror_grows) (rule surjective_pairing)
  with KRecordPointer show ?thesis
    by (subst HostLoad.simps) (auto simp: adds2_def convertible_def case_prod_unfold)
next
  case KOutSlot
  then show ?thesis by (subst HostLoad.simps) (auto simp: adds2_def convertible_def case_prod_unfold)
next
  case KArray
  then show ?thesis by (subst HostLoad.simps) (auto simp: adds2_def convertible_def case_prod_unfold)
qed (subst HostLoad.simps, simp add: adds2_def)+

lemma host_loads_step:
  assumes "\<And>gen around location. adds2 (convertible (p_value p)) gen
      (HostLoad gc hc (p_value p) (''p->'' @ p_name p) location i around gen)"
    and "\<And>gen around. adds2 (params_ok ps) gen (host_loads gc hc name (i + 1) ps around gen)"
  shows "adds2 (params_ok (p # ps)) gen (host_loads gc hc name i (p # ps) around gen)"
proof (cases "HostLoad gc hc (p_value p) (''p->'' @ p_name p) (place_of name i) i around gen")
  case None
  with assms(1) [of gen "place_of name i" around] show ?thesis by (simp add: adds2_def params_ok_def)
next
  case (Some x)
  obtain arg around1 gen1 where x: "x = (arg, around1, gen1)" by (cases x)
  have "grows gen gen1" using assms(1) [of gen "place_of name i" around] Some x by (simp add: adds2_def)
  with Some x assms(2) [of gen1 around1] show ?thesis
    by (cases "host_loads gc hc name (i + 1) ps around1 gen1") (auto simp: adds2_def params_ok_def intro: grows_trans)
qed

lemma bridges_sound_below:
  "(3 * size g + 2 \<le> n \<longrightarrow>
     adds (function_proto g \<noteq> None \<and> list_all carried (inner_types g)) gen (BlockBridge gc hc g h gen) \<and>
     adds (list_all carried (inner_types g)) gen (HostBlockBridge gc hc g h gen)) \<and>
   (3 * params_size ps + 1 \<le> n \<longrightarrow>
     adds (blocks_ok ps) gen (block_conversions gc hc ps gen) \<and>
     adds2 (params_ok ps) gen (host_loads gc hc name i ps around gen)) \<and>
   (3 * size (v_guest v) + 3 \<le> n \<longrightarrow> adds2 (convertible v) gen (HostLoad gc hc v expr location index around gen))"
proof (induction n arbitrary: g h gen ps name i around v expr location index rule: less_induct)
  case (less n)
  note ih = less.IH [THEN conjunct1, rule_format] less.IH [THEN conjunct2, THEN conjunct1, rule_format]
    less.IH [THEN conjunct2, THEN conjunct2, rule_format]
  have params: "3 * params_size (proto_params gc hc letter g h) + 1 < n" if "3 * size g + 2 \<le> n" for letter
    using that proto_params_bound [of gc hc letter g h] by simp
  have "adds (function_proto g \<noteq> None \<and> list_all carried (inner_types g)) gen (BlockBridge gc hc g h gen) \<and>
     adds (list_all carried (inner_types g)) gen (HostBlockBridge gc hc g h gen)" if "3 * size g + 2 \<le> n"
    using ih(2) [OF params [OF that] order_refl] by (intro conjI BlockBridge_step HostBlockBridge_step) blast+
  moreover have "adds2 (convertible v) gen (HostLoad gc hc v expr location index around gen)" if "3 * size (v_guest v) + 3 \<le> n"
    using that by (intro HostLoad_step ih(1) [of "3 * size (v_guest v) + 2", THEN conjunct1]) auto
  moreover have "adds (blocks_ok ps) gen (block_conversions gc hc ps gen) \<and>
     adds2 (params_ok ps) gen (host_loads gc hc name i ps around gen)" if "3 * params_size ps + 1 \<le> n"
  proof (cases ps)
    case Nil
    then show ?thesis by (simp add: adds_def adds2_def)
  next
    case (Cons p qs)
    then have q: "3 * params_size qs + 1 < n" "3 * size (v_guest (p_value p)) + 3 < n" "3 * size (v_guest (p_value p)) + 2 < n"
      using that by auto
    show ?thesis unfolding Cons
      using ih(2) [OF q(1) order_refl] ih(3) [OF q(2) order_refl] ih(1) [OF q(3) order_refl]
      by (intro conjI block_conversions_step host_loads_step) blast+
  qed
  ultimately show ?case by blast
qed

lemma BlockBridge_sound: "adds (function_proto g \<noteq> None \<and> list_all carried (inner_types g)) gen (BlockBridge gc hc g h gen)"
  and HostBlockBridge_sound: "adds (list_all carried (inner_types g)) gen (HostBlockBridge gc hc g h gen)"
  and HostLoad_sound: "adds2 (convertible v) gen (HostLoad gc hc v expr location index around gen)"
  using bridges_sound_below by blast+

end
