(* ===== verification/Functions_Facts.thy ===== *)
theory Functions_Facts
  imports Functions Emit_Facts
begin

text \<open>
  The bridges of functions and variables: they can be written for every declaration with prototypes, they only add to
  what there is, and what they do with the symbols the guest asks for.
\<close>

section \<open>Loops\<close>

text \<open>
  A ledger is a relation between states with a record of what happened between them; records are put one after the
  other. A loop enters the records of its steps.
\<close>

locale ledger =
  fixes R :: "'l \<Rightarrow> 's \<Rightarrow> 's \<Rightarrow> bool" and nothing :: 'l and also_then :: "'l \<Rightarrow> 'l \<Rightarrow> 'l"
  assumes stay: "R nothing s s"
    and chain: "R k s t \<Longrightarrow> R l t u \<Longrightarrow> R (also_then k l) s u"
begin

lemma each_entered:
  assumes "\<And>x s s'. x \<in> set xs \<Longrightarrow> f x s = Some s' \<Longrightarrow> R (entry x) s s'" and "each f xs s = Some s'"
  shows "R (foldr (\<lambda>x l. also_then (entry x) l) xs nothing) s s'"
  using assms
proof (induction xs arbitrary: s)
  case Nil
  then show ?case by (simp add: stay)
next
  case (Cons x xs)
  then obtain t where "f x s = Some t" "each f xs t = Some s'" by (auto split: option.splits)
  with Cons have "R (entry x) s t" "R (foldr (\<lambda>x. also_then (entry x)) xs nothing) t s'" by auto
  then show ?case by (simp add: chain)
qed

lemma gather_entered:
  assumes "\<And>x s s' text. x \<in> set xs \<Longrightarrow> f x s = Some (text, s') \<Longrightarrow> R (entry x) s s'" and "gather f xs s = Some (text, s')"
  shows "R (foldr (\<lambda>x l. also_then (entry x) l) xs nothing) s s'"
  using assms
proof (induction xs arbitrary: s "text")
  case Nil
  then show ?case by (simp add: stay)
next
  case (Cons x xs)
  then obtain a t b where "f x s = Some (a, t)" "gather f xs t = Some (b, s')" by (auto split: option.splits)
  with Cons have "R (entry x) s t" "R (foldr (\<lambda>x. also_then (entry x)) xs nothing) t s'" by auto
  then show ?case by (simp add: chain)
qed

end

interpretation quiet: ledger "\<lambda>_ :: unit. grows" "()" "\<lambda>_ _. ()"
  by unfold_locales (auto intro: grows_trans)

lemma each_total: "(\<And>x s. x \<in> set xs \<Longrightarrow> f x s \<noteq> None) \<Longrightarrow> each f xs s \<noteq> None"
  by (induction xs arbitrary: s) (auto split: option.splits)

lemma gather_total: "(\<And>x s. x \<in> set xs \<Longrightarrow> f x s \<noteq> None) \<Longrightarrow> gather f xs s \<noteq> None"
proof (induction xs arbitrary: s)
  case (Cons x xs)
  obtain a t where "f x s = Some (a, t)" using Cons.prems [of x s] by auto
  moreover obtain b u where "gather f xs t = Some (b, u)" using Cons by fastforce
  ultimately show ?case by simp
qed simp

section \<open>Bridges\<close>

lemma report_grows [grow]: "grows gen (add_report line gen)" "grows gen (passthrough_symbol line gen)" "grows gen (add_init line gen)"
    "grows gen (count_unsupported gen)" "grows gen (gen\<lparr>gen_counter := gen_counter gen + n\<rparr>)"
  by (simp_all add: grows_by_def add_report_def passthrough_symbol_def add_init_def count_unsupported_def)

lemma grow_intros:
  "grows a b \<Longrightarrow> grows a (add_guest s b)" "grows a b \<Longrightarrow> grows a (add_host s b)" "grows a b \<Longrightarrow> grows a (add_report s b)"
  "grows a b \<Longrightarrow> grows a (passthrough_symbol s b)" "grows a b \<Longrightarrow> grows a (add_init s b)" "grows a b \<Longrightarrow> grows a (count_unsupported b)"
  "grows a b \<Longrightarrow> grows a (b\<lparr>gen_counter := gen_counter b + n\<rparr>)"
  by (blast intro: grows_trans add_grows report_grows)+

lemma Fault_grows [grow]: "grows gen (Fault symbol reason gen)"
  unfolding Fault_def Let_def
  by (cases "symbol \<in> set (gen_weak_only gen)") (simp_all only: if_True if_False, (intro grow_intros grows_refl)+)

lemma bridge_args_sound: "adds2 (params_ok ps) gen (bridge_args gc hc ident fmt i ps around gen)"
proof (induction ps arbitrary: i around gen)
  case Nil
  then show ?case by (simp add: adds2_def)
next
  case (Cons p ps)
  define first where "first = (if fmt_present fmt \<and> i = fmt_index fmt
        then Some (if fmt_object fmt then ''(id)format.object'' else ''format.text'', around, gen)
        else if fmt_present fmt \<and> fmt_va_param fmt = Some i then Some (''(va_list)format.arguments'', around, gen)
        else HostLoad gc hc (p_value p) (''p->'' @ p_name p) (place_of ident i) i around gen)"
  have f: "adds2 (convertible (p_value p)) gen first"
    using HostLoad_sound [of "p_value p" gen gc hc "''p->'' @ p_name p" "place_of ident i" i around]
    unfolding first_def by (auto simp: adds2_def)
  note eq = bridge_args.simps(2) [of gc hc ident fmt i p ps around gen, folded first_def]
  show ?case
  proof (cases first)
    case None
    with f eq show ?thesis by (simp add: adds2_def params_ok_def)
  next
    case (Some x)
    obtain arg around1 gen1 where x: "x = (arg, around1, gen1)" by (cases x)
    have "grows gen gen1" using f Some x by (simp add: adds2_def)
    with eq Some x Cons.IH [where gen = gen1 and around = around1 and i = "i + 1"] show ?thesis
      by (cases "bridge_args gc hc ident fmt (i + 1) ps around1 gen1") (auto simp: adds2_def params_ok_def intro: grows_trans)
  qed
qed

lemma pack_members_grows: "pack_members gc hc guest message fmt s gen = (t, gen') \<Longrightarrow> grows gen gen'"
  by (auto simp: pack_members_def Let_def dest!: pack_fields_grows result_field_grows intro: grows_trans split: prod.splits)

lemma HostStore_grows': "grows gen (snd (HostStore gc hc v call target gen))"
  by (rule HostStore_grows) (rule surjective_pairing)

lemma bridge_call_sound: "adds (params_ok (sig_params s)) gen (bridge_call gc hc ident s message callee fmt gen)"
proof -
  have a: "adds2 (params_ok (sig_params s)) gen (bridge_args gc hc ident fmt 0 (sig_params s) \<lparr>prep = [], post = []\<rparr> gen)"
    by (rule bridge_args_sound)
  show ?thesis
  proof (cases "bridge_args gc hc ident fmt 0 (sig_params s) \<lparr>prep = [], post = []\<rparr> gen")
    case None
    with a show ?thesis by (simp add: bridge_call_def adds_def adds2_def)
  next
    case (Some x)
    obtain args around gen1 where x: "x = (args, around, gen1)" by (cases x)
    have "grows gen gen1" using a Some x by (simp add: adds2_def)
    then have "grows gen (snd (HostStore gc hc v call target gen1))" for v call target
      using HostStore_grows' grows_trans by blast
    with \<open>grows gen gen1\<close> show ?thesis
      unfolding bridge_call_def Some x by (simp add: adds_def case_prod_unfold Let_def del: append_Cons append_assoc append.simps)
  qed
qed

lemma EmitBridge_sound:
  "adds (indices_in_range (sig_params s) fmt words \<and> (manual = [] \<longrightarrow> params_ok (sig_params s))) gen
     (EmitBridge gc hc words ident s call_kind guest_name callee fmt manual gen)"
proof -
  obtain gm gen1 where p1: "pack_members gc hc True (call_kind = CallMessage) fmt s gen = (gm, gen1)" by (metis prod.collapse)
  obtain hm gen2 where p2: "pack_members gc hc False (call_kind = CallMessage) fmt s gen1 = (hm, gen2)" by (metis prod.collapse)
  have g2: "grows gen gen2" using pack_members_grows [OF p1] pack_members_grows [OF p2] by (rule grows_trans)
  define body where "body = (if manual \<noteq> [] then Some (''    '' @ manual @ ''(p);'' @ nl, gen2)
      else bridge_call gc hc ident s (call_kind = CallMessage) callee fmt gen2)"
  have b: "adds (manual = [] \<longrightarrow> params_ok (sig_params s)) gen2 body"
    using bridge_call_sound [of s gen2] by (auto simp: body_def adds_def)
  have "grows gen (add_host y (add_guest x gen3))" if "body = Some (t, gen3)" for x y t gen3
    using that b g2 by (auto simp: adds_def intro: grow_intros grows_trans)
  then show ?thesis
    using b unfolding EmitBridge_def Let_def p1 p2 prod.case body_def [symmetric]
    by (auto simp: adds_def)
qed

section \<open>Declarations\<close>

definition declared_ok :: "Declaration \<Rightarrow> bool" where
  "declared_ok d \<longleftrightarrow> list_all (\<lambda>p. carried (snd p)) (decl_params d)"

lemma declared_ok_type: "declared_ok d \<Longrightarrow> carried (param_type d i)"
  by (simp add: declared_ok_def param_type_def list_all_length)

lemma detected_convertible:
  assumes "declared_ok g" and "i < length (decl_params g)"
  shows "convertible (p_value (detected gc hc g h (declared_params gc hc g h) i))"
  using assms(2) Classify_convertible [OF declared_ok_type [OF assms(1)], of gc i hc "param_type h i" True]
  by (auto simp: detected_def detect_array_def as_array_def convertible_def split: option.split)

lemma DetectArrays_ok:
  assumes "sig_params s = declared_params gc hc g h" and "declared_ok g"
  shows "params_ok (sig_params (DetectArrays gc hc g h s))" "length (sig_params (DetectArrays gc hc g h s)) = length (decl_params g)"
  using assms detected_convertible [OF assms(2), of _ gc hc h] by (auto simp: DetectArrays_parts(1) params_ok_def)

lemma FromFunction_ok:
  assumes "declared_ok g"
  shows "params_ok (sig_params (FromFunction gc hc g h))" "length (sig_params (FromFunction gc hc g h)) = length (decl_params g)"
  using assms by (simp_all add: FromFunction_def DetectArrays_ok)

lemma FromMethod_ok:
  assumes "declared_ok g"
  shows "params_ok (sig_params (FromMethod gc hc g h))" "length (sig_params (FromMethod gc hc g h)) = length (decl_params g)"
  using assms by (simp_all add: FromMethod_def Let_def DetectArrays_ok)

text \<open>A step without a text.\<close>

definition extends :: "bool \<Rightarrow> Generator \<Rightarrow> Generator option \<Rightarrow> bool" where
  "extends ok gen r \<longleftrightarrow> (ok \<longrightarrow> r \<noteq> None) \<and> (\<forall>gen'. r = Some gen' \<longrightarrow> grows gen gen')"

lemma extends_Some [simp]: "extends ok gen (Some gen') \<longleftrightarrow> grows gen gen'"
  by (simp add: extends_def)

lemma extends_bridged: "adds ok gen r \<Longrightarrow> extends ok gen (bridged r)"
  by (auto simp: extends_def adds_def bridged_def)

lemma extends_map: "extends ok gen r \<Longrightarrow> (\<And>b. grows gen b \<Longrightarrow> grows gen (f b)) \<Longrightarrow> extends ok gen (map_option f r)"
  by (auto simp: extends_def)

lemma extends_weaken: "extends ok gen r \<Longrightarrow> (ok' \<Longrightarrow> ok) \<Longrightarrow> extends ok' gen r"
  by (auto simp: extends_def)

section \<open>The bridges written by hand\<close>

lemma hand_written_grows [grow]:
  "grows gen (EmitEmptyCollectionSingleton symbol host_class gen)" "grows gen (EmitTrampoline symbol trap gen)"
  "grows gen (EmitLazyClassNamer symbol gen)" "grows gen (EmitImageNameHook symbol gen)"
  unfolding EmitEmptyCollectionSingleton_def EmitTrampoline_def EmitLazyClassNamer_def EmitImageNameHook_def Let_def
  by (intro grow_intros grows_refl)+

lemma EmitManualFunction_grows [grow]: "grows gen (EmitManualFunction gc functions symbol arguments handler gen)"
proof (cases "functions (c_name symbol)")
  case None
  then show ?thesis unfolding EmitManualFunction_def Let_def by (simp only: option.case Fault_grows)
next
  case (Some d)
  show ?thesis unfolding EmitManualFunction_def Let_def Some option.case
    by (cases "length (decl_params d) = arguments") (simp_all only: if_True if_False simp_thms Fault_grows, (intro grow_intros grows_refl))
qed

lemma EmitTlvBootstrap_extends: "extends True gen (EmitTlvBootstrap gc hc gen)"
proof -
  let ?s = "\<lparr>sig_params = [\<lparr>p_value = pointer_value gc hc, p_name = ''a0''\<rparr>], sig_result = pointer_value gc hc,
    sig_supported = True, sig_note = []\<rparr>"
  let ?r = "EmitBridge gc hc 0 ''tlv_bootstrap'' ?s CallFunction ''_tlv_bootstrap'' [] no_format ''xl_manual__tlv_bootstrap'' gen"
  have "adds True gen ?r"
    using EmitBridge_sound [of ?s no_format 0 "''xl_manual__tlv_bootstrap''" gen gc hc "''tlv_bootstrap''" CallFunction
        "''_tlv_bootstrap''" "[]"]
    by (simp add: adds_def indices_in_range_def no_format_def)
  then show ?thesis
    unfolding EmitTlvBootstrap_def extends_def adds_def by (auto intro: grow_intros)
qed

lemma guest_written:
  "gen_guest (add_guest s gen) = gen_guest gen @ s" "gen_guest (add_host s gen) = gen_guest gen"
  "gen_guest (add_report s gen) = gen_guest gen" "gen_guest (add_init s gen) = gen_guest gen"
  by (simp_all add: add_guest_def add_host_def add_report_def add_init_def)

lemma Fault_settles:
  assumes "lined (gen_report gen)"
  shows "settled_symbol symbol (gen_guest (Fault symbol reason gen)) (gen_report (Fault symbol reason gen))"
proof -
  obtain b where "gen_report (Fault symbol reason gen) = gen_report gen @ (symbol @ '': UNSUPPORTED: '') @ b"
  proof
    show "gen_report (Fault symbol reason gen) = gen_report gen @ (symbol @ '': UNSUPPORTED: '') @
        (reason @ (if symbol \<in> set (gen_weak_only gen) then '' (weak import, left unbound)'' else []) @ nl)"
      unfolding Fault_def Let_def by (simp add: add_report_def count_unsupported_def add_guest_def)
  qed
  then show ?thesis unfolding settled_symbol_def using line_starts_between [OF assms] by metis
qed

lemma EmitManualFunction_settles:
  assumes "lined (gen_report gen)"
  shows "settled_symbol symbol (gen_guest (EmitManualFunction gc functions symbol arguments handler gen))
     (gen_report (EmitManualFunction gc functions symbol arguments handler gen))"
proof (cases "functions (c_name symbol)")
  case None
  then show ?thesis unfolding EmitManualFunction_def Let_def by (simp only: option.case Fault_settles [OF assms])
next
  case (Some d)
  show ?thesis
  proof (cases "length (decl_params d) = arguments")
    case False
    with Some show ?thesis unfolding EmitManualFunction_def Let_def by (simp only: option.case if_True Fault_settles [OF assms] simp_thms)
  next
    case True
    let ?x = "c_name symbol"
    have "\<exists>a declared b. gen_guest (EmitManualFunction gc functions symbol arguments handler gen) =
        a @ (''extern void xl_trap_'' @ ?x @ ''(struct xl_pack_'' @ ?x @ '' *);'' @ nl @ declared @ nl @ ''{'' @ nl @
          ''    struct xl_pack_'' @ ?x @ '' p;'') @ b"
      unfolding EmitManualFunction_def Let_def Some option.case
      by (simp only: True if_False simp_thms guest_written, rule exI [of _ "gen_guest gen @ ''struct __attribute__((packed)) xl_pack_'' @ ?x @ '' {'' @
          concat (map (\<lambda>a. '' uint64_t '' @ a @ '';'') (map (\<lambda>i. ''a'' @ dec_string i) [0..<arguments])) @ '' uint64_t r; };'' @ nl"])
        (simp only: append_assoc, rule exI, rule exI, rule refl)
    then show ?thesis unfolding settled_symbol_def defined_in_def using sublist_between by metis
  qed
qed

text \<open>A symbol of the \<open>exec\<close> family that is entered among those done, and is settled by what follows.\<close>

lemma execs_entered:
  assumes "execs_settled (oset_insert symbol earlier) later written reported" and "settled_symbol symbol written reported"
  shows "execs_settled earlier later written reported"
  unfolding execs_settled_def
proof
  fix s
  assume "s \<in> set later"
  with assms(1) have "s = symbol \<or> s \<in> set earlier \<or> settled_symbol s written reported"
    by (auto simp only: execs_settled_def oset_insert_set insert_iff)
  then show "s \<in> set earlier \<or> settled_symbol s written reported"
    using assms(2) by (elim disjE) simp_all
qed

lemma exec_entered:
  assumes "grows (gen\<lparr>gen_exec := oset_insert symbol (gen_exec gen)\<rparr>) gen'"
    and "lined (gen_report gen) \<Longrightarrow> settled_symbol symbol (gen_guest gen') (gen_report gen')"
  shows "grows gen gen'"
  using assms(1) execs_entered [OF _ assms(2), of "gen_exec gen"] unfolding grows_by_def by simp

lemma unlines_simps: "unlines [] = []" "unlines (l # ls) = l @ nl @ unlines ls"
  by (simp_all add: unlines_def)

lemma exec_list_text_settles: "defined_in symbol (a @ exec_list_text (c_name symbol) vector @ b)"
proof -
  have p: "''int '' = ''int'' @ [CHR '' '']"
    "''(const char *path, const char *arg0, ...)'' = ''('' @ ''const char *path, const char *arg0, ...'' @ '')''" by simp_all
  obtain rest where "exec_list_text (c_name symbol) vector =
      ''int'' @ [CHR '' ''] @ c_name symbol @ ''('' @ ''const char *path, const char *arg0, ...'' @ '')'' @ nl @ ''{'' @ rest"
    unfolding exec_list_text_def unlines_simps p append_assoc by blast
  then have "a @ exec_list_text (c_name symbol) vector @ b =
      (a @ ''int'') @ [CHR '' ''] @ c_name symbol @ ''('' @ ''const char *path, const char *arg0, ...'' @ '')'' @ nl @ ''{'' @ (rest @ b)"
    by (simp only: append_assoc)
  then show ?thesis by (rule defined_function [rotated 2]) simp_all
qed

text \<open>The vector form, and then the list form if it is one.\<close>

lemma EmitExec_vector:
  assumes "first = (if vector \<in> set (gen_exec gen) then Some gen
      else map_option (\<lambda>arguments. EmitManualFunction gc functions vector arguments (''xl_manual_'' @ c_name vector)
        (gen\<lparr>gen_exec := oset_insert vector (gen_exec gen)\<rparr>)) (map_of exec_vectors vector))"
    and "first = Some gen1"
  shows "grows gen gen1"
    and "lined (gen_report gen) \<Longrightarrow> vector \<in> set (gen_exec gen) \<or> settled_symbol vector (gen_guest gen1) (gen_report gen1)"
proof -
  let ?entered = "gen\<lparr>gen_exec := oset_insert vector (gen_exec gen)\<rparr>"
  have s: "settled_symbol vector (gen_guest (EmitManualFunction gc functions vector n handler ?entered))
      (gen_report (EmitManualFunction gc functions vector n handler ?entered))" if "lined (gen_report gen)" for n handler
    by (rule EmitManualFunction_settles) (use that in simp)
  have g: "grows gen (EmitManualFunction gc functions vector n handler ?entered)" for n handler
    by (rule exec_entered [OF EmitManualFunction_grows s])
  have "grows gen gen1 \<and>
      (lined (gen_report gen) \<longrightarrow> vector \<in> set (gen_exec gen) \<or> settled_symbol vector (gen_guest gen1) (gen_report gen1))"
  proof (cases "vector \<in> set (gen_exec gen)")
    case True
    then show ?thesis using assms by simp
  next
    case False
    then obtain n where "gen1 = EmitManualFunction gc functions vector n (''xl_manual_'' @ c_name vector)
        (gen\<lparr>gen_exec := oset_insert vector (gen_exec gen)\<rparr>)"
      using assms unfolding if_not_P [OF False] by (metis (no_types, lifting) map_option_eq_Some)
    then show ?thesis using g s by blast
  qed
  then show "grows gen gen1"
    and "lined (gen_report gen) \<Longrightarrow> vector \<in> set (gen_exec gen) \<or> settled_symbol vector (gen_guest gen1) (gen_report gen1)"
    by blast+
qed

lemma EmitExec_list:
  "grows gen (add_report l (add_guest (exec_list_text (c_name symbol) vector) (gen\<lparr>gen_exec := oset_insert symbol (gen_exec gen)\<rparr>)))"
  "settled_symbol symbol
     (gen_guest (add_report l (add_guest (exec_list_text (c_name symbol) vector) (gen\<lparr>gen_exec := oset_insert symbol (gen_exec gen)\<rparr>))))
     reported"
proof -
  show s: "settled_symbol symbol
     (gen_guest (add_report l (add_guest (exec_list_text (c_name symbol) vector) (gen\<lparr>gen_exec := oset_insert symbol (gen_exec gen)\<rparr>))))
     reported" for reported
    using exec_list_text_settles [of symbol "gen_guest gen" vector "[]"] unfolding settled_symbol_def add_report_def add_guest_def by simp
  show "grows gen (add_report l (add_guest (exec_list_text (c_name symbol) vector) (gen\<lparr>gen_exec := oset_insert symbol (gen_exec gen)\<rparr>)))"
    by (rule exec_entered [OF _ s]) (intro grow_intros grows_refl)
qed

lemma EmitExec_extends:
  "extends (map_of exec_lists symbol \<noteq> None \<or> map_of exec_vectors symbol \<noteq> None) gen (EmitExec gc functions symbol gen)"
proof -
  define vector where "vector = (case map_of exec_lists symbol of None \<Rightarrow> symbol | Some v \<Rightarrow> v)"
  define first where "first = (if vector \<in> set (gen_exec gen) then Some gen
            else map_option (\<lambda>arguments. EmitManualFunction gc functions vector arguments (''xl_manual_'' @ c_name vector)
                   (gen\<lparr>gen_exec := oset_insert vector (gen_exec gen)\<rparr>)) (map_of exec_vectors vector))"
  note f = EmitExec_vector(1) [OF first_def]
  have n: "map_of exec_lists symbol = None \<and> map_of exec_vectors symbol = None" if "first = None"
    using that by (auto simp: first_def vector_def exec_lists_def exec_vectors_def split: if_splits)
  show ?thesis
    using f n grows_trans [OF f EmitExec_list(1)]
    unfolding EmitExec_def Let_def vector_def [symmetric] first_def [symmetric] extends_def
    by (cases first) auto
qed

section \<open>Functions and variables\<close>

text \<open>What Clang promises of a function: its format attribute names a parameter, and there is one before the dots.\<close>

definition function_ok :: "FunctionDecl \<Rightarrow> bool" where
  "function_ok g \<longleftrightarrow>
     declared_ok (fn_decl g) \<and> (fn_variadic g \<longrightarrow> decl_params (fn_decl g) \<noteq> []) \<and>
     (case fn_format g of
        None \<Rightarrow> fn_variadic g \<longrightarrow>
          (case map_of unattributed_printf (fn_name g) of None \<Rightarrow> True | Some (v, i) \<Rightarrow> i < length (decl_params (fn_decl g)))
      | Some (_, idx) \<Rightarrow> 1 \<le> idx \<and> idx \<le> length (decl_params (fn_decl g))) \<and>
     (fn_name g = ''getsectiondata'' \<longrightarrow> decl_params (fn_decl g) \<noteq> [])"

lemma function_format_in_range:
  assumes "function_ok g" and "function_format g = Inr fmt" and "length ps = length (decl_params (fn_decl g))"
  shows "indices_in_range ps fmt 0"
  using assms
  by (auto simp: function_format_def function_ok_def indices_in_range_def no_format_def Let_def
      split: option.splits if_splits prod.splits)

lemma raw_words_ok [simp]: "params_ok (raw_words gc hc letter n)" "length (raw_words gc hc letter n) = n"
  by (auto simp: raw_words_def params_ok_def raw_word_def new_value_def convertible_def)

lemma params_ok_append [simp]: "params_ok (ps @ qs) \<longleftrightarrow> params_ok ps \<and> params_ok qs"
  by (auto simp: params_ok_def)

lemma EmitFixedVariadic_extends:
  "extends (function_ok g \<and> fn_variadic g) gen (EmitFixedVariadic gc hc symbol g h gen)"
proof (cases "map_of fixed_variadic (fn_name g)")
  case None
  then show ?thesis by (simp add: EmitFixedVariadic_def Fault_grows)
next
  case (Some words)
  let ?s = "FromFunction gc hc (fn_decl g) (fn_decl h)"
  let ?t = "?s\<lparr>sig_params := sig_params ?s @ raw_words gc hc ''v'' words\<rparr>"
  have ok: "indices_in_range (sig_params ?t) no_format words \<and> params_ok (sig_params ?t)" if "function_ok g \<and> fn_variadic g"
    using that FromFunction_ok [of "fn_decl g" gc hc "fn_decl h"] by (auto simp: function_ok_def indices_in_range_def no_format_def)
  have "extends (function_ok g \<and> fn_variadic g) gen (bridged (EmitBridge gc hc words (fn_name g) ?t CallFunction (fn_name g) callee no_format [] gen))"
    for callee by (rule extends_weaken [OF extends_bridged [OF EmitBridge_sound]]) (use ok in simp)
  with Some show ?thesis by (simp add: EmitFixedVariadic_def Let_def Fault_grows)
qed

lemma EmitSectionData_extends:
  "extends (sig_params s \<noteq> [] \<and> indices_in_range (sig_params s) fmt 0 \<and> params_ok (sig_params s)) gen
     (EmitSectionData gc hc entitlements s callee fmt name gen)"
proof (cases "sig_params s")
  case Nil
  then show ?thesis by (simp add: EmitSectionData_def extends_def)
next
  case (Cons p ps)
  let ?t = "s\<lparr>sig_params := (sig_params s)[0 := (hd (sig_params s))\<lparr>p_value := pointer_value gc hc\<rparr>]\<rparr>"
  have "convertible (pointer_value gc hc)" by (simp add: convertible_def pointer_value_def new_value_def)
  then have "indices_in_range (sig_params s) fmt 0 \<and> params_ok (sig_params s) \<Longrightarrow> indices_in_range (sig_params ?t) fmt 0 \<and> params_ok (sig_params ?t)"
    by (simp add: Cons indices_in_range_def params_ok_def split: option.splits)
  then have "extends (sig_params s \<noteq> [] \<and> indices_in_range (sig_params s) fmt 0 \<and> params_ok (sig_params s)) gen
      (bridged (EmitBridge gc hc 0 name ?t CallFunction guest_name callee fmt [] gen))" for guest_name
    by (intro extends_weaken [OF extends_bridged [OF EmitBridge_sound]]) simp
  moreover have "grows gen (add_guest t (add_guest u (emit_section_helper b)))" if "grows gen b" for t u b
    unfolding emit_section_helper_def
    by (cases "gen_section_helper b") (simp_all only: if_True if_False, (intro grow_intros that grows_trans [OF that], simp add: grows_by_def)+)
  ultimately show ?thesis unfolding EmitSectionData_def by (auto simp only: Cons list.distinct if_False intro: extends_map)
qed

lemma EmitFunction_extends:
  "extends (function_ok g) gen (EmitFunction gc hc entitlements alias_name symbol g h gen)"
proof -
  let ?s = "FromFunction gc hc (fn_decl g) (fn_decl h)"
  have h: "grows gen (add_report l (add_guest t (emit_section_helper gen)))" for l t
    unfolding emit_section_helper_def
    by (cases "gen_section_helper gen") (simp_all only: if_True if_False, (intro grow_intros grows_refl), (intro grow_intros), simp add: grows_by_def)
  have ok: "indices_in_range (sig_params ?s) fmt 0 \<and> params_ok (sig_params ?s)" if "function_ok g" "function_format g = Inr fmt" for fmt
    using that FromFunction_ok [of "fn_decl g" gc hc "fn_decl h"] function_format_in_range [OF that] by (simp add: function_ok_def)
  have b: "extends (function_ok g) gen (bridged (EmitBridge gc hc 0 ident ?s CallFunction guest_name callee fmt [] gen))"
    if "function_format g = Inr fmt" for ident guest_name callee fmt
    by (rule extends_weaken [OF extends_bridged [OF EmitBridge_sound]]) (use ok [OF _ that] in simp)
  have d: "extends (function_ok g) gen (map_option (add_guest t) r)" if "extends (function_ok g) gen r" for t r
    using that by (rule extends_map) (rule grow_intros)
  have sd: "extends (function_ok g) gen (EmitSectionData gc hc entitlements ?s callee fmt name gen)"
    if "function_format g = Inr fmt" "fn_name g = ''getsectiondata''" for callee fmt name
    using that ok [OF _ that(1)] FromFunction_ok(2) [of "fn_decl g" gc hc "fn_decl h"]
    by (intro extends_weaken [OF EmitSectionData_extends]) (auto simp: function_ok_def)
  have v: "extends (function_ok g) gen (EmitFixedVariadic gc hc symbol g h gen)" if "fn_variadic g"
    using that by (intro extends_weaken [OF EmitFixedVariadic_extends]) auto
  show ?thesis
    unfolding EmitFunction_def Let_def
    by (cases "function_format g") (simp_all add: h Fault_grows b d sd v del: append_Cons append.simps)
qed

lemma EmitVariable_grows: "grows gen (EmitVariable gc hc symbol name g h gen)"
proof -
  have m: "grows gen (snd (Mirror gc hc g h gen))" by (rule Mirror_grows) (rule surjective_pairing)
  show ?thesis
    unfolding EmitVariable_def Let_def case_prod_unfold unsupported_data_def
    by (simp del: append_Cons append.simps append_assoc add: m grow_intros)
qed

end
