(* ===== verification/Packs.thy ===== *)
theory Packs
  imports Functions_Facts
begin

text \<open>
  The packs. A call crosses the bridge in a structure that both generated files declare, each in its own words: what the
  guest's code writes there the host's code reads. The facts: the two declarations of a bridge agree member by member.
\<close>

section \<open>The members of a pack\<close>

text \<open>A member's name, the type the guest's file gives it and the type the host's gives it.\<close>

type_synonym PackMember = "string \<times> string \<times> string"

definition declare_members :: "bool \<Rightarrow> PackMember list \<Rightarrow> string" where
  "declare_members guest members = concat (map (\<lambda>(name, g, h). '' '' @ (if guest then g else h) @ '' '' @ name @ '';'') members)"

text \<open>Both files give a member one type, unless it is a structure: then the host's is its mirror, and the host's file has that.\<close>

definition agreed :: "ASTContext \<Rightarrow> Generator \<Rightarrow> PackMember \<Rightarrow> bool" where
  "agreed gc gen m \<longleftrightarrow>
     (case m of (name, g, h) \<Rightarrow>
        g = h \<and> g \<in> {''uint64_t'', ''double''} \<or>
        (\<exists>t. g = Spell gc t [] \<and> h = ''struct '' @ mirror_name gc t \<and> sublist (mirror_head (mirror_name gc t)) (gen_host_types gen)))"

lemma declare_members_simps [simp]:
  "declare_members guest [] = []"
  "declare_members guest ((name, g, h) # ms) = '' '' @ (if guest then g else h) @ '' '' @ name @ '';'' @ declare_members guest ms"
  by (simp_all add: declare_members_def)

lemma declare_members_append: "declare_members guest (ms @ ns) = declare_members guest ms @ declare_members guest ns"
  by (simp add: declare_members_def)

lemma agreed_grows:
  assumes "list_all (agreed gc gen) ms" and "grows gen gen'"
  shows "list_all (agreed gc gen') ms"
proof -
  have p: "prefix (gen_host_types gen) (gen_host_types gen')" using assms(2) unfolding grows_by_def by blast
  have "sublist x (gen_host_types gen')" if "sublist x (gen_host_types gen)" for x
    using that prefix_imp_sublist [OF p] by (rule sublist_order.order_trans)
  then have "agreed gc gen' m" if "agreed gc gen m" for m
    using that unfolding agreed_def by (cases m) blast
  then show ?thesis using assms(1) by (auto simp: list_all_iff)
qed

text \<open>The members of parameters.\<close>

definition value_member :: "ASTContext \<Rightarrow> Parameter \<Rightarrow> PackMember" where
  "value_member gc p =
     (p_name p,
      case v_kind (p_value p) of KFloating \<Rightarrow> ''double'' | KRecord \<Rightarrow> Spell gc (v_guest (p_value p)) [] | _ \<Rightarrow> ''uint64_t'',
      case v_kind (p_value p) of KFloating \<Rightarrow> ''double'' | KRecord \<Rightarrow> ''struct '' @ mirror_name gc (v_guest (p_value p))
        | _ \<Rightarrow> ''uint64_t'')"

abbreviation mirrors_ok :: "Generator \<Rightarrow> bool" where
  "mirrors_ok gen \<equiv> mirrors_defined (gen_mirrors gen) (gen_host_types gen)"

lemma mirrors_ok_grows: "mirrors_ok gen \<Longrightarrow> grows gen gen' \<Longrightarrow> mirrors_ok gen'"
  by (simp add: grows_by_def)

lemma Mirror_registers: "Mirror gc hc g h gen = (name, gen') \<Longrightarrow> name = mirror_name gc g \<and> name \<in> set (gen_mirrors gen')"
  by (auto simp: Mirror_def Let_def split: if_splits)

lemma PackField_member:
  assumes "PackField gc hc (p_value p) guest gen = (t, gen')"
  shows "t = (if guest then fst (snd (value_member gc p)) else snd (snd (value_member gc p)))"
    and "\<not> guest \<Longrightarrow> mirrors_ok gen \<Longrightarrow> agreed gc gen' (value_member gc p)"
proof -
  show "t = (if guest then fst (snd (value_member gc p)) else snd (snd (value_member gc p)))"
    using assms by (cases "v_kind (p_value p)") (auto simp: PackField_def value_member_def dest: Mirror_registers split: if_splits prod.splits)
  assume g: "\<not> guest" "mirrors_ok gen"
  have "mirrors_ok gen'" using g(2) PackField_grows [OF assms] by (rule mirrors_ok_grows)
  then show "agreed gc gen' (value_member gc p)"
    using assms g(1) by (cases "v_kind (p_value p)")
      (auto simp: PackField_def value_member_def agreed_def mirrors_defined_def dest: Mirror_registers split: prod.splits)
qed

lemma pack_fields_members:
  assumes "pack_fields gc hc guest ps gen = (t, gen')"
  shows "t = declare_members guest (map (value_member gc) ps)"
    and "\<not> guest \<Longrightarrow> mirrors_ok gen \<Longrightarrow> list_all (agreed gc gen') (map (value_member gc) ps)"
proof -
  have "t = declare_members guest (map (value_member gc) ps) \<and>
      (\<not> guest \<longrightarrow> mirrors_ok gen \<longrightarrow> list_all (agreed gc gen') (map (value_member gc) ps))"
    using assms
  proof (induction ps arbitrary: gen t)
    case (Cons p ps)
    obtain ft gen1 where f: "PackField gc hc (p_value p) guest gen = (ft, gen1)" by (metis prod.collapse)
    obtain rest where r: "pack_fields gc hc guest ps gen1 = (rest, gen')" "t = '' '' @ ft @ '' '' @ p_name p @ '';'' @ rest"
      using Cons.prems f by (auto split: prod.splits)
    have n: "fst (value_member gc p) = p_name p" by (simp add: value_member_def)
    have "agreed gc gen' (value_member gc p) \<and> mirrors_ok gen1" if "\<not> guest" "mirrors_ok gen"
      using agreed_grows [of gc gen1 "[value_member gc p]", OF _ pack_fields_grows [OF r(1)]] PackField_member(2) [OF f that]
        mirrors_ok_grows [OF that(2) PackField_grows [OF f]] by simp
    then show ?case using Cons.IH [OF r(1)] r(2) PackField_member(1) [OF f] n by (cases "value_member gc p") auto
  qed simp
  then show "t = declare_members guest (map (value_member gc) ps)"
    and "\<not> guest \<Longrightarrow> mirrors_ok gen \<Longrightarrow> list_all (agreed gc gen') (map (value_member gc) ps)" by blast+
qed

section \<open>The pack of a bridge\<close>

definition word_member :: "string \<Rightarrow> PackMember" where
  "word_member name = (name, ''uint64_t'', ''uint64_t'')"

definition result_parameter :: "Value \<Rightarrow> Parameter" where
  "result_parameter v = \<lparr>p_value = v, p_name = ''r''\<rparr>"

text \<open>What the pack of a bridge holds, in order.\<close>

definition bridge_members :: "ASTContext \<Rightarrow> bool \<Rightarrow> FormatInfo \<Rightarrow> Signature \<Rightarrow> PackMember list" where
  "bridge_members gc message fmt s =
     (if message then [word_member ''self'', word_member ''sel''] else []) @ map (value_member gc) (sig_params s) @
     (if fmt_dots fmt then [word_member ''va''] else []) @
     (if has_result (sig_result s) then [value_member gc (result_parameter (sig_result s))] else [])"

lemma word_member_agreed [simp]: "agreed gc gen (word_member name)"
  by (simp add: agreed_def word_member_def)

lemma pack_members_declare:
  assumes "pack_members gc hc guest message fmt s gen = (t, gen')"
  shows "t = declare_members guest (bridge_members gc message fmt s)"
    and "\<not> guest \<Longrightarrow> mirrors_ok gen \<Longrightarrow> list_all (agreed gc gen') (bridge_members gc message fmt s)"
proof -
  obtain ms gen1 where f: "pack_fields gc hc guest (sig_params s) gen = (ms, gen1)" by (metis prod.collapse)
  obtain r gen2 where r: "result_field gc hc guest (sig_result s) gen1 = (r, gen2)" by (metis prod.collapse)
  have t: "gen' = gen2" "t = (if message then '' uint64_t self; uint64_t sel;'' else []) @ ms @ (if fmt_dots fmt then '' uint64_t va;'' else []) @ r"
    using assms f r unfolding pack_members_def Let_def by (simp_all only: prod.case prod.inject)
  have p: "pack_fields gc hc guest [result_parameter (sig_result s)] gen1 = (r, gen2)" if "has_result (sig_result s)"
    using r that by (simp add: result_field_def result_parameter_def del: pack_fields.simps)
  have rr: "r = declare_members guest (if has_result (sig_result s) then [value_member gc (result_parameter (sig_result s))] else [])"
  proof (cases "has_result (sig_result s)")
    case True
    then show ?thesis using pack_fields_members(1) [OF p [OF True]] by simp
  qed (use r in \<open>simp add: result_field_def\<close>)
  show "t = declare_members guest (bridge_members gc message fmt s)"
    unfolding t rr bridge_members_def declare_members_append pack_fields_members(1) [OF f] by (simp add: word_member_def)
  assume g: "\<not> guest" "mirrors_ok gen"
  have "mirrors_ok gen1" using g(2) pack_fields_grows [OF f] by (rule mirrors_ok_grows)
  moreover have "list_all (agreed gc gen2) (map (value_member gc) (sig_params s))"
    using pack_fields_members(2) [OF f g] result_field_grows [OF r] by (rule agreed_grows)
  ultimately show "list_all (agreed gc gen') (bridge_members gc message fmt s)"
    using pack_fields_members(2) [OF p g(1)] t(1) by (simp add: bridge_members_def list_all_append)
qed

text \<open>
  C13: The pack of a bridge. The guest's file and the host's each declare the pack of the bridge with the same members in
  the same order: the receiver and the selector of a message, the parameters, the arguments of a format, the result.
  Both give a member the same type, unless it is a structure by value: then the host's file has the structure's mirror and
  uses it. So each side finds at its place what the other put there.
\<close>

theorem EmitBridge_packs_agree:
  assumes "EmitBridge gc hc words ident s call_kind guest_name callee fmt manual gen = Some (name, gen')"
    and "mirrors_defined (gen_mirrors gen) (gen_host_types gen)"
  shows "\<exists>members.
    sublist (pack_struct (''xl_pack_'' @ ident) (declare_members True members)) (gen_guest gen') \<and>
    sublist (pack_struct (''xl_pack_'' @ ident) (declare_members False members)) (gen_host gen') \<and>
    map fst members = (if call_kind = CallMessage then [''self'', ''sel''] else []) @ map p_name (sig_params s) @
      (if fmt_dots fmt then [''va''] else []) @ (if has_result (sig_result s) then [''r''] else []) \<and>
    list_all (agreed gc gen') members"
proof -
  define message where "message \<longleftrightarrow> call_kind = CallMessage"
  obtain gm gen1 where p1: "pack_members gc hc True message fmt s gen = (gm, gen1)" by (metis prod.collapse)
  obtain hm gen2 where p2: "pack_members gc hc False message fmt s gen1 = (hm, gen2)" by (metis prod.collapse)
  define r where "r = (if manual \<noteq> [] then Some (''    '' @ manual @ ''(p);'' @ nl, gen2) else bridge_call gc hc ident s message callee fmt gen2)"
  obtain body gen3 where b: "r = Some (body, gen3)"
    and e: "gen' = add_host (bridge_host_text ident hm body) (add_guest (bridge_guest_text gc ident s message fmt words guest_name gm) gen3)"
    using assms(1) unfolding EmitBridge_def Let_def message_def [symmetric] p1 p2 prod.case r_def [symmetric] by (auto split: if_splits)
  have g: "grows gen2 gen3" using b bridge_call_sound [of s gen2 gc hc ident message callee fmt]
    by (auto simp: r_def adds_def split: if_splits)
  then have g': "grows gen2 gen'" unfolding e by (intro grow_intros)
  have "mirrors_ok gen1" using assms(2) pack_members_grows [OF p1] by (rule mirrors_ok_grows)
  then have "list_all (agreed gc gen') (bridge_members gc message fmt s)" by (intro agreed_grows [OF pack_members_declare(2) [OF p2] g']) simp
  moreover have "sublist (pack_struct (''xl_pack_'' @ ident) (declare_members True (bridge_members gc message fmt s))) (gen_guest gen')"
    unfolding e pack_members_declare(1) [OF p1] add_host_def add_guest_def bridge_guest_text_def Let_def by (auto simp: sublist_def)
  moreover have "sublist (pack_struct (''xl_pack_'' @ ident) (declare_members False (bridge_members gc message fmt s))) (gen_host gen')"
    unfolding e pack_members_declare(1) [OF p2] add_host_def add_guest_def bridge_host_text_def by (auto simp: sublist_def)
  moreover have "map fst (bridge_members gc message fmt s) = (if message then [''self'', ''sel''] else []) @ map p_name (sig_params s) @
      (if fmt_dots fmt then [''va''] else []) @ (if has_result (sig_result s) then [''r''] else [])"
    by (simp add: bridge_members_def word_member_def value_member_def result_parameter_def comp_def)
  ultimately show ?thesis unfolding message_def by blast
qed

text \<open>A function of a structure with a word's result.\<close>

definition pack_signature :: Signature where
  "pack_signature = \<lparr>sig_params = [\<lparr>p_value = new_value KRecord (RecordType (Record 7 ''_NSRange'' None False 128 64 []))
       (RecordType (Record 7 ''_NSRange'' None False 64 32 [])), p_name = ''a0''\<rparr>],
     sig_result = pointer_value guest_context host_context, sig_supported = True, sig_note = []\<rparr>"

theorem EmitBridge_packs_agree_witness:
  "\<exists>gen' members. EmitBridge guest_context host_context 0 ''f'' pack_signature CallFunction ''f'' ''f'' no_format ''by_hand'' empty_generator =
       Some (''f'', gen') \<and> map fst members = [''a0'', ''r''] \<and>
     sublist (pack_struct ''xl_pack_f'' (declare_members True members)) (gen_guest gen') \<and>
     sublist (pack_struct ''xl_pack_f'' (declare_members False members)) (gen_host gen') \<and>
     list_all (agreed guest_context gen') members"
proof -
  obtain gen' where e: "EmitBridge guest_context host_context 0 ''f'' pack_signature CallFunction ''f'' ''f'' no_format ''by_hand'' empty_generator =
      Some (''f'', gen')"
    unfolding EmitBridge_def by (simp add: indices_in_range_def no_format_def case_prod_unfold Let_def)
  have "mirrors_defined (gen_mirrors empty_generator) (gen_host_types empty_generator)"
    by (simp add: mirrors_defined_def empty_generator_def)
  from EmitBridge_packs_agree [OF e this] obtain members where m:
      "sublist (pack_struct (''xl_pack_'' @ ''f'') (declare_members True members)) (gen_guest gen')"
      "sublist (pack_struct (''xl_pack_'' @ ''f'') (declare_members False members)) (gen_host gen')"
      "map fst members = (if CallFunction = CallMessage then [''self'', ''sel''] else []) @ map p_name (sig_params pack_signature) @
        (if fmt_dots no_format then [''va''] else []) @ (if has_result (sig_result pack_signature) then [''r''] else [])"
      "list_all (agreed guest_context gen') members" by blast
  have "map fst members = [''a0'', ''r'']"
    using m(3) by (simp add: pack_signature_def no_format_def fmt_dots_def has_result_def pointer_value_def new_value_def)
  moreover have "''xl_pack_'' @ ''f'' = ''xl_pack_f''" by simp
  ultimately show ?thesis using e m(1,2,4) by metis
qed

end
