(* ===== verification/Selectors.thy ===== *)
theory Selectors
  imports Functions Encoding
begin

text \<open>
  Objective-C messages in the bridge generator (\<open>xlgen.cpp\<close>): which declaration of the headers a selector is bridged as
  (\<open>CollectMethods\<close>, \<open>Counterpart\<close>, \<open>EmitSelectors\<close>), and the host's implementations of the guest's methods
  (\<open>InvokeShim\<close>, \<open>ImpWrapper\<close>, \<open>StubImpWrapper\<close>).
\<close>

section \<open>The declarations of a selector\<close>

text \<open>
  A method as declared, with the name of its class or protocol, the encoding Clang gives it in this tree, the file it is
  declared in and the declaration itself, as a number.
\<close>

record MethodDecl =
  m_selector :: string
  m_container :: "string option"
  m_instance :: bool
  m_decl :: Declaration
  m_variadic :: bool
  m_format :: "(string \<times> nat) option"
  m_encoding :: string
  m_definition :: bool
  m_file :: string
  m_node :: nat

type_synonym Pool = "(string, MethodDecl list) omap"

definition pool_add :: "string \<Rightarrow> MethodDecl \<Rightarrow> Pool \<Rightarrow> Pool" where
  "pool_add key m pool = omap_set key ((case map_of pool key of None \<Rightarrow> [] | Some ms \<Rightarrow> ms) @ [m]) pool"

definition VisitObjCMethodDecl :: "MethodDecl \<Rightarrow> Pool \<Rightarrow> Pool" where
  "VisitObjCMethodDecl m pool =
     (if m_definition m then pool
      else pool_add (''*'' @ m_selector m) m (pool_add ((if m_instance m then ''-'' else ''+'') @ m_selector m) m pool))"

definition CollectMethods :: "MethodDecl list \<Rightarrow> Pool \<Rightarrow> Pool" where
  "CollectMethods methods = fold VisitObjCMethodDecl methods"

definition pool_methods :: "Pool \<Rightarrow> string \<Rightarrow> MethodDecl list" where
  "pool_methods pool key = (case map_of pool key of None \<Rightarrow> [] | Some ms \<Rightarrow> ms)"

definition counterparts :: "MethodDecl \<Rightarrow> MethodDecl \<Rightarrow> bool" where
  "counterparts guest candidate \<longleftrightarrow>
     m_container guest \<noteq> None \<and> m_container candidate = m_container guest \<and> m_instance candidate = m_instance guest \<and>
     length (decl_params (m_decl candidate)) = length (decl_params (m_decl guest))"

definition Counterpart :: "MethodDecl \<Rightarrow> MethodDecl list \<Rightarrow> MethodDecl option" where
  "Counterpart guest host = find (counterparts guest) host"

section \<open>\<open>EmitSelectors\<close>\<close>

definition manual_selectors :: "(string \<times> string) list" where
  "manual_selectors =
     [(''countByEnumeratingWithState:objects:count:'', ''xl_manual_fast_enumeration''),
      (''initWithFormat:arguments:'', ''xl_manual_init_with_format_arguments'')]"

definition format_selectors :: "(string \<times> string) list" where
  "format_selectors =
     [(''stringWithFormat:'', ''xl_format_string_with_format''), (''initWithFormat:'', ''xl_format_init_with_format''),
      (''appendFormat:'', ''xl_format_append_format''), (''localizedStringWithFormat:'', ''xl_format_string_with_format'')]"

definition variadic_selectors :: "(string \<times> string) list" where
  "variadic_selectors =
     [(''dictionaryWithObjectsAndKeys:'', ''xl_h_dictionaryWithObjectsAndKeys''), (''arrayWithObjects:'', ''xl_h_arrayWithObjects''),
      (''initWithObjects:'', ''xl_h_initWithObjects''), (''setWithObjects:'', ''xl_h_setWithObjects'')]"

text \<open>The declarations of a selector that the host has too, by the host's encoding: the first of each, and how many there are.\<close>

definition add_variant :: "MethodDecl list \<Rightarrow> MethodDecl \<Rightarrow>
    (string, MethodDecl \<times> MethodDecl) omap \<times> (string, nat) omap \<Rightarrow> (string, MethodDecl \<times> MethodDecl) omap \<times> (string, nat) omap" where
  "add_variant host guest tables =
     (case (Counterpart guest host, tables) of
        (None, _) \<Rightarrow> tables
      | (Some h, variants, votes) \<Rightarrow>
          let key = NormalizeEncoding (m_encoding h)
          in (omap_emplace key (guest, h) variants,
              omap_set key ((case map_of votes key of None \<Rightarrow> 0 | Some n \<Rightarrow> n) + 1) votes))"

definition count_votes :: "MethodDecl list \<Rightarrow> MethodDecl list \<Rightarrow> (string, MethodDecl \<times> MethodDecl) omap \<times> (string, nat) omap" where
  "count_votes guest host = fold (add_variant host) guest ([], [])"

definition votes_of :: "(string, nat) omap \<Rightarrow> string \<Rightarrow> nat" where
  "votes_of votes key = (case map_of votes key of None \<Rightarrow> 0 | Some n \<Rightarrow> n)"

text \<open>The loop over the votes, in the order of the keys; no key chosen yet is the empty string.\<close>

definition vote :: "(string, nat) omap \<Rightarrow> string" where
  "vote votes = foldl (\<lambda>best (key, n). if best = [] \<or> votes_of votes best < n then key else best) [] votes"

definition selector_shim :: "string \<Rightarrow> string \<Rightarrow> Generator \<Rightarrow> Generator" where
  "selector_shim selector macro gen = gen\<lparr>gen_selector_shims := gen_selector_shims gen @ [(selector, macro)]\<rparr>"

definition selector_variant :: "string \<Rightarrow> string \<Rightarrow> string \<Rightarrow> Generator \<Rightarrow> Generator" where
  "selector_variant selector key macro gen =
     gen\<lparr>gen_selector_variants := gen_selector_variants gen @ [(selector, key, macro)]\<rparr>"

definition unsupported_selector :: "string \<Rightarrow> string \<Rightarrow> Generator \<Rightarrow> Generator" where
  "unsupported_selector selector reason gen =
     count_unsupported (add_report (''selector '' @ selector @ '': UNSUPPORTED: '' @ reason) gen)"

definition fresh_selector :: "Generator \<Rightarrow> string \<times> Generator" where
  "fresh_selector gen = (''selector_'' @ dec_string (gen_counter gen), gen\<lparr>gen_counter := gen_counter gen + 1\<rparr>)"

text \<open>A bridge for each other declaration of the selector, by its encoding.\<close>

definition emit_variant :: "ASTContext \<Rightarrow> ASTContext \<Rightarrow> string \<Rightarrow> string \<Rightarrow> string \<times> MethodDecl \<times> MethodDecl \<Rightarrow> Generator \<Rightarrow>
    Generator option" where
  "emit_variant gc hc selector best v gen =
     (case v of (key, guest, host) \<Rightarrow>
        if key = best then Some gen
        else let s = FromMethod gc hc (m_decl guest) (m_decl host)
             in if \<not> sig_supported s
                then Some (add_report (''selector '' @ selector @ '' variant '' @ key @ '': UNSUPPORTED: '' @ sig_note s) gen)
                else let (vid, gen) = fresh_selector gen
                     in map_option (\<lambda>(_, gen). selector_variant selector key (''XL_GUEST_xl_'' @ vid) gen)
                          (EmitBridge gc hc 0 vid s CallMessage [] [] no_format [] gen))"

definition manual_signature :: "ASTContext \<Rightarrow> ASTContext \<Rightarrow> MethodDecl \<Rightarrow> Signature" where
  "manual_signature gc hc guest =
     \<lparr>sig_params = raw_words gc hc ''a'' (length (decl_params (m_decl guest))), sig_result = raw_word gc hc,
      sig_supported = True, sig_note = []\<rparr>"

text \<open>The format of a variadic method and what the host calls for it; \<open>None\<close> is one without a bridge.\<close>

definition method_format :: "string \<Rightarrow> MethodDecl \<Rightarrow> (FormatInfo \<times> string) option" where
  "method_format selector guest =
     (if \<not> m_variadic guest then Some (no_format, [])
      else case (m_format guest, map_of format_selectors selector) of
        (Some (kind, idx), Some callee) \<Rightarrow> Some (no_format\<lparr>fmt_present := True, fmt_object := True, fmt_index := idx - 1\<rparr>, callee)
      | _ \<Rightarrow> None)"

text \<open>The bridge of the declaration that was voted for, and those of the others.\<close>

definition emit_voted :: "ASTContext \<Rightarrow> ASTContext \<Rightarrow> string \<Rightarrow> (string, MethodDecl \<times> MethodDecl) omap \<Rightarrow> string \<Rightarrow>
    MethodDecl \<Rightarrow> MethodDecl \<Rightarrow> Generator \<Rightarrow> Generator option" where
  "emit_voted gc hc selector variants best guest host gen =
     (let manual = (case map_of manual_selectors selector of None \<Rightarrow> [] | Some handler \<Rightarrow> handler);
          s = (if manual = [] then FromMethod gc hc (m_decl guest) (m_decl host) else manual_signature gc hc guest)
      in case method_format selector guest of
        None \<Rightarrow> Some (unsupported_selector selector ''variadic method without a va_list bridge'' gen)
      | Some (fmt, callee) \<Rightarrow>
          if \<not> sig_supported s \<and> manual = [] then Some (unsupported_selector selector (sig_note s) gen)
          else
            let (ident, gen) = fresh_selector gen
            in (case EmitBridge gc hc 0 ident s CallMessage [] callee fmt manual gen of
                  None \<Rightarrow> None
                | Some (_, gen) \<Rightarrow>
                    let gen = selector_shim selector (''XL_GUEST_xl_'' @ ident) gen
                    in if length variants \<le> 1 then Some gen
                       else
                         let gen = add_report (''selector '' @ selector @ '': '' @ dec_string (length variants) @
                               '' differing SDK declarations, bridged as '' @ best) gen
                         in if manual = [] \<and> \<not> fmt_present fmt
                            then each (emit_variant gc hc selector best) variants
                                   (selector_variant selector best (''XL_GUEST_xl_'' @ ident) gen)
                            else Some gen))"

definition EmitSelector :: "ASTContext \<Rightarrow> ASTContext \<Rightarrow> Pool \<Rightarrow> Pool \<Rightarrow> string list \<Rightarrow> string \<Rightarrow> Generator \<Rightarrow> Generator option" where
  "EmitSelector gc hc gpool hpool guest_selectors selector gen =
     (case map_of variadic_selectors selector of
        Some handler \<Rightarrow>
          Some (add_report (''selector '' @ selector @ '': variadic handler '' @ handler)
            (gen\<lparr>gen_variadic_shims := gen_variadic_shims gen @ [(selector, handler)]\<rparr>))
      | None \<Rightarrow>
          (case map_of gpool (''*'' @ selector) of
             None \<Rightarrow>
               Some (if selector \<in> set guest_selectors then add_report (''selector '' @ selector @ '': implemented by the guest only'') gen
                     else unsupported_selector selector ''not declared by the SDK'' gen)
           | Some guests \<Rightarrow>
               (case count_votes guests (pool_methods hpool (''*'' @ selector)) of
                  (variants, votes) \<Rightarrow>
                    if variants = [] then Some (unsupported_selector selector ''no host declaration'' gen)
                    else (case map_of variants (vote votes) of
                            None \<Rightarrow> None
                          | Some (guest, host) \<Rightarrow> emit_voted gc hc selector variants (vote votes) guest host gen))))"

text \<open>\<open>selectors\<close> in the order of the set.\<close>

definition EmitSelectors :: "ASTContext \<Rightarrow> ASTContext \<Rightarrow> Pool \<Rightarrow> Pool \<Rightarrow> string list \<Rightarrow> string list \<Rightarrow> Generator \<Rightarrow> Generator option" where
  "EmitSelectors gc hc gpool hpool selectors guest_selectors = each (EmitSelector gc hc gpool hpool guest_selectors) selectors"

section \<open>The host's implementations of guest methods\<close>

definition invoke_key :: "ASTContext \<Rightarrow> Signature \<Rightarrow> string" where
  "invoke_key gc s = Spell gc (v_guest (sig_result s)) [] @
     concat (map (\<lambda>p. '','' @ Spell gc (v_guest (p_value p)) []) (sig_params s))"

definition InvokeShim :: "ASTContext \<Rightarrow> ASTContext \<Rightarrow> Signature \<Rightarrow> Generator \<Rightarrow> string \<times> Generator" where
  "InvokeShim gc hc s gen =
     (case map_of (gen_invokers gen) (invoke_key gc s) of
        Some name \<Rightarrow> (name, gen)
      | None \<Rightarrow>
          let name = ''xl_invoke_'' @ dec_string (length (gen_invokers gen));
              gen = gen\<lparr>gen_invokers := omap_set (invoke_key gc s) name (gen_invokers gen)\<rparr>;
              head = '' uint64_t imp; uint64_t self; uint64_t sel;'';
              (gfields, gen) = pack_fields gc hc True (sig_params s) gen;
              (hfields, gen) = pack_fields gc hc False (sig_params s) gen;
              (gresult, gen) = result_field gc hc True (sig_result s) gen;
              (hresult, gen) = result_field gc hc False (sig_result s) gen;
              types = Spell gc (if has_result (sig_result s) then v_guest (sig_result s) else VoidType) [] @ '' (*)(id, SEL'' @
                concat (map (\<lambda>p. '', '' @ Spell gc (v_guest (p_value p)) []) (sig_params s)) @ '')'';
              call = ''(('' @ types @ '')(uintptr_t)p->imp)((id)(uintptr_t)p->self, (SEL)(uintptr_t)p->sel'' @
                concat (map (\<lambda>p. '', '' @ GuestLoad gc (p_value p) (''p->'' @ p_name p)) (sig_params s)) @ '')''
          in (name, add_host (pack_struct (name @ ''_pack'') (head @ hfields @ hresult))
                (add_guest (pack_struct (name @ ''_pack'') (head @ gfields @ gresult) @ guest_entry name call (sig_result s)) gen)))"

text \<open>What one argument of the host becomes in the pack. \<open>None\<close> is a null pointer: an out slot has its pointee.\<close>

definition imp_argument :: "ASTContext \<Rightarrow> ASTContext \<Rightarrow> string \<Rightarrow> Parameter \<Rightarrow> Generator \<Rightarrow> (string \<times> Generator) option" where
  \<open>imp_argument gc hc name p gen =
     (let v = p_value p; x = p_name p in
      case v_kind v of
        KRecord \<Rightarrow> (case Mirror gc hc (v_guest v) (v_host v) gen of
          (mirror, gen) \<Rightarrow> Some (''    '' @ mirror @ ''_to_guest(&p.'' @ x @ '', &'' @ x @ '');'' @ nl, gen))
      | KBlock \<Rightarrow> map_option (\<lambda>(wrap, gen). (''    p.'' @ x @ '' = '' @ wrap @ ''('' @ x @ '');'' @ nl, gen))
          (HostBlockBridge gc hc (v_guest v) (v_host v) gen)
      | KOutSlot \<Rightarrow> map_option (\<lambda>pointee.
          (''    '' @ guest_scalar_type pointee @ '' '' @ x @ ''_gslot = '' @ x @ '' ? ('' @ guest_scalar_type pointee @ '')'' @
             ScalarToGuest pointee (''*'' @ x) @ '' : 0;'' @ nl @
           ''    p.'' @ x @ '' = '' @ x @ '' ? (uint64_t)(uintptr_t)&'' @ x @ ''_gslot : 0;'' @ nl, gen)) (v_pointee v)
      | KCallback \<Rightarrow> Some (''    xl_unsupported("'' @ name @ '': host passes a function pointer");'' @ nl, gen)
      | _ \<Rightarrow> Some (''    p.'' @ x @ '' = '' @ ScalarToGuest v x @ '';'' @ nl, gen))\<close>

definition imp_arguments :: "ASTContext \<Rightarrow> ASTContext \<Rightarrow> string \<Rightarrow> Parameter list \<Rightarrow> Generator \<Rightarrow> (string \<times> Generator) option" where
  "imp_arguments gc hc name = gather (imp_argument gc hc name)"

text \<open>What the guest wrote to an out slot goes back, narrowed.\<close>

definition copies_back :: "ASTContext \<Rightarrow> string \<Rightarrow> Parameter list \<Rightarrow> string" where
  "copies_back hc name params = concat (map (\<lambda>(i, p).
     if v_kind (p_value p) = KOutSlot
     then (case v_pointee (p_value p) of
             None \<Rightarrow> []
           | Some pointee \<Rightarrow> ''    if ('' @ p_name p @ '') *'' @ p_name p @ '' = '' @
               ScalarToHost hc pointee (p_name p @ ''_gslot'') (place_of name i) @ '';'' @ nl)
     else []) (List.enumerate 0 params))"

definition add_imp :: "string \<Rightarrow> u64 \<Rightarrow> Generator \<Rightarrow> Generator" where
  "add_imp name imp gen = gen\<lparr>gen_imps := gen_imps gen @ [(name, imp)]\<rparr>"

definition fresh_imp :: "Generator \<Rightarrow> string \<times> Generator" where
  "fresh_imp gen = (''xl_imp_'' @ dec_string (gen_counter gen), gen\<lparr>gen_counter := gen_counter gen + 1\<rparr>)"

definition ImpWrapper :: "ASTContext \<Rightarrow> ASTContext \<Rightarrow> Signature \<Rightarrow> u64 \<Rightarrow> bool \<Rightarrow> Generator \<Rightarrow> (string \<times> Generator) option" where
  "ImpWrapper gc hc s imp class_method gen =
     (let (invoke, gen) = InvokeShim gc hc s gen;
          (name, gen) = fresh_imp gen;
          args = (if class_method then ''Class'' else ''id'') @ '' self, SEL _cmd'' @
            concat (map (\<lambda>p. '', '' @ Spell hc (v_host (p_value p)) (p_name p)) (sig_params s))
      in do {
        (conversions, gen) \<leftarrow> imp_arguments gc hc name (sig_params s) gen;
        let (returned, gen) = return_to_host gc hc ''    '' (sig_result s) name gen;
        let hs = ''static '' @ Spell hc (if has_result (sig_result s) then v_host (sig_result s) else VoidType) (name @ ''('' @ args @ '')'') @
          nl @ ''{'' @ nl @ ''    struct '' @ invoke @ ''_pack p;'' @ nl @ ''    p.imp = 0x'' @ hex_string (unat imp) @ ''ull;'' @ nl @
          ''    p.self = (uint64_t)(uintptr_t)self;'' @ nl @ ''    p.sel = (uint64_t)(uintptr_t)_cmd;'' @ nl @ conversions @
          ''    xl_invoke(XL_GUEST_'' @ invoke @ ''_guest, (uintptr_t)&p);'' @ nl @ copies_back hc name (sig_params s) @
          release_blocks ''    '' (sig_params s) @ returned @ ''}'' @ nl @ nl;
        Some (name, add_imp name imp (add_host hs gen))
      })"

definition StubImpWrapper :: "u64 \<Rightarrow> Generator \<Rightarrow> string \<times> Generator" where
  \<open>StubImpWrapper imp gen =
     (let (name, gen) = fresh_imp gen
      in (name, add_imp name imp (add_host
            (''static void '' @ name @ ''(id self, SEL _cmd) { (void)self; (void)_cmd; xl_unsupported("'' @ name @
             '': host call of a guest method whose signature the bridge cannot marshal"); }'' @ nl @ nl) gen)))\<close>

end
