(* ===== verification/Classes.thy ===== *)
theory Classes
  imports Selectors Json
begin

text \<open>
  \<open>EmitClasses\<close> of the bridge generator: the classes, categories and protocols of the guest, which the translator
  describes in its manifest (\<open>WriteManifest\<close>), as Objective-C metadata of the host. A field the manifest lacks is used
  all the same; \<open>None\<close> is that end.
\<close>

section \<open>Text\<close>

text \<open>The lambda \<open>hex\<close>: a 64-bit integer in hexadecimal, a negative one as the word it is.\<close>

definition hex_u :: "int \<Rightarrow> string" where
  "hex_u value = ''0x'' @ hex_string (nat (value mod 2 ^ 64)) @ ''u''"

definition padded_hex :: "int \<Rightarrow> string" where
  "padded_hex value = (let s = hex_string (nat (value mod 2 ^ 64)) in replicate (8 - length s) (CHR ''0'') @ s)"

definition protocol_symbol :: "int \<Rightarrow> string" where
  "protocol_symbol address = ''xl_guest_protocol_'' @ padded_hex address"

text \<open>The attribute of the metadata.\<close>

definition objc_const :: string where
  \<open>objc_const = '' __attribute__((used, section("__DATA,__objc_const")))''\<close>

text \<open>The head of a list: its type, its name and the size of an entry.\<close>

definition list_head :: "string \<Rightarrow> string \<Rightarrow> string \<Rightarrow> nat \<Rightarrow> nat \<Rightarrow> string" where
  "list_head storage entries symbol entsize count =
     storage @ ''struct { uint32_t entsize; uint32_t count; struct '' @ entries @ ''['' @ dec_string count @ '']; } '' @ symbol @
     objc_const @ '' = {'' @ dec_string entsize @ '', '' @ dec_string count @ '', {''"

text \<open>The items of a list; an empty list or none is no list, and \<open>0\<close> stands for it.\<close>

definition items_of :: "json list option \<Rightarrow> json list" where
  "items_of list = (case list of None \<Rightarrow> [] | Some items \<Rightarrow> items)"

section \<open>Methods\<close>

definition strip_digits :: "string \<Rightarrow> string" where
  "strip_digits = filter (\<lambda>c. \<not> digit c)"

text \<open>The first declaration of the headers with the guest's encoding that the host has too.\<close>

fun sdk_declaration :: "string \<Rightarrow> MethodDecl list \<Rightarrow> MethodDecl list \<Rightarrow> (MethodDecl \<times> MethodDecl) option" where
  "sdk_declaration guest_types hosts [] = None"
| "sdk_declaration guest_types hosts (guest # guests) =
     (if strip_digits (m_encoding guest) \<noteq> guest_types then sdk_declaration guest_types hosts guests
      else case Counterpart guest hosts of
        None \<Rightarrow> sdk_declaration guest_types hosts guests
      | Some host \<Rightarrow> Some (guest, host))"

definition pool_key :: "bool \<Rightarrow> string \<Rightarrow> string" where
  "pool_key class_method selector = (if class_method then ''+'' else ''-'') @ selector"

definition method_signature :: "ASTContext \<Rightarrow> ASTContext \<Rightarrow> Pool \<Rightarrow> Pool \<Rightarrow> bool \<Rightarrow> string \<Rightarrow> string \<Rightarrow> Generator \<Rightarrow>
    Signature \<times> string \<times> Generator" where
  "method_signature gc hc gpool hpool class_method selector types gen =
     (case sdk_declaration (strip_digits types) (pool_methods hpool (pool_key class_method selector))
             (pool_methods gpool (pool_key class_method selector)) of
        Some (guest, host) \<Rightarrow>
          (FromMethod gc hc (m_decl guest) (m_decl host),
           ''SDK declaration in '' @ (case m_container guest of Some c \<Rightarrow> c | None \<Rightarrow> []), gen)
      | None \<Rightarrow> (case FromEncoding gc hc types gen of (s, gen) \<Rightarrow> (s, ''guest type encoding '' @ types, gen)))"

text \<open>The host's implementation of a method and its encoding there; one that cannot be bridged traps when the host calls it.\<close>

definition method_wrapper :: "ASTContext \<Rightarrow> ASTContext \<Rightarrow> Pool \<Rightarrow> Pool \<Rightarrow> bool \<Rightarrow> string \<Rightarrow> string \<Rightarrow> string \<Rightarrow> u64 \<Rightarrow> Generator \<Rightarrow>
    (string \<times> string \<times> Generator) option" where
  "method_wrapper gc hc gpool hpool class_method hint selector types imp gen =
     (case method_signature gc hc gpool hpool class_method selector types gen of
        (s, origin, gen) \<Rightarrow>
          let title = (if class_method then ''+['' else ''-['') @ hint @ '' '' @ selector
          in if \<not> sig_supported s
             then (case StubImpWrapper imp (count_unsupported (add_report (title @ '']: UNSUPPORTED: '' @ sig_note s) gen)) of
                     (wrapper, gen) \<Rightarrow> Some (wrapper, types, gen))
             else map_option (\<lambda>(wrapper, gen).
                    (wrapper, HostEncoding hc s, add_report (title @ '']: host IMP from '' @ origin @ '' as '' @ HostEncoding hc s) gen))
                  (ImpWrapper gc hc s imp class_method gen))"

definition method_entry :: "int \<Rightarrow> string \<Rightarrow> string \<Rightarrow> string" where
  \<open>method_entry name types imp = ''{(SEL)'' @ hex_u name @ '', "'' @ types @ ''", '' @ imp @ ''}, ''\<close>

definition emit_method :: "ASTContext \<Rightarrow> ASTContext \<Rightarrow> Pool \<Rightarrow> Pool \<Rightarrow> bool \<Rightarrow> string \<Rightarrow> bool \<Rightarrow> json \<Rightarrow> Generator \<Rightarrow>
    (string \<times> Generator) option" where
  "emit_method gc hc gpool hpool class_method hint implementations item gen = do {
     method \<leftarrow> json_object item;
     selector \<leftarrow> get_string ''selector'' method;
     types \<leftarrow> get_string ''types'' method;
     imp \<leftarrow> get_int ''imp'' method;
     name \<leftarrow> get_int ''name_address'' method;
     (if \<not> implementations
      then (case FromEncoding gc hc types gen of
              (described, gen) \<Rightarrow> Some (method_entry name (if sig_supported described then HostEncoding hc described else types) ''0'', gen))
      else map_option (\<lambda>(wrapper, host_types, gen). (method_entry name host_types (''(IMP)'' @ wrapper), gen))
             (method_wrapper gc hc gpool hpool class_method hint selector types (word_of_int imp) gen))
   }"

text \<open>What a component leaves: the expression that refers to it and its text.\<close>

definition emit_methods :: "ASTContext \<Rightarrow> ASTContext \<Rightarrow> Pool \<Rightarrow> Pool \<Rightarrow> json list option \<Rightarrow> bool \<Rightarrow> string \<Rightarrow> string \<Rightarrow> bool \<Rightarrow> Generator \<Rightarrow>
    (string \<times> string \<times> Generator) option" where
  "emit_methods gc hc gpool hpool methods class_method symbol hint implementations gen =
     (if items_of methods = [] then Some (''0'', [], gen)
      else do {
        (entries, gen) \<leftarrow> gather (emit_method gc hc gpool hpool class_method hint implementations) (items_of methods) gen;
        Some (''&'' @ symbol, list_head [] ''xl_method_t methods'' symbol 12 (length (items_of methods)) @ entries @ ''}};'' @ nl, gen)
      })"

section \<open>Instance variables, properties and protocols\<close>

text \<open>The text of each item; none may lack a field.\<close>

primrec concat_options :: "('a \<Rightarrow> string option) \<Rightarrow> 'a list \<Rightarrow> string option" where
  "concat_options f [] = Some []"
| "concat_options f (x # xs) =
     (case f x of
        None \<Rightarrow> None
      | Some s \<Rightarrow> (case concat_options f xs of None \<Rightarrow> None | Some rest \<Rightarrow> Some (s @ rest)))"

definition ivar_entry :: "json \<Rightarrow> string option" where
  "ivar_entry item = do {
     ivar \<leftarrow> json_object item;
     offset \<leftarrow> get_int ''offset_address'' ivar;
     name \<leftarrow> get_int ''name_address'' ivar;
     type_name \<leftarrow> get_int ''type_address'' ivar;
     alignment \<leftarrow> get_int ''alignment'' ivar;
     bytes \<leftarrow> get_int ''size'' ivar;
     Some (''{(int32_t *)'' @ hex_u offset @ '', (const char *)'' @ hex_u name @ '', (const char *)'' @ hex_u type_name @ '', '' @
       signed_string alignment @ '', '' @ signed_string bytes @ ''}, '')
   }"

definition emit_ivars :: "json list option \<Rightarrow> string \<Rightarrow> (string \<times> string) option" where
  "emit_ivars ivars symbol =
     (if items_of ivars = [] then Some (''0'', [])
      else map_option (\<lambda>entries. (''&'' @ symbol,
             list_head ''static '' ''xl_ivar_t ivars'' symbol 20 (length (items_of ivars)) @ entries @ ''}};'' @ nl))
           (concat_options ivar_entry (items_of ivars)))"

definition property_entry :: "json \<Rightarrow> string option" where
  "property_entry item = do {
     property \<leftarrow> json_object item;
     name \<leftarrow> get_int ''name_address'' property;
     attribute \<leftarrow> get_int ''attributes_address'' property;
     Some (''{(const char *)'' @ hex_u name @ '', (const char *)'' @ hex_u attribute @ ''}, '')
   }"

definition emit_properties :: "json list option \<Rightarrow> string \<Rightarrow> (string \<times> string) option" where
  "emit_properties properties symbol =
     (if items_of properties = [] then Some (''0'', [])
      else map_option (\<lambda>entries. (''&'' @ symbol,
             list_head [] ''xl_property_t properties'' symbol 8 (length (items_of properties)) @ entries @ ''}};'' @ nl))
           (concat_options property_entry (items_of properties)))"

definition extern_char :: "string \<Rightarrow> string" where
  "extern_char symbol = ''extern char '' @ symbol @ '';'' @ nl"

definition emit_protocol_list :: "json list option \<Rightarrow> string \<Rightarrow> (string \<times> string) option" where
  "emit_protocol_list protocols symbol =
     (if items_of protocols = [] then Some (''0'', [])
      else do {
        declared \<leftarrow> concat_options (\<lambda>entry. map_option (\<lambda>a. extern_char (protocol_symbol a)) (json_int entry)) (items_of protocols);
        entries \<leftarrow> concat_options (\<lambda>entry. map_option (\<lambda>a. ''&'' @ protocol_symbol a @ '', '') (json_int entry)) (items_of protocols);
        Some (''(void *)&'' @ symbol,
          declared @ ''struct { uintptr_t count; void *list['' @ dec_string (length (items_of protocols)) @ '']; } '' @ symbol @
          objc_const @ '' = {'' @ dec_string (length (items_of protocols)) @ '', {'' @ entries @ ''}};'' @ nl)
      })"

section \<open>The metadata\<close>

text \<open>The stream \<open>meta\<close> and the lists of what the runtime must see.\<close>

record Metadata =
  md_meta :: string
  md_classlist :: "string list"
  md_catlist :: "string list"
  md_protolist :: "string list"

definition add_meta :: "string \<Rightarrow> Metadata \<Rightarrow> Metadata" where
  "add_meta s md = md\<lparr>md_meta := md_meta md @ s\<rparr>"

text \<open>A list of methods, whose text goes to the stream and whose reference to whom it is for.\<close>

definition put_methods :: "ASTContext \<Rightarrow> ASTContext \<Rightarrow> Pool \<Rightarrow> Pool \<Rightarrow> json list option \<Rightarrow> bool \<Rightarrow> string \<Rightarrow> string \<Rightarrow> bool \<Rightarrow>
    Metadata \<times> Generator \<Rightarrow> (string \<times> Metadata \<times> Generator) option" where
  "put_methods gc hc gpool hpool methods class_method symbol hint implementations state =
     map_option (\<lambda>(reference, s, gen). (reference, add_meta s (fst state), gen))
       (emit_methods gc hc gpool hpool methods class_method symbol hint implementations (snd state))"

definition put :: "(string \<times> string) option \<Rightarrow> Metadata \<times> Generator \<Rightarrow> (string \<times> Metadata \<times> Generator) option" where
  "put emitted state = map_option (\<lambda>(reference, s). (reference, add_meta s (fst state), snd state)) emitted"

definition emit_protocol :: "ASTContext \<Rightarrow> ASTContext \<Rightarrow> Pool \<Rightarrow> Pool \<Rightarrow> json \<Rightarrow> Metadata \<times> Generator \<Rightarrow> (Metadata \<times> Generator) option" where
  "emit_protocol gc hc gpool hpool item state = do {
     protocol \<leftarrow> json_object item;
     address \<leftarrow> get_int ''address'' protocol;
     hint \<leftarrow> get_string ''name'' protocol;
     let base = ''xl_objc_proto_'' @ padded_hex address @ ''_'';
     (_, state) \<leftarrow> put (emit_protocol_list (get_array ''protocols'' protocol) (base @ ''protocols'')) state;
     (_, state) \<leftarrow> put_methods gc hc gpool hpool (get_array ''instance_methods'' protocol) False (base @ ''instance'') hint False state;
     (_, state) \<leftarrow> put_methods gc hc gpool hpool (get_array ''class_methods'' protocol) True (base @ ''class'') hint False state;
     (_, state) \<leftarrow> put_methods gc hc gpool hpool (get_array ''optional_instance_methods'' protocol) False
       (base @ ''optional_instance'') hint False state;
     (_, state) \<leftarrow> put_methods gc hc gpool hpool (get_array ''optional_class_methods'' protocol) True
       (base @ ''optional_class'') hint False state;
     (_, state) \<leftarrow> put (emit_properties (get_array ''properties'' protocol) (base @ ''properties'')) state;
     let target = protocol_symbol address;
     Some ((add_meta (extern_char target) (fst state))\<lparr>md_protolist := md_protolist (fst state) @ [''&'' @ target]\<rparr>, snd state)
   }"

text \<open>One of the two \<open>class_ro_t\<close> of a class.\<close>

definition emit_class_data :: "ASTContext \<Rightarrow> ASTContext \<Rightarrow> Pool \<Rightarrow> Pool \<Rightarrow> json \<Rightarrow> string \<Rightarrow> bool \<Rightarrow> Metadata \<times> Generator \<Rightarrow>
    (Metadata \<times> Generator) option" where
  "emit_class_data gc hc gpool hpool cls suff is_meta state = do {
     data \<leftarrow> get_object (if is_meta then ''meta_data'' else ''data'') cls;
     let base = (if is_meta then ''xl_objc_meta_'' else ''xl_objc_'') @ suff;
     name \<leftarrow> get_string ''name'' data;
     (methods, state) \<leftarrow> put_methods gc hc gpool hpool (get_array ''methods'' data) is_meta (base @ ''_methods'') name True state;
     (ivars, state) \<leftarrow> put (emit_ivars (get_array ''ivars'' data) (base @ ''_ivars'')) state;
     (properties, state) \<leftarrow> put (emit_properties (get_array ''properties'' data) (base @ ''_properties'')) state;
     (protocols, state) \<leftarrow> put (emit_protocol_list (get_array ''protocols'' data) (base @ ''_protocols'')) state;
     flags \<leftarrow> get_int ''flags'' data;
     start \<leftarrow> get_int ''instance_start'' data;
     bytes \<leftarrow> get_int ''instance_size'' data;
     name_address \<leftarrow> get_int ''name_address'' data;
     Some (add_meta (''struct xl_class_ro_t '' @ (if is_meta then ''xl_objc_metaro_'' else ''xl_objc_ro_'') @ suff @ objc_const @
         '' = {'' @ signed_string flags @ ''u, '' @ signed_string start @ ''u, '' @ signed_string bytes @ ''u, 0, (const char *)'' @
         hex_u name_address @ '', '' @ methods @ '', '' @ protocols @ '', '' @ ivars @ '', 0, '' @ properties @ ''};'' @ nl) (fst state),
       snd state)
   }"

text \<open>\<open>rfind\<close>, and what follows.\<close>

fun after_last :: "string \<Rightarrow> string \<Rightarrow> string option" where
  "after_last needle [] = None"
| "after_last needle (c # s) =
     (case after_last needle s of
        Some rest \<Rightarrow> Some rest
      | None \<Rightarrow> if starts_with needle (c # s) then Some (drop (length needle) (c # s)) else None)"

text \<open>The superclass of a class, for the table of layouts: a host class by name or a guest class by address.\<close>

definition super_exprs :: "json \<Rightarrow> (string \<times> string) option" where
  "super_exprs super = do {
     kind_name \<leftarrow> get_string ''kind'' super;
     (if kind_name = ''import''
      then map_option (\<lambda>sym. (quoted (case after_last ''_OBJC_CLASS_$_'' sym of None \<Rightarrow> sym | Some name \<Rightarrow> name), ''0''))
             (get_string ''symbol'' super)
      else if kind_name = ''local'' then map_option (\<lambda>address. (''0'', hex_u address)) (get_int ''address'' super)
      else Some (''0'', ''0''))
   }"

definition layout_error :: "string \<Rightarrow> int \<Rightarrow> int \<Rightarrow> string" where
  "layout_error name offset start =
     ''class '' @ name @ '': ivar offset '' @ signed_string offset @ '' below instanceStart '' @ signed_string start @
     '' (offset not read from image)''"

text \<open>One entry of the table of a class's instance variables; an offset below the class's start is an error, told at the end.\<close>

definition ivar_fixup :: "string \<Rightarrow> int \<Rightarrow> json \<Rightarrow> Generator \<Rightarrow> (string \<times> Generator) option" where
  "ivar_fixup name start item gen = do {
     ivar \<leftarrow> json_object item;
     offset \<leftarrow> get_int ''offset_value'' ivar;
     address \<leftarrow> get_int ''offset_address'' ivar;
     Some (''{(int32_t *)'' @ hex_u address @ '', '' @ signed_string offset @ ''u}, '',
       if offset < start then gen\<lparr>gen_layout_errors := gen_layout_errors gen @ [layout_error name offset start]\<rparr> else gen)
   }"

definition emit_layout :: "json \<Rightarrow> string \<Rightarrow> Metadata \<times> Generator \<Rightarrow> (Metadata \<times> Generator) option" where
  "emit_layout cls suff state = do {
     data \<leftarrow> get_object ''data'' cls;
     super \<leftarrow> get_object ''superclass'' cls;
     (super_host, super_guest) \<leftarrow> super_exprs super;
     let offsets = ''xl_ivar_fixup_'' @ suff;
     ivars \<leftarrow> get_array ''ivars'' data;
     start \<leftarrow> get_int ''instance_start'' data;
     bytes \<leftarrow> get_int ''instance_size'' data;
     name \<leftarrow> get_string ''name'' data;
     address \<leftarrow> get_int ''address'' cls;
     (entries, gen) \<leftarrow> gather (ivar_fixup name start) ivars (snd state);
     Some (add_meta (''static const struct xl_ivar_fixup '' @ offsets @ ''[] = {'' @ entries @ ''{0, 0}};'' @ nl) (fst state),
       gen\<lparr>gen_layouts := gen_layouts gen @ ''    {&xl_objc_ro_'' @ suff @ '', '' @ hex_u address @ '', '' @ super_host @ '', '' @
         super_guest @ '', '' @ signed_string start @ ''u, '' @ signed_string bytes @ ''u, '' @ dec_string (length ivars) @ '', '' @ offsets @
         ''},'' @ nl\<rparr>)
   }"

definition suffix_of :: "int \<Rightarrow> nat \<Rightarrow> string" where
  "suffix_of index c = signed_string index @ ''_'' @ dec_string c"

definition emit_class :: "ASTContext \<Rightarrow> ASTContext \<Rightarrow> Pool \<Rightarrow> Pool \<Rightarrow> int \<Rightarrow> nat \<times> json \<Rightarrow> Metadata \<times> Generator \<Rightarrow>
    (Metadata \<times> Generator) option" where
  "emit_class gc hc gpool hpool index item state = do {
     cls \<leftarrow> json_object (snd item);
     let suff = suffix_of index (fst item);
     state \<leftarrow> emit_class_data gc hc gpool hpool cls suff False state;
     state \<leftarrow> emit_class_data gc hc gpool hpool cls suff True state;
     address \<leftarrow> get_int ''address'' cls;
     let symbol = ''xl_guest_class_'' @ padded_hex address;
     emit_layout cls suff
       ((add_meta (extern_char symbol) (fst state))\<lparr>md_classlist := md_classlist (fst state) @ [''&'' @ symbol]\<rparr>, snd state)
   }"

text \<open>The class a category extends: one of the host by its symbol, or one of the guest by its address.\<close>

definition category_class :: "json \<Rightarrow> Metadata \<times> Generator \<Rightarrow> (string \<times> Metadata \<times> Generator) option" where
  \<open>category_class cls state = do {
     kind_name \<leftarrow> get_string ''kind'' cls;
     (if kind_name = ''import''
      then map_option (\<lambda>symbol.
             (''&'' @ Sanitize (c_name symbol),
              add_meta (''extern struct objc_class '' @ Sanitize (c_name symbol) @ '' __asm("_'' @ c_name symbol @ ''");'' @ nl) (fst state),
              passthrough_symbol symbol (snd state))) (get_string ''symbol'' cls)
      else map_option (\<lambda>address. (''(Class)'' @ hex_u address, fst state, snd state)) (get_int ''address'' cls))
   }\<close>

definition emit_category :: "ASTContext \<Rightarrow> ASTContext \<Rightarrow> Pool \<Rightarrow> Pool \<Rightarrow> int \<Rightarrow> nat \<times> json \<Rightarrow> Metadata \<times> Generator \<Rightarrow>
    (Metadata \<times> Generator) option" where
  "emit_category gc hc gpool hpool index item state = do {
     category \<leftarrow> json_object (snd item);
     let symbol = ''xl_objc_category_'' @ suffix_of index (fst item);
     cls \<leftarrow> get_object ''class'' category;
     (cls_expr, state) \<leftarrow> category_class cls state;
     hint \<leftarrow> get_string ''name'' category;
     (instance_methods, state) \<leftarrow> put_methods gc hc gpool hpool (get_array ''instance_methods'' category) False (symbol @ ''_instance'')
       hint True state;
     (class_methods, state) \<leftarrow> put_methods gc hc gpool hpool (get_array ''class_methods'' category) True (symbol @ ''_class'') hint True state;
     (properties, state) \<leftarrow> put (emit_properties (get_array ''properties'' category) (symbol @ ''_properties'')) state;
     (protocols, state) \<leftarrow> put (emit_protocol_list (get_array ''protocols'' category) (symbol @ ''_protocols'')) state;
     name_address \<leftarrow> get_int ''name_address'' category;
     Some ((add_meta (''struct xl_category_t '' @ symbol @ objc_const @ '' = {(const char *)'' @ hex_u name_address @ '', '' @ cls_expr @
         '', '' @ instance_methods @ '', '' @ class_methods @ '', '' @ protocols @ '', '' @ properties @ ''};'' @ nl) (fst state))
         \<lparr>md_catlist := md_catlist (fst state) @ [''&'' @ symbol]\<rparr>,
       snd state)
   }"

definition emit_selector_slot :: "json \<Rightarrow> Generator \<Rightarrow> Generator option" where
  "emit_selector_slot item gen = do {
     entry \<leftarrow> json_object item;
     slot \<leftarrow> get_int ''slot'' entry;
     selector \<leftarrow> get_string ''selector'' entry;
     Some (add_init (''    *(uint64_t *)(uintptr_t)'' @ hex_u slot @ '' = (uintptr_t)sel_registerName('' @ quoted selector @ '');'' @ nl) gen)
   }"

definition report_error :: "json \<Rightarrow> Generator \<Rightarrow> Generator option" where
  "report_error item gen =
     map_option (\<lambda>message. count_unsupported (add_report (''objc metadata: UNSUPPORTED: '' @ message) gen)) (json_string item)"

definition emit_objc_image :: "ASTContext \<Rightarrow> ASTContext \<Rightarrow> Pool \<Rightarrow> Pool \<Rightarrow> json \<Rightarrow> Metadata \<times> Generator \<Rightarrow> (Metadata \<times> Generator) option" where
  "emit_objc_image gc hc gpool hpool item state = do {
     image \<leftarrow> json_object item;
     index \<leftarrow> get_int ''index'' image;
     complaints \<leftarrow> get_array ''errors'' image;
     gen \<leftarrow> each report_error complaints (snd state);
     protocols \<leftarrow> get_array ''protocols'' image;
     state \<leftarrow> each (emit_protocol gc hc gpool hpool) protocols (fst state, gen);
     classes \<leftarrow> get_array ''classes'' image;
     state \<leftarrow> each (emit_class gc hc gpool hpool index) (List.enumerate 0 classes) state;
     categories \<leftarrow> get_array ''categories'' image;
     state \<leftarrow> each (emit_category gc hc gpool hpool index) (List.enumerate 0 categories) state;
     selectors \<leftarrow> get_array ''selectors'' image;
     gen \<leftarrow> each emit_selector_slot selectors (snd state);
     Some (fst state, gen)
   }"

text \<open>A list the linker keeps in a section of its own; none is written when it is empty.\<close>

definition section_list :: "string \<Rightarrow> string \<Rightarrow> string \<Rightarrow> string \<Rightarrow> string list \<Rightarrow> string" where
  \<open>section_list type_name symbol section_name cast entries =
     (if entries = [] then []
      else ''static '' @ type_name @ '' '' @ symbol @ ''[] __attribute__((used, section("__DATA,'' @ section_name @
        '',regular,no_dead_strip"))) = {'' @ concat (map (\<lambda>e. cast @ e @ '', '') entries) @ ''};'' @ nl)\<close>

definition swift_classes :: "string \<Rightarrow> json list \<Rightarrow> string option" where
  "swift_classes key images =
     concat_options (\<lambda>item. do {
       image \<leftarrow> json_object item;
       addresses \<leftarrow> get_array key image;
       concat_options (\<lambda>a. map_option (\<lambda>address. hex_u address @ '', '') (json_int a)) addresses
     }) images"

definition EmitClasses :: "ASTContext \<Rightarrow> ASTContext \<Rightarrow> Pool \<Rightarrow> Pool \<Rightarrow> json \<Rightarrow> Generator \<Rightarrow> Generator option" where
  "EmitClasses gc hc gpool hpool manifest gen = do {
     images \<leftarrow> get_array ''images'' manifest;
     (md, gen) \<leftarrow> each (emit_objc_image gc hc gpool hpool) images
       (\<lparr>md_meta = [], md_classlist = [], md_catlist = [], md_protolist = []\<rparr>, gen);
     static_classes \<leftarrow> swift_classes ''swift_static_classes'' images;
     listed_classes \<leftarrow> swift_classes ''swift_listed_classes'' images;
     Some (gen\<lparr>gen_tables := gen_tables gen @ md_meta md @
       section_list ''Class const'' ''xl_objc_classlist'' ''__xlcls'' ''(Class)'' (md_classlist md) @
       section_list ''void *const'' ''xl_objc_protolist'' ''__xlproto'' [] (md_protolist md) @
       section_list ''struct xl_category_t *const'' ''xl_objc_catlist'' ''__xlcat'' [] (md_catlist md) @
       ''const struct xl_class_layout xl_class_layouts[] = {'' @ nl @ gen_layouts gen @ ''    {0, 0, 0, 0, 0, 0}};'' @ nl @
       ''const uint32_t xl_swift_static_classes[] = {'' @ static_classes @ ''0};'' @ nl @
       ''const uint32_t xl_swift_listed_classes[] = {'' @ listed_classes @ ''0};'' @ nl\<rparr>)
   }"

end
