(* ===== verification/Survey.thy ===== *)
theory Survey
  imports Selectors "HOL-Library.Product_Lexorder"
begin

text \<open>
  The survey of the bridge generator (\<open>Survey\<close> in \<open>xlgen.cpp\<close>): every function and every method the headers declare, by
  framework, with what its bridge would need or why it has none, and the inline functions whose guest code would read
  data laid out for the host.
\<close>

section \<open>Frameworks and reasons\<close>

text \<open>What precedes the first occurrence of a text.\<close>

fun before :: "string \<Rightarrow> string \<Rightarrow> string option" where
  "before needle [] = (if needle = [] then Some [] else None)"
| "before needle (c # s) = (if starts_with needle (c # s) then Some [] else map_option (\<lambda>front. c # front) (before needle s))"

definition Framework :: "string \<Rightarrow> string" where
  "Framework file =
     (case before ''.framework/'' file of
        Some path \<Rightarrow> rev (takeWhile (\<lambda>c. c \<noteq> CHR ''/'') (rev path))
      | None \<Rightarrow> if before ''/usr/include/'' file \<noteq> None then ''usr/include'' else ''other'')"

definition ReasonClass :: "string \<Rightarrow> string" where
  "ReasonClass note =
     (if before ''union'' note \<noteq> None then ''union by value or behind a pointer''
      else if before ''whose layout differs'' note \<noteq> None then ''pointer to data whose layout differs (needs a per-API rule)''
      else if before ''block result'' note \<noteq> None then ''returns a block''
      else if before ''unsupported kind'' note \<noteq> None then ''returns an out pointer, array or callback''
      else ''other: '' @ take 60 note)"

section \<open>Declarations\<close>

text \<open>
  A declaration of a function: the function, the file it is spelt in, and when it has a body the structures whose members the
  body names, each with its name if it has one.
\<close>

record SurveyFunction =
  sf_function :: FunctionDecl
  sf_builtin :: bool
  sf_file :: string
  sf_body :: "(string option \<times> ctype) list option"

text \<open>\<open>records\<close>: the structures the host's headers define under a name.\<close>

definition VisitMemberExpr :: "ASTContext \<Rightarrow> ASTContext \<Rightarrow> (string \<Rightarrow> ctype list) \<Rightarrow> string option \<times> ctype \<Rightarrow> bool" where
  "VisitMemberExpr gc hc records member =
     (case fst member of
        None \<Rightarrow> False
      | Some name \<Rightarrow> list_ex (\<lambda>host. \<not> fst (SameLayout gc (snd member) hc host {})) (records name))"

section \<open>Tallies\<close>

record Tally =
  t_plain :: nat
  t_converted :: nat
  t_formatted :: nat
  t_variadic :: nat
  t_unsupported :: nat
  t_missing :: nat
  t_leaks :: nat
  t_inline :: nat
  t_reasons :: "(string, nat) omap"
  t_conversions :: "(string, nat) omap"

definition no_tally :: Tally where
  "no_tally = \<lparr>t_plain = 0, t_converted = 0, t_formatted = 0, t_variadic = 0, t_unsupported = 0, t_missing = 0, t_leaks = 0,
     t_inline = 0, t_reasons = [], t_conversions = []\<rparr>"

definition increase :: "nat \<Rightarrow> string \<Rightarrow> (string, nat) omap \<Rightarrow> (string, nat) omap" where
  "increase n key counts = omap_set key (votes_of counts key + n) counts"

definition conversion_name :: "Bridge.Kind \<Rightarrow> string option" where
  "conversion_name k =
     (case k of
        KRecord \<Rightarrow> Some ''struct by value''
      | KOutSlot \<Rightarrow> Some ''out pointer to a scalar or object''
      | KRecordPointer \<Rightarrow> Some ''pointer to a struct (copied in, and out unless const)''
      | KArray \<Rightarrow> Some ''counted array of scalars or objects''
      | KBlock \<Rightarrow> Some ''block''
      | KCallback \<Rightarrow> Some ''function pointer callback''
      | _ \<Rightarrow> None)"

text \<open>The conversions a signature needs, each once.\<close>

definition conversion_names :: "Signature \<Rightarrow> string list" where
  "conversion_names s = remdups (List.map_filter (\<lambda>v. conversion_name (v_kind v)) (map p_value (sig_params s) @ [sig_result s]))"

definition record_conversions :: "Signature \<Rightarrow> Tally \<Rightarrow> bool \<times> Tally" where
  "record_conversions s tally =
     (conversion_names s \<noteq> [], tally\<lparr>t_conversions := fold (increase 1) (conversion_names s) (t_conversions tally)\<rparr>)"

text \<open>The end of both loops: a signature is refused, needs conversions or does not.\<close>

definition survey_signature :: "Signature \<Rightarrow> Tally \<Rightarrow> Tally" where
  "survey_signature s tally =
     (if \<not> sig_supported s
      then tally\<lparr>t_unsupported := t_unsupported tally + 1, t_reasons := increase 1 (ReasonClass (sig_note s)) (t_reasons tally)\<rparr>
      else case record_conversions s tally of
        (True, tally) \<Rightarrow> tally\<lparr>t_converted := t_converted tally + 1\<rparr>
      | (False, tally) \<Rightarrow> tally\<lparr>t_plain := t_plain tally + 1\<rparr>)"

definition survey_variadic :: "bool \<Rightarrow> Tally \<Rightarrow> Tally" where
  "survey_variadic formatted tally =
     (if formatted then tally\<lparr>t_formatted := t_formatted tally + 1\<rparr> else tally\<lparr>t_variadic := t_variadic tally + 1\<rparr>)"

definition tally_at :: "string \<Rightarrow> (Tally \<Rightarrow> Tally) \<Rightarrow> (string, Tally) omap \<Rightarrow> (string, Tally) omap" where
  "tally_at framework step tallies =
     omap_set framework (step (case map_of tallies framework of None \<Rightarrow> no_tally | Some tally \<Rightarrow> tally)) tallies"

section \<open>The two loops\<close>

text \<open>\<open>hosts\<close>: the first function the host's headers declare under a name.\<close>

definition survey_function :: "ASTContext \<Rightarrow> ASTContext \<Rightarrow> (string \<Rightarrow> FunctionDecl option) \<Rightarrow> (string \<Rightarrow> ctype list) \<Rightarrow> SurveyFunction \<Rightarrow>
    Tally \<Rightarrow> Tally" where
  "survey_function gc hc hosts records f tally =
     (case sf_body f of
        Some members \<Rightarrow>
          tally\<lparr>t_inline := t_inline tally + 1,
                t_leaks := t_leaks tally + (if list_ex (VisitMemberExpr gc hc records) members then 1 else 0)\<rparr>
      | None \<Rightarrow>
          (case hosts (fn_name (sf_function f)) of
             None \<Rightarrow> tally\<lparr>t_missing := t_missing tally + 1\<rparr>
           | Some host \<Rightarrow>
               if length (decl_params (fn_decl host)) \<noteq> length (decl_params (fn_decl (sf_function f)))
               then tally\<lparr>t_missing := t_missing tally + 1\<rparr>
               else if fn_variadic (sf_function f) then survey_variadic (fn_format (sf_function f) \<noteq> None) tally
               else survey_signature (FromFunction gc hc (fn_decl (sf_function f)) (fn_decl host)) tally))"

definition survey_functions :: "ASTContext \<Rightarrow> ASTContext \<Rightarrow> (string \<Rightarrow> FunctionDecl option) \<Rightarrow> (string \<Rightarrow> ctype list) \<Rightarrow>
    SurveyFunction list \<Rightarrow> (string, Tally) omap" where
  "survey_functions gc hc hosts records decls =
     fold (\<lambda>f tallies.
       if sf_builtin f \<or> Framework (sf_file f) = ''other'' then tallies
       else tally_at (Framework (sf_file f)) (survey_function gc hc hosts records f) tallies) decls []"

definition survey_method :: "ASTContext \<Rightarrow> ASTContext \<Rightarrow> MethodDecl list \<Rightarrow> MethodDecl \<Rightarrow> Tally \<Rightarrow> Tally" where
  "survey_method gc hc host m tally =
     (case Counterpart m host of
        None \<Rightarrow> tally\<lparr>t_missing := t_missing tally + 1\<rparr>
      | Some h \<Rightarrow>
          if m_variadic m then survey_variadic (m_format m \<noteq> None) tally
          else survey_signature (FromMethod gc hc (m_decl m) (m_decl h)) tally)"

text \<open>The methods of a key of the pool; one that was visited is passed over.\<close>

definition visit_method :: "ASTContext \<Rightarrow> ASTContext \<Rightarrow> MethodDecl list \<Rightarrow> MethodDecl \<Rightarrow> nat list \<times> (string, Tally) omap \<Rightarrow>
    nat list \<times> (string, Tally) omap" where
  "visit_method gc hc host m state =
     (if m_node m \<in> set (fst state) then state
      else (m_node m # fst state, tally_at (Framework (m_file m)) (survey_method gc hc host m) (snd state)))"

definition survey_methods :: "ASTContext \<Rightarrow> ASTContext \<Rightarrow> Pool \<Rightarrow> Pool \<Rightarrow> (string, Tally) omap" where
  "survey_methods gc hc gpool hpool =
     snd (fold (\<lambda>(key, ms) state.
       if take 1 key \<noteq> ''*'' then state else fold (visit_method gc hc (pool_methods hpool key)) ms state) gpool ([], []))"

section \<open>The text\<close>

text \<open>Columns: a name to the left, a number to the right.\<close>

definition left_column :: "nat \<Rightarrow> string \<Rightarrow> string" where
  "left_column width s = s @ replicate (width - length s) (CHR '' '')"

definition right_column :: "nat \<Rightarrow> string \<Rightarrow> string" where
  "right_column width s = replicate (width - length s) (CHR '' '') @ s"

definition columns :: "string \<Rightarrow> string list \<Rightarrow> string" where
  "columns name cells =
     left_column 24 name @ concat (map (\<lambda>(width, cell). '' '' @ right_column width cell) (zip [7, 9, 9, 8, 11, 12, 8, 8] cells)) @ nl"

definition tally_row :: "string \<Rightarrow> Tally \<Rightarrow> string" where
  "tally_row name tally =
     columns name (map dec_string [t_plain tally, t_converted tally, t_formatted tally, t_variadic tally, t_unsupported tally,
       t_missing tally, t_inline tally, t_leaks tally])"

definition add_tally :: "Tally \<Rightarrow> Tally \<Rightarrow> Tally" where
  "add_tally tally overall =
     \<lparr>t_plain = t_plain overall + t_plain tally, t_converted = t_converted overall + t_converted tally,
      t_formatted = t_formatted overall + t_formatted tally, t_variadic = t_variadic overall + t_variadic tally,
      t_unsupported = t_unsupported overall + t_unsupported tally, t_missing = t_missing overall + t_missing tally,
      t_leaks = t_leaks overall + t_leaks tally, t_inline = t_inline overall + t_inline tally,
      t_reasons = fold (\<lambda>(reason, n). increase n reason) (t_reasons tally) (t_reasons overall),
      t_conversions = fold (\<lambda>(name, n). increase n name) (t_conversions tally) (t_conversions overall)\<rparr>"

definition total_tally :: "(string, Tally) omap \<Rightarrow> Tally" where
  "total_tally tallies = fold (\<lambda>(framework, tally). add_tally tally) tallies no_tally"

definition count_line :: "nat \<times> string \<Rightarrow> string" where
  "count_line e = ''  '' @ dec_string (fst e) @ ''  '' @ snd e @ nl"

definition dump :: "string \<Rightarrow> (string, Tally) omap \<Rightarrow> string" where
  "dump title tallies =
     (let overall = total_tally tallies
      in ''== '' @ title @ nl @
         columns ''framework'' [''plain'', ''converted'', ''formatted'', ''variadic'', ''unsupported'', ''no-host-decl'', ''inline'', ''leaking''] @
         concat (map (\<lambda>(framework, tally). tally_row framework tally) tallies) @ tally_row ''TOTAL'' overall @
         ''conversions needed (declarations using each):'' @ nl @
         concat (map (\<lambda>(name, n). count_line (n, name)) (t_conversions overall)) @ ''unsupported by reason:'' @ nl @
         concat (map count_line (rev (sort (map prod.swap (t_reasons overall))))))"

definition Survey :: "ASTContext \<Rightarrow> ASTContext \<Rightarrow> (string \<Rightarrow> FunctionDecl option) \<Rightarrow> (string \<Rightarrow> ctype list) \<Rightarrow> SurveyFunction list \<Rightarrow>
    MethodDecl list \<Rightarrow> MethodDecl list \<Rightarrow> string" where
  "Survey gc hc hosts records decls gmethods hmethods =
     dump ''C functions'' (survey_functions gc hc hosts records decls) @
     dump ''Objective-C methods (declarations, properties included)''
       (survey_methods gc hc (CollectMethods gmethods []) (CollectMethods hmethods []))"

end
