(* ===== verification/Xlgen.thy ===== *)
theory Xlgen
  imports Classes Survey
begin

text \<open>
  The bridge generator as a command: \<open>ReadLines\<close>, \<open>Write\<close> and \<open>main\<close> of \<open>xlgen.cpp\<close>, which sends every undefined symbol of
  the guest to the bridge it gets, then emits the selectors and the classes of the manifest. The two syntax trees, the
  input files and which outputs can be opened are parameters.
\<close>

section \<open>\<open>ReadLines\<close>\<close>

definition white :: "char \<Rightarrow> bool" where
  "white c \<longleftrightarrow> c \<in> {CHR '' '', CHR 0x09, CHR 0x0A, CHR 0x0B, CHR 0x0C, CHR 0x0D}"

definition trim :: "string \<Rightarrow> string" where
  "trim s = rev (dropWhile white (rev (dropWhile white s)))"

fun split_lines :: "string \<Rightarrow> string list" where
  "split_lines [] = [[]]"
| "split_lines (c # s) =
     (if c = CHR 0x0A then [] # split_lines s
      else case split_lines s of [] \<Rightarrow> [[c]] | l # ls \<Rightarrow> (c # l) # ls)"

text \<open>The lines of a file as a set, in its order; a file that is not named or cannot be read has none.\<close>

definition ReadLines :: "string option \<Rightarrow> string list" where
  "ReadLines file =
     (case file of
        None \<Rightarrow> []
      | Some text \<Rightarrow> fold oset_insert (filter (\<lambda>l. l \<noteq> []) (map trim (split_lines text))) [])"

section \<open>One symbol\<close>

text \<open>
  A syntax tree: the types, and the function and the variable it declares under a name, its methods, its declarations of
  functions in their order, and the structures it defines under a name.
\<close>

record Tree =
  tree_context :: ASTContext
  tree_function :: "string \<Rightarrow> FunctionDecl option"
  tree_variable :: "string \<Rightarrow> (string \<times> ctype) option"
  tree_methods :: "MethodDecl list"
  tree_functions :: "SurveyFunction list"
  tree_records :: "string \<Rightarrow> ctype list"

definition trampolines :: "(string \<times> string) list" where
  "trampolines = [(''_objc_msgSend'', ''objc_msgSend''), (''_objc_msgSendSuper2'', ''objc_msgSendSuper2'')]"

definition weak_functions :: "(string \<times> nat) list" where
  "weak_functions =
     [(''_objc_initWeak'', 2), (''_objc_storeWeak'', 2), (''_objc_destroyWeak'', 1), (''_objc_loadWeakRetained'', 1),
      (''_objc_loadWeak'', 1), (''_objc_copyWeak'', 2), (''_objc_moveWeak'', 2), (''_objc_autoreleaseReturnValue'',
      1), (''_objc_retainAutoreleasedReturnValue'', 1), (''_objc_retainAutoreleaseReturnValue'', 1),
      (''_objc_unsafeClaimAutoreleasedReturnValue'', 1), (''_objc_claimAutoreleasedReturnValue'', 1),
      (''_objc_retainBlock'', 1), (''_objc_retain'', 1), (''_objc_release'', 1), (''_objc_autorelease'', 1),
      (''___cxa_atexit'', 3), (''__Znwm'', 1), (''__Znam'', 1), (''__ZdlPv'', 1), (''__ZdaPv'', 1),
      (''_NSGetUncaughtExceptionHandler'', 0), (''_kevent'', 6), (''_inflateInit_'', 3), (''_inflateInit2_'', 4),
      (''_deflateInit_'', 4), (''_deflateInit2_'', 8), (''_inflate'', 2), (''_deflate'', 2), (''_inflateEnd'', 1),
      (''_deflateEnd'', 1), (''_inflateReset'', 1), (''_deflateReset'', 1), (''_utimensat'', 4), (''_readdir'', 1),
      (''_signal'', 2), (''___assert_rtn'', 4), (''_exit'', 1), (''__exit'', 1), (''_objc_copyImageNames'', 1),
      (''_objc_copyClassNamesForImage'', 2), (''_objc_copyClassList'', 1), (''_objc_readClassPair'', 2),
      (''__objc_realizeClassFromSwift'', 2), (''_class_getImageName'', 1)]"

definition faults :: "string list" where
  "faults = [''__Unwind_Resume'', ''___objc_personality_v0'', ''___gxx_personality_v0'', ''___cxa_throw'', ''_objc_exception_throw'']"

definition exec_family :: "string list" where
  "exec_family = [''_execl'', ''_execle'', ''_execlp'', ''_execv'', ''_execve'', ''_execvp'', ''_execvP'']"

definition empty_singletons :: "(string \<times> string) list" where
  "empty_singletons = [(''___NSArray0__'', ''NSArray''), (''___NSDictionary0__'', ''NSDictionary'')]"

definition host_class_symbol :: "string \<Rightarrow> bool" where
  "host_class_symbol symbol \<longleftrightarrow>
     starts_with ''_OBJC_CLASS_$_'' symbol \<or> starts_with ''_OBJC_METACLASS_$_'' symbol \<or> symbol = ''__objc_empty_cache'' \<or>
     symbol = ''___CFConstantStringClassReference''"

text \<open>The name a symbol is declared under, and its whole name when a variant is cut off.\<close>

definition variant_of :: "string \<Rightarrow> string \<times> string" where
  "variant_of name =
     (let base = takeWhile (\<lambda>c. c \<noteq> CHR ''$'') name
      in if base \<noteq> name \<and> base \<noteq> [] then (base, name) else (name, []))"

text \<open>A symbol the headers declare, or do not.\<close>

definition EmitDeclared :: "Tree \<Rightarrow> Tree \<Rightarrow> nat list option \<Rightarrow> string \<Rightarrow> Generator \<Rightarrow> Generator option" where
  "EmitDeclared g h entitlements symbol gen =
     (case variant_of (c_name symbol) of
        (name, alias_name) \<Rightarrow>
          (case (tree_function g name, tree_function h name) of
             (Some gf, Some hf) \<Rightarrow> EmitFunction (tree_context g) (tree_context h) entitlements alias_name symbol gf hf gen
           | _ \<Rightarrow>
               (case (tree_variable g name, tree_variable h name) of
                  (Some (declared, gt), Some (_, ht)) \<Rightarrow>
                    Some (EmitVariable (tree_context g) (tree_context h) symbol declared gt ht gen)
                | _ \<Rightarrow> Some (Fault symbol ''no declaration in the SDK headers'' gen))))"

definition tree_declaration :: "Tree \<Rightarrow> string \<Rightarrow> Declaration option" where
  "tree_declaration g name = map_option fn_decl (tree_function g name)"

definition EmitSymbol :: "Tree \<Rightarrow> Tree \<Rightarrow> nat list option \<Rightarrow> string list \<Rightarrow> string \<Rightarrow> Generator \<Rightarrow> Generator option" where
  "EmitSymbol g h entitlements provided symbol gen =
     (let gc = tree_context g; hc = tree_context h in
      if symbol \<in> set provided \<or> symbol = ''dyld_stub_binder'' then Some gen
      else if host_class_symbol symbol then Some (passthrough_symbol symbol gen)
      else if symbol \<in> set exec_family then EmitExec gc (tree_declaration g) symbol gen
      else case map_of trampolines symbol of
        Some trap \<Rightarrow> Some (EmitTrampoline symbol trap gen)
      | None \<Rightarrow>
          if symbol = ''__tlv_bootstrap'' then EmitTlvBootstrap gc hc gen
          else if symbol = ''_objc_setHook_lazyClassNamer'' then Some (EmitLazyClassNamer symbol gen)
          else if symbol = ''_objc_setHook_getImageName'' then Some (EmitImageNameHook symbol gen)
          else case map_of weak_functions symbol of
            Some arguments \<Rightarrow> Some (EmitManualFunction gc (tree_declaration g) symbol arguments (''xl_manual_'' @ c_name symbol) gen)
          | None \<Rightarrow>
              if symbol \<in> set faults
              then Some (Fault symbol ''exception unwinding across translated code is not implemented'' gen)
              else case map_of empty_singletons symbol of
                Some host_class \<Rightarrow> Some (EmitEmptyCollectionSingleton symbol host_class gen)
              | None \<Rightarrow>
                  if hd symbol \<noteq> CHR ''_'' then Some (add_report (symbol @ '': UNSUPPORTED: symbol without a C name'') gen)
                  else EmitDeclared g h entitlements symbol gen)"

section \<open>The manifest\<close>

definition manifest_selectors :: "json list \<Rightarrow> string list option" where
  "manifest_selectors images =
     each (\<lambda>item found. do {
       image \<leftarrow> json_object item;
       selrefs \<leftarrow> get_array ''selectors'' image;
       each (\<lambda>selref found. map_option (\<lambda>s. oset_insert s found) (Option.bind (json_object selref) (get_string ''selector'')))
         selrefs found
     }) images []"

definition guest_methods :: "json \<Rightarrow> string \<Rightarrow> string list \<Rightarrow> string list option" where
  "guest_methods cls key found = do {
     data \<leftarrow> get_object key cls;
     methods \<leftarrow> get_array ''methods'' data;
     each (\<lambda>method found. map_option (\<lambda>s. oset_insert s found) (Option.bind (json_object method) (get_string ''selector''))) methods found
   }"

definition manifest_guest_selectors :: "json list \<Rightarrow> string list option" where
  "manifest_guest_selectors images =
     each (\<lambda>item found. do {
       image \<leftarrow> json_object item;
       classes \<leftarrow> get_array ''classes'' image;
       each (\<lambda>item found. do {
         cls \<leftarrow> json_object item;
         found \<leftarrow> guest_methods cls ''data'' found;
         guest_methods cls ''meta_data'' found
       }) classes found
     }) images []"

definition EmitManifest :: "Tree \<Rightarrow> Tree \<Rightarrow> json \<Rightarrow> Generator \<Rightarrow> Generator option" where
  "EmitManifest g h manifest gen = do {
     manifest \<leftarrow> json_object manifest;
     images \<leftarrow> get_array ''images'' manifest;
     selectors \<leftarrow> manifest_selectors images;
     guest_selectors \<leftarrow> manifest_guest_selectors images;
     let gpool = CollectMethods (tree_methods g) [];
     let hpool = CollectMethods (tree_methods h) [];
     gen \<leftarrow> EmitSelectors (tree_context g) (tree_context h) gpool hpool selectors guest_selectors gen;
     EmitClasses (tree_context g) (tree_context h) gpool hpool manifest gen
   }"

section \<open>\<open>Write\<close>\<close>

text \<open>The files the generator reads, and which of its outputs can be opened. \<open>manifest_tree\<close> is none when no manifest is named.\<close>

record GenInputs =
  includes_file :: "string option"
  abi_file :: "string option"
  symbols_file :: "string option"
  provided_file :: "string option"
  weak_only_file :: "string option"
  entitlements_file :: "nat list option"
  manifest_tree :: "json option option"
  trees :: "(Tree \<times> Tree) option"
  survey_asked :: bool
  can_write :: "string \<Rightarrow> bool"

definition guest_prologue :: string where
  \<open>guest_prologue = unlines [
     [],
     ''#include <stdarg.h>'',
     ''#include <stdint.h>'',
     [],
     ''extern void xl_trap_xl_unsupported(const char *);'',
     ''extern void _Block_use_RR(void (*)(const void *), void (*)(const void *));'',
     ''static void xl_block_retain(const void *object) { objc_retain((id)object); }'',
     ''static void xl_block_release(const void *object) { objc_release((id)object); }'',
     ''__attribute__((constructor)) static void xl_block_runtime(void) { _Block_use_RR(xl_block_retain, xl_block_release); }'',
     ''struct xl_host_block { void *isa; int32_t flags; int32_t reserved; void *invoke; void *descriptor; uint64_t host; };'',
     ''struct xl_host_block_descriptor { unsigned long reserved; unsigned long size; void (*copy)(void *, void *); void (*dispose)(void *); };'',
     ''extern void xl_trap_xl_host_block_release(uint64_t host);'',
     ''static void xl_host_block_dispose(void *block) { xl_trap_xl_host_block_release(((struct xl_host_block *)block)->host); }'',
     []]\<close>

definition host_prologue :: string where
  \<open>host_prologue = nl @ unlines [
     ''#include <objc/message.h>'',
     ''#include <objc/runtime.h>'',
     ''#include "xl_bridge.h"'',
     ''#include "xl_host.h"'',
     []]\<close>

definition shim_entry :: "string \<times> string \<Rightarrow> string" where
  "shim_entry e = ''    {'' @ quoted (fst e) @ '', '' @ snd e @ ''},'' @ nl"

definition variant_entry :: "string \<times> string \<times> string \<Rightarrow> string" where
  "variant_entry e = ''    {'' @ quoted (fst e) @ '', '' @ quoted (fst (snd e)) @ '', '' @ snd (snd e) @ ''},'' @ nl"

text \<open>\<open>format_hex(imp, 10)\<close>: ten characters at least, the \<open>0x\<close> among them.\<close>

definition imp_entry :: "string \<times> u64 \<Rightarrow> string" where
  "imp_entry e = ''    {(IMP)'' @ fst e @ '', 0x'' @ padded_hex (uint (snd e)) @ ''u},'' @ nl"

definition guest_file :: "string \<Rightarrow> string \<Rightarrow> Generator \<Rightarrow> string" where
  "guest_file includes abi gen = includes @ nl @ abi @ guest_prologue @ gen_record_defs gen True @ gen_guest gen"

definition host_file :: "string \<Rightarrow> string \<Rightarrow> Generator \<Rightarrow> string" where
  \<open>host_file includes abi gen =
     includes @ nl @ abi @ host_prologue @ ''#define XL_CALLBACK_COUNT '' @ dec_string (max 1 (length (gen_callbacks gen))) @ nl @
     ''uint64_t xl_callback_targets[XL_CALLBACK_COUNT][32];'' @ nl @ nl @
     gen_record_defs gen False @ gen_host_types gen @ gen_host gen @ gen_tables gen @
     ''const struct xl_selector_shim xl_selector_shims[] = {'' @ nl @ concat (map shim_entry (gen_selector_shims gen)) @
     ''    {0, 0}};'' @ nl @
     ''const struct xl_selector_variant xl_selector_variants[] = {'' @ nl @ concat (map variant_entry (gen_selector_variants gen)) @
     ''    {0, 0, 0}};'' @ nl @
     concat (map (\<lambda>e. ''extern void '' @ snd e @ ''(State *);'' @ nl) (gen_variadic_shims gen)) @
     ''const struct xl_variadic_shim xl_variadic_shims[] = {'' @ nl @ concat (map shim_entry (gen_variadic_shims gen)) @
     ''    {0, 0}};'' @ nl @
     ''const struct xl_imp_entry xl_imp_map[] = {'' @ nl @ concat (map imp_entry (gen_imps gen)) @ ''    {0, 0}};'' @ nl @
     ''void xl_bridge_init_generated(void)'' @ nl @ ''{'' @ nl @ gen_init gen @ ''}'' @ nl\<close>

text \<open>The files that are written, and whether the generator says it went well. The last two are not asked for.\<close>

definition Write :: "(string \<Rightarrow> bool) \<Rightarrow> string \<Rightarrow> string \<Rightarrow> Generator \<Rightarrow> bool \<times> (string \<times> string) list" where
  "Write can_open includes abi gen =
     (let guest = (''guest-out'', guest_file includes abi gen);
          host = (''host-out'', host_file includes abi gen);
          rest = [(''passthrough-out'', gen_passthrough gen), (''report-out'', gen_report gen)]
      in if gen_layout_errors gen \<noteq> [] then (False, [])
         else if \<not> can_open ''guest-out'' then (False, [])
         else if \<not> can_open ''host-out'' then (False, [guest])
         else (True, guest # host # filter (\<lambda>f. can_open (fst f)) rest))"

section \<open>\<open>main\<close>\<close>

text \<open>The exit code and the files written. Asked for a survey, the command makes nothing else.\<close>

definition survey_tree :: "Tree \<Rightarrow> Tree \<Rightarrow> string" where
  "survey_tree g h =
     Survey (tree_context g) (tree_context h) (tree_function h) (tree_records h) (tree_functions g) (tree_methods g) (tree_methods h)"

definition generate :: "Tree \<Rightarrow> Tree \<Rightarrow> GenInputs \<Rightarrow> Generator option" where
  "generate g h inputs =
     each (EmitSymbol g h (entitlements_file inputs) (ReadLines (provided_file inputs))) (ReadLines (symbols_file inputs))
       (empty_generator\<lparr>gen_weak_only := ReadLines (weak_only_file inputs)\<rparr>)"

definition xlgen_main :: "GenInputs \<Rightarrow> (nat \<times> (string \<times> string) list) option" where
  "xlgen_main inputs =
     (case (includes_file inputs, abi_file inputs, trees inputs) of
        (Some includes, Some abi, Some (g, h)) \<Rightarrow>
          if survey_asked inputs
          then Some (0, if can_write inputs ''survey-out'' then [(''survey-out'', survey_tree g h)] else [])
          else do {
            gen \<leftarrow> generate g h inputs;
            (case manifest_tree inputs of
               Some None \<Rightarrow> Some (1, [])
             | Some (Some manifest) \<Rightarrow>
                 (case EmitManifest g h manifest gen of
                    None \<Rightarrow> None
                  | Some gen \<Rightarrow> (case Write (can_write inputs) includes abi gen of (ok, files) \<Rightarrow> Some (if ok then 0 else 1, files)))
             | None \<Rightarrow> (case Write (can_write inputs) includes abi gen of (ok, files) \<Rightarrow> Some (if ok then 0 else 1, files)))
          }
      | _ \<Rightarrow> Some (1, []))"

end
