(* ===== verification/Selectors_Facts.thy ===== *)
theory Selectors_Facts
  imports Selectors Functions_Facts Encoding_Facts
begin

text \<open>
  Messages and methods: how the declaration a selector is bridged as is chosen, that every selector gets its bridges, and
  that every guest method gets a wrapper of its own.
\<close>

section \<open>The vote\<close>

definition most_votes :: "(string, nat) omap \<Rightarrow> string \<Rightarrow> bool" where
  "most_votes votes best \<longleftrightarrow>
     (\<exists>n. map_of votes best = Some n \<and> (\<forall>(key, m) \<in> set votes. m \<le> n \<and> (m = n \<longrightarrow> best \<le> key)))"

lemma vote_step:
  assumes "omap_ok votes" and "[] \<notin> fst ` set votes" and "votes = done1 @ todo" and "most_votes done1 best \<or> (done1 = [] \<and> best = [])"
  shows "let w = foldl (\<lambda>best (key, n). if best = [] \<or> votes_of votes best < n then key else best) best todo
    in most_votes votes w \<or> (votes = [] \<and> w = [])"
  using assms(3-)
proof (induction todo arbitrary: done1 best)
  case Nil
  then show ?case by simp
next
  case (Cons e todo)
  obtain key n where e: "e = (key, n)" by (cases e)
  have ok: "sorted_wrt (<) (map fst done1 @ key # map fst todo)" using assms(1) Cons.prems(1) e by (simp add: omap_ok_def)
  have below: "\<forall>k \<in> fst ` set done1. k < key" using ok by (auto simp: sorted_wrt_append)
  have key: "key \<noteq> []" using assms(2) Cons.prems(1) e by force
  have fresh: "map_of done1 key = None" using below by (auto simp: map_of_eq_None_iff)
  have in_votes: "map_of votes b = Some m" if "map_of done1 b = Some m" for b m
    using that Cons.prems(1) by (simp add: map_add_def)
  have at: "map_of (done1 @ [(key, n)]) b = (if b = key then Some n else map_of done1 b)" for b
    using fresh by (auto simp: map_add_def split: option.split)
  have "most_votes (done1 @ [(key, n)]) (if best = [] \<or> votes_of votes best < n then key else best)"
  proof (cases "done1 = []")
    case True
    with Cons.prems(2) show ?thesis by (auto simp: most_votes_def)
  next
    case False
    then obtain m where m: "map_of done1 best = Some m" "\<forall>(k, l) \<in> set done1. l \<le> m \<and> (l = m \<longrightarrow> best \<le> k)"
      using Cons.prems(2) by (auto simp: most_votes_def)
    have v: "votes_of votes best = m" using in_votes [OF m(1)] by (simp add: votes_of_def)
    have b: "(best, m) \<in> set done1" using m(1) by (rule map_of_SomeD)
    then have "best \<noteq> []" using assms(2) Cons.prems(1) by force
    moreover have less: "best < key" using below b by force
    moreover have "most_votes (done1 @ [(key, n)]) key" if "m < n"
      unfolding most_votes_def at using m(2) that by (intro exI [of _ n]) auto
    moreover have "most_votes (done1 @ [(key, n)]) best" if "\<not> m < n"
      unfolding most_votes_def at using m that less by (intro exI [of _ m]) auto
    ultimately show ?thesis using v by simp
  qed
  then show ?case using Cons.IH [of "done1 @ [(key, n)]" "if best = [] \<or> votes_of votes best < n then key else best"] Cons.prems(1)
    by (simp add: e)
qed

lemma vote_most:
  "omap_ok votes \<Longrightarrow> [] \<notin> fst ` set votes \<Longrightarrow> votes \<noteq> [] \<Longrightarrow> most_votes votes (vote votes)"
  using vote_step [of votes "[]" votes "[]"] by (simp add: vote_def)

lemma foldl_key: "foldl (\<lambda>best (key, n). if P best n then key else best) best es \<in> insert best (fst ` set es)"
proof (induction es arbitrary: best)
  case (Cons e es)
  then show ?case using Cons.IH [of "if P best (snd e) then fst e else best"] by (auto simp: case_prod_unfold split: if_splits)
qed simp

lemma vote_key:
  assumes "votes \<noteq> []"
  shows "vote votes \<in> fst ` set votes"
proof -
  obtain e es where es: "votes = e # es" using assms by (cases votes) auto
  then show ?thesis
    using foldl_key [of "\<lambda>best n. best = [] \<or> votes_of votes best < n" "fst e" es] by (simp add: vote_def case_prod_unfold)
qed

text \<open>How often a key was voted for, and by whom first.\<close>

definition ballots :: "MethodDecl list \<Rightarrow> MethodDecl list \<Rightarrow> (string \<times> MethodDecl \<times> MethodDecl) list" where
  "ballots guest hosts = List.map_filter (\<lambda>g. map_option (\<lambda>h. (NormalizeEncoding (m_encoding h), g, h)) (Counterpart g hosts)) guest"

lemma ballots_simps [simp]:
  "ballots [] hosts = []"
  "ballots (g # gs) hosts = (case Counterpart g hosts of None \<Rightarrow> [] | Some h \<Rightarrow> [(NormalizeEncoding (m_encoding h), g, h)]) @ ballots gs hosts"
  by (auto simp: ballots_def map_filter_simps split: option.split)

definition cast_ballot :: "string \<times> MethodDecl \<times> MethodDecl \<Rightarrow>
    (string, MethodDecl \<times> MethodDecl) omap \<times> (string, nat) omap \<Rightarrow> (string, MethodDecl \<times> MethodDecl) omap \<times> (string, nat) omap" where
  "cast_ballot b tables =
     (omap_emplace (fst b) (snd b) (fst tables), omap_set (fst b) (votes_of (snd tables) (fst b) + 1) (snd tables))"

lemma count_votes_ballots: "count_votes guests hosts = fold cast_ballot (ballots guests hosts) ([], [])"
proof -
  have "add_variant hosts g t = fold cast_ballot (ballots [g] hosts) t" for g t
    by (auto simp: add_variant_def cast_ballot_def votes_of_def Let_def split: option.split prod.split)
  then have "fold (add_variant hosts) guests t = fold cast_ballot (ballots guests hosts) t" for t
    by (induction guests arbitrary: t) (simp_all split: option.split)
  then show ?thesis by (simp add: count_votes_def)
qed

lemma fold_ballots:
  assumes "fold cast_ballot bs (v0, w0) = (variants, votes)" and "omap_ok w0" and "omap_ok v0"
  shows "omap_ok votes \<and> omap_ok variants \<and> fst ` set votes = fst ` set w0 \<union> fst ` set bs \<and>
      map_of variants key = (map_of bs ++ map_of v0) key \<and>
      votes_of votes key = votes_of w0 key + length (filter (\<lambda>b. fst b = key) bs)"
  using assms
proof (induction bs arbitrary: v0 w0)
  case Nil
  then show ?case by simp
next
  case (Cons b bs)
  obtain k m where b: "b = (k, m)" by (cases b)
  have "cast_ballot b (v0, w0) = (omap_emplace k m v0, omap_set k (votes_of w0 k + 1) w0)"
    by (simp add: b cast_ballot_def)
  then have "fold cast_ballot bs (omap_emplace k m v0, omap_set k (votes_of w0 k + 1) w0) = (variants, votes)"
    using Cons.prems(1) by simp
  from Cons.IH [OF this] Cons.prems(2-3) show ?case
    by (auto simp: b votes_of_def map_add_def split: option.splits if_splits)
qed

text \<open>The first ballot for a key stands for it, and the votes count the ballots.\<close>

lemma count_votes_spec:
  assumes "count_votes guests hosts = (variants, votes)"
  shows "omap_ok votes" "omap_ok variants" "fst ` set votes = fst ` set (ballots guests hosts)"
    "map_of variants key = map_of (ballots guests hosts) key"
    "votes_of votes key = length (filter (\<lambda>b. fst b = key) (ballots guests hosts))"
  using fold_ballots [of "ballots guests hosts" "[]" "[]" variants votes key] assms
  by (simp_all add: count_votes_ballots votes_of_def)

section \<open>Every selector\<close>

definition method_ok :: "MethodDecl \<Rightarrow> bool" where
  "method_ok m \<longleftrightarrow> declared_ok (m_decl m) \<and>
     (case m_format m of None \<Rightarrow> True | Some (_, idx) \<Rightarrow> 1 \<le> idx \<and> idx \<le> length (decl_params (m_decl m)))"

definition pool_ok :: "Pool \<Rightarrow> bool" where
  "pool_ok pool \<longleftrightarrow> (\<forall>ms \<in> snd ` set pool. list_all method_ok ms)"

lemma pool_ok_methods: "pool_ok pool \<Longrightarrow> map_of pool key = Some ms \<Longrightarrow> m \<in> set ms \<Longrightarrow> method_ok m"
  by (force simp: pool_ok_def list_all_iff dest: map_of_SomeD)

lemma pool_methods_ok: "pool_ok pool \<Longrightarrow> m \<in> set (pool_methods pool key) \<Longrightarrow> method_ok m"
  by (cases "map_of pool key") (auto simp: pool_methods_def intro: pool_ok_methods)

lemma CollectMethods_ok:
  assumes "list_all method_ok ms" and "pool_ok pool"
  shows "pool_ok (CollectMethods ms pool)"
proof -
  have set_ok: "pool_ok (omap_set k ns p)" if "pool_ok p" "list_all method_ok ns" for k ns p
  proof -
    have "snd ` set (omap_set k ns p) \<subseteq> insert ns (snd ` set p)" by (induction p) auto
    then show ?thesis using that unfolding pool_ok_def by blast
  qed
  have add_ok: "pool_ok (pool_add k m p)" if "pool_ok p" "method_ok m" for k m p
    unfolding pool_add_def using that pool_ok_methods [OF that(1), of k]
    by (cases "map_of p k") (auto intro!: set_ok simp: list_all_iff)
  show ?thesis using assms
    by (induction ms arbitrary: pool) (auto simp: CollectMethods_def VisitObjCMethodDecl_def add_ok)
qed

lemma selector_grows [grow]:
  "grows gen (selector_shim a b gen)" "grows gen (selector_variant a c b gen)" "grows gen (unsupported_selector a b gen)"
  unfolding unsupported_selector_def
  by (simp add: selector_shim_def grows_by_def, simp add: selector_variant_def grows_by_def, intro grow_intros grows_refl)

lemma fresh_selector_grows: "fresh_selector gen = (name, gen') \<Longrightarrow> grows gen gen'"
  using report_grows(5) [of gen 1] by (auto simp: fresh_selector_def)

lemma selector_intros:
  "grows a b \<Longrightarrow> grows a (selector_shim x y b)" "grows a b \<Longrightarrow> grows a (selector_variant x z y b)"
  by (blast intro: grows_trans selector_grows)+

lemma no_format_in_range [simp]: "indices_in_range ps no_format 0"
  by (simp add: indices_in_range_def no_format_def)

lemma emit_variant_extends:
  "extends (method_ok (fst (snd v))) gen (emit_variant gc hc selector_name best v gen)"
proof -
  obtain key g h where v: "v = (key, g, h)" by (cases v)
  obtain vid gen1 where f: "fresh_selector gen = (vid, gen1)" by (metis prod.collapse)
  have b: "adds (method_ok g) gen1 (EmitBridge gc hc 0 vid (FromMethod gc hc (m_decl g) (m_decl h)) CallMessage [] [] no_format [] gen1)"
    using EmitBridge_sound [of "FromMethod gc hc (m_decl g) (m_decl h)" no_format 0 "[]" gen1 gc hc vid CallMessage "[]" "[]"]
      FromMethod_ok(1) [of "m_decl g" gc hc "m_decl h"]
    by (auto simp: adds_def method_ok_def)
  show ?thesis
  proof (cases "key = best \<or> \<not> sig_supported (FromMethod gc hc (m_decl g) (m_decl h))")
    case True
    then show ?thesis by (auto simp: v emit_variant_def grow_intros simp del: append_Cons append.simps)
  next
    case False
    have "grows gen (selector_variant s k m gen2)" if "grows gen1 gen2" for s k m gen2
      using fresh_selector_grows [OF f] that by (intro selector_intros) (rule grows_trans)
    with False b show ?thesis
      by (auto simp: v emit_variant_def f extends_def adds_def simp del: append_Cons append.simps)
  qed
qed

lemma each_extends:
  assumes "\<And>x gen. x \<in> set xs \<Longrightarrow> extends (ok x) gen (f x gen)"
  shows "extends (\<forall>x \<in> set xs. ok x) gen (each f xs gen)"
proof -
  have "grows gen gen'" if "each f xs gen = Some gen'" for gen'
    by (rule quiet.each_entered [OF _ that]) (use assms in \<open>auto simp: extends_def\<close>)
  moreover have "each f xs gen \<noteq> None" if "\<forall>x \<in> set xs. ok x"
    using each_total [of xs f gen] assms that by (force simp: extends_def)
  ultimately show ?thesis by (simp add: extends_def)
qed

lemma manual_signature_ok:
  "params_ok (sig_params (manual_signature gc hc guest))"
  "length (sig_params (manual_signature gc hc guest)) = length (decl_params (m_decl guest))"
  by (simp_all add: manual_signature_def)

lemma emit_voted_extends:
  "extends (method_ok guest \<and> (\<forall>v \<in> set variants. method_ok (fst (snd v)))) gen (emit_voted gc hc selector_name variants best guest hosts gen)"
proof -
  define manual where "manual = (case map_of manual_selectors selector_name of None \<Rightarrow> [] | Some handler \<Rightarrow> handler)"
  define s where "s = (if manual = [] then FromMethod gc hc (m_decl guest) (m_decl hosts) else manual_signature gc hc guest)"
  show ?thesis
  proof (cases "method_format selector_name guest")
    case None
    then show ?thesis unfolding emit_voted_def Let_def by (simp add: selector_grows)
  next
    case (Some x)
    obtain fmt callee where x: "x = (fmt, callee)" by (cases x)
    obtain ident gen1 where f: "fresh_selector gen = (ident, gen1)" by (metis prod.collapse)
    have range: "indices_in_range (sig_params s) fmt 0" "params_ok (sig_params s)" if "method_ok guest"
      using that Some x FromMethod_ok [of "m_decl guest" gc hc "m_decl hosts"] manual_signature_ok [of gc hc guest]
      by (auto simp: s_def method_format_def method_ok_def indices_in_range_def no_format_def split: if_splits option.splits)
    have b: "adds (method_ok guest) gen1 (EmitBridge gc hc 0 ident s CallMessage [] callee fmt manual gen1)"
      using EmitBridge_sound [of s fmt 0 manual gen1 gc hc ident CallMessage "[]" callee] range by (auto simp: adds_def)
    show ?thesis
    proof (cases "EmitBridge gc hc 0 ident s CallMessage [] callee fmt manual gen1")
      case None
      with b show ?thesis
        unfolding emit_voted_def Let_def manual_def [symmetric] s_def [symmetric] Some x
        by (simp add: f extends_def adds_def selector_grows del: append_Cons append.simps)
    next
      case (Some y)
      obtain t gen2 where y: "y = (t, gen2)" by (cases y)
      have g2: "grows gen gen2" using b Some y fresh_selector_grows [OF f] grows_trans by (auto simp: adds_def)
      have g3: "grows gen (selector_shim selector_name m gen2)" for m using g2 by (rule selector_intros)
      then have g4: "grows gen (add_report l (selector_shim selector_name m gen2))" for m l by (rule grow_intros)
      have g5: "grows gen (selector_variant selector_name best m (add_report l (selector_shim selector_name m gen2)))" for m l
        using g4 by (rule selector_intros)
      have "extends (\<forall>v \<in> set variants. method_ok (fst (snd v))) gen3 (each (emit_variant gc hc selector_name best) variants gen3)" for gen3
        by (rule each_extends) (rule emit_variant_extends)
      then have "extends (method_ok guest \<and> (\<forall>v \<in> set variants. method_ok (fst (snd v)))) gen
          (each (emit_variant gc hc selector_name best) variants gen3)" if "grows gen gen3" for gen3
        using that unfolding extends_def by (blast intro: grows_trans)
      with g3 g4 g5 \<open>method_format selector_name guest = Some x\<close> show ?thesis
        unfolding emit_voted_def Let_def manual_def [symmetric] s_def [symmetric] Some x y
        by (simp add: f x y Some selector_grows del: append_Cons append.simps)
    qed
  qed
qed

lemma ballots_guest: "b \<in> set (ballots guests hosts) \<Longrightarrow> fst (snd b) \<in> set guests"
  by (induction guests) (auto split: option.splits)

lemma EmitSelector_extends: "extends (pool_ok gpool) gen (EmitSelector gc hc gpool hpool guest_selectors selector_name gen)"
proof (cases "map_of variadic_selectors selector_name")
  case (Some handler)
  have "grows gen (gen\<lparr>gen_variadic_shims := x\<rparr>)" for x by (simp add: grows_by_def)
  then have "grows gen (add_report l (gen\<lparr>gen_variadic_shims := x\<rparr>))" for l x by (rule grow_intros)
  then show ?thesis by (simp add: EmitSelector_def Some del: append_Cons append.simps)
next
  case v: None
  show ?thesis
  proof (cases "map_of gpool (''*'' @ selector_name)")
    case None
    then show ?thesis by (simp add: EmitSelector_def v selector_grows report_grows)
  next
    case (Some guests)
    obtain variants votes where c: "count_votes guests (pool_methods hpool (''*'' @ selector_name)) = (variants, votes)"
      by (metis prod.collapse)
    let ?ballots = "ballots guests (pool_methods hpool (''*'' @ selector_name))"
    show ?thesis
    proof (cases "variants = []")
      case True
      then show ?thesis using Some c by (simp add: EmitSelector_def v selector_grows)
    next
      case False
      have ok: "fst (snd e) \<in> set guests" if "e \<in> set variants" for e
      proof -
        have "map_of variants (fst e) = Some (snd e)"
          using that count_votes_spec(2) [OF c] omap_ok_member [of variants "fst e" "snd e"] by simp
        then have "(fst e, snd e) \<in> set ?ballots" using count_votes_spec(4) [OF c] by (metis map_of_SomeD)
        from ballots_guest [OF this] show ?thesis by simp
      qed
      have "?ballots \<noteq> []" using False count_votes_spec(4) [OF c] by (cases variants) (auto, metis map_of.simps(1) option.distinct(1))
      then have "votes \<noteq> []" using count_votes_spec(3) [OF c] by auto
      then have "vote votes \<in> fst ` set ?ballots" using vote_key [of votes] unfolding count_votes_spec(3) [OF c] by blast
      then obtain g h where gh: "map_of variants (vote votes) = Some (g, h)"
        using count_votes_spec(4) [OF c, of "vote votes"] by (metis (no_types) map_of_eq_None_iff option.exhaust surj_pair)
      then have "g \<in> set guests" using ok map_of_SomeD [OF gh] by fastforce
      then have m: "pool_ok gpool \<Longrightarrow> method_ok g \<and> (\<forall>e \<in> set variants. method_ok (fst (snd e)))"
        using pool_ok_methods Some ok by blast
      have "extends (pool_ok gpool) gen (emit_voted gc hc selector_name variants (vote votes) g h gen)"
        by (rule extends_weaken [OF emit_voted_extends m])
      with Some c False gh show ?thesis by (simp add: EmitSelector_def v)
    qed
  qed
qed

lemma EmitSelectors_extends: "extends (pool_ok gpool) gen (EmitSelectors gc hc gpool hpool selector_names guest_selectors gen)"
  unfolding EmitSelectors_def
  using each_extends [of selector_names "\<lambda>_. pool_ok gpool", OF EmitSelector_extends] by (rule extends_weaken) simp

section \<open>Encodings\<close>

text \<open>What a scalar or a declared structure of an encoding is: no block, and no function.\<close>

definition ordinary :: "ctype \<Rightarrow> bool" where
  "ordinary t \<longleftrightarrow> carried t \<and> (\<forall>p. t \<noteq> FunctionType p)"

definition plain_context :: "ASTContext \<Rightarrow> bool" where
  "plain_context ctx \<longleftrightarrow> (\<forall>n. ordinary (builtin ctx n)) \<and> (\<forall>n t. lookup_type ctx n = Some t \<longrightarrow> ordinary t)"

definition records_ok :: "Generator \<Rightarrow> bool" where
  "records_ok gen \<longleftrightarrow> (\<forall>guest k t. map_of (gen_records gen guest) k = Some t \<longrightarrow> (\<exists>d. t = RecordType d))"

lemma records_ok_grows: "records_ok a \<Longrightarrow> grows_by i e a b \<Longrightarrow> records_ok b"
  unfolding records_ok_def grows_by_def records_grow_def by meson

lemma ordinary_simps [simp]:
  "ordinary NullType" "ordinary VoidType" "ordinary SelType" "ordinary (ObjCPointerType i u)" "ordinary (RecordType d)"
  "ordinary t \<Longrightarrow> ordinary (PointerType c t)"
  by (auto simp: ordinary_def) (cases t; auto)

lemma scalar_encoding_ordinary: "plain_context ctx \<Longrightarrow> scalar_encoding ctx c = Some t \<Longrightarrow> ordinary t"
  by (auto simp: scalar_encoding_def plain_context_def split: if_splits)

lemma record_counter_grows: "grows gen (gen\<lparr>gen_record_counter := n\<rparr>)"
  by (simp add: grows_by_def)

lemma add_record_grows: "add_record ctx guest key name fts gen = (t, gen') \<Longrightarrow> grows gen gen' \<and> ordinary t"
  by (auto simp: add_record_def Let_def grows_by_def records_grow_def split: if_splits)

lemma EncodedType_grows:
  "(case EncodedType ctx guest cs error gen of (t, r, e, gen') \<Rightarrow> grows gen gen' \<and> (plain_context ctx \<longrightarrow> records_ok gen \<longrightarrow> ordinary t))"
  "(case SynthesizeRecord ctx guest key error gen of (t, e, gen') \<Rightarrow> grows gen gen' \<and> (records_ok gen \<longrightarrow> ordinary t))"
  "(case member_types ctx guest cs error gen of (ts, e, gen') \<Rightarrow> grows gen gen')"
proof (induction ctx guest cs error gen and ctx guest key error gen and ctx guest cs error gen
    rule: EncodedType_SynthesizeRecord_member_types.induct)
  case (1 ctx guest cs error gen)
  show ?case
  proof (cases "dropWhile qualifier cs")
    case Nil
    show ?thesis by (simp add: EncodedType.simps [of ctx guest cs error gen, unfolded Nil list.case])
  next
    case (Cons c r)
    show ?thesis
    proof (cases "scalar_encoding ctx c")
      case (Some t)
      with Cons show ?thesis using scalar_encoding_ordinary [of ctx c t] by (subst EncodedType.simps) simp
    next
      case None
      note e = EncodedType.simps [of ctx guest cs error gen, unfolded Cons list.case None option.case]
      consider "c = CHR ''@''" | "c = CHR ''^''" | "c = CHR ''{''" | "c \<noteq> CHR ''@''" "c \<noteq> CHR ''^''" "c \<noteq> CHR ''{''" by blast
      then show ?thesis
      proof cases
        case 1
        then show ?thesis by (simp add: e)
      next
        case 2
        then show ?thesis using "1.IH"(1) [OF Cons None] by (auto simp: e split: prod.splits)
      next
        case 3
        let ?name = "takeWhile (\<lambda>c. c \<noteq> CHR ''='' \<and> c \<noteq> CHR ''}'') r"
        show ?thesis
        proof (cases "if ?name \<noteq> [] \<and> ?name \<noteq> ''?'' then lookup_type ctx ?name else None")
          case (Some t)
          then have "lookup_type ctx ?name = Some t" by (simp split: if_splits)
          then have "plain_context ctx \<Longrightarrow> ordinary t" unfolding plain_context_def by blast
          with 3 Some show ?thesis by (simp add: e Let_def)
        next
          case l: None
          show ?thesis
          proof (cases "structure_body (take (brace_end 1 r) r)")
            case None
            with 3 l show ?thesis by (simp add: e Let_def)
          next
            case (Some body)
            with 3 l show ?thesis
              using "1.IH"(2) [OF Cons \<open>scalar_encoding ctx c = None\<close> _ _ 3 refl refl refl l Some] by (auto simp: e Let_def split: prod.splits)
          qed
        qed
      next
        case 4
        then show ?thesis by (simp add: e)
      qed
    qed
  qed
next
  case (2 ctx guest key error gen)
  show ?case
  proof (cases "map_of (gen_records gen guest) key")
    case (Some t)
    then have "records_ok gen \<Longrightarrow> ordinary t" by (force simp: records_ok_def)
    with Some show ?thesis by (subst SynthesizeRecord.simps) simp
  next
    case None
    let ?gen = "gen\<lparr>gen_record_counter := gen_record_counter gen + 1\<rparr>"
    obtain ts e gen1 where m: "member_types ctx guest key error ?gen = (ts, e, gen1)" by (metis prod.collapse)
    have g: "grows gen gen1" using 2 [OF None] m record_counter_grows grows_trans by fastforce
    show ?thesis
    proof (cases ts)
      case None
      with m g \<open>map_of _ _ = None\<close> show ?thesis by (subst SynthesizeRecord.simps) simp
    next
      case (Some fts)
      obtain t gen2 where a: "add_record ctx guest key (''xl_anon_'' @ dec_string (gen_record_counter gen)) fts gen1 = (t, gen2)"
        by (metis prod.collapse)
      have "grows gen gen2 \<and> ordinary t" using add_record_grows [OF a] g grows_trans by blast
      with m a Some \<open>map_of _ _ = None\<close> show ?thesis by (subst SynthesizeRecord.simps) (simp del: append_Cons append.simps)
    qed
  qed
next
  case (3 ctx guest cs error gen)
  show ?case
  proof (cases "cs = [] \<or> starts_with [CHR 0x22] cs")
    case True
    then show ?thesis using "3.IH"(1) by (subst member_types.simps) auto
  next
    case False
    obtain t r e gen1 where t: "EncodedType ctx guest cs error gen = (t, r, e, gen1)" by (metis prod.collapse)
    have g: "grows gen gen1" using "3.IH"(2) False t by auto
    show ?thesis
    proof (cases "t = NullType")
      case True
      with False t g show ?thesis by (subst member_types.simps) simp
    next
      case nn: False
      obtain ts e2 gen2 where m: "member_types ctx guest r e gen1 = (ts, e2, gen2)" by (metis prod.collapse)
      have "grows gen1 gen2" using "3.IH"(3) [of t "(r, e, gen1)" r "(e, gen1)" e gen1] False t nn m by auto
      with g have "grows gen gen2" by (rule grows_trans)
      with False t nn m show ?thesis by (subst member_types.simps) (auto split: option.split)
    qed
  qed
qed

lemma ordinary_convertible: "ordinary g \<Longrightarrow> convertible (Classify gc g hc h p)"
  by (rule Classify_convertible) (simp add: ordinary_def)

lemma encoded_params_ok:
  "case encoded_params gc hc index cs error s gen of (s', gen') \<Rightarrow> grows gen gen' \<and>
    (plain_context gc \<longrightarrow> records_ok gen \<longrightarrow> params_ok (sig_params s) \<longrightarrow> params_ok (sig_params s'))"
proof (induction gc hc index cs error s gen rule: encoded_params.induct)
  case (1 gc hc index cs error s gen)
  show ?case
  proof (cases "cs = []")
    case True
    then show ?thesis by (subst encoded_params.simps) simp
  next
    case False
    obtain g r e gen1 where g: "EncodedType gc True cs error gen = (g, r, e, gen1)" by (metis prod.collapse)
    obtain h r2 e2 gen2 where h: "EncodedType hc False cs e gen1 = (h, r2, e2, gen2)" by (metis prod.collapse)
    have g1: "grows gen gen1" "plain_context gc \<Longrightarrow> records_ok gen \<Longrightarrow> ordinary g"
      using EncodedType_grows(1) [where ctx = gc and guest = True and cs = cs and error = error and gen = gen] g by auto
    have "grows gen1 gen2" using EncodedType_grows(1) [where ctx = hc and guest = False and cs = cs and error = e and gen = gen1] h by auto
    with g1 have g2: "grows gen gen2" using grows_trans by blast
    note eq = encoded_params.simps [of gc hc index cs error s gen, unfolded g h prod.case]
    show ?thesis
    proof (cases "g = NullType \<or> h = NullType")
      case True
      with False g2 show ?thesis by (auto simp: eq)
    next
      case nn: False
      define v where "v = Classify gc g hc h True"
      define s2 where "s2 = (if index < 2 then s else (support (Supported v) (v_note v) s)
        \<lparr>sig_params := sig_params s @ [\<lparr>p_value = v, p_name = ''a'' @ dec_string (index - 2)\<rparr>]\<rparr>)"
      have next_step: "encoded_params gc hc index cs error s gen = encoded_params gc hc (index + 1) (skip_offset r) e2 s2 gen2"
        using False nn by (simp add: eq s2_def v_def Let_def)
      have ok: "params_ok (sig_params s2)" if "plain_context gc" "records_ok gen" "params_ok (sig_params s)"
        using that ordinary_convertible [OF g1(2)] by (auto simp: s2_def v_def params_ok_def)
      have "case encoded_params gc hc (index + 1) (skip_offset r) e2 s2 gen2 of (s', gen') \<Rightarrow> grows gen2 gen' \<and>
          (plain_context gc \<longrightarrow> records_ok gen2 \<longrightarrow> params_ok (sig_params s2) \<longrightarrow> params_ok (sig_params s'))"
      proof (cases "index < 2")
        case True
        then show ?thesis using "1.IH"(1) [OF False g [symmetric] refl refl h [symmetric] refl refl nn True] by (simp add: s2_def)
      next
        case i: False
        show ?thesis
          using "1.IH"(2) [OF False g [symmetric] refl refl h [symmetric] refl refl nn i refl refl] i
          by (simp add: s2_def v_def [symmetric])
      qed
      then show ?thesis unfolding next_step using g2 ok records_ok_grows [OF _ g2] grows_trans [OF g2] by (auto split: prod.splits)
    qed
  qed
qed

lemma FromEncoding_ok:
  assumes "FromEncoding gc hc encoding gen = (s, gen')"
  shows "grows gen gen'" and "plain_context gc \<Longrightarrow> records_ok gen \<Longrightarrow> params_ok (sig_params s)"
proof -
  obtain g r e gen1 where g: "EncodedType gc True encoding [] gen = (g, r, e, gen1)" by (metis prod.collapse)
  obtain h r2 e2 gen2 where h: "EncodedType hc False encoding e gen1 = (h, r2, e2, gen2)" by (metis prod.collapse)
  have "grows gen gen1" using EncodedType_grows(1) [where ctx = gc and guest = True and cs = encoding and error = "[]" and gen = gen] g by auto
  moreover have "grows gen1 gen2" using EncodedType_grows(1) [where ctx = hc and guest = False and cs = encoding and error = e and gen = gen1] h by auto
  ultimately have g2: "grows gen gen2" by (rule grows_trans)
  note eq = assms [unfolded FromEncoding_def g h prod.case]
  have "grows gen gen' \<and> (plain_context gc \<longrightarrow> records_ok gen \<longrightarrow> params_ok (sig_params s))"
  proof (cases "g = NullType \<or> h = NullType")
    case True
    with eq g2 show ?thesis by (auto simp: params_ok_def)
  next
    case False
    with eq encoded_params_ok [where gc = gc and hc = hc and index = 0 and cs = "skip_offset r" and error = e2 and gen = gen2 and
        s = "\<lparr>sig_params = [], sig_result = Classify gc g hc h False, sig_supported = True, sig_note = []\<rparr>"]
    show ?thesis using g2 records_ok_grows [OF _ g2] grows_trans [OF g2] by (auto simp: params_ok_def)
  qed
  then show "grows gen gen'" and "plain_context gc \<Longrightarrow> records_ok gen \<Longrightarrow> params_ok (sig_params s)" by auto
qed

section \<open>The wrappers of methods\<close>

lemma InvokeShim_grows: "InvokeShim gc hc s gen = (name, gen') \<Longrightarrow> grows gen gen'"
proof -
  assume i: "InvokeShim gc hc s gen = (name, gen')"
  show ?thesis
  proof (cases "map_of (gen_invokers gen) (invoke_key gc s)")
    case (Some a)
    with i show ?thesis by (simp add: InvokeShim_def)
  next
    case None
    define gen0 where "gen0 = gen\<lparr>gen_invokers := omap_set (invoke_key gc s) (''xl_invoke_'' @ dec_string (length (gen_invokers gen)))
      (gen_invokers gen)\<rparr>"
    obtain gf hf gr hr gen1 where b: "both_packs gc hc (sig_params s) (sig_result s) gen0 = ((gf, hf, gr, hr), gen1)" by (metis prod.collapse)
    have "grows gen gen1" using both_packs_grows [OF b] add_table_grows(4) [OF None] grows_trans unfolding gen0_def by blast
    then have "grows gen (add_host y (add_guest x gen1))" for x y by (intro grow_intros)
    with i b None show ?thesis
      unfolding InvokeShim_def both_packs_def Let_def gen0_def [symmetric] by (auto split: prod.splits)
  qed
qed

lemma imp_argument_adds: "adds (convertible (p_value p)) gen (imp_argument gc hc name p gen)"
proof (cases "v_kind (p_value p)")
  case KRecord
  have "grows gen (snd (Mirror gc hc g h gen))" for g h by (rule Mirror_grows) (rule surjective_pairing)
  with KRecord show ?thesis by (simp add: imp_argument_def adds_def Let_def case_prod_unfold)
next
  case KBlock
  have "convertible (p_value p) \<Longrightarrow> list_all carried (inner_types (v_guest (p_value p)))"
    using KBlock inner_types_block by (auto simp: convertible_def)
  with KBlock show ?thesis
    using HostBlockBridge_sound [of "v_guest (p_value p)" gen gc hc "v_host (p_value p)"]
    by (auto simp: imp_argument_def adds_def Let_def)
next
  case KOutSlot
  then show ?thesis by (auto simp: imp_argument_def adds_def Let_def convertible_def)
qed (simp_all add: imp_argument_def adds_def Let_def)

lemma gather_adds:
  assumes "\<And>x gen. x \<in> set xs \<Longrightarrow> adds (ok x) gen (f x gen)"
  shows "adds (\<forall>x \<in> set xs. ok x) gen (gather f xs gen)"
proof -
  have "grows gen gen'" if "gather f xs gen = Some (t, gen')" for gen' t
    by (rule quiet.gather_entered [OF _ that]) (use assms in \<open>auto simp: adds_def\<close>)
  moreover have "gather f xs gen \<noteq> None" if "\<forall>x \<in> set xs. ok x"
    using gather_total [of xs f gen] assms that by (force simp: adds_def)
  ultimately show ?thesis by (simp add: adds_def)
qed

lemma imp_arguments_adds: "adds (params_ok ps) gen (imp_arguments gc hc name ps gen)"
  unfolding imp_arguments_def params_ok_def by (rule gather_adds) (rule imp_argument_adds)

text \<open>A new wrapper for one method.\<close>

lemma add_imp_grows:
  assumes "grows gen gen1" and "fresh_imp gen1 = (name, gen2)" and "grows gen2 gen3"
  shows "grows_by [(name, imp_value)] [] gen (add_imp name imp_value gen3)"
proof -
  have n: "name = ''xl_imp_'' @ dec_string (gen_counter gen1)" "gen2 = gen1\<lparr>gen_counter := gen_counter gen1 + 1\<rparr>"
    using assms(2) by (auto simp: fresh_imp_def)
  have g: "grows gen1 gen3" using assms(3) report_grows(5) [of gen1 1] n(2) grows_trans by metis
  have c: "gen_counter gen \<le> gen_counter gen1" "gen_counter gen1 < gen_counter gen3"
    using assms(1,3) n(2) by (auto simp: grows_by_def)
  have "imp_names (gen_counter gen) (gen_counter gen3) [(name, imp_value)]"
    unfolding imp_names_def using c n(1) by (intro exI [of _ "[gen_counter gen1]"]) simp
  moreover have "grows gen gen3" using assms(1) g by (rule grows_trans)
  ultimately show ?thesis by (simp add: grows_by_def add_imp_def)
qed

lemma grows_by_text:
  "grows_by i e a b \<Longrightarrow> grows_by i e a (add_report s b)"
  by (erule grows_trans') (rule report_grows)

lemma ImpWrapper_adds:
  "(params_ok (sig_params s) \<longrightarrow> ImpWrapper gc hc s imp_value class_method gen \<noteq> None) \<and>
   (\<forall>name gen'. ImpWrapper gc hc s imp_value class_method gen = Some (name, gen') \<longrightarrow> grows_by [(name, imp_value)] [] gen gen')"
proof -
  obtain invoke gen1 where i: "InvokeShim gc hc s gen = (invoke, gen1)" by (metis prod.collapse)
  obtain name gen2 where n: "fresh_imp gen1 = (name, gen2)" by (metis prod.collapse)
  have a: "adds (params_ok (sig_params s)) gen2 (imp_arguments gc hc name (sig_params s) gen2)" by (rule imp_arguments_adds)
  show ?thesis
  proof (cases "imp_arguments gc hc name (sig_params s) gen2")
    case None
    with a show ?thesis by (simp add: ImpWrapper_def i n adds_def Let_def)
  next
    case (Some x)
    obtain conversions gen3 where x: "x = (conversions, gen3)" by (cases x)
    obtain returned gen4 where r: "return_to_host gc hc ''    '' (sig_result s) name gen3 = (returned, gen4)" by (metis prod.collapse)
    have "grows gen2 gen3" using a Some x by (simp add: adds_def)
    then have "grows gen2 gen4" using return_to_host_grows [OF r] by (rule grows_trans)
    then have "grows gen2 (add_host t gen4)" for t by (rule grow_intros)
    then have "grows_by [(name, imp_value)] [] gen (add_imp name imp_value (add_host t gen4))" for t
      using add_imp_grows [OF InvokeShim_grows [OF i] n] by blast
    then show ?thesis
      unfolding ImpWrapper_def Let_def i n prod.case Some x
      by (simp add: r del: append_Cons append.simps append_assoc)
  qed
qed

lemma StubImpWrapper_grows: "StubImpWrapper imp_value gen = (name, gen') \<Longrightarrow> grows_by [(name, imp_value)] [] gen gen'"
proof -
  assume s: "StubImpWrapper imp_value gen = (name, gen')"
  obtain n gen2 where n: "fresh_imp gen = (n, gen2)" by (metis prod.collapse)
  show ?thesis
    using s add_imp_grows [OF grows_refl n grow_intros(2) [OF grows_refl], of imp_value]
    unfolding StubImpWrapper_def n prod.case by (auto simp del: append_Cons append.simps append_assoc)
qed

end
