(* ===== verification/Classes_Facts.thy ===== *)
theory Classes_Facts
  imports Classes Selectors_Facts
begin

text \<open>
  The two programs together: what the translator writes about a program's classes, the bridge generator reads without
  missing a field, and it makes one wrapper for every method of a class or a category, under a name of its own.
\<close>

section \<open>Accounts\<close>

text \<open>A ledger whose steps succeed in every state that fits, and lead to one that fits.\<close>

locale safe_ledger = ledger +
  fixes fits :: "'b \<Rightarrow> bool"
  assumes keeps: "R l s t \<Longrightarrow> fits s \<Longrightarrow> fits t"
begin

lemma each_goes:
  assumes "\<And>x s. x \<in> set xs \<Longrightarrow> fits s \<Longrightarrow> \<exists>s'. f x s = Some s' \<and> R (entry x) s s'" and "fits s"
  shows "\<exists>s'. each f xs s = Some s' \<and> R (foldr (\<lambda>x l. also_then (entry x) l) xs nothing) s s'"
  using assms
proof (induction xs arbitrary: s)
  case Nil
  then show ?case by (simp add: stay)
next
  case (Cons x xs)
  then obtain t where t: "f x s = Some t" "R (entry x) s t" by (metis list.set_intros(1))
  then have "fits t" using keeps Cons.prems(2) by blast
  then obtain u where "each f xs t = Some u" "R (foldr (\<lambda>x l. also_then (entry x) l) xs nothing) t u"
    using Cons.IH Cons.prems(1) by (metis list.set_intros(2))
  with t show ?case by (auto intro: chain)
qed

lemma gather_goes:
  assumes "\<And>x s. x \<in> set xs \<Longrightarrow> fits s \<Longrightarrow> \<exists>t s'. f x s = Some (t, s') \<and> R (entry x) s s'" and "fits s"
  shows "\<exists>t s'. gather f xs s = Some (t, s') \<and> R (foldr (\<lambda>x l. also_then (entry x) l) xs nothing) s s'"
  using assms
proof (induction xs arbitrary: s)
  case Nil
  then show ?case by (simp add: stay)
next
  case (Cons x xs)
  then obtain a t where t: "f x s = Some (a, t)" "R (entry x) s t" by (metis list.set_intros(1))
  then have "fits t" using keeps Cons.prems(2) by blast
  then obtain b u where "gather f xs t = Some (b, u)" "R (foldr (\<lambda>x l. also_then (entry x) l) xs nothing) t u"
    using Cons.IH Cons.prems(1) by (metis list.set_intros(2))
  with t show ?case by (auto intro: chain)
qed

end

text \<open>What was added: the implementations that got wrappers, and the complaints about layouts.\<close>

type_synonym account = "u64 list \<times> string list"

definition books :: "account \<Rightarrow> Generator \<Rightarrow> Generator \<Rightarrow> bool" where
  "books l a b \<longleftrightarrow> (\<exists>added. map snd added = fst l \<and> grows_by added (snd l) a b)"

definition also_booked :: "account \<Rightarrow> account \<Rightarrow> account" where
  "also_booked k l = (fst k @ fst l, snd k @ snd l)"

lemma books_chain: "books k a b \<Longrightarrow> books l b c \<Longrightarrow> books (also_booked k l) a c"
  unfolding books_def also_booked_def by (metis fst_conv snd_conv grows_by_trans map_append)

lemma books_grows: "grows a b \<Longrightarrow> books ([], []) a b"
  unfolding books_def by (metis fst_conv list.map_disc_iff snd_conv)

lemma books_fits: "books l a b \<Longrightarrow> records_ok a \<Longrightarrow> records_ok b"
  unfolding books_def using records_ok_grows by blast

interpretation account: safe_ledger books "([], [])" also_booked records_ok
  by unfold_locales (auto intro: books_chain books_fits books_grows)

text \<open>The same for the loops that write metadata too.\<close>

definition state_books :: "account \<Rightarrow> Metadata \<times> Generator \<Rightarrow> Metadata \<times> Generator \<Rightarrow> bool" where
  "state_books l s t \<longleftrightarrow> books l (snd s) (snd t)"

interpretation state: safe_ledger state_books "([], [])" also_booked "\<lambda>s. records_ok (snd s)"
  by unfold_locales (auto simp: state_books_def intro: books_chain books_fits books_grows)

lemma booked_sum: "foldr (\<lambda>x l. also_booked (entry x) l) xs ([], []) = (concat (map (fst \<circ> entry) xs), concat (map (snd \<circ> entry) xs))"
  by (induction xs) (simp_all add: also_booked_def)

lemma also_booked_simps [simp]:
  "also_booked ([], []) l = l" "also_booked l ([], []) = l" "also_booked (a, b) (c, d) = (a @ c, b @ d)"
  by (simp_all add: also_booked_def)

section \<open>Methods\<close>

definition method_json :: "Method \<Rightarrow> json" where
  "method_json m = JObject
     [(''selector'', JString (selector m)), (''types'', JString (types m)),
      (''name_address'', address_json (name_address m)), (''imp'', address_json (imp m))]"

lemma WriteMethods_json: "WriteMethods ms = JArray (map method_json ms)"
  by (simp add: WriteMethods_def method_json_def)

lemmas manifest_simps = get_field_def get_array_def get_string_def get_int_def get_object_def address_json_def word_json_def

lemma method_json_fields [simp]:
  "json_object (method_json m) = Some (method_json m)" "get_string ''selector'' (method_json m) = Some (selector m)"
  "get_string ''types'' (method_json m) = Some (types m)" "get_int ''imp'' (method_json m) = Some (sint (imp m))"
  "get_int ''name_address'' (method_json m) = Some (sint (name_address m))"
  by (simp_all add: method_json_def manifest_simps)

definition headers_ok :: "ASTContext \<Rightarrow> Pool \<Rightarrow> bool" where
  "headers_ok gc gpool \<longleftrightarrow> plain_context gc \<and> pool_ok gpool"

lemma sdk_declaration_guest: "sdk_declaration ts hosts guests = Some (g, h) \<Longrightarrow> g \<in> set guests"
  by (induction ts hosts guests rule: sdk_declaration.induct) (auto split: if_splits option.splits)

lemma method_signature_ok:
  assumes "method_signature gc hc gpool hpool class_method sel ts gen = (s, origin, gen')"
  shows "grows gen gen'" and "headers_ok gc gpool \<Longrightarrow> records_ok gen \<Longrightarrow> params_ok (sig_params s)"
proof -
  let ?sdk = "sdk_declaration (strip_digits ts) (pool_methods hpool (pool_key class_method sel)) (pool_methods gpool (pool_key class_method sel))"
  have "grows gen gen' \<and> (headers_ok gc gpool \<longrightarrow> records_ok gen \<longrightarrow> params_ok (sig_params s))"
  proof (cases ?sdk)
    case None
    obtain s1 gen1 where f: "FromEncoding gc hc ts gen = (s1, gen1)" by (metis prod.collapse)
    with assms None have "s = s1" "gen' = gen1" by (simp_all add: method_signature_def)
    with FromEncoding_ok [OF f] show ?thesis by (simp add: headers_ok_def)
  next
    case (Some gh)
    obtain g h where gh: "gh = (g, h)" by (cases gh)
    have "pool_ok gpool \<Longrightarrow> method_ok g" using sdk_declaration_guest Some gh pool_methods_ok by blast
    then have "pool_ok gpool \<Longrightarrow> params_ok (sig_params (FromMethod gc hc (m_decl g) (m_decl h)))"
      using FromMethod_ok by (simp add: method_ok_def)
    moreover have "s = FromMethod gc hc (m_decl g) (m_decl h)" "gen' = gen" using assms Some gh by (simp_all add: method_signature_def)
    ultimately show ?thesis by (simp add: headers_ok_def)
  qed
  then show "grows gen gen'" and "headers_ok gc gpool \<Longrightarrow> records_ok gen \<Longrightarrow> params_ok (sig_params s)" by auto
qed

lemma method_wrapper_goes:
  assumes "headers_ok gc gpool" and "records_ok gen"
  shows "\<exists>w ts' gen'. method_wrapper gc hc gpool hpool class_method hint sel ts imp_value gen = Some (w, ts', gen') \<and>
    books ([imp_value], []) gen gen'"
proof -
  obtain s origin gen1 where m: "method_signature gc hc gpool hpool class_method sel ts gen = (s, origin, gen1)" by (metis prod.collapse)
  have g1: "grows gen gen1" and ok: "params_ok (sig_params s)" using method_signature_ok [OF m] assms by auto
  show ?thesis
  proof (cases "sig_supported s")
    case False
    define gen2 where "gen2 = count_unsupported (add_report ((if class_method then ''+['' else ''-['') @ hint @ '' '' @ sel @
      '']: UNSUPPORTED: '' @ sig_note s) gen1)"
    obtain w gen3 where w: "StubImpWrapper imp_value gen2 = (w, gen3)" by (metis prod.collapse)
    have "grows gen gen2" unfolding gen2_def using g1 by (intro grow_intros)
    then have "grows_by [(w, imp_value)] [] gen gen3" using StubImpWrapper_grows [OF w] by (rule grows_trans)
    then have "books ([imp_value], []) gen gen3" unfolding books_def by (intro exI [of _ "[(w, imp_value)]"]) simp
    with False m w show ?thesis by (simp add: method_wrapper_def Let_def gen2_def del: append_Cons append.simps)
  next
    case True
    obtain w gen2 where w: "ImpWrapper gc hc s imp_value class_method gen1 = Some (w, gen2)"
      using ImpWrapper_adds [of s gc hc imp_value class_method gen1] ok by auto
    have "grows_by [(w, imp_value)] [] gen1 gen2"
      using ImpWrapper_adds [of s gc hc imp_value class_method gen1] w by simp
    then have "grows_by [(w, imp_value)] [] gen (add_report l gen2)" for l
      by (intro grows_by_text grows_trans [OF g1])
    then have "books ([imp_value], []) gen (add_report l gen2)" for l
      unfolding books_def by (intro exI [of _ "[(w, imp_value)]"]) simp
    with True m w show ?thesis by (simp add: method_wrapper_def Let_def del: append_Cons append.simps)
  qed
qed

definition method_account :: "bool \<Rightarrow> Method \<Rightarrow> account" where
  "method_account implementations m = (if implementations then [imp m] else [], [])"

lemma emit_method_goes:
  assumes "headers_ok gc gpool" and "records_ok gen"
  shows "\<exists>t gen'. emit_method gc hc gpool hpool class_method hint implementations (method_json m) gen = Some (t, gen') \<and>
    books (method_account implementations m) gen gen'"
proof (cases implementations)
  case True
  have "word_of_int (sint (imp m)) = imp m" by simp
  with True method_wrapper_goes [OF assms, of hc hpool class_method hint "selector m" "types m" "imp m"]
  show ?thesis by (auto simp: emit_method_def method_account_def)
next
  case False
  obtain s gen1 where f: "FromEncoding gc hc (types m) gen = (s, gen1)" by (metis prod.collapse)
  with False books_grows [OF FromEncoding_ok(1) [OF f]] show ?thesis by (simp add: emit_method_def method_account_def)
qed

lemma gather_map: "gather f (map g xs) s = gather (f \<circ> g) xs s"
  by (induction xs arbitrary: s) (simp_all split: option.split)

lemma each_map: "each f (map g xs) s = each (f \<circ> g) xs s"
  by (induction xs arbitrary: s) (simp_all split: option.split)

lemma concat_singletons: "concat (map (fst \<circ> method_account impls) ms) = (if impls then map imp ms else [])"
    "concat (map (snd \<circ> method_account impls) ms) = []"
  by (induction ms) (simp_all add: method_account_def)

lemma put_methods_goes:
  assumes "headers_ok gc gpool" and "records_ok (snd st)" and "get_array key data = Some (map method_json ms)"
  shows "\<exists>r st'. put_methods gc hc gpool hpool (get_array key data) class_method symbol hint implementations st = Some (r, st') \<and>
    state_books (if implementations then map imp ms else [], []) st st'"
proof (cases "ms = []")
  case True
  then show ?thesis using assms(3) state.stay by (auto simp: put_methods_def emit_methods_def items_of_def state_books_def books_grows)
next
  case False
  have "\<exists>t gen'. gather (emit_method gc hc gpool hpool class_method hint implementations \<circ> method_json) ms (snd st) = Some (t, gen') \<and>
      books (foldr (\<lambda>x l. also_booked (method_account implementations x) l) ms ([], [])) (snd st) gen'"
    by (rule account.gather_goes [OF _ assms(2)]) (simp add: emit_method_goes assms(1))
  then show ?thesis
    using False assms(3)
    by (auto simp: put_methods_def emit_methods_def items_of_def gather_map booked_sum concat_singletons state_books_def)
qed

section \<open>The rest of a class\<close>

definition property_json :: "Property \<Rightarrow> json" where
  "property_json p = JObject
     [(''name'', JString (prop_name p)), (''attributes'', JString (attributes p)),
      (''name_address'', address_json (prop_name_address p)),
      (''attributes_address'', address_json (attributes_address p))]"

definition ivar_json :: "Ivar \<Rightarrow> json" where
  "ivar_json ivar = JObject
     [(''name'', JString (ivar_name ivar)), (''type'', JString (ivar_type ivar)),
      (''offset_address'', address_json (offset_address ivar)), (''offset_value'', word_json (offset_value ivar)),
      (''name_address'', address_json (ivar_name_address ivar)),
      (''type_address'', address_json (type_address ivar)),
      (''alignment'', word_json (alignment ivar)), (''size'', word_json (ivar_size ivar))]"

lemma WriteProperties_json: "WriteProperties ps = JArray (map property_json ps)"
  by (simp add: WriteProperties_def property_json_def)

lemma concat_options_total: "(\<And>x. x \<in> set xs \<Longrightarrow> f x \<noteq> None) \<Longrightarrow> \<exists>s. concat_options f xs = Some s"
  by (induction xs) (auto, metis option.exhaust option.simps(5))

lemma property_entry_json: "property_entry (property_json p) \<noteq> None"
  by (simp add: property_entry_def property_json_def manifest_simps)

lemma ivar_entry_json: "ivar_entry (ivar_json i) \<noteq> None"
  by (simp add: ivar_entry_def ivar_json_def manifest_simps)

definition succeeds :: "(string \<times> string) option \<Rightarrow> bool" where
  "succeeds r \<longleftrightarrow> r \<noteq> None"

lemma emit_properties_json: "succeeds (emit_properties (Some (map property_json ps)) symbol)"
  using concat_options_total [of "map property_json ps" property_entry] property_entry_json
  by (auto simp: succeeds_def emit_properties_def items_of_def)

lemma emit_ivars_json: "succeeds (emit_ivars (Some (map ivar_json is)) symbol)"
  using concat_options_total [of "map ivar_json is" ivar_entry] ivar_entry_json
  by (auto simp: succeeds_def emit_ivars_def items_of_def)

lemma emit_protocol_list_json: "succeeds (emit_protocol_list (Some (map address_json as)) symbol)"
proof -
  have "\<exists>s. concat_options (\<lambda>entry. map_option f (json_int entry)) (map address_json as) = Some s" for f
    by (rule concat_options_total) (auto simp: address_json_def)
  then obtain s t where
    "concat_options (\<lambda>entry. map_option (\<lambda>a. extern_char (protocol_symbol a)) (json_int entry)) (map address_json as) = Some s"
    "concat_options (\<lambda>entry. map_option (\<lambda>a. ''&'' @ protocol_symbol a @ '', '') (json_int entry)) (map address_json as) = Some t"
    by metis
  then show ?thesis by (simp add: succeeds_def emit_protocol_list_def items_of_def del: append_Cons append.simps)
qed

lemma put_goes: "succeeds r \<Longrightarrow> \<exists>t st'. put r st = Some (t, st') \<and> state_books ([], []) st st'"
  by (auto simp: succeeds_def put_def state_books_def books_grows)

lemma add_meta_books [simp]:
  "state_books l st (add_meta s md, gen) \<longleftrightarrow> state_books l st (md, gen)"
  "state_books l st (md\<lparr>md_protolist := ps\<rparr>, gen) \<longleftrightarrow> state_books l st (md, gen)"
  "state_books l st (md\<lparr>md_classlist := ps\<rparr>, gen) \<longleftrightarrow> state_books l st (md, gen)"
  "state_books l st (md\<lparr>md_catlist := ps\<rparr>, gen) \<longleftrightarrow> state_books l st (md, gen)"
  by (simp_all add: state_books_def)

text \<open>Steps one after the other, each from a state that fits.\<close>

lemma then_goes:
  assumes "\<exists>t st'. r = Some (t, st') \<and> state_books l st st'" and "records_ok (snd st)"
    and "\<And>t st'. r = Some (t, st') \<Longrightarrow> records_ok (snd st') \<Longrightarrow> \<exists>st''. k t st' = Some st'' \<and> state_books m st' st''"
  shows "\<exists>st''. Option.bind r (\<lambda>(t, st'). k t st') = Some st'' \<and> state_books (also_booked l m) st st''"
proof -
  obtain t st' where r: "r = Some (t, st')" "state_books l st st'" using assms(1) by auto
  moreover obtain st'' where "k t st' = Some st''" "state_books m st' st''"
    using assms(3) r state.keeps [OF r(2)] assms(2) by blast
  ultimately show ?thesis using state.chain by auto
qed

lemma protocol_fields [simp]:
  "json_object (protocol_json p) = Some (protocol_json p)" "get_int ''address'' (protocol_json p) = Some (sint (proto_address p))"
  "get_string ''name'' (protocol_json p) = Some (proto_name p)"
  "get_array ''protocols'' (protocol_json p) = Some (map address_json (proto_protocols p))"
  "get_array ''instance_methods'' (protocol_json p) = Some (map method_json (proto_instance_methods p))"
  "get_array ''class_methods'' (protocol_json p) = Some (map method_json (proto_class_methods p))"
  "get_array ''optional_instance_methods'' (protocol_json p) = Some (map method_json (optional_instance_methods p))"
  "get_array ''optional_class_methods'' (protocol_json p) = Some (map method_json (optional_class_methods p))"
  "get_array ''properties'' (protocol_json p) = Some (map property_json (proto_properties p))"
  by (simp_all add: protocol_json_def manifest_simps WriteMethods_json WriteProperties_json WriteAddresses_def)

lemma data_fields [simp]:
  "json_object (WriteData d) = Some (WriteData d)" "get_string ''name'' (WriteData d) = Some (cd_name d)"
  "get_array ''methods'' (WriteData d) = Some (map method_json (methods d))"
  "get_array ''ivars'' (WriteData d) = Some (map ivar_json (ivars d))"
  "get_array ''properties'' (WriteData d) = Some (map property_json (properties d))"
  "get_array ''protocols'' (WriteData d) = Some (map address_json (protocols d))"
  "get_int ''flags'' (WriteData d) = Some (uint (cd_flags d))"
  "get_int ''instance_start'' (WriteData d) = Some (uint (instance_start d))"
  "get_int ''instance_size'' (WriteData d) = Some (uint (instance_size d))"
  "get_int ''name_address'' (WriteData d) = Some (sint (cd_name_address d))"
  by (simp_all add: WriteData_def manifest_simps WriteMethods_json WriteProperties_json WriteAddresses_def ivar_json_def)

lemma class_fields [simp]:
  "json_object (class_json c) = Some (class_json c)" "get_int ''address'' (class_json c) = Some (sint (cls_address c))"
  "get_object ''data'' (class_json c) = Some (WriteData (cls_data c))"
  "get_object ''meta_data'' (class_json c) = Some (WriteData (meta_data c))"
  "get_object ''superclass'' (class_json c) = Some (WritePointer (superclass c))"
  by (simp_all add: class_json_def manifest_simps WritePointer_def WriteData_def)

lemma category_fields [simp]:
  "json_object (category_json c) = Some (category_json c)" "get_string ''name'' (category_json c) = Some (cat_name c)"
  "get_int ''name_address'' (category_json c) = Some (sint (cat_name_address c))"
  "get_object ''class'' (category_json c) = Some (WritePointer (cat_cls c))"
  "get_array ''instance_methods'' (category_json c) = Some (map method_json (cat_instance_methods c))"
  "get_array ''class_methods'' (category_json c) = Some (map method_json (cat_class_methods c))"
  "get_array ''properties'' (category_json c) = Some (map property_json (cat_properties c))"
  "get_array ''protocols'' (category_json c) = Some (map address_json (cat_protocols c))"
  by (simp_all add: category_json_def manifest_simps WritePointer_def WriteMethods_json WriteProperties_json WriteAddresses_def)

lemma super_exprs_json: "super_exprs (WritePointer p) \<noteq> None"
  by (cases "kind p") (simp_all add: super_exprs_def WritePointer_def manifest_simps)

lemma category_class_goes:
  assumes "kind p \<noteq> Null"
  shows "\<exists>t st'. category_class (WritePointer p) st = Some (t, st') \<and> state_books ([], []) st st'"
  using assms
  by (cases "kind p") (auto simp: category_class_def WritePointer_def manifest_simps state_books_def books_grows report_grows)

section \<open>Images\<close>

lemma put_lists_go:
  assumes "records_ok (snd st)"
  shows "\<exists>t st'. put (emit_properties (Some (map property_json ps)) symbol) st = Some (t, st') \<and> state_books ([], []) st st'"
    "\<exists>t st'. put (emit_ivars (Some (map ivar_json is)) symbol) st = Some (t, st') \<and> state_books ([], []) st st'"
    "\<exists>t st'. put (emit_protocol_list (Some (map address_json as)) symbol) st = Some (t, st') \<and> state_books ([], []) st st'"
  by (intro put_goes emit_properties_json emit_ivars_json emit_protocol_list_json)+

lemma emit_protocol_goes:
  assumes "headers_ok gc gpool" and "records_ok (snd st)"
  shows "\<exists>st'. emit_protocol gc hc gpool hpool (protocol_json p) st = Some st' \<and> state_books ([], []) st st'"
proof -
  note m = put_methods_goes [OF assms(1), where implementations = False, unfolded if_False]
  have "\<exists>st'. emit_protocol gc hc gpool hpool (protocol_json p) st = Some st' \<and>
      state_books (also_booked ([], []) (also_booked ([], []) (also_booked ([], []) (also_booked ([], []) (also_booked ([], [])
        (also_booked ([], []) ([], []))))))) st st'"
    unfolding emit_protocol_def
    apply (simp only: protocol_fields Option.bind.simps Let_def)
    apply (rule then_goes [OF put_lists_go(3) [OF assms(2)] assms(2)])
    apply (rule then_goes [OF m [OF _ protocol_fields(5), unfolded protocol_fields]], assumption, assumption)
    apply (rule then_goes [OF m [OF _ protocol_fields(6), unfolded protocol_fields]], assumption, assumption)
    apply (rule then_goes [OF m [OF _ protocol_fields(7), unfolded protocol_fields]], assumption, assumption)
    apply (rule then_goes [OF m [OF _ protocol_fields(8), unfolded protocol_fields]], assumption, assumption)
    apply (rule then_goes [OF put_lists_go(1)], assumption, assumption)
    apply (simp add: state.stay state_books_def books_grows)
    done
  then show ?thesis by simp
qed

lemma emit_class_data_goes:
  assumes "headers_ok gc gpool" and "records_ok (snd st)"
    and data: "get_object (if of_meta then ''meta_data'' else ''data'') cls = Some (WriteData d)"
  shows "\<exists>st'. emit_class_data gc hc gpool hpool cls suff of_meta st = Some st' \<and> state_books (map imp (methods d), []) st st'"
proof -
  note m = put_methods_goes [OF assms(1), where implementations = True, unfolded if_True]
  have "\<exists>st'. emit_class_data gc hc gpool hpool cls suff of_meta st = Some st' \<and>
      state_books (also_booked (map imp (methods d), []) (also_booked ([], []) (also_booked ([], []) (also_booked ([], []) ([], []))))) st st'"
    unfolding emit_class_data_def data
    apply (simp only: data_fields Option.bind.simps Let_def)
    apply (rule then_goes [OF m [OF assms(2) data_fields(3), unfolded data_fields] assms(2)])
    apply (rule then_goes [OF put_lists_go(2)], assumption, assumption)
    apply (rule then_goes [OF put_lists_go(1)], assumption, assumption)
    apply (rule then_goes [OF put_lists_go(3)], assumption, assumption)
    apply (simp add: state.stay state_books_def books_grows)
    done
  then show ?thesis by simp
qed

text \<open>The complaints about a class: its instance variables that lie below where its instances start.\<close>

definition class_complaints :: "ClassData \<Rightarrow> string list" where
  "class_complaints d = map (\<lambda>i. layout_error (cd_name d) (uint (offset_value i)) (uint (instance_start d)))
     (filter (\<lambda>i. offset_value i < instance_start d) (ivars d))"

lemma ivar_fixup_goes:
  "\<exists>t gen'. ivar_fixup name start (ivar_json i) gen = Some (t, gen') \<and>
    books ([], if uint (offset_value i) < start then [layout_error name (uint (offset_value i)) start] else []) gen gen'"
  by (simp add: ivar_fixup_def ivar_json_def manifest_simps books_def grows_by_def)

lemma emit_layout_goes:
  assumes "records_ok (snd st)"
  shows "\<exists>st'. emit_layout (class_json c) suff st = Some st' \<and> state_books ([], class_complaints (cls_data c)) st st'"
proof -
  let ?d = "cls_data c"
  let ?entry = "\<lambda>i. ([] :: u64 list, if uint (offset_value i) < uint (instance_start ?d)
    then [layout_error (cd_name ?d) (uint (offset_value i)) (uint (instance_start ?d))] else [])"
  have "\<exists>t gen'. gather (ivar_fixup (cd_name ?d) (uint (instance_start ?d)) \<circ> ivar_json) (ivars ?d) (snd st) = Some (t, gen') \<and>
      books (foldr (\<lambda>x l. also_booked (?entry x) l) (ivars ?d) ([], [])) (snd st) gen'"
    using assms by (rule account.gather_goes [rotated]) (simp only: comp_apply ivar_fixup_goes)
  moreover have "foldr (\<lambda>x l. also_booked (?entry x) l) is ([], []) = ([], map (\<lambda>i. layout_error (cd_name ?d) (uint (offset_value i))
      (uint (instance_start ?d))) (filter (\<lambda>i. offset_value i < instance_start ?d) is))" for "is"
    by (induction "is") (simp_all add: word_less_def)
  then have sum: "foldr (\<lambda>x l. also_booked (?entry x) l) (ivars ?d) ([], []) = ([], class_complaints ?d)"
    by (simp only: class_complaints_def)
  ultimately obtain t gen' where g: "gather (ivar_fixup (cd_name ?d) (uint (instance_start ?d)) \<circ> ivar_json) (ivars ?d) (snd st) = Some (t, gen')"
    "books ([], class_complaints ?d) (snd st) gen'" unfolding sum by blast
  obtain sh sg where s: "super_exprs (WritePointer (superclass c)) = Some (sh, sg)" using super_exprs_json by (metis not_None_eq surj_pair)
  have "books l (snd st) (gen'\<lparr>gen_layouts := x\<rparr>) \<longleftrightarrow> books l (snd st) gen'" for l x by (simp add: books_def grows_by_def)
  with g s show ?thesis
    by (simp add: emit_layout_def gather_map state_books_def Let_def del: append_Cons append.simps append_assoc)
qed

definition class_account :: "ObjCClass \<Rightarrow> account" where
  "class_account c = (map imp (methods (cls_data c)) @ map imp (methods (meta_data c)), class_complaints (cls_data c))"

lemma emit_class_goes:
  assumes "headers_ok gc gpool" and "records_ok (snd st)"
  shows "\<exists>st'. emit_class gc hc gpool hpool index (k, class_json c) st = Some st' \<and> state_books (class_account c) st st'"
proof -
  let ?suff = "suffix_of index k"
  obtain st1 where s1: "emit_class_data gc hc gpool hpool (class_json c) ?suff False st = Some st1" "state_books (map imp (methods (cls_data c)), []) st st1"
    using emit_class_data_goes [OF assms, of False "class_json c" "cls_data c" hc hpool ?suff] by auto
  then have r1: "records_ok (snd st1)" using state.keeps assms(2) by blast
  obtain st2 where s2: "emit_class_data gc hc gpool hpool (class_json c) ?suff True st1 = Some st2" "state_books (map imp (methods (meta_data c)), []) st1 st2"
    using emit_class_data_goes [OF assms(1) r1, of True "class_json c" "meta_data c" hc hpool ?suff] by auto
  then have r2: "records_ok (snd st2)" using state.keeps r1 by blast
  define st3 where "st3 = ((add_meta (extern_char (''xl_guest_class_'' @ padded_hex (sint (cls_address c)))) (fst st2))
    \<lparr>md_classlist := md_classlist (fst st2) @ [''&'' @ ''xl_guest_class_'' @ padded_hex (sint (cls_address c))]\<rparr>, snd st2)"
  have "records_ok (snd st3)" using r2 by (simp add: st3_def)
  then obtain st4 where s4: "emit_layout (class_json c) ?suff st3 = Some st4" "state_books ([], class_complaints (cls_data c)) st3 st4"
    using emit_layout_goes by blast
  have "state_books ([], class_complaints (cls_data c)) st2 st4" using s4(2) by (simp add: st3_def state_books_def)
  then have "state_books (class_account c) st st4"
    using state.chain [OF s1(2) state.chain [OF s2(2) \<open>state_books _ st2 st4\<close>]] by (simp add: class_account_def)
  then show ?thesis
    using s1(1) s2(1) s4(1) unfolding emit_class_def Let_def st3_def by simp
qed

definition category_account :: "ObjCCategory \<Rightarrow> account" where
  "category_account c = (map imp (cat_instance_methods c) @ map imp (cat_class_methods c), [])"

lemma emit_category_goes:
  assumes "headers_ok gc gpool" and "records_ok (snd st)" and "kind (cat_cls c) \<noteq> Null"
  shows "\<exists>st'. emit_category gc hc gpool hpool index (k, category_json c) st = Some st' \<and> state_books (category_account c) st st'"
proof -
  note m = put_methods_goes [OF assms(1), where implementations = True, unfolded if_True]
  have "\<exists>st'. emit_category gc hc gpool hpool index (k, category_json c) st = Some st' \<and>
      state_books (also_booked ([], []) (also_booked (map imp (cat_instance_methods c), []) (also_booked (map imp (cat_class_methods c), [])
        (also_booked ([], []) (also_booked ([], []) ([], [])))))) st st'"
    unfolding emit_category_def
    apply (simp only: category_fields Option.bind.simps Let_def snd_conv fst_conv)
    apply (rule then_goes [OF category_class_goes [OF assms(3)] assms(2)])
    apply (rule then_goes [OF m [OF _ category_fields(5), unfolded category_fields]], assumption, assumption)
    apply (rule then_goes [OF m [OF _ category_fields(6), unfolded category_fields]], assumption, assumption)
    apply (rule then_goes [OF put_lists_go(1)], assumption, assumption)
    apply (rule then_goes [OF put_lists_go(3)], assumption, assumption)
    apply (simp add: state.stay state_books_def books_grows)
    done
  then show ?thesis by (simp add: category_account_def)
qed

lemma enumerate_map: "List.enumerate n (map f xs) = map (\<lambda>(i, x). (i, f x)) (List.enumerate n xs)"
  by (induction xs arbitrary: n) simp_all

lemma map_snd_enumerate: "map (f \<circ> snd) (List.enumerate n xs) = map f xs"
  by (induction xs arbitrary: n) simp_all

lemma selector_slot_goes:
  "\<exists>gen'. each emit_selector_slot (map (\<lambda>selref. JObject
     [(''slot'', address_json (sel_slot selref)), (''selector'', JString (sel_selector selref))]) refs) gen = Some gen' \<and> grows gen gen'"
proof (induction refs arbitrary: gen)
  case (Cons r refs)
  let ?gen = "add_init (''    *(uint64_t *)(uintptr_t)'' @ hex_u (sint (sel_slot r)) @ '' = (uintptr_t)sel_registerName('' @
    quoted (sel_selector r) @ '');'' @ nl) gen"
  have "grows gen ?gen" by (rule report_grows)
  with Cons [of ?gen] show ?case
    by (auto simp: emit_selector_slot_def manifest_simps intro: grows_trans simp del: append_Cons append.simps)
qed simp

lemma report_errors_go: "\<exists>gen'. each report_error (map JString es) gen = Some gen' \<and> grows gen gen'"
proof (induction es arbitrary: gen)
  case (Cons e es)
  let ?gen = "count_unsupported (add_report (''objc metadata: UNSUPPORTED: '' @ e) gen)"
  have "grows gen ?gen" by (intro grow_intros grows_refl)
  with Cons [of ?gen] show ?case by (auto simp: report_error_def intro: grows_trans simp del: append_Cons append.simps)
qed simp

definition image_account :: "ObjCImage \<Rightarrow> account" where
  "image_account oi =
     (concat (map (fst \<circ> class_account) (oi_classes oi)) @ concat (map (fst \<circ> category_account) (categories oi)),
      concat (map (snd \<circ> class_account) (oi_classes oi)))"

lemma image_fields [simp]:
  "json_object (image_json n img oi) = Some (image_json n img oi)" "get_int ''index'' (image_json n img oi) = Some (int n)"
  "get_array ''errors'' (image_json n img oi) = Some (map JString (errors oi))"
  "get_array ''protocols'' (image_json n img oi) = Some (map protocol_json (oi_protocols oi))"
  "get_array ''classes'' (image_json n img oi) = Some (map class_json (oi_classes oi))"
  "get_array ''categories'' (image_json n img oi) = Some (map category_json (categories oi))"
  "get_array ''selectors'' (image_json n img oi) = Some (map (\<lambda>selref. JObject
     [(''slot'', address_json (sel_slot selref)), (''selector'', JString (sel_selector selref))]) (selectors oi))"
  "get_array ''swift_static_classes'' (image_json n img oi) = Some (map address_json (swift_static_classes oi))"
  "get_array ''swift_listed_classes'' (image_json n img oi) = Some (map address_json (swift_listed_classes oi))"
  by (simp_all add: image_json_def manifest_simps WriteAddresses_def)

lemma concat_nothing: "concat (map (\<lambda>x. []) xs) = []"
  by simp

lemma foldr_id: "foldr (\<lambda>x l. l) xs l = l"
  by (induction xs) simp_all

lemma emit_objc_image_goes:
  assumes h: "headers_ok gc gpool" and "records_ok (snd st)" and cats: "\<forall>c \<in> set (categories oi). kind (cat_cls c) \<noteq> Null"
  shows "\<exists>st'. emit_objc_image gc hc gpool hpool (image_json n img oi) st = Some st' \<and> state_books (image_account oi) st st'"
proof -
  obtain gen1 where e: "each report_error (map JString (errors oi)) (snd st) = Some gen1" "grows (snd st) gen1" using report_errors_go by blast
  then have r1: "records_ok gen1" using assms(2) records_ok_grows by blast
  have "\<exists>st'. each (emit_protocol gc hc gpool hpool \<circ> protocol_json) (oi_protocols oi) (fst st, gen1) = Some st' \<and>
      state_books (foldr (\<lambda>x l. also_booked ([], []) l) (oi_protocols oi) ([], [])) (fst st, gen1) st'"
    by (rule state.each_goes) (use r1 emit_protocol_goes [OF h] in \<open>simp_all add: comp_def\<close>)
  then obtain st2 where s2: "each (emit_protocol gc hc gpool hpool) (map protocol_json (oi_protocols oi)) (fst st, gen1) = Some st2"
    "state_books ([], []) (fst st, gen1) st2" by (auto simp: each_map comp_def foldr_id)
  have r2: "records_ok (snd st2)" using state.keeps [OF s2(2)] r1 by simp
  have "\<exists>st'. each (emit_class gc hc gpool hpool (int n) \<circ> (\<lambda>(i, c). (i, class_json c))) (List.enumerate 0 (oi_classes oi)) st2 = Some st' \<and>
      state_books (foldr (\<lambda>x l. also_booked (class_account (snd x)) l) (List.enumerate 0 (oi_classes oi)) ([], [])) st2 st'"
    by (rule state.each_goes [OF _ r2]) (use emit_class_goes [OF h] in \<open>auto simp: case_prod_unfold\<close>)
  then obtain st3 where s3: "each (emit_class gc hc gpool hpool (int n)) (List.enumerate 0 (map class_json (oi_classes oi))) st2 = Some st3"
    "state_books (concat (map (fst \<circ> class_account) (oi_classes oi)), concat (map (snd \<circ> class_account) (oi_classes oi))) st2 st3"
    using map_snd_enumerate [of "fst \<circ> class_account" 0 "oi_classes oi"] map_snd_enumerate [of "snd \<circ> class_account" 0 "oi_classes oi"]
    by (auto simp: each_map enumerate_map booked_sum comp_def)
  have r3: "records_ok (snd st3)" using state.keeps [OF s3(2)] r2 by simp
  have "\<exists>st'. each (emit_category gc hc gpool hpool (int n) \<circ> (\<lambda>(i, c). (i, category_json c))) (List.enumerate 0 (categories oi)) st3 = Some st' \<and>
      state_books (foldr (\<lambda>x l. also_booked (category_account (snd x)) l) (List.enumerate 0 (categories oi)) ([], [])) st3 st'"
    by (rule state.each_goes [OF _ r3])
       (use emit_category_goes [OF h] cats in \<open>auto simp: case_prod_unfold in_set_enumerate_eq\<close>)
  then obtain st4 where s4: "each (emit_category gc hc gpool hpool (int n)) (List.enumerate 0 (map category_json (categories oi))) st3 = Some st4"
    "state_books (concat (map (fst \<circ> category_account) (categories oi)), []) st3 st4"
    using map_snd_enumerate [of "fst \<circ> category_account" 0 "categories oi"] map_snd_enumerate [of "snd \<circ> category_account" 0 "categories oi"]
    by (auto simp: each_map enumerate_map booked_sum comp_def category_account_def concat_nothing)
  obtain gen5 where s5: "each emit_selector_slot (map (\<lambda>selref. JObject [(''slot'', address_json (sel_slot selref)),
      (''selector'', JString (sel_selector selref))]) (selectors oi)) (snd st4) = Some gen5" "grows (snd st4) gen5" using selector_slot_goes by blast
  have "state_books ([], []) st (fst st, gen1)" using books_grows [OF e(2)] by (simp add: state_books_def)
  moreover have "state_books ([], []) st4 (fst st4, gen5)" using books_grows [OF s5(2)] by (simp add: state_books_def)
  ultimately have "state_books (image_account oi) st (fst st4, gen5)"
    using state.chain [OF _ state.chain [OF s2(2) state.chain [OF s3(2) state.chain [OF s4(2)]]], of "([], [])" st "([], [])" "(fst st4, gen5)"]
    by (simp add: image_account_def)
  then show ?thesis using e(1) s2(1) s3(1) s4(1) s5(1) by (simp add: emit_objc_image_def)
qed

section \<open>The manifest\<close>

definition program_account :: "ObjCImage list \<Rightarrow> account" where
  "program_account objc = (concat (map (fst \<circ> image_account) objc), concat (map (snd \<circ> image_account) objc))"

definition categories_ok :: "ObjCImage list \<Rightarrow> bool" where
  "categories_ok objc \<longleftrightarrow> (\<forall>oi \<in> set objc. \<forall>c \<in> set (categories oi). kind (cat_cls c) \<noteq> Null)"

definition images_json :: "Image list \<Rightarrow> ObjCImage list \<Rightarrow> json list" where
  "images_json imgs objc = map (\<lambda>n. image_json n (imgs ! n) (objc ! n)) [0..<length imgs]"

lemma WriteManifest_images [simp]:
  "get_array ''images'' (WriteManifest imgs objc) = Some (images_json imgs objc)"
  "json_object (WriteManifest imgs objc) = Some (WriteManifest imgs objc)"
  by (simp_all add: WriteManifest_def images_json_def manifest_simps)

lemma swift_classes_json:
  assumes "key \<in> {''swift_static_classes'', ''swift_listed_classes''}"
  shows "\<exists>s. swift_classes key (images_json imgs objc) = Some s"
proof -
  have a: "\<exists>s. concat_options (\<lambda>a. map_option (\<lambda>address. hex_u address @ '', '') (json_int a)) (map address_json as) = Some s" for as
    by (rule concat_options_total) (auto simp: address_json_def)
  show ?thesis
    unfolding swift_classes_def
    using assms a by (intro concat_options_total) (auto simp: images_json_def)
qed

definition no_metadata :: Metadata where
  "no_metadata = \<lparr>md_meta = [], md_classlist = [], md_catlist = [], md_protolist = []\<rparr>"

lemma program_images:
  assumes "headers_ok gc gpool" and "records_ok gen" and "length objc = length imgs" and "categories_ok objc"
  shows "\<exists>st'. each (emit_objc_image gc hc gpool hpool) (images_json imgs objc) (no_metadata, gen) = Some st' \<and>
    state_books (program_account objc) (no_metadata, gen) st'"
proof -
  have goes: "\<exists>st'. each (emit_objc_image gc hc gpool hpool \<circ> (\<lambda>n. image_json n (imgs ! n) (objc ! n))) [0..<length imgs] (no_metadata, gen) = Some st' \<and>
      state_books (foldr (\<lambda>x l. also_booked (image_account (objc ! x)) l) [0..<length imgs] ([], [])) (no_metadata, gen) st'"
  proof (rule state.each_goes)
    fix n and st :: "Metadata \<times> Generator" assume "n \<in> set [0..<length imgs]" and r: "records_ok (snd st)"
    then have "\<forall>c \<in> set (categories (objc ! n)). kind (cat_cls c) \<noteq> Null"
      using assms(3,4) unfolding categories_ok_def by (metis atLeastLessThan_iff nth_mem set_upt)
    from emit_objc_image_goes [OF assms(1) r this]
    show "\<exists>st'. (emit_objc_image gc hc gpool hpool \<circ> (\<lambda>n. image_json n (imgs ! n) (objc ! n))) n st = Some st' \<and>
        state_books (image_account (objc ! n)) st st'" by simp
  qed (simp add: assms(2))
  have m: "map (f \<circ> (\<lambda>n. image_account (objc ! n))) [0..<length imgs] = map (f \<circ> image_account) objc" for f :: "account \<Rightarrow> 'x list"
    using map_nth [of objc] assms(3) by (metis (no_types, lifting) comp_def list.map_comp map_eq_conv)
  have sum: "foldr (\<lambda>x l. also_booked (image_account (objc ! x)) l) [0..<length imgs] ([], []) = program_account objc"
    unfolding booked_sum m program_account_def ..
  show ?thesis using goes unfolding sum images_json_def each_map .
qed

lemma EmitClasses_books:
  assumes "headers_ok gc gpool" and "records_ok gen" and "length objc = length imgs" and "categories_ok objc"
  shows "\<exists>gen'. EmitClasses gc hc gpool hpool (WriteManifest imgs objc) gen = Some gen' \<and> books (program_account objc) gen gen'"
proof -
  obtain md gen1 where p: "each (emit_objc_image gc hc gpool hpool) (images_json imgs objc) (no_metadata, gen) = Some (md, gen1)"
    "books (program_account objc) gen gen1"
    using program_images [OF assms, of hc hpool] by (auto simp: state_books_def)
  obtain s1 where s1: "swift_classes ''swift_static_classes'' (images_json imgs objc) = Some s1" using swift_classes_json by blast
  obtain s2 where s2: "swift_classes ''swift_listed_classes'' (images_json imgs objc) = Some s2" using swift_classes_json by blast
  have "books l gen (gen1\<lparr>gen_tables := t\<rparr>) \<longleftrightarrow> books l gen gen1" for l t by (simp add: books_def grows_by_def)
  with p s1 s2 show ?thesis
    unfolding EmitClasses_def no_metadata_def by (simp del: append_Cons append.simps append_assoc)
qed

lemma each_None: "x \<in> set xs \<Longrightarrow> (\<And>s. f x s = None) \<Longrightarrow> each f xs s = None"
  by (induction xs arbitrary: s) (auto split: option.split)

lemma EmitClasses_null_category:
  assumes "length objc = length imgs" and "\<not> categories_ok objc"
  shows "EmitClasses gc hc gpool hpool (WriteManifest imgs objc) gen = None"
proof -
  obtain oi c where oi: "oi \<in> set objc" "c \<in> set (categories oi)" "kind (cat_cls c) = Null" using assms(2) by (auto simp: categories_ok_def)
  obtain n where n: "n < length imgs" "objc ! n = oi" using oi(1) assms(1) by (auto simp: in_set_conv_nth)
  obtain k where k: "k < length (categories oi)" "categories oi ! k = c" using oi(2) by (auto simp: in_set_conv_nth)
  have none: "category_class (WritePointer (cat_cls c)) st = None" for st
    using oi(3) by (simp add: category_class_def WritePointer_def manifest_simps)
  have e: "emit_category gc hc gpool hpool i (k, category_json c) st = None" for i st
    by (simp only: emit_category_def Let_def snd_conv category_fields Option.bind.simps none)
  have k_in: "(k, category_json c) \<in> set (List.enumerate 0 (map category_json (categories oi)))"
    using k by (auto simp: in_set_enumerate_eq)
  have cats: "each (emit_category gc hc gpool hpool i) (List.enumerate 0 (map category_json (categories oi))) st = None" for i st
    by (rule each_None [OF k_in]) (rule e)
  have e2: "emit_objc_image gc hc gpool hpool (image_json n (imgs ! n) oi) st = None" for st
    by (simp only: emit_objc_image_def image_fields Option.bind.simps cats Option.bind_rzero)
  have n_in: "image_json n (imgs ! n) oi \<in> set (images_json imgs objc)" using n by (auto simp: images_json_def)
  have "each (emit_objc_image gc hc gpool hpool) (images_json imgs objc) st = None" for st
    by (rule each_None [OF n_in]) (rule e2)
  then show ?thesis by (simp add: EmitClasses_def)
qed

section \<open>Properties\<close>

text \<open>Every method of the program's classes and categories, in the order of the manifest.\<close>

definition program_imps :: "ObjCImage list \<Rightarrow> u64 list" where
  "program_imps objc = concat (map (\<lambda>oi.
     concat (map (\<lambda>c. map imp (methods (cls_data c)) @ map imp (methods (meta_data c))) (oi_classes oi)) @
     concat (map (\<lambda>c. map imp (cat_instance_methods c) @ map imp (cat_class_methods c)) (categories oi))) objc)"

definition program_complaints :: "ObjCImage list \<Rightarrow> string list" where
  "program_complaints objc = concat (map (\<lambda>oi. concat (map (\<lambda>c. class_complaints (cls_data c)) (oi_classes oi))) objc)"

lemma program_account_parts: "program_account objc = (program_imps objc, program_complaints objc)"
  by (simp add: program_account_def program_imps_def program_complaints_def image_account_def class_account_def category_account_def comp_def)

lemma program_complaints_empty:
  "program_complaints objc = [] \<longleftrightarrow>
     (\<forall>oi \<in> set objc. \<forall>c \<in> set (oi_classes oi). \<forall>i \<in> set (ivars (cls_data c)). instance_start (cls_data c) \<le> offset_value i)"
  by (auto simp: program_complaints_def class_complaints_def filter_empty_conv not_less)

text \<open>
  C12: The methods of the guest. On every manifest the translator writes, the metadata is emitted unless a category extends no
  class; then every method of every class and category, and nothing else, has one wrapper the runtime finds its
  implementation by, in the order of the manifest, and no two wrappers of a program have the same name.
\<close>

theorem EmitClasses_wraps_methods:
  assumes "headers_ok gc gpool" and "records_ok gen" and "length objc = length imgs"
    and "imp_names 0 (gen_counter gen) (gen_imps gen)"
  shows "case EmitClasses gc hc gpool hpool (WriteManifest imgs objc) gen of
      None \<Rightarrow> \<not> categories_ok objc
    | Some gen' \<Rightarrow> categories_ok objc \<and> map snd (gen_imps gen') = map snd (gen_imps gen) @ program_imps objc \<and>
        prefix (gen_imps gen) (gen_imps gen') \<and> distinct (map fst (gen_imps gen'))"
proof (cases "categories_ok objc")
  case False
  then show ?thesis using EmitClasses_null_category [OF assms(3) False] by simp
next
  case True
  obtain gen' where g: "EmitClasses gc hc gpool hpool (WriteManifest imgs objc) gen = Some gen'" "books (program_account objc) gen gen'"
    using EmitClasses_books [OF assms(1-3) True] by blast
  obtain added where a: "map snd added = program_imps objc" "grows_by added (program_complaints objc) gen gen'"
    using g(2) by (auto simp: books_def program_account_parts)
  then have "imp_names 0 (gen_counter gen') (gen_imps gen')"
    using imp_names_append [OF assms(4), of "gen_counter gen'" added] by (simp add: grows_by_def)
  from imp_names_distinct [OF this] a g(1) True show ?thesis by (simp add: grows_by_def)
qed

end
