(* ===== verification/Xlgen_Facts.thy ===== *)
theory Xlgen_Facts
  imports Xlgen Classes_Facts Objc_Facts
begin

text \<open>
  The bridge generator as a whole: on the headers Clang gives and a manifest the translator wrote, it comes to an end, and it
  writes nothing when the manifest's offsets cannot be right. What a symbol with a variant gets.
\<close>

section \<open>Symbols\<close>

definition tree_ok :: "Tree \<Rightarrow> bool" where
  "tree_ok g \<longleftrightarrow> (\<forall>name f. tree_function g name = Some f \<longrightarrow> function_ok f) \<and> list_all method_ok (tree_methods g) \<and>
     plain_context (tree_context g)"

lemma EmitDeclared_extends: "extends (tree_ok g) gen (EmitDeclared g h entitlements symbol gen)"
proof -
  obtain name alias_name where v: "variant_of (c_name symbol) = (name, alias_name)" by (metis prod.collapse)
  have f: "extends (tree_ok g) gen (EmitFunction (tree_context g) (tree_context h) entitlements alias_name symbol gf hf gen)"
    if "tree_function g name = Some gf" for gf hf
    using that by (intro extends_weaken [OF EmitFunction_extends]) (auto simp: tree_ok_def)
  show ?thesis
    by (auto simp: EmitDeclared_def v f EmitVariable_grows Fault_grows split: option.split)
qed

lemma exec_family_vectors: "symbol \<in> set exec_family \<Longrightarrow> map_of exec_lists symbol \<noteq> None \<or> map_of exec_vectors symbol \<noteq> None"
  by (auto simp: exec_family_def exec_lists_def exec_vectors_def)

lemma EmitSymbol_extends: "extends (tree_ok g) gen (EmitSymbol g h entitlements provided symbol gen)"
proof -
  have e: "extends (tree_ok g) gen (EmitExec (tree_context g) (tree_declaration g) symbol gen)" if "symbol \<in> set exec_family"
    by (rule extends_weaken [OF EmitExec_extends]) (use exec_family_vectors that in blast)
  have t: "extends (tree_ok g) gen (EmitTlvBootstrap (tree_context g) (tree_context h) gen)"
    by (rule extends_weaken [OF EmitTlvBootstrap_extends]) simp
  show ?thesis
    unfolding EmitSymbol_def Let_def
    by (auto simp: e t report_grows hand_written_grows EmitManualFunction_grows Fault_grows EmitDeclared_extends
        simp del: append_Cons append.simps split: option.split)
qed

lemma generate_extends:
  "extends (tree_ok g) (empty_generator\<lparr>gen_weak_only := ReadLines (weak_only_file inputs)\<rparr>) (generate g h inputs)"
  unfolding generate_def by (rule extends_weaken [OF each_extends [OF EmitSymbol_extends]]) simp

section \<open>The whole run\<close>

lemma each_inserts: "(\<And>x found. x \<in> set xs \<Longrightarrow> f x found \<noteq> None) \<Longrightarrow> \<exists>found'. each f xs found = Some found'"
  using each_total [of xs f found] by auto

lemma manifest_selectors_json: "\<exists>found. manifest_selectors (images_json imgs objc) = Some found"
  unfolding manifest_selectors_def images_json_def
proof (rule each_inserts, clarsimp)
  fix n found
  show "\<exists>y. each (\<lambda>selref found. map_option (\<lambda>s. oset_insert s found) (Option.bind (json_object selref) (get_string ''selector'')))
      (map (\<lambda>selref. JObject [(''slot'', address_json (sel_slot selref)), (''selector'', JString (sel_selector selref))])
        (selectors (objc ! n))) found = Some y"
    by (rule each_inserts) (auto simp: get_string_def get_field_def)
qed

lemma guest_methods_json:
  "get_object key cls = Some (WriteData d) \<Longrightarrow> \<exists>found'. guest_methods cls key found = Some found'"
  unfolding guest_methods_def by (simp add: each_map) (rule each_inserts, simp)

lemma manifest_guest_selectors_json: "\<exists>found. manifest_guest_selectors (images_json imgs objc) = Some found"
proof -
  define step where "step = (\<lambda>item found. do {
         cls \<leftarrow> json_object item;
         found \<leftarrow> guest_methods cls ''data'' found;
         guest_methods cls ''meta_data'' found
       })"
  have c: "\<exists>found'. step (class_json c) found = Some found'" for c found
    using guest_methods_json [of "''data''" "class_json c" "cls_data c" found] guest_methods_json [of "''meta_data''" "class_json c" "meta_data c"]
    by (auto simp: step_def)
  have "\<exists>found'. each step (map class_json cs) found = Some found'" for cs found
    by (rule each_inserts) (use c in force)
  then show ?thesis
    unfolding manifest_guest_selectors_def step_def [symmetric] images_json_def
    by (intro each_inserts) auto
qed

lemma CollectMethods_headers:
  assumes "tree_ok g"
  shows "headers_ok (tree_context g) (CollectMethods (tree_methods g) [])"
  using assms CollectMethods_ok [of "tree_methods g" "[]"] by (simp add: headers_ok_def tree_ok_def pool_ok_def)

lemma EmitManifest_books:
  assumes "tree_ok g" and "records_ok gen" and "length objc = length imgs" and "categories_ok objc"
  shows "\<exists>gen'. EmitManifest g h (WriteManifest imgs objc) gen = Some gen' \<and> books (program_account objc) gen gen'"
proof -
  obtain ss gs where s: "manifest_selectors (images_json imgs objc) = Some ss" "manifest_guest_selectors (images_json imgs objc) = Some gs"
    using manifest_selectors_json manifest_guest_selectors_json by metis
  let ?gpool = "CollectMethods (tree_methods g) []" and ?hpool = "CollectMethods (tree_methods h) []"
  have h: "headers_ok (tree_context g) ?gpool" using assms(1) by (rule CollectMethods_headers)
  obtain gen1 where e: "EmitSelectors (tree_context g) (tree_context h) ?gpool ?hpool ss gs gen = Some gen1" "grows gen gen1"
    using EmitSelectors_extends [of ?gpool gen "tree_context g" "tree_context h" ?hpool ss gs] h by (auto simp: extends_def headers_ok_def)
  obtain gen2 where c: "EmitClasses (tree_context g) (tree_context h) ?gpool ?hpool (WriteManifest imgs objc) gen1 = Some gen2"
    "books (program_account objc) gen1 gen2"
    using EmitClasses_books [OF h records_ok_grows [OF assms(2) e(2)] assms(3,4)] by blast
  have "books (program_account objc) gen gen2" using books_chain [OF books_grows [OF e(2)] c(2)] by simp
  with s e(1) c(1) show ?thesis by (simp add: EmitManifest_def Let_def)
qed

text \<open>What is asked of the inputs: headers with prototypes, and a manifest the translator wrote.\<close>

definition translated :: "json \<Rightarrow> bool" where
  "translated manifest \<longleftrightarrow>
     (\<exists>imgs objc. manifest = WriteManifest imgs objc \<and> length objc = length imgs \<and> categories_ok objc)"

lemma empty_generator_simps [simp]:
  "records_ok (empty_generator\<lparr>gen_weak_only := ws\<rparr>)" "gen_layout_errors (empty_generator\<lparr>gen_weak_only := ws\<rparr>) = []"
  by (simp_all add: records_ok_def empty_generator_def)

lemma generate_Some:
  assumes "tree_ok g"
  obtains gen where "generate g h inputs = Some gen" "records_ok gen" "gen_layout_errors gen = []"
proof -
  obtain gen where g: "generate g h inputs = Some gen" "grows (empty_generator\<lparr>gen_weak_only := ReadLines (weak_only_file inputs)\<rparr>) gen"
    using generate_extends [of g inputs h] assms by (auto simp: extends_def)
  have "records_ok gen" using records_ok_grows [OF _ g(2)] by simp
  moreover have "gen_layout_errors gen = []" using g(2) by (simp add: grows_by_def)
  ultimately show thesis using that g(1) by blast
qed


definition offsets_sound :: "ObjCImage list \<Rightarrow> bool" where
  "offsets_sound objc \<longleftrightarrow>
     (\<forall>oi \<in> set objc. \<forall>c \<in> set (oi_classes oi). \<forall>i \<in> set (ivars (cls_data c)). instance_start (cls_data c) \<le> offset_value i)"


section \<open>Variants of symbols\<close>

lemma variant_of_simps:
  "CHR ''$'' \<notin> set name \<Longrightarrow> variant_of name = (name, [])"
  "CHR ''$'' \<notin> set name \<Longrightarrow> name \<noteq> [] \<Longrightarrow> variant_of (name @ CHR ''$'' # variant) = (name, name @ CHR ''$'' # variant)"
proof -
  assume n: "CHR ''$'' \<notin> set name"
  then have t: "takeWhile (\<lambda>c. c \<noteq> CHR ''$'') name = name" by (intro takeWhile_eq_all_conv [THEN iffD2]) auto
  then show "variant_of name = (name, [])" by (simp add: variant_of_def)
  have "takeWhile (\<lambda>c. c \<noteq> CHR ''$'') (name @ CHR ''$'' # variant) = name"
    using n by (subst takeWhile_append2) auto
  then show "name \<noteq> [] \<Longrightarrow> variant_of (name @ CHR ''$'' # variant) = (name, name @ CHR ''$'' # variant)" by (simp add: variant_of_def)
qed

text \<open>
  A variant of a variadic function. The bridge of a symbol like \<open>_open$NOCANCEL\<close> is the bridge of \<open>_open\<close>, down to the
  name it is exported under, so the symbol the guest imports is never defined, and a program that imports both gets two
  definitions of the same functions; for every other function the code makes a bridge with the variant's own name.
\<close>

theorem variadic_variant_unbound:
  assumes "map_of fixed_variadic name = Some words" and "tree_function g name = Some gf" and "tree_function h name = Some hf"
    and "fn_name gf = name" and "fn_variadic gf" and "fn_format gf = None"
    and "sig_supported (FromFunction (tree_context g) (tree_context h) (fn_decl gf) (fn_decl hf))"
  shows "EmitDeclared g h entitlements (CHR ''_'' # name @ CHR ''$'' # variant) gen =
    EmitDeclared g h entitlements (CHR ''_'' # name) gen"
proof -
  have n: "CHR ''$'' \<notin> set name" "name \<noteq> []" "map_of unattributed_printf name = None" "name \<noteq> ''getsectbynamefromheader_64''"
    using assms(1) by (auto simp: fixed_variadic_def unattributed_printf_def split: if_splits)
  have "EmitFunction (tree_context g) (tree_context h) entitlements alias_name symbol gf hf gen =
      bridged (EmitBridge (tree_context g) (tree_context h) words name
        ((FromFunction (tree_context g) (tree_context h) (fn_decl gf) (fn_decl hf))\<lparr>sig_params :=
          sig_params (FromFunction (tree_context g) (tree_context h) (fn_decl gf) (fn_decl hf)) @
          raw_words (tree_context g) (tree_context h) ''v'' words\<rparr>) CallFunction name
        (case map_of variadic_shims name of Some shim \<Rightarrow> shim | None \<Rightarrow> name) no_format [] gen)" for alias_name symbol
    using assms(1,4-7) n
    by (simp add: EmitFunction_def function_format_def EmitFixedVariadic_def Let_def no_format_def cong: option.case_cong)
  then show ?thesis
    using assms(2,3) variant_of_simps [OF n(1)] n(2) by (simp add: EmitDeclared_def c_name_def)
qed

section \<open>What the guest's code gets from the host\<close>

text \<open>
  Pointers the host passes to guest code. A pointer to a structure whose two layouts differ is copied when the guest
  passes it to the host, but a guest method that overrides one of the host's gets the host's pointer as it is, and so does
  a guest block, which also gets an out parameter's pointer unconverted.
\<close>

theorem guest_code_gets_host_pointers:
  assumes "v = Classify gc (PointerType c t) hc (PointerType c' t') True" and "v_kind v \<in> {KRecordPointer, KOutSlot}"
  shows "\<not> fst (SameLayout gc (resolve_tag gc t) hc (resolve_tag hc t') {}) \<and>
    (v_kind v = KRecordPointer \<longrightarrow> imp_argument gc hc name \<lparr>p_value = v, p_name = x\<rparr> gen =
      Some (''    p.'' @ x @ '' = xl_widen_pointer((uintptr_t)'' @ x @ '');'' @ nl, gen)) \<and>
    block_conversions gc hc [\<lparr>p_value = v, p_name = x\<rparr>] gen =
      Some (''        p.'' @ x @ '' = xl_widen_pointer((uintptr_t)'' @ x @ '');'' @ nl, gen)"
proof -
  have f: "\<nexists>f. t = FunctionType f" using assms by (auto simp: new_value_def)
  then have o: "\<not> v_object v" "\<not> fst (SameLayout gc (resolve_tag gc t) hc (resolve_tag hc t') {})"
    using assms by (auto simp: Classify_pointer Let_def new_value_def noted_value_def split: if_splits)
  have "v_kind v = KRecordPointer \<longrightarrow> imp_argument gc hc name \<lparr>p_value = v, p_name = x\<rparr> gen =
      Some (''    p.'' @ x @ '' = xl_widen_pointer((uintptr_t)'' @ x @ '');'' @ nl, gen)"
    using o(1) by (simp add: imp_argument_def ScalarToGuest_def conversion_def Let_def)
  moreover have "block_conversions gc hc [\<lparr>p_value = v, p_name = x\<rparr>] gen =
      Some (''        p.'' @ x @ '' = xl_widen_pointer((uintptr_t)'' @ x @ '');'' @ nl, gen)"
    using assms(2) o(1) by (auto simp: ScalarToGuest_def conversion_def)
  ultimately show ?thesis using o(2) by blast
qed

text \<open>
  A block type without a prototype. It is supported, and a block the host hands over gets its bridge; one the guest hands
  over ends the run in the use of a type that is not there, unless a type printed alike was bridged before.
\<close>

lemma unprototyped_block_ends_run:
  assumes "map_of (gen_blocks gen) (Spell hc h []) = None"
  shows "Supported (Classify gc (BlockPointerType (FunctionType None)) hc h True)"
    and "HostLoad gc hc (Classify gc (BlockPointerType (FunctionType None)) hc h True) expr location index around gen = None"
    and "HostBlockBridge gc hc (BlockPointerType (FunctionType None)) h gen \<noteq> None"
proof -
  let ?g = "BlockPointerType (FunctionType None)"
  have p: "function_proto ?g = None" "inner_types ?g = []" by (simp_all add: function_proto_def inner_types_def)
  show "Supported (Classify gc ?g hc h True)" by (simp add: Supported_def new_value_def)
  have "BlockBridge gc hc ?g h gen = None" using assms p by (subst BlockBridge.simps) simp
  then show "HostLoad gc hc (Classify gc ?g hc h True) expr location index around gen = None"
    by (subst HostLoad.simps) (simp add: new_value_def)
  show "HostBlockBridge gc hc ?g h gen \<noteq> None"
    using HostBlockBridge_sound [of ?g gen gc hc h] p(2) by (simp add: adds_def)
qed

section \<open>The vote of a selector\<close>

text \<open>
  C15: Which declaration a selector is bridged as. Of the encodings its host declarations have, the one most of them have is
  taken, among equals the first in the order of strings, and its bridge is made from the first declaration that has it.
\<close>

theorem selector_majority:
  assumes "count_votes guests hosts = (variants, votes)" and "ballots guests hosts \<noteq> []" and "[] \<notin> fst ` set (ballots guests hosts)"
  shows "let cast = (\<lambda>key. length (filter (\<lambda>b. fst b = key) (ballots guests hosts))); best = vote votes in
    best \<in> fst ` set (ballots guests hosts) \<and>
    (\<forall>key \<in> fst ` set (ballots guests hosts). cast key \<le> cast best \<and> (cast key = cast best \<longrightarrow> best \<le> key)) \<and>
    map_of variants best = map_of (ballots guests hosts) best"
proof -
  note spec = count_votes_spec [OF assms(1)]
  have "votes \<noteq> []" using assms(2) spec(3) by auto
  then have m: "most_votes votes (vote votes)" using vote_most spec(1,3) assms(3) by simp
  then obtain n where n: "map_of votes (vote votes) = Some n" "\<forall>(key, m) \<in> set votes. m \<le> n \<and> (m = n \<longrightarrow> vote votes \<le> key)"
    by (auto simp: most_votes_def)
  have cast: "length (filter (\<lambda>b. fst b = key) (ballots guests hosts)) = m" if "(key, m) \<in> set votes" for key m
    using that spec(5) [of key] omap_ok_member [OF spec(1), of key m] by (simp add: votes_of_def)
  have best: "vote votes \<in> fst ` set (ballots guests hosts)" using map_of_SomeD [OF n(1)] spec(3) by force
  moreover have "length (filter (\<lambda>b. fst b = key) (ballots guests hosts)) \<le> n \<and>
      (length (filter (\<lambda>b. fst b = key) (ballots guests hosts)) = n \<longrightarrow> vote votes \<le> key)" if "key \<in> fst ` set (ballots guests hosts)" for key
  proof -
    have "key \<in> fst ` set votes" using that spec(3) by simp
    then obtain m where "(key, m) \<in> set votes" by auto
    with n(2) cast show ?thesis by fastforce
  qed
  ultimately show ?thesis using cast [OF map_of_SomeD [OF n(1)]] spec(4) by (simp add: Let_def)
qed

section \<open>Names\<close>

text \<open>
  C14: The names of what the generator writes. When a run has bridged its symbols, and when it has gone through a manifest of
  the translator too, no two block types, function pointer types or method signatures share a bridge's name, and no two
  methods share a wrapper's.
\<close>

theorem emitted_names_distinct:
  assumes "generate g h inputs = Some gen" and "records_ok gen"
    and "gen' = gen \<or> (tree_ok g \<and> translated manifest \<and> EmitManifest g h manifest gen = Some gen')"
  shows "distinct (map snd (gen_blocks gen')) \<and> distinct (map snd (gen_host_blocks gen')) \<and> distinct (map snd (gen_callbacks gen')) \<and>
    distinct (map snd (gen_invokers gen')) \<and> distinct (map fst (gen_imps gen'))"
proof -
  let ?start = "empty_generator\<lparr>gen_weak_only := ReadLines (weak_only_file inputs)\<rparr>"
  have start: "tables_numbered (gen_blocks ?start) (gen_host_blocks ?start) (gen_callbacks ?start) (gen_invokers ?start)"
    "imp_names 0 (gen_counter ?start) (gen_imps ?start)"
    by (simp_all add: empty_generator_def tables_numbered_def numbered_def)
  have g1: "grows ?start gen" using generate_extends [of g inputs h] assms(1) by (simp add: extends_def)
  have "\<exists>imps errs. grows_by imps errs gen gen'"
    using assms(3)
  proof
    assume "gen' = gen"
    then show ?thesis using grows_refl by blast
  next
    assume m: "tree_ok g \<and> translated manifest \<and> EmitManifest g h manifest gen = Some gen'"
    then obtain imgs objc where t: "manifest = WriteManifest imgs objc" "length objc = length imgs" "categories_ok objc"
      by (auto simp: translated_def)
    then show ?thesis using EmitManifest_books [OF _ assms(2) t(2,3), of g h] m by (auto simp: books_def)
  qed
  then obtain imps errs where "grows_by imps errs ?start gen'" using grows_trans [OF g1] by blast
  then have "tables_numbered (gen_blocks gen') (gen_host_blocks gen') (gen_callbacks gen') (gen_invokers gen')"
    and "imp_names 0 (gen_counter gen') (gen_imps gen')"
    using start imp_names_append [OF start(2), of "gen_counter gen'" imps] by (simp_all add: grows_by_def)
  then show ?thesis using numbered_distinct imp_names_distinct unfolding tables_numbered_def by blast
qed

section \<open>Instances\<close>

definition int_type :: ctype where "int_type = IntegerType True 32 32"

text \<open>\<open>int open(const char *, int, ...)\<close> in both trees, with \<open>long\<close> of two widths elsewhere.\<close>

definition open_decl :: FunctionDecl where
  "open_decl = \<lparr>fn_name = ''open'',
     fn_decl = \<lparr>decl_params = [(''path'', PointerType True (IntegerType True 8 8)), (''flags'', int_type)], decl_result = int_type\<rparr>,
     fn_variadic = True, fn_format = None\<rparr>"

definition sample_tree :: "ASTContext \<Rightarrow> Tree" where
  "sample_tree ctx = \<lparr>tree_context = ctx, tree_function = [''open'' \<mapsto> open_decl], tree_variable = Map.empty, tree_methods = [],
     tree_functions = [], tree_records = (\<lambda>_. [])\<rparr>"

text \<open>A class with a method, whose instance variable lies where \<open>offset\<close> says and whose instances start at 8.\<close>

definition sample_method :: Method where
  "sample_method = \<lparr>selector = ''go'', types = ''v16@0:8'', name_address = 0x2000, types_address = 0x2010, imp = 0x1004\<rparr>"

definition sample_objc :: "u32 \<Rightarrow> ObjCImage" where
  "sample_objc offset = \<lparr>oi_classes = [(plain_class 0x3000 False null_pointer)\<lparr>cls_data := (plain_data ''C'')
       \<lparr>instance_start := 8, instance_size := 12, methods := [sample_method],
        ivars := [\<lparr>ivar_name = ''x'', ivar_type = ''i'', offset_address = 0x4000, offset_value = offset, ivar_name_address = 0x2020,
          type_address = 0x2030, alignment = 2, ivar_size = 4\<rparr>]\<rparr>\<rparr>],
     swift_static_classes = [], clsrolist_superclass = [], swift_listed_classes = [], clsrolist_count = 0, clsrolist_unowned = 0,
     categories = [], oi_protocols = [], strings = [], selectors = [], errors = []\<rparr>"

definition sample_inputs :: "u32 \<Rightarrow> GenInputs" where
  "sample_inputs offset = \<lparr>includes_file = Some [], abi_file = Some [], symbols_file = Some ''_open'', provided_file = None,
     weak_only_file = None, entitlements_file = None,
     manifest_tree = Some (Some (WriteManifest [sample_image] [sample_objc offset])),
     trees = Some (sample_tree guest_context, sample_tree host_context), survey_asked = False, can_write = (\<lambda>_. True)\<rparr>"

lemma sample_ok:
  "tree_ok (sample_tree guest_context)" "categories_ok [sample_objc offset]" "headers_ok guest_context []"
  "translated (WriteManifest [sample_image] [sample_objc offset])"
proof -
  have p: "plain_context guest_context" by (auto simp: plain_context_def guest_context_def ordinary_def)
  then show "tree_ok (sample_tree guest_context)"
    by (auto simp: tree_ok_def sample_tree_def open_decl_def function_ok_def declared_ok_def int_type_def unattributed_printf_def split: if_splits)
  show c: "categories_ok [sample_objc offset]" by (simp add: categories_ok_def sample_objc_def)
  show "headers_ok guest_context []" using p by (simp add: headers_ok_def pool_ok_def)
  show "translated (WriteManifest [sample_image] [sample_objc offset])"
    unfolding translated_def using c by (intro exI [of _ "[sample_image]"] exI [of _ "[sample_objc offset]"]) simp
qed

lemma sample_offsets: "offsets_sound [sample_objc offset] \<longleftrightarrow> 8 \<le> offset" "program_imps [sample_objc offset] = [0x1004]"
  by (simp_all add: offsets_sound_def program_imps_def sample_objc_def sample_method_def plain_class_def plain_data_def)



theorem EmitClasses_wraps_methods_witness:
  "\<exists>gen'. EmitClasses guest_context host_context [] [] (WriteManifest [sample_image] [sample_objc 8]) empty_generator = Some gen' \<and>
    map snd (gen_imps gen') = [0x1004]"
proof -
  have "records_ok empty_generator" "imp_names 0 (gen_counter empty_generator) (gen_imps empty_generator)" "gen_imps empty_generator = []"
    by (simp_all add: records_ok_def empty_generator_def)
  with EmitClasses_wraps_methods [where gc = guest_context and gpool = "[]" and gen = empty_generator and objc = "[sample_objc 8]" and
      imgs = "[sample_image]" and hc = host_context and hpool = "[]"] sample_ok(2) [of 8] sample_ok(3) sample_offsets(2)
  show ?thesis by (auto split: option.splits)
qed

theorem variadic_variant_unbound_witness:
  "EmitDeclared (sample_tree guest_context) (sample_tree host_context) None ''_open$NOCANCEL'' empty_generator =
   EmitDeclared (sample_tree guest_context) (sample_tree host_context) None ''_open'' empty_generator"
proof -
  have c: "Classify guest_context (PointerType True (IntegerType True 8 8)) host_context (PointerType True (IntegerType True 8 8)) True =
      new_value KPointer (PointerType True (IntegerType True 8 8)) (PointerType True (IntegerType True 8 8))"
    by (simp add: Classify_pointer Let_def resolve_tag_def SameLayout_data data_scalar_def scalar_type_def)
  have a: "array_element guest_context host_context (PointerType True (IntegerType True 8 8)) (PointerType True (IntegerType True 8 8)) = None"
    by (simp add: array_element_def Let_def resolve_tag_def SameLayout_data data_scalar_def scalar_type_def)
  have i: "array_element guest_context host_context (IntegerType True 32 32) (IntegerType True 32 32) = None"
    by (simp add: array_element_def)
  have "sig_supported (FromFunction guest_context host_context (fn_decl open_decl) (fn_decl open_decl))"
    using DetectArrays_parts(1,3) [of "declared_signature guest_context host_context (fn_decl open_decl) (fn_decl open_decl) {KOutSlot, KCallback, KBlock}"
        guest_context host_context "fn_decl open_decl" "fn_decl open_decl"]
    by (simp add: FromFunction_def)
       (simp add: open_decl_def detected_def detect_array_def param_type_def a c i int_type_def Supported_def upt_rec declared_params_def)
  from variadic_variant_unbound [where name = "''open''" and g = "sample_tree guest_context" and h = "sample_tree host_context" and
      gf = open_decl and hf = open_decl and words = 1 and variant = "''NOCANCEL''" and entitlements = None and gen = empty_generator] this
  show ?thesis by (simp add: sample_tree_def fixed_variadic_def open_decl_def)
qed

text \<open>\<open>NSRange *\<close>: two words of 64 bits in the guest, of 32 in the host.\<close>

definition range_decl :: "nat \<Rightarrow> cdecl" where
  "range_decl bits = Record 7 ''_NSRange'' None False (2 * bits) bits
     [Field ''location'' (IntegerType False bits bits) 0 False, Field ''length'' (IntegerType False bits bits) bits False]"

theorem guest_code_gets_host_pointers_witness:
  "\<exists>v. v = Classify guest_context (PointerType False (RecordType (range_decl 64))) host_context (PointerType False (RecordType (range_decl 32))) True \<and>
    v_kind v = KRecordPointer \<and>
    imp_argument guest_context host_context ''xl_imp_0'' \<lparr>p_value = v, p_name = ''a0''\<rparr> empty_generator =
      Some (''    p.a0 = xl_widen_pointer((uintptr_t)a0);'' @ nl, empty_generator)"
proof -
  let ?v = "Classify guest_context (PointerType False (RecordType (range_decl 64))) host_context (PointerType False (RecordType (range_decl 32))) True"
  have s: "\<not> fst (SameLayout guest_context (RecordType (range_decl 64)) host_context (RecordType (range_decl 32)) {})"
    by (subst SameLayout.simps) (simp add: range_decl_def)
  have k: "v_kind ?v = KRecordPointer"
    using s by (simp add: Classify_pointer Let_def resolve_tag_def) (simp add: range_decl_def opaque_stream_def opaque_handle_def starts_with_def)
  then have "v_kind ?v \<in> {KRecordPointer, KOutSlot}" by simp
  from guest_code_gets_host_pointers [OF refl this, of "''xl_imp_0''" "''a0''" empty_generator] k show ?thesis by auto
qed

lemma unprototyped_block_ends_run_witness:
  "HostLoad guest_context host_context
     (Classify guest_context (BlockPointerType (FunctionType None)) host_context (BlockPointerType (FunctionType None)) True)
     ''p->a0'' [] 0 \<lparr>prep = [], post = []\<rparr> empty_generator = None"
  by (rule unprototyped_block_ends_run(2)) (simp add: empty_generator_def)

definition sample_methods :: "MethodDecl list" where
  "sample_methods = map (\<lambda>(c, e). \<lparr>m_selector = ''count'', m_container = Some c, m_instance = True,
     m_decl = \<lparr>decl_params = [], decl_result = int_type\<rparr>, m_variadic = False, m_format = None, m_encoding = e, m_definition = False,
     m_file = [], m_node = 0\<rparr>)
     [(''A'', ''I8@0:4''), (''B'', ''i8@0:4''), (''C'', ''i8@0:4'')]"

theorem selector_majority_witness: "vote (snd (count_votes sample_methods sample_methods)) = ''i@:''"
proof -
  have b: "map fst (ballots sample_methods sample_methods) = [''I@:'', ''i@:'', ''i@:'']"
    by (simp add: sample_methods_def Counterpart_def counterparts_def digit_def)
  obtain variants votes where c: "count_votes sample_methods sample_methods = (variants, votes)" by (metis prod.collapse)
  have n: "ballots sample_methods sample_methods \<noteq> []" using b by auto
  have e: "[] \<notin> fst ` set (ballots sample_methods sample_methods)" using b by (metis list.set_map set_ConsD list.distinct(1) empty_iff list.set(1))
  have cast: "length (filter (\<lambda>b. fst b = key) (ballots sample_methods sample_methods)) = length (filter (\<lambda>k. k = key) [''I@:'', ''i@:'', ''i@:''])" for key
    unfolding b [symmetric] by (simp add: filter_map comp_def)
  have k: "fst ` set (ballots sample_methods sample_methods) = {''I@:'', ''i@:''}" using arg_cong [OF b, of set] by auto
  from selector_majority [OF c n e] show ?thesis unfolding cast k Let_def by (auto simp: c)
qed

theorem emitted_names_distinct_witness:
  "\<exists>gen gen'. generate (sample_tree guest_context) (sample_tree host_context) (sample_inputs 8) = Some gen \<and>
     EmitManifest (sample_tree guest_context) (sample_tree host_context) (WriteManifest [sample_image] [sample_objc 8]) gen = Some gen' \<and>
     distinct (map fst (gen_imps gen'))"
proof -
  obtain gen where g: "generate (sample_tree guest_context) (sample_tree host_context) (sample_inputs 8) = Some gen" "records_ok gen"
    using generate_Some [OF sample_ok(1)] .
  obtain gen' where m: "EmitManifest (sample_tree guest_context) (sample_tree host_context) (WriteManifest [sample_image] [sample_objc 8]) gen = Some gen'"
    using EmitManifest_books [OF sample_ok(1) g(2) _ sample_ok(2), where imgs = "[sample_image]" and h = "sample_tree host_context"] by auto
  show ?thesis using emitted_names_distinct [OF g disjI2] sample_ok(1,4) g(1) m by blast
qed

end
