(* ===== verification/Survey_Facts.thy ===== *)
theory Survey_Facts
  imports Survey
begin

text \<open>
  What the survey counts. Each declaration of a function is of one class, and the tally of a framework says how many of its
  declarations are of each; the loop with its counters is compared with this.
\<close>

section \<open>The class of a declaration\<close>

datatype SurveyClass = Inline bool | Missing | Formatted | Variadic | Refused (reason: string) | Converts | Plain

definition needs_conversion :: "Signature \<Rightarrow> bool" where
  "needs_conversion s \<longleftrightarrow>
     (\<exists>v \<in> insert (sig_result s) (p_value ` set (sig_params s)). v_kind v \<in> {KRecord, KOutSlot, KRecordPointer, KArray, KBlock, KCallback})"

definition class_of :: "ASTContext \<Rightarrow> ASTContext \<Rightarrow> (string \<Rightarrow> FunctionDecl option) \<Rightarrow> (string \<Rightarrow> ctype list) \<Rightarrow> SurveyFunction \<Rightarrow>
    SurveyClass" where
  "class_of gc hc hosts records f =
     (case (sf_body f, hosts (fn_name (sf_function f))) of
        (Some members, _) \<Rightarrow> Inline (\<exists>member \<in> set members. VisitMemberExpr gc hc records member)
      | (None, None) \<Rightarrow> Missing
      | (None, Some host) \<Rightarrow>
          let s = FromFunction gc hc (fn_decl (sf_function f)) (fn_decl host)
          in if length (decl_params (fn_decl host)) \<noteq> length (decl_params (fn_decl (sf_function f))) then Missing
             else if fn_variadic (sf_function f) then if fn_format (sf_function f) = None then Variadic else Formatted
             else if \<not> sig_supported s then Refused (ReasonClass (sig_note s))
             else if needs_conversion s then Converts
             else Plain)"

definition refused :: "SurveyClass \<Rightarrow> bool" where
  "refused c \<longleftrightarrow> (case c of Refused _ \<Rightarrow> True | _ \<Rightarrow> False)"

text \<open>A tally that is right about declarations of these classes.\<close>

definition tally_of :: "SurveyClass list \<Rightarrow> Tally \<Rightarrow> bool" where
  "tally_of cs t \<longleftrightarrow>
     t_plain t = count_list cs Plain \<and> t_converted t = count_list cs Converts \<and> t_formatted t = count_list cs Formatted \<and>
     t_variadic t = count_list cs Variadic \<and> t_missing t = count_list cs Missing \<and>
     t_unsupported t = length (filter refused cs) \<and> (\<forall>r. votes_of (t_reasons t) r = count_list cs (Refused r)) \<and>
     t_leaks t = count_list cs (Inline True) \<and> t_inline t = count_list cs (Inline True) + count_list cs (Inline False)"

lemma tally_of_Nil: "tally_of [] no_tally"
  by (simp add: tally_of_def no_tally_def votes_of_def)

lemma votes_of_increase: "votes_of (increase n key counts) r = votes_of counts r + (if r = key then n else 0)"
  by (simp add: increase_def votes_of_def)

lemma conversion_name_None:
  "conversion_name k = None \<longleftrightarrow> k \<notin> {KRecord, KOutSlot, KRecordPointer, KArray, KBlock, KCallback}"
  by (cases k) (simp_all add: conversion_name_def)

lemma map_filter_empty: "List.map_filter f xs = [] \<longleftrightarrow> (\<forall>x \<in> set xs. f x = None)"
  by (induction xs) (auto simp: List.map_filter_simps split: option.splits)

lemma conversion_names_empty: "conversion_names s = [] \<longleftrightarrow> \<not> needs_conversion s"
  unfolding conversion_names_def remdups_eq_nil_iff map_filter_empty conversion_name_None needs_conversion_def by auto

lemma survey_signature_tally:
  assumes "tally_of cs t"
  shows "tally_of (cs @ [if \<not> sig_supported s then Refused (ReasonClass (sig_note s))
      else if conversion_names s \<noteq> [] then Converts else Plain]) (survey_signature s t)"
  using assms by (simp add: tally_of_def survey_signature_def record_conversions_def refused_def votes_of_increase)

lemma survey_variadic_tally:
  "tally_of cs t \<Longrightarrow> tally_of (cs @ [if formatted then Formatted else Variadic]) (survey_variadic formatted t)"
  by (simp add: tally_of_def survey_variadic_def refused_def)

lemma missing_tally: "tally_of cs t \<Longrightarrow> tally_of (cs @ [Missing]) (t\<lparr>t_missing := t_missing t + 1\<rparr>)"
  by (simp add: tally_of_def refused_def)

lemma inline_tally:
  "tally_of cs t \<Longrightarrow>
     tally_of (cs @ [Inline leaks]) (t\<lparr>t_inline := t_inline t + 1, t_leaks := t_leaks t + (if leaks then 1 else 0)\<rparr>)"
  by (simp add: tally_of_def refused_def)

lemma survey_function_tally:
  assumes "tally_of cs t"
  shows "tally_of (cs @ [class_of gc hc hosts records f]) (survey_function gc hc hosts records f t)"
proof (cases "sf_body f")
  case None
  show ?thesis
  proof (cases "hosts (fn_name (sf_function f))")
    case None
    with \<open>sf_body f = None\<close> missing_tally [OF assms] show ?thesis by (simp add: class_of_def survey_function_def)
  next
    case (Some host)
    with \<open>sf_body f = None\<close> missing_tally [OF assms] survey_variadic_tally [OF assms, of "fn_format (sf_function f) \<noteq> None"]
      survey_signature_tally [OF assms, of "FromFunction gc hc (fn_decl (sf_function f)) (fn_decl host)"]
    show ?thesis unfolding conversion_names_empty by (simp add: class_of_def survey_function_def Let_def split: if_splits)
  qed
next
  case (Some members)
  with inline_tally [OF assms, of "\<exists>member \<in> set members. VisitMemberExpr gc hc records member"]
  show ?thesis by (simp add: class_of_def survey_function_def list_ex_iff)
qed

section \<open>The tallies of the survey\<close>

definition of_framework :: "string \<Rightarrow> SurveyFunction \<Rightarrow> bool" where
  "of_framework framework f \<longleftrightarrow> \<not> sf_builtin f \<and> Framework (sf_file f) = framework \<and> framework \<noteq> ''other''"

definition tally_in :: "(string, Tally) omap \<Rightarrow> string \<Rightarrow> Tally" where
  "tally_in tallies framework = (case map_of tallies framework of None \<Rightarrow> no_tally | Some tally \<Rightarrow> tally)"

lemma tally_in_at: "tally_in (tally_at fw step tallies) fw' = (if fw' = fw then step (tally_in tallies fw) else tally_in tallies fw')"
  by (simp add: tally_in_def tally_at_def)

text \<open>
  C40: The survey of the functions. In every framework the survey's counters say how many of the declarations are of each class,
  where the class is read off the declaration alone: inline, with a leak or without; without a host declaration of as many
  parameters; variadic, with a format or without; refused, and for which reason; in need of a conversion; or plain. So no
  declaration is counted twice or left out, and each refused one has its reason.
\<close>

theorem survey_functions_counts:
  "tally_of (map (class_of gc hc hosts records) (filter (of_framework framework) decls))
     (tally_in (survey_functions gc hc hosts records decls) framework)"
proof (induction decls rule: rev_induct)
  case Nil
  then show ?case by (simp add: survey_functions_def tally_in_def tally_of_Nil)
next
  case (snoc f decls)
  have s: "survey_functions gc hc hosts records (decls @ [f]) =
      (if sf_builtin f \<or> Framework (sf_file f) = ''other'' then survey_functions gc hc hosts records decls
       else tally_at (Framework (sf_file f)) (survey_function gc hc hosts records f) (survey_functions gc hc hosts records decls))"
    by (simp add: survey_functions_def)
  show ?case
  proof (cases "of_framework framework f")
    case True
    with survey_function_tally [OF snoc.IH] show ?thesis unfolding s by (simp add: of_framework_def tally_in_at)
  next
    case False
    then have "tally_in (survey_functions gc hc hosts records (decls @ [f])) framework =
        tally_in (survey_functions gc hc hosts records decls) framework"
      unfolding s by (auto simp: of_framework_def tally_in_at)
    with False snoc.IH show ?thesis by simp
  qed
qed

end
