(* ===== verification/Symbols_Facts.thy ===== *)
theory Symbols_Facts
  imports Xlgen_Facts
begin

text \<open>
  What becomes of the symbols the guest leaves undefined: after a run that ends well, each of them is passed through to the
  linker, defined in the guest's file, or reported as unsupported.
\<close>

text \<open>The report and the list of symbols passed through are made of whole lines.\<close>

definition lined_gen :: "Generator \<Rightarrow> bool" where
  "lined_gen gen \<longleftrightarrow> lined (gen_report gen) \<and> lined (gen_passthrough gen)"

definition accounted :: "string \<Rightarrow> Generator \<Rightarrow> bool" where
  "accounted symbol gen \<longleftrightarrow>
     line_starts (symbol @ nl) (gen_passthrough gen) \<or> settled_symbol symbol (gen_guest gen) (gen_report gen)"

lemma accounted_grows:
  assumes "accounted symbol a" and "grows_by imps errs a b"
  shows "accounted symbol b"
proof -
  have p: "prefix (gen_passthrough a) (gen_passthrough b)" "prefix (gen_guest a) (gen_guest b)" "prefix (gen_report a) (gen_report b)"
    using assms(2) unfolding grows_by_def by blast+
  from assms(1) show ?thesis
    unfolding accounted_def using line_starts_prefix [OF _ p(1)] settled_symbol_prefix [OF _ p(2,3)] by blast
qed

section \<open>What each kind of bridge writes\<close>

lemma accounted_defined: "defined_in symbol (gen_guest gen) \<Longrightarrow> accounted symbol gen"
  by (simp add: accounted_def settled_symbol_def)

lemma accounted_passthrough: "lined_gen gen \<Longrightarrow> accounted symbol (passthrough_symbol symbol gen)"
  using line_starts_between [of "gen_passthrough gen" "symbol @ nl" "[]"] by (simp add: accounted_def passthrough_symbol_def lined_gen_def)

lemma accounted_unsupported: "gen_report gen = a @ symbol @ '': UNSUPPORTED: '' @ b \<Longrightarrow> lined a \<Longrightarrow> accounted symbol gen"
  using line_starts_between [of a "symbol @ '': UNSUPPORTED: ''" b] unfolding accounted_def settled_symbol_def
  by (simp only: append_assoc simp_thms)

lemma accounted_Fault: "lined_gen gen \<Longrightarrow> accounted symbol (Fault symbol reason gen)"
  using Fault_settles by (simp only: accounted_def lined_gen_def simp_thms)

lemma accounted_manual: "lined_gen gen \<Longrightarrow> accounted symbol (EmitManualFunction gc functions symbol arguments handler gen)"
  using EmitManualFunction_settles by (simp only: accounted_def lined_gen_def simp_thms)

lemma accounted_report: "accounted symbol gen \<Longrightarrow> accounted symbol (add_report line gen)"
  by (erule accounted_grows) (rule report_grows(1))

lemma defined_label:
  assumes "written = a @ ''.globl _'' @ name @ asm_nl @ b"
  shows "defined_in (CHR ''_'' # name) written"
proof -
  have p: "''.globl _'' = ''.globl '' @ [CHR ''_'']" by simp
  have "sublist (''.globl '' @ (CHR ''_'' # name) @ asm_nl) (a @ (''.globl '' @ (CHR ''_'' # name) @ asm_nl) @ b)"
    by (rule sublist_between)
  then have "sublist (''.globl '' @ (CHR ''_'' # name) @ asm_nl) written"
    unfolding assms p by (simp only: append_assoc append_Cons append_Nil)
  then show ?thesis unfolding defined_in_def by (rule disjI1)
qed

lemma defined_name:
  assumes \<open>written = a @ '' __asm__("'' @ symbol @ ''")'' @ b\<close>
  shows "defined_in symbol written"
proof -
  have \<open>sublist ('' __asm__("'' @ symbol @ ''")'') (a @ ('' __asm__("'' @ symbol @ ''")'') @ b)\<close>
    by (rule sublist_between)
  then have \<open>sublist ('' __asm__("'' @ symbol @ ''")'') written\<close>
    unfolding assms by (simp only: append_assoc)
  then show ?thesis unfolding defined_in_def by (rule disjI2 [OF disjI1])
qed

lemma asm_globl: \<open>''__asm__(".globl _'' = ''__asm__("'' @ ''.globl _''\<close>
  by simp

lemma bridge_guest_text_defines: "defined_in (CHR ''_'' # guest_name) (a @ bridge_guest_text gc ident s False fmt words guest_name members)"
proof -
  obtain pre rest where "bridge_guest_text gc ident s False fmt words guest_name members =
      pre @ ''.globl _'' @ guest_name @ asm_nl @ rest"
  proof
    show \<open>bridge_guest_text gc ident s False fmt words guest_name members =
        (pack_struct (''xl_pack_'' @ ident) members @ ''extern void xl_trap_'' @ ident @ ''(struct xl_pack_'' @ ident @ '' *);'' @ nl @
         wrapper_text gc ident s False fmt words (''xl_fn_'' @ ident) @ ''__asm__("'') @ ''.globl _'' @ guest_name @ asm_nl @
        (''.set _'' @ guest_name @ '', _'' @ (''xl_fn_'' @ ident) @ asm_nl @ ''");'' @ nl) @ nl\<close>
      unfolding bridge_guest_text_def Let_def if_False asm_globl by (simp only: append_assoc)
  qed
  then have "a @ bridge_guest_text gc ident s False fmt words guest_name members = (a @ pre) @ ''.globl _'' @ guest_name @ asm_nl @ rest"
    by (simp only: append_assoc)
  then show ?thesis by (rule defined_label)
qed

lemma EmitBridge_defines:
  assumes "EmitBridge gc hc words ident s CallFunction guest_name callee fmt manual gen = Some (n, gen')"
  shows "defined_in (CHR ''_'' # guest_name) (gen_guest gen')"
proof -
  obtain a members where "gen_guest gen' = a @ bridge_guest_text gc ident s False fmt words guest_name members"
    using assms unfolding EmitBridge_def Let_def
    by (auto simp only: case_prod_unfold guest_written map_option_eq_Some prod.inject CallKind.distinct simp_thms split: if_splits)
  then show ?thesis by (simp only: bridge_guest_text_defines)
qed

text \<open>A function of C among the lines of a text: its head on the line numbered \<open>n\<close>.\<close>

lemma unlines_append: "unlines (ls @ ms) = unlines ls @ unlines ms"
  by (simp add: unlines_def)

lemma text_defines:
  assumes "drop n lines = (pre @ [c] @ c_name symbol @ ''('' @ args @ '')'') # ''{'' # rest"
    and "c \<in> {CHR '' '', CHR ''*''}" and "CHR 0x0A \<notin> set args"
  shows "defined_in symbol (a @ unlines lines)"
proof -
  have "lines = take n lines @ (pre @ [c] @ c_name symbol @ ''('' @ args @ '')'') # ''{'' # rest"
    unfolding assms(1) [symmetric] by simp
  then have "unlines lines =
      unlines (take n lines) @ (pre @ [c] @ c_name symbol @ ''('' @ args @ '')'') @ nl @ ''{'' @ nl @ unlines rest"
    by (metis unlines_simps(2) unlines_append)
  then have "a @ unlines lines =
      (a @ unlines (take n lines) @ pre) @ [c] @ c_name symbol @ ''('' @ args @ '')'' @ nl @ ''{'' @ (nl @ unlines rest)"
    by (simp only: append_assoc)
  then show ?thesis by (rule defined_function [OF assms(2,3)])
qed

lemma getsect_text_defines: "defined_in ''_getsectbynamefromheader_64'' (a @ getsect_text)"
  unfolding getsect_text_def
  by (rule text_defines [where n = 0 and pre = "''const struct section_64 ''" and c = "CHR ''*''" and
        args = "''const struct mach_header_64 *mhp, const char *segname, const char *sectname''"])
    (simp_all add: c_name_def)

lemma dlsym_text_defines: "defined_in ''_dlsym'' (a @ dlsym_text)"
  unfolding dlsym_text_def
  by (rule text_defines [where n = 1 and pre = "''void ''" and c = "CHR ''*''" and
        args = "''void *handle, const char *symbol''"])
    (simp_all add: c_name_def)

lemma getsectiondata_text_defines: "defined_in ''_getsectiondata'' (a @ getsectiondata_text)"
  unfolding getsectiondata_text_def
  by (rule text_defines [where n = 0 and pre = "''uint8_t ''" and c = "CHR ''*''" and
        args = "''const struct mach_header_64 *mhp, const char *segname, const char *sectname, unsigned long *size''"])
    (simp_all add: c_name_def)

lemma lazy_namer_defines: "defined_in ''_objc_setHook_lazyClassNamer'' (a @ lazy_namer_guest)"
  unfolding lazy_namer_guest_def
  by (rule text_defines [where n = 2 and pre = "''void''" and c = "CHR '' ''" and
        args = "''objc_hook_lazyClassNamer newValue, objc_hook_lazyClassNamer *oldOutValue''"])
    (simp_all add: c_name_def)

lemma image_name_defines: "defined_in ''_objc_setHook_getImageName'' (a @ image_name_guest)"
  unfolding image_name_guest_def
  by (rule text_defines [where n = 11 and pre = "''void''" and c = "CHR '' ''" and
        args = "''objc_hook_getImageName newValue, objc_hook_getImageName *outOldValue''"])
    (simp_all add: c_name_def)

section \<open>The bridges written by hand\<close>

lemma accounted_trampoline: "accounted (CHR ''_'' # name) (EmitTrampoline (CHR ''_'' # name) trap gen)"
proof -
  have "gen_guest (EmitTrampoline (CHR ''_'' # name) trap gen) =
      (gen_guest gen @ ''extern void xl_trap_'' @ trap @ ''(void);'' @ nl @ CHR ''_'' # CHR ''_'' # ''asm__('' @ [CHR 0x22]) @
      ''.globl _'' @ name @ asm_nl @ (''.p2align 2'' @ asm_nl @
        ''_'' @ name @ '':'' @ asm_nl @ ''    b _xl_trap_'' @ trap @ asm_nl @ CHR 0x22 # '');'' @ nl @ nl)"
    unfolding EmitTrampoline_def Let_def guest_written by (simp add: c_name_def)
  then show ?thesis by (intro accounted_defined defined_label)
qed

lemma accounted_hooks:
  "accounted ''_objc_setHook_lazyClassNamer'' (EmitLazyClassNamer ''_objc_setHook_lazyClassNamer'' gen)"
  "accounted ''_objc_setHook_getImageName'' (EmitImageNameHook ''_objc_setHook_getImageName'' gen)"
  unfolding EmitLazyClassNamer_def EmitImageNameHook_def
  by (intro accounted_defined; simp only: guest_written lazy_namer_defines image_name_defines)+

lemma accounted_singleton: "accounted symbol (EmitEmptyCollectionSingleton symbol host_class gen)"
proof -
  have \<open>gen_guest (EmitEmptyCollectionSingleton symbol host_class gen) =
      (gen_guest gen @ ''id xl_data_'' @ c_name symbol) @ '' __asm__("'' @ symbol @ ''")'' @ ('';'' @ nl @ nl)\<close>
    unfolding EmitEmptyCollectionSingleton_def Let_def guest_written by simp
  then show ?thesis by (rule accounted_defined [OF defined_name])
qed

lemma accounted_tlv:
  assumes "EmitTlvBootstrap gc hc gen = Some gen'"
  shows "accounted ''__tlv_bootstrap'' gen'"
  using assms unfolding EmitTlvBootstrap_def
  by (auto intro!: accounted_report intro: accounted_defined dest: EmitBridge_defines)

lemma accounted_exec:
  assumes "EmitExec gc functions symbol gen = Some gen'" and "execs_settled [] (gen_exec gen) (gen_guest gen) (gen_report gen)"
    and "lined_gen gen"
  shows "accounted symbol gen'"
proof -
  define vector where "vector = (case map_of exec_lists symbol of None \<Rightarrow> symbol | Some v \<Rightarrow> v)"
  define first where "first = (if vector \<in> set (gen_exec gen) then Some gen
            else map_option (\<lambda>arguments. EmitManualFunction gc functions vector arguments (''xl_manual_'' @ c_name vector)
                   (gen\<lparr>gen_exec := oset_insert vector (gen_exec gen)\<rparr>)) (map_of exec_vectors vector))"
  obtain gen1 where f: "first = Some gen1"
    and r: "gen' = (if map_of exec_lists symbol = None \<or> symbol \<in> set (gen_exec gen1) then gen1
      else add_report (symbol @ '': guest-side argument collection, then '' @ vector)
        (add_guest (exec_list_text (c_name symbol) vector) (gen1\<lparr>gen_exec := oset_insert symbol (gen_exec gen1)\<rparr>)))"
    using assms(1) unfolding EmitExec_def Let_def vector_def [symmetric] first_def [symmetric]
    by (cases first) (simp_all only: option.case option.inject option.distinct)
  note g = EmitExec_vector [OF first_def f]
  have p: "prefix (gen_guest gen) (gen_guest gen1)" "prefix (gen_report gen) (gen_report gen1)"
    "execs_settled (gen_exec gen) (gen_exec gen1) (gen_guest gen1) (gen_report gen1)"
    using g(1) assms(3) unfolding grows_by_def lined_gen_def by blast+
  have old: "settled_symbol s (gen_guest gen1) (gen_report gen1)" if "s \<in> set (gen_exec gen)" for s
  proof -
    have "settled_symbol s (gen_guest gen) (gen_report gen)"
      using assms(2) that by (simp only: execs_settled_def list.set empty_iff simp_thms)
    then show ?thesis by (rule settled_symbol_prefix [OF _ p(1,2)])
  qed
  have settled: "settled_symbol s (gen_guest gen1) (gen_report gen1)" if "s \<in> set (gen_exec gen1)" for s
    using p(3) that old unfolding execs_settled_def by blast
  have list: "accounted symbol (add_report l (add_guest (exec_list_text (c_name symbol) vector)
      (gen1\<lparr>gen_exec := oset_insert symbol (gen_exec gen1)\<rparr>)))" for l
    using EmitExec_list(2) by (simp only: accounted_def simp_thms)
  have "settled_symbol vector (gen_guest gen1) (gen_report gen1)"
    using g(2) assms(3) old unfolding lined_gen_def by blast
  then have "accounted symbol gen1" if "map_of exec_lists symbol = None"
    using that by (simp only: accounted_def vector_def option.case simp_thms)
  moreover have "accounted symbol gen1" if "symbol \<in> set (gen_exec gen1)"
    using settled [OF that] by (simp only: accounted_def simp_thms)
  ultimately show ?thesis using list unfolding r by (simp only: split: if_split) blast
qed

section \<open>What the headers declare\<close>

lemma accounted_data: "accounted symbol (add_report line (add_init text (add_guest (guest_data gc symbol name t) gen)))"
proof -
  have \<open>gen_guest (add_report line (add_init text (add_guest (guest_data gc symbol name t) gen))) =
      (gen_guest gen @ Spell gc t (''xl_data_'' @ name)) @ '' __asm__("'' @ symbol @ ''")'' @ ('';'' @ nl @ nl)\<close>
    unfolding guest_data_def guest_written by simp
  then show ?thesis by (rule accounted_defined [OF defined_name])
qed

lemma accounted_unsupported_data:
  assumes "lined_gen gen"
  shows "accounted symbol (unsupported_data (symbol @ '': UNSUPPORTED: data struct with an unconvertible field'') gen)"
    and "accounted symbol (unsupported_data (symbol @ '': UNSUPPORTED: data of a different layout'') gen)"
  by (rule accounted_unsupported [where a = "gen_report gen" and b = "''data struct with an unconvertible field'' @ nl"],
      simp_all add: unsupported_data_def count_unsupported_def add_report_def assms [unfolded lined_gen_def])
    (rule accounted_unsupported [where a = "gen_report gen" and b = "''data of a different layout'' @ nl"],
      simp_all add: unsupported_data_def count_unsupported_def add_report_def assms [unfolded lined_gen_def])

lemma accounted_variable:
  assumes "lined_gen gen"
  shows "accounted symbol (EmitVariable gc hc symbol name g h gen)"
  unfolding EmitVariable_def Let_def case_prod_unfold
  by (simp only: accounted_data accounted_unsupported_data [OF assms] accounted_report [OF accounted_passthrough [OF assms]] simp_thms
      split: if_split)

text \<open>The functions whose bridges define the plain name whatever variant was asked for.\<close>

definition one_name :: "string list" where
  "one_name = [''open'', ''fcntl'', ''ioctl'', ''openat'', ''dlsym'', ''getsectiondata'', ''getsectbynamefromheader_64'']"

lemma accounted_bridged:
  assumes "bridged (EmitBridge gc hc words ident s CallFunction guest_name callee fmt manual gen) = Some gen'"
  shows "accounted (CHR ''_'' # guest_name) gen'"
  using assms by (auto simp: bridged_def intro: accounted_defined EmitBridge_defines)

lemma accounted_add_guest:
  assumes "map_option (add_guest text) r = Some gen'" and "\<And>a. defined_in symbol (a @ text)"
  shows "accounted symbol gen'"
  using assms by (auto simp: guest_written intro: accounted_defined)

lemma accounted_fixed_variadic:
  assumes "EmitFixedVariadic gc hc symbol g h gen = Some gen'"
    and "map_of fixed_variadic (fn_name g) \<noteq> None \<Longrightarrow> symbol = CHR ''_'' # fn_name g" and "lined_gen gen"
  shows "accounted symbol gen'"
proof (cases "map_of fixed_variadic (fn_name g)")
  case None
  with assms(1) have "gen' = Fault symbol ''variadic function without a format attribute'' gen"
    unfolding EmitFixedVariadic_def by (simp only: option.case option.inject)
  then show ?thesis by (simp only: accounted_Fault [OF assms(3)])
next
  case (Some words)
  with assms(2) have s: "symbol = CHR ''_'' # fn_name g" by simp
  let ?s = "FromFunction gc hc (fn_decl g) (fn_decl h)"
  show ?thesis
  proof (cases "sig_supported ?s")
    case True
    with assms(1) Some show ?thesis unfolding EmitFixedVariadic_def Let_def s
      by (auto simp only: option.case simp_thms if_False intro: accounted_bridged)
  next
    case False
    with assms(1) Some have "gen' = Fault symbol (sig_note ?s) gen"
      unfolding EmitFixedVariadic_def Let_def by (simp only: option.case option.inject if_True simp_thms)
    then show ?thesis by (simp only: accounted_Fault [OF assms(3)])
  qed
qed

lemma accounted_section_data:
  assumes "EmitSectionData gc hc entitlements s callee fmt name gen = Some gen'"
  shows "accounted ''_getsectiondata'' gen'"
proof -
  obtain gen1 where "gen' = add_guest getsectiondata_text gen1"
    using assms unfolding EmitSectionData_def by (auto simp only: split: if_splits)
  then show ?thesis by (intro accounted_defined) (simp only: guest_written getsectiondata_text_defines)
qed

text \<open>A function that has a format or takes no more arguments than it names.\<close>

lemma accounted_ordinary:
  assumes e: "(let s = FromFunction gc hc (fn_decl g) (fn_decl h);
                callee = (if fmt_present fmt then fmt_va_variant fmt else shim_callee (fn_name g))
            in if \<not> sig_supported s then Some (Fault symbol (sig_note s) gen)
               else if fn_name g = ''dlsym''
               then map_option (add_guest dlsym_text)
                      (bridged (EmitBridge gc hc 0 (fn_name g) s CallFunction ''xl_unused_dlsym_alias'' callee fmt [] gen))
               else if fn_name g = ''getsectiondata'' then EmitSectionData gc hc entitlements s callee fmt (fn_name g) gen
               else if alias_name \<noteq> []
               then bridged (EmitBridge gc hc 0 (variant_id alias_name) s CallFunction alias_name callee fmt [] gen)
               else bridged (EmitBridge gc hc 0 (fn_name g) s CallFunction (fn_name g) callee fmt [] gen)) = Some gen'"
    and symbol: "symbol = CHR ''_'' # (if alias_name = [] then fn_name g else alias_name)"
    and plain: "fn_name g \<in> set one_name \<Longrightarrow> symbol = CHR ''_'' # fn_name g" and lined: "lined_gen gen"
  shows "accounted symbol gen'"
proof -
  let ?s = "FromFunction gc hc (fn_decl g) (fn_decl h)"
  have fault: "accounted symbol gen'" if "Some (Fault symbol reason gen) = Some gen'" for reason
    using that accounted_Fault [OF lined] by (metis option.inject)
  have dlsym: "accounted symbol gen'" if "map_option (add_guest dlsym_text) r = Some gen'" "fn_name g = ''dlsym''" for r
    using accounted_add_guest [OF that(1) dlsym_text_defines] plain that(2) by (simp add: one_name_def)
  have data: "accounted symbol gen'" if "EmitSectionData gc hc entitlements ?s callee fmt name gen = Some gen'"
      "fn_name g = ''getsectiondata''" for callee name
    using accounted_section_data [OF that(1)] plain that(2) by (simp add: one_name_def)
  have aliased: "accounted symbol gen'"
    if "bridged (EmitBridge gc hc 0 ident ?s CallFunction alias_name callee fmt [] gen) = Some gen'" "alias_name \<noteq> []" for ident callee
    using accounted_bridged [OF that(1)] symbol that(2) by simp
  have named: "accounted symbol gen'"
    if "bridged (EmitBridge gc hc 0 ident ?s CallFunction (fn_name g) callee fmt [] gen) = Some gen'" "\<not> alias_name \<noteq> []" for ident callee
    using accounted_bridged [OF that(1)] symbol that(2) by simp
  consider "\<exists>reason. Some (Fault symbol reason gen) = Some gen'"
    | "\<exists>r. map_option (add_guest dlsym_text) r = Some gen' \<and> fn_name g = ''dlsym''"
    | "\<exists>callee name. EmitSectionData gc hc entitlements ?s callee fmt name gen = Some gen' \<and> fn_name g = ''getsectiondata''"
    | "\<exists>ident callee. bridged (EmitBridge gc hc 0 ident ?s CallFunction alias_name callee fmt [] gen) = Some gen' \<and> alias_name \<noteq> []"
    | "\<exists>ident callee. bridged (EmitBridge gc hc 0 ident ?s CallFunction (fn_name g) callee fmt [] gen) = Some gen' \<and> \<not> alias_name \<noteq> []"
    using e unfolding Let_def by (simp only: split: if_split_asm) blast+
  then show ?thesis using fault dlsym data aliased named by cases blast+
qed

lemma accounted_function:
  assumes "EmitFunction gc hc entitlements alias_name symbol g h gen = Some gen'"
    and "symbol = CHR ''_'' # (if alias_name = [] then fn_name g else alias_name)"
    and "alias_name = [] \<or> fn_name g \<notin> set one_name" and "lined_gen gen"
  shows "accounted symbol gen'"
proof (cases "fn_name g = ''getsectbynamefromheader_64''")
  case True
  then have "symbol = ''_getsectbynamefromheader_64''" using assms(2,3) by (auto simp: one_name_def)
  moreover from True have "gen' = add_report (symbol @ '': guest-side Mach-O section lookup (64-bit guest header)'')
      (add_guest getsect_text (emit_section_helper gen))"
    using assms(1) unfolding EmitFunction_def Let_def if_P [OF True] by (simp only: option.inject)
  ultimately show ?thesis by (simp only: accounted_report accounted_defined guest_written getsect_text_defines)
next
  case other: False
  have plain: "symbol = CHR ''_'' # fn_name g" if "fn_name g \<in> set one_name"
    using assms(2,3) that by auto
  have variadic: "symbol = CHR ''_'' # fn_name g" if "map_of fixed_variadic (fn_name g) \<noteq> None"
    by (rule plain) (use that in \<open>auto simp: fixed_variadic_def one_name_def split: if_splits\<close>)
  show ?thesis
  proof (cases "function_format g")
    case (Inl u)
    with other assms(1) have "gen' = Fault symbol ''formatted function without a known va_list variant'' gen"
      unfolding EmitFunction_def Let_def by (simp only: if_False sum.case option.inject)
    then show ?thesis by (simp only: accounted_Fault [OF assms(4)])
  next
    case (Inr fmt)
    note e = assms(1) [unfolded EmitFunction_def Let_def if_not_P [OF other] Inr sum.case]
    show ?thesis
    proof (cases "fn_variadic g \<and> \<not> fmt_present fmt")
      case True
      show ?thesis by (rule accounted_fixed_variadic [OF e [unfolded if_P [OF True]] variadic assms(4)])
    next
      case False
      show ?thesis
        by (rule accounted_ordinary [OF _ assms(2) plain assms(4)]) (use e in \<open>simp only: Let_def if_not_P [OF False]\<close>)
    qed
  qed
qed

section \<open>One symbol\<close>

text \<open>A function is found under the name it is declared with.\<close>

definition found_by_name :: "Tree \<Rightarrow> bool" where
  "found_by_name g \<longleftrightarrow> (\<forall>name f. tree_function g name = Some f \<longrightarrow> fn_name f = name)"

text \<open>Not a variant of a function whose bridges define the plain name.\<close>

definition variant_defined :: "string \<Rightarrow> bool" where
  "variant_defined symbol \<longleftrightarrow> (case variant_of (c_name symbol) of (name, variant) \<Rightarrow> variant = [] \<or> name \<notin> set one_name)"

lemma accounted_declared:
  assumes "EmitDeclared g h entitlements symbol gen = Some gen'" and "found_by_name g" and "symbol = CHR ''_'' # c_name symbol"
    and "variant_defined symbol" and "lined_gen gen"
  shows "accounted symbol gen'"
proof -
  obtain name variant where v: "variant_of (c_name symbol) = (name, variant)" by (metis prod.collapse)
  then have n: "c_name symbol = (if variant = [] then name else variant)"
    unfolding variant_of_def Let_def by (auto split: if_splits)
  have f: "accounted symbol gen'"
    if "EmitFunction (tree_context g) (tree_context h) entitlements variant symbol gf hf gen = Some gen'" "tree_function g name = Some gf" for gf hf
  proof (rule accounted_function [OF that(1) _ _ assms(5)])
    have "fn_name gf = name" using assms(2) that(2) by (simp add: found_by_name_def)
    then show "symbol = CHR ''_'' # (if variant = [] then fn_name gf else variant)" "variant = [] \<or> fn_name gf \<notin> set one_name"
      using assms(3,4) n v by (simp_all add: variant_defined_def)
  qed
  show ?thesis
    using assms(1) f unfolding EmitDeclared_def v prod.case
    by (auto simp: accounted_variable accounted_Fault assms(5) split: option.splits)
qed

lemma accounted_trampolines: "map_of trampolines symbol = Some trap \<Longrightarrow> accounted symbol (EmitTrampoline symbol trap gen)"
  using accounted_trampoline [of "''objc_msgSend''"] accounted_trampoline [of "''objc_msgSendSuper2''"]
  by (auto simp: trampolines_def split: if_splits)

lemma accounted_nameless: "lined_gen gen \<Longrightarrow> accounted symbol (add_report (symbol @ '': UNSUPPORTED: symbol without a C name'') gen)"
  by (rule accounted_unsupported [where a = "gen_report gen" and b = "''symbol without a C name'' @ nl"]) (simp_all add: add_report_def lined_gen_def)

lemma if_SomeE:
  "(if c then a else b) = Some x \<Longrightarrow> (c \<Longrightarrow> a = Some x \<Longrightarrow> P) \<Longrightarrow> (\<not> c \<Longrightarrow> b = Some x \<Longrightarrow> P) \<Longrightarrow> P"
  by (cases c) auto

lemma case_SomeE:
  "(case m of None \<Rightarrow> b | Some t \<Rightarrow> f t) = Some x \<Longrightarrow> (\<And>t. m = Some t \<Longrightarrow> f t = Some x \<Longrightarrow> P) \<Longrightarrow> (m = None \<Longrightarrow> b = Some x \<Longrightarrow> P) \<Longrightarrow> P"
  by (cases m) auto

lemma accounted_Some: "Some a = Some gen \<Longrightarrow> accounted symbol a \<Longrightarrow> accounted symbol gen"
  by simp

lemma accounted_symbol:
  assumes "EmitSymbol g h entitlements provided symbol gen = Some gen'" and "found_by_name g"
    and "execs_settled [] (gen_exec gen) (gen_guest gen) (gen_report gen)"
    and "symbol \<noteq> []" and "symbol \<notin> set provided" and "symbol \<noteq> ''dyld_stub_binder''" and "variant_defined symbol"
    and "lined_gen gen"
  shows "accounted symbol gen'"
proof -
  have skip: "\<not> (symbol \<in> set provided \<or> symbol = ''dyld_stub_binder'')" using assms(5,6) by blast
  note e = assms(1) [unfolded EmitSymbol_def Let_def if_not_P [OF skip]]
  show ?thesis
    using e
  proof (elim if_SomeE case_SomeE, goal_cases)
    case 1
    then show ?case by (elim accounted_Some) (rule accounted_passthrough [OF assms(8)])
  next
    case 2
    then show ?case using accounted_exec assms(3,8) by blast
  next
    case (3 trap)
    then show ?case using accounted_trampolines accounted_Some by blast
  next
    case 4
    then show ?case using accounted_tlv by blast
  next
    case 5
    then show ?case using accounted_hooks(1) accounted_Some by blast
  next
    case 6
    then show ?case using accounted_hooks(2) accounted_Some by blast
  next
    case (7 arguments)
    then show ?case by (elim accounted_Some) (rule accounted_manual [OF assms(8)])
  next
    case 8
    then show ?case by (elim accounted_Some) (rule accounted_Fault [OF assms(8)])
  next
    case (9 host_class)
    then show ?case by (elim accounted_Some) (rule accounted_singleton)
  next
    case 10
    then show ?case by (elim accounted_Some) (rule accounted_nameless [OF assms(8)])
  next
    case 11
    then have "symbol = CHR ''_'' # c_name symbol" using assms(4) by (cases symbol) (simp_all add: c_name_def)
    with 11 show ?case using accounted_declared [OF _ assms(2) _ assms(7,8)] by blast
  qed
qed

section \<open>The whole run\<close>

definition ready :: "Generator \<Rightarrow> bool" where
  "ready gen \<longleftrightarrow> lined_gen gen \<and> execs_settled [] (gen_exec gen) (gen_guest gen) (gen_report gen)"

lemma ready_grows:
  assumes "ready a" and "grows_by imps errs a b"
  shows "ready b"
proof -
  have g: "prefix (gen_guest a) (gen_guest b)" "prefix (gen_report a) (gen_report b)" "lined_gen b"
    "execs_settled (gen_exec a) (gen_exec b) (gen_guest b) (gen_report b)"
    using assms unfolding grows_by_def ready_def lined_gen_def by blast+
  moreover have "execs_settled [] (gen_exec a) (gen_guest a) (gen_report a)" using assms(1) by (simp only: ready_def)
  ultimately show ?thesis unfolding ready_def using execs_settled_trans by blast
qed

lemma each_accounted:
  assumes "each (EmitSymbol g h entitlements provided) symbols gen = Some gen'" and "tree_ok g" and "found_by_name g" and "ready gen"
    and "symbol \<in> set symbols" and "symbol \<noteq> []" and "symbol \<notin> set provided" and "symbol \<noteq> ''dyld_stub_binder''"
    and "variant_defined symbol"
  shows "accounted symbol gen'"
  using assms(1,4,5)
proof (induction symbols arbitrary: gen)
  case (Cons s symbols)
  obtain gen1 where e: "EmitSymbol g h entitlements provided s gen = Some gen1" "each (EmitSymbol g h entitlements provided) symbols gen1 = Some gen'"
    using Cons.prems(1) by (cases "EmitSymbol g h entitlements provided s gen") auto
  have g: "grows gen gen1" using EmitSymbol_extends [of g gen h entitlements provided s] e(1) by (simp add: extends_def)
  have "extends (\<forall>x \<in> set symbols. tree_ok g) gen1 (each (EmitSymbol g h entitlements provided) symbols gen1)"
    by (rule each_extends [OF EmitSymbol_extends])
  then have rest: "grows gen1 gen'" using e(2) by (simp add: extends_def)
  show ?case
  proof (cases "symbol = s")
    case True
    with e(1) have "accounted symbol gen1"
      using accounted_symbol assms(3,6-9) Cons.prems(2) unfolding ready_def by blast
    then show ?thesis by (rule accounted_grows [OF _ rest])
  next
    case False
    with Cons.prems(3) show ?thesis using Cons.IH [OF e(2) ready_grows [OF Cons.prems(2) g]] by simp
  qed
qed simp

lemma ReadLines_nonempty: "l \<in> set (ReadLines file) \<Longrightarrow> l \<noteq> []"
  by (auto simp: ReadLines_def split: option.splits)

lemma ready_start: "ready (empty_generator\<lparr>gen_weak_only := ws\<rparr>)"
  by (simp add: ready_def lined_gen_def empty_generator_def)

lemma Write_files:
  assumes "Write can_open incl abi gen = (True, files)" and "can_open ''passthrough-out''" and "can_open ''report-out''"
  shows "map_of files ''guest-out'' = Some (guest_file incl abi gen)" "map_of files ''passthrough-out'' = Some (gen_passthrough gen)"
    "map_of files ''report-out'' = Some (gen_report gen)"
  using assms by (auto simp: Write_def Let_def split: if_splits)

lemma defined_in_guest_file: "defined_in symbol (gen_guest gen) \<Longrightarrow> defined_in symbol (guest_file incl abi gen)"
proof -
  obtain before where b: "guest_file incl abi gen = before @ gen_guest gen" unfolding guest_file_def by (metis append_assoc)
  have m: "sublist s (gen_guest gen) \<Longrightarrow> sublist s (guest_file incl abi gen)" for s
    unfolding b by (metis append_Nil2 sublist_between sublist_order.order_trans)
  show "defined_in symbol (gen_guest gen) \<Longrightarrow> defined_in symbol (guest_file incl abi gen)"
    unfolding defined_in_def by (elim disj_forward ex_forward conj_forward m)
qed

lemma written_gen:
  assumes "xlgen_main inputs = Some (0, files)" and "trees inputs = Some (g, h)" and "tree_ok g" and "\<not> survey_asked inputs"
    and "\<And>manifest. manifest_tree inputs = Some (Some manifest) \<Longrightarrow> translated manifest"
  obtains incl abi gen gen' imps errs where "generate g h inputs = Some gen" "grows_by imps errs gen gen'"
    "Write (can_write inputs) incl abi gen' = (True, files)"
proof -
  obtain gen where gen: "generate g h inputs = Some gen" "records_ok gen" using generate_Some [OF assms(3)] .
  obtain incl abi where i: "includes_file inputs = Some incl" "abi_file inputs = Some abi"
    using assms(1) by (auto simp: xlgen_main_def split: option.splits)
  show thesis
  proof (cases "manifest_tree inputs")
    case None
    then have "Write (can_write inputs) incl abi gen = (True, files)"
      using assms(1,2,4) i gen(1) by (auto simp: xlgen_main_def split: prod.splits if_splits)
    then show thesis using that [OF gen(1) grows_refl] by blast
  next
    case (Some m)
    then obtain manifest where m: "manifest_tree inputs = Some (Some manifest)"
      using assms(1,2,4) i gen(1) by (cases m) (auto simp: xlgen_main_def)
    from assms(5) [OF m] obtain imgs objc where t: "manifest = WriteManifest imgs objc" "length objc = length imgs" "categories_ok objc"
      by (auto simp: translated_def)
    obtain gen' where e: "EmitManifest g h manifest gen = Some gen'" "books (program_account objc) gen gen'"
      using EmitManifest_books [OF assms(3) gen(2) t(2,3)] t(1) by blast
    then have "Write (can_write inputs) incl abi gen' = (True, files)"
      using assms(1,2,4) i gen(1) m by (auto simp: xlgen_main_def split: prod.splits if_splits)
    with e(2) show thesis using that [OF gen(1)] by (auto simp: books_def)
  qed
qed



end
