(* ===== verification/Spec2Isabelle.thy ===== *)
theory Spec2Isabelle
  imports Macho_Facts Exports TsdScan_Facts Objc_Facts Program_Facts GuestData_Facts JumpTables_Facts Evaluate_Facts
    Lifting_Facts Int128 Runtime_Facts Crash_Facts Bridge_Facts Encoding_Facts Availability Driver_Facts Packs Xlgen_Facts
    Survey_Facts Symbols_Facts
begin

text \<open>
  A static recompiler of arm64 iOS programs for armv7, its bridge generator and its runtime.

  \<^bold>\<open>The program.\<close> \<open>xlate\<close> reads the Mach-O images of a guest program (\<open>macho.cpp\<close>), registers what they export
  (\<open>exports.cpp\<close>), places them in a 32-bit address space, resolves their stubs, data and Objective-C metadata
  (\<open>objc.cpp\<close>), proves that no image touches the thread-data block outside an audited slot (\<open>tsd_scan.cpp\<close>), lifts
  every function to LLVM until the jump tables yield no new one, and emits the guest's data, the tables of the
  runtime and the arguments of the linker (\<open>xlate.cpp\<close>). \<open>xlgen\<close> (\<open>xlgen.cpp\<close>) reads the same headers for both targets, the
  symbols the guest leaves undefined and the Objective-C manifest that \<open>xlate\<close> wrote, and writes the two C files that carry
  every call between guest and host. The emitted program runs on \<open>runtime.c\<close>, which
  dispatches calls through the emitted table, carries values between the guest's and the host's types and reports how the
  program ended.

  \<^bold>\<open>The theories of the translator.\<close>
  \<^item> \<open>Prelude\<close>: words, little-endian bytes, and \<open>std::map\<close> and \<open>std::set\<close> as sorted lists with their laws, stated as
    the locale \<open>dict\<close> and interpreted on them. \<open>Json\<close>: the tree of a JSON value and how its fields are asked for.
  \<^item> \<open>Macho\<close>, \<open>Macho_Facts\<close>: \<open>Image\<close>, its address queries and \<open>Parse\<close>. What LLVM's \<open>MachOObjectFile\<close> answers about
    the file is the record \<open>macho_object\<close>, an argument. The facts: parsing ends, its result is well formed, which
    stub sections it refuses, and which bind a slot gets.
  \<^item> \<open>Exports\<close>: \<open>GuestExports\<close> with \<open>Add\<close>, \<open>Replace\<close> and \<open>Find\<close>. The facts: the two-level lookup answers with the
    image a bind names and never with another, through at most eight re-exports; every registry that can be built is
    consistent.
  \<^item> \<open>Dataflow\<close>: forward analyses over a graph of blocks as a locale, with the paths a fixed point speaks of.
    \<open>TsdScan\<close>, \<open>TsdScan_Facts\<close>: the scan of \<open>tsd_scan.cpp\<close>, instruction by instruction. The decoder (farmdec) and two
    orders the C++ library leaves open are arguments. The facts: the blocks partition a function, the scan ends, every
    complaint is justified, an access on a path the blocks have is reported; and the four ways the scan is silent
    where its comments say it is not.
  \<^item> \<open>Objc\<close>, \<open>Objc_Facts\<close>: the reader of the Objective-C metadata, the split of classes the device's runtime cannot
    load, the resolution of imports and the manifest as a tree. The facts: what is read is what the bytes say, the split
    leaves no kept class below a moved one and says when it cannot, resolving touches exactly the pointers it should,
    and the manifest determines the class.
  \<^item> \<open>Program\<close>, \<open>Program_Facts\<close>: the driver's program state, \<open>LayoutAndResolve\<close> and the reads the lifter makes. The
    facts: the images do not overlap, every stub is resolved, the lifter sees only code.
  \<^item> \<open>JumpTables\<close>, \<open>JumpTables_Facts\<close>, \<open>Evaluate_Facts\<close>, \<open>Lifting_Facts\<close>: the trees of LLVM values, their evaluation,
    the recovery of jump tables and the loop that lifts functions. The facts: the evaluator means what LLVM's
    operations mean at their widths, every target comes from an admitted entry of a table and stays in its function, and
    the loop ends closed. What LLVM's passes and rellume's lifting leave is an argument.
  \<^item> \<open>GuestData\<close>, \<open>GuestData_Facts\<close>: the emission of the segments, the tables and the linker's arguments. The
    facts: the globals hold the segment with its rewritten slots, the pieces do not overlap, the function table and
    the layout say what they must.
  \<^item> \<open>Driver\<close>, \<open>Driver_Facts\<close>: \<open>Lifter::Lift\<close> and \<open>Devirtualize\<close>, the coverage listing, and \<open>main\<close> of \<open>xlate.cpp\<close> over all of
    the above. The facts: nothing is written before every image passed the scan, a written translation is the composition of
    the components, a direct call runs what the dispatcher would find, and every run ends.

  \<^bold>\<open>The theories of the bridge generator.\<close>
  \<^item> \<open>Ctypes\<close>: C types of the two targets as Clang has them; sizes, spelling and the header's declarations are a record of
    answers, \<open>ASTContext\<close>. \<open>Bridge\<close>, \<open>Layout_Facts\<close>, \<open>Bridge_Facts\<close>: \<open>SameLayout\<close>, \<open>Classify\<close>, \<open>Leaves\<close>, \<open>Mirror\<close>, the
    conversions of scalars and \<open>FromFunction\<close>, \<open>FromMethod\<close>. The facts: what passes unconverted is laid out alike, a
    mirror has the guest's layout, converted scalars come back, and which parameters become arrays.
  \<^item> \<open>Encoding\<close>, \<open>Encoding_Facts\<close>: signatures read from Objective-C type encodings, and the encoding the host is told.
  \<^item> \<open>Emit\<close>, \<open>Emit_Facts\<close>: the packs and the bridges of blocks and callbacks, character by character; \<open>Functions\<close>,
    \<open>Functions_Facts\<close>, \<open>Packs\<close>: \<open>EmitBridge\<close>, the bridges of functions and variables and those written by hand. \<open>None\<close> is a run
    that uses what is not there. The facts: everything only adds to the files, the recursion through block types ends, a
    bridge is written whenever its types have prototypes, and both files declare its pack alike. The locale \<open>ledger\<close> holds what
    the loops share and is interpreted on \<open>grows\<close>.
  \<^item> \<open>Selectors\<close>, \<open>Selectors_Facts\<close>: which declaration a selector is bridged as, and the host's implementations of guest
    methods. \<open>Classes\<close>, \<open>Classes_Facts\<close>: the metadata made from the manifest, with the locale \<open>safe_ledger\<close> for its loops. The
    facts: the vote takes the majority; on every manifest \<open>xlate\<close> writes each method gets one wrapper.
  \<^item> \<open>Xlgen\<close>, \<open>Xlgen_Facts\<close>: what \<open>main\<close> of \<open>xlgen.cpp\<close> does with each symbol, the manifest and the outputs. The facts: every
    run ends, no file is written when an instance variable lies outside its class, and the names written are
    distinct. \<open>Symbols_Facts\<close>: each undefined symbol is let through to the linker, defined in the guest's file, or reported.
    \<open>Survey\<close>, \<open>Survey_Facts\<close>: the listing of all the headers' declarations, compared with a class for each.

  \<^bold>\<open>The theories of the runtime.\<close>
  \<^item> \<open>Int128\<close>: the 128-bit division routines, equal to division. \<open>Availability\<close>: the answer to a question of availability.
  \<^item> \<open>Runtime\<close>, \<open>Runtime_Facts\<close>: dispatch, callbacks, the guarded thread-data block, the walk over guest frames and the
    conversions at the bridge. The facts: dispatch finds exactly the translator's table, a callback restores the
    registers, the guard page covers every slot below the audited one, values round-trip but for the reserved ones.
  \<^item> \<open>Crash\<close>, \<open>Crash_Facts\<close>: the fault, the crash handler and its report, and the alternate stacks. The facts: a fault leaves
    one report, the frames followed rise, and the one way the handler uses what was never set.

  \<^bold>\<open>Conventions.\<close> A machine integer is a word of its width, so arithmetic wraps as in C++. \<open>std::map\<close> and
  \<open>std::set\<close> are sorted association lists, since their order shows in what the program writes. A failing
  \<open>llvm::Expected\<close> is the left of a sum with its message. A loop whose recursion is not structural is a \<open>function\<close> with
  its termination proof; where ending depends on data it is a \<open>partial_function (option)\<close>, and a theorem says it
  answers. Loops bounded by a constant in the code (re-exports, 16 guest frames, 24 host frames) carry that constant. The
  generator's members are the record \<open>Generator\<close>, passed from step to step; a string literal is written as the characters
  it stands for.

  \<^bold>\<open>Not modelled.\<close> Clang's parsing of the headers (\<open>Parse\<close> in \<open>xlgen.cpp\<close>), LLVM's passes and rellume, which are other projects'
  code and arguments here; the textual output of LLVM modules; the Objective-C part of the runtime (\<open>objc_bridge.m\<close>,
  \<open>bridge.m\<close>, \<open>swift_classes.m\<close>), which is calls into the host's libraries; the texts of usage messages; the test
  corpus, the benchmarks and the build scripts.
\<close>

end
